(* ===== verification/Prelude.thy ===== *)
theory Prelude
  imports Complex_Main "HOL-Library.Word" "HOL-Library.Signed_Division" "HOL-Library.AList"
    "HOL-Library.Sublist"
begin

section \<open>Prelude: the parts of Go and its standard library the daemon relies on\<close>

text \<open>
  Shared by every theory of the development: 64-bit integers with their wrap-around, float64
  values as the rationals they denote, instants and durations, RFC3339 stamps, byte strings,
  and tables (Go maps) as association lists.

  Conventions.  A Go \<open>uint64\<close> is a \<open>64 word\<close>.  A Go \<open>int\<close>, \<open>int64\<close> or \<open>time.Duration\<close> is
  an \<open>int\<close>; where a result can leave the 64-bit range the wrap-around is written out with
  \<open>wrap64\<close>.  A \<open>time.Time\<close> is the number of nanoseconds since the Unix epoch.  A Go string is
  a list of bytes, that is a HOL \<open>string\<close>.
\<close>

named_theorems frame_simps \<open>fields an operation leaves alone\<close>
named_theorems case_splits \<open>case distinctions the component proofs split on\<close>

declare option.splits [case_splits] sum.splits [case_splits] prod.splits [case_splits]

type_synonym u64 = "64 word"
type_synonym duration = int
type_synonym instant = int
type_synonym path = string
type_synonym 'v table = "(string \<times> 'v) list"

subsection \<open>64-bit integers\<close>

definition max_i64 :: int where "max_i64 = 2 ^ 63 - 1"
definition min_i64 :: int where "min_i64 = - (2 ^ 63)"

text \<open>Two's complement wrap-around of a signed 64-bit result.\<close>

definition wrap64 :: "int \<Rightarrow> int" where
  "wrap64 x = (x + 2 ^ 63) mod 2 ^ 64 - 2 ^ 63"

lemma wrap64_id [simp]: "min_i64 \<le> x \<Longrightarrow> x \<le> max_i64 \<Longrightarrow> wrap64 x = x"
  by (simp add: wrap64_def min_i64_def max_i64_def)

lemma wrap64_bounds: "min_i64 \<le> wrap64 x" "wrap64 x \<le> max_i64"
proof -
  have "0 \<le> (x + 2 ^ 63) mod 2 ^ 64" "(x + 2 ^ 63) mod 2 ^ 64 < 2 ^ 64" by simp_all
  then show "min_i64 \<le> wrap64 x" "wrap64 x \<le> max_i64"
    by (simp_all add: wrap64_def min_i64_def max_i64_def)
qed

text \<open>The conversions \<open>int64(x)\<close> and \<open>uint64(n)\<close>.\<close>

definition i64_of_u64 :: "u64 \<Rightarrow> int" where "i64_of_u64 x = sint x"
definition u64_of_int :: "int \<Rightarrow> u64" where "u64_of_int n = word_of_int n"

lemma i64_of_u64_small: "uint x < 2 ^ 63 \<Longrightarrow> i64_of_u64 x = uint x"
  by (simp add: i64_of_u64_def sint_uint signed_take_bit_int_eq_self_iff order.trans [OF _ uint_ge_0])

subsection \<open>float64\<close>

text \<open>
  A float64 is the rational number it denotes; arithmetic rounds the exact result to 53
  significant bits, ties to even.  The magnitudes computed here (counts up to \<open>2 ^ 64\<close> and
  percentages) stay inside the normal range, so overflow and subnormals are not modelled.
\<close>

type_synonym float64 = rat

function bit_length :: "int \<Rightarrow> nat" where
  "bit_length n = (if n \<le> 0 then 0 else Suc (bit_length (n div 2)))"
  by pat_completeness auto
termination by (relation "measure nat") auto

declare bit_length.simps [simp del]

definition pow2 :: "int \<Rightarrow> rat" where
  "pow2 e = (if 0 \<le> e then 2 ^ nat e else 1 / 2 ^ nat (- e))"

definition round_half_even :: "rat \<Rightarrow> int" where
  "round_half_even x =
     (let f = floor x; r = x - of_int f
      in if r < 1 / 2 then f else if 1 / 2 < r then f + 1 else if even f then f else f + 1)"

definition fl64 :: "rat \<Rightarrow> float64" where
  "fl64 x =
     (if x = 0 then 0
      else let (n, d) = quotient_of \<bar>x\<bar>;
               e0 = int (bit_length n) - int (bit_length d) - 53;
               e = (if 2 ^ 53 \<le> \<bar>x\<bar> / pow2 e0 then e0 + 1 else e0)
           in sgn x * of_int (round_half_even (\<bar>x\<bar> / pow2 e)) * pow2 e)"

definition fmul :: "float64 \<Rightarrow> float64 \<Rightarrow> float64" where "fmul a b = fl64 (a * b)"
definition fdiv :: "float64 \<Rightarrow> float64 \<Rightarrow> float64" where "fdiv a b = fl64 (a / b)"
definition fsub :: "float64 \<Rightarrow> float64 \<Rightarrow> float64" where "fsub a b = fl64 (a - b)"
definition float_of_int :: "int \<Rightarrow> float64" where "float_of_int n = fl64 (of_int n)"
definition float_of_u64 :: "u64 \<Rightarrow> float64" where "float_of_u64 x = fl64 (of_int (uint x))"

lemma bit_length_bounds:
  "0 < n \<Longrightarrow> 2 ^ (bit_length n - 1) \<le> n \<and> n < 2 ^ bit_length n \<and> 0 < bit_length n"
proof (induction n rule: bit_length.induct)
  case (1 n)
  show ?case
  proof (cases "n div 2 \<le> 0")
    case True
    with "1.prems" have "n = 1" by auto
    then show ?thesis by (simp add: bit_length.simps)
  next
    case False
    with 1 have IH: "2 ^ (bit_length (n div 2) - 1) \<le> n div 2 \<and> n div 2 < 2 ^ bit_length (n div 2)
        \<and> 0 < bit_length (n div 2)" by auto
    then obtain k where k: "bit_length (n div 2) = Suc k" by (cases "bit_length (n div 2)") auto
    have "bit_length n = Suc (Suc k)" using "1.prems" k by (simp add: bit_length.simps [of n])
    moreover have "2 ^ Suc k \<le> n \<and> n < 2 ^ Suc (Suc k)" using IH k by auto
    ultimately show ?thesis by simp
  qed
qed

lemma round_half_even_int [simp]: "round_half_even (of_int n) = n"
  by (simp add: round_half_even_def)

lemma pow2_neg: "pow2 (- int k) = 1 / 2 ^ k"
  by (simp add: pow2_def)

lemma fl64_wide:
  assumes "x \<noteq> 0" "quotient_of \<bar>x\<bar> = (n, d)"
    and "2 ^ 53 \<le> \<bar>x\<bar> / pow2 (int (bit_length n) - int (bit_length d) - 53)"
  shows "fl64 x =
    sgn x * of_int (round_half_even (\<bar>x\<bar> / pow2 (int (bit_length n) - int (bit_length d) - 53 + 1)))
      * pow2 (int (bit_length n) - int (bit_length d) - 53 + 1)"
  unfolding fl64_def using assms by (simp only: Let_def prod.case if_True if_False)

text \<open>Integers below \<open>2 ^ 53\<close> are float64 values.\<close>

lemma fl64_of_int:
  assumes "\<bar>n\<bar> < 2 ^ 53"
  shows "fl64 (of_int n) = of_int n"
proof (cases "n = 0")
  case True
  then show ?thesis by (simp add: fl64_def)
next
  case False
  define m where "m = \<bar>n\<bar>"
  define b where "b = bit_length m"
  have m: "0 < m" "m = \<bar>n\<bar>" using False by (auto simp: m_def)
  then have bb: "2 ^ (b - 1) \<le> m" "m < 2 ^ b" "0 < b" using bit_length_bounds [of m] by (auto simp: b_def)
  have "m < 2 ^ 53" using assms by (simp add: m_def)
  with bb(1) have "(2::int) ^ (b - 1) < 2 ^ 53" by simp
  then have b53: "b \<le> 53" using power_less_imp_less_exp [of "2::int" "b - 1" 53] by simp
  have q: "quotient_of \<bar>rat_of_int n\<bar> = (\<bar>n\<bar>, 1)"
    by (metis of_int_abs quotient_of_int Rat.of_int_def)
  have one: "bit_length 1 = 1" by (simp add: bit_length.simps)
  have absn: "\<bar>rat_of_int n\<bar> = of_int m" using m(2) by simp
  have e0: "int b - 1 - 53 = - int (54 - b)" using b53 bb(3) by simp
  have "(2::rat) ^ 53 = 2 ^ (b - 1) * 2 ^ (54 - b)"
    using b53 bb(3) by (simp flip: power_add)
  also have "\<dots> \<le> of_int m * 2 ^ (54 - b)"
    using bb(1) by (intro mult_right_mono) (metis of_int_le_iff of_int_numeral of_int_power, simp)
  finally have ge: "2 ^ 53 \<le> \<bar>rat_of_int n\<bar> / pow2 (int b - 1 - 53)"
    unfolding e0 pow2_neg absn by simp
  have e1: "int b - 1 - 53 + 1 = - int (53 - b)" using b53 by simp
  have "\<bar>rat_of_int n\<bar> / pow2 (- int (53 - b)) = of_int (m * 2 ^ (53 - b))"
    unfolding pow2_neg absn by simp
  then have r: "round_half_even (\<bar>rat_of_int n\<bar> / pow2 (- int (53 - b))) = m * 2 ^ (53 - b)"
    by (metis round_half_even_int)
  have bl: "int (bit_length \<bar>n\<bar>) - int (bit_length 1) - 53 = int b - 1 - 53"
    using one by (simp add: b_def m_def)
  have "fl64 (rat_of_int n)
      = sgn (rat_of_int n) * of_int (round_half_even (\<bar>rat_of_int n\<bar> / pow2 (- int (53 - b)))) * pow2 (- int (53 - b))"
    using fl64_wide [OF _ q, unfolded bl, OF _ ge] False unfolding e1 by simp
  then have "fl64 (rat_of_int n) = sgn (rat_of_int n) * of_int (m * 2 ^ (53 - b)) * pow2 (- int (53 - b))"
    unfolding r .
  also have "\<dots> = sgn (rat_of_int n) * of_int m" unfolding pow2_neg by simp
  also have "\<dots> = rat_of_int n" using absn by (metis sgn_mult_abs)
  finally show ?thesis .
qed

lemma float_of_int_small: "\<bar>n\<bar> < 2 ^ 53 \<Longrightarrow> float_of_int n = of_int n"
  by (simp add: float_of_int_def fl64_of_int)

subsection \<open>Durations and instants\<close>

definition millisecond :: duration where "millisecond = 1000000"
definition second :: duration where "second = 1000 * millisecond"
definition minute :: duration where "minute = 60 * second"
definition hour :: duration where "hour = 60 * minute"

lemmas duration_units = millisecond_def second_def minute_def hour_def

text \<open>\<open>time.Time{}\<close>: midnight of 1 January of year 1.\<close>

definition zero_time :: instant where "zero_time = - 62135596800 * second"

text \<open>\<open>t.Sub(u)\<close> saturates at the ends of the duration range.\<close>

definition time_sub :: "instant \<Rightarrow> instant \<Rightarrow> duration" where
  "time_sub t u = max min_i64 (min max_i64 (t - u))"

text \<open>\<open>d.Round(m)\<close>: to the nearest multiple of \<open>m\<close>, halves away from zero.\<close>

definition less_than_half :: "int \<Rightarrow> int \<Rightarrow> bool" where "less_than_half x y = (x + x < y)"

definition duration_round :: "duration \<Rightarrow> duration \<Rightarrow> duration" where
  "duration_round d m =
     (if m \<le> 0 then d
      else let r = \<bar>d smod m\<bar>
           in if d < 0
              then (if less_than_half r m then d + r
                    else if d - m + r < min_i64 then min_i64 else d - m + r)
              else (if less_than_half r m then d - r
                    else if max_i64 < d + m - r then max_i64 else d + m - r))"

definition duration_millis :: "duration \<Rightarrow> int" where "duration_millis d = d sdiv millisecond"

text \<open>
  RFC3339 text in the state file and in reports is kept as what the code can observe of it:
  empty, unreadable, or the instant \<open>time.Parse\<close> returns.  \<open>format_stamp\<close> is
  \<open>t.UTC().Format(time.RFC3339)\<close>, which drops the fraction of a second.
\<close>

datatype stamp = NoStamp | BadStamp | Stamp instant

definition format_stamp :: "instant \<Rightarrow> stamp" where
  "format_stamp t = Stamp (t div second * second)"

fun parse_stamp :: "stamp \<Rightarrow> instant option" where
  "parse_stamp (Stamp t) = Some t"
| "parse_stamp _ = None"

definition floor_second :: "instant \<Rightarrow> instant" where "floor_second t = t div second * second"

lemma parse_format_stamp [simp]: "parse_stamp (format_stamp t) = Some (floor_second t)"
  by (simp add: format_stamp_def floor_second_def)

lemma format_stamp_nonempty [simp]: "format_stamp t \<noteq> NoStamp" "NoStamp \<noteq> format_stamp t"
  by (simp_all add: format_stamp_def)

lemma floor_second_bounds: "floor_second t \<le> t" "t < floor_second t + second"
proof -
  have "0 \<le> t mod second" "t mod second < second" by (simp_all add: duration_units)
  moreover have "t = floor_second t + t mod second" by (simp add: floor_second_def)
  ultimately show "floor_second t \<le> t" "t < floor_second t + second" by linarith+
qed

lemma floor_second_mono: "t \<le> u \<Longrightarrow> floor_second t \<le> floor_second u"
  by (simp add: floor_second_def duration_units zdiv_mono1)

subsection \<open>Byte strings\<close>

definition digit :: "int \<Rightarrow> char" where "digit d = char_of (48 + d)"
definition is_digit :: "char \<Rightarrow> bool" where "is_digit c = (48 \<le> (of_char c :: int) \<and> (of_char c :: int) \<le> 57)"
definition digit_value :: "char \<Rightarrow> int" where "digit_value c = of_char c - 48"

function show_nat :: "int \<Rightarrow> string" where
  "show_nat n = (if n < 10 then [digit n] else show_nat (n div 10) @ [digit (n mod 10)])"
  by pat_completeness auto
termination by (relation "measure nat") auto

declare show_nat.simps [simp del]

definition show_int :: "int \<Rightarrow> string" where
  "show_int n = (if n < 0 then ''-'' @ show_nat (- n) else show_nat n)"

definition show_padded :: "nat \<Rightarrow> int \<Rightarrow> string" where
  "show_padded w n = (let s = show_nat n in replicate (w - length s) (CHR ''0'') @ s)"

text \<open>\<open>strconv.FormatBool\<close>.\<close>

definition show_bool :: "bool \<Rightarrow> string" where "show_bool b = (if b then ''true'' else ''false'')"

text \<open>\<open>strings.TrimSpace\<close> and \<open>strings.ToLower\<close> on ASCII bytes.\<close>

definition is_space :: "char \<Rightarrow> bool" where
  "is_space c = (c = CHR '' '' \<or> (9 \<le> (of_char c :: int) \<and> (of_char c :: int) \<le> 13))"

definition trim_space :: "string \<Rightarrow> string" where
  "trim_space s = rev (dropWhile is_space (rev (dropWhile is_space s)))"

definition lower_char :: "char \<Rightarrow> char" where
  "lower_char c = (if 65 \<le> (of_char c :: int) \<and> (of_char c :: int) \<le> 90 then char_of ((of_char c :: int) + 32) else c)"

definition to_lower :: "string \<Rightarrow> string" where "to_lower s = map lower_char s"

definition has_suffix :: "string \<Rightarrow> string \<Rightarrow> bool" where "has_suffix s t = suffix t s"

definition trim_prefix :: "string \<Rightarrow> string \<Rightarrow> string" where
  "trim_prefix s p = (if prefix p s then drop (length p) s else s)"

fun join_strings :: "string \<Rightarrow> string list \<Rightarrow> string" where
  "join_strings sep [] = []"
| "join_strings sep [x] = x"
| "join_strings sep (x # y # ys) = x @ sep @ join_strings sep (y # ys)"

text \<open>\<open>strings.Split(s, c)\<close> for a one-byte separator: always at least one part.\<close>

fun split_on :: "char \<Rightarrow> string \<Rightarrow> string list" where
  "split_on c [] = [[]]"
| "split_on c (x # xs) =
     (if x = c then [] # split_on c xs
      else case split_on c xs of [] \<Rightarrow> [[x]] | p # ps \<Rightarrow> (x # p) # ps)"

subsection \<open>Tables: Go maps with string keys\<close>

definition tbl_get :: "'v table \<Rightarrow> string \<Rightarrow> 'v option" where "tbl_get t k = map_of t k"
definition tbl_put :: "string \<Rightarrow> 'v \<Rightarrow> 'v table \<Rightarrow> 'v table" where "tbl_put k v t = AList.update k v t"
definition tbl_del :: "string \<Rightarrow> 'v table \<Rightarrow> 'v table" where "tbl_del k t = AList.delete k t"

text \<open>\<open>m[k]\<close>: the zero value for a missing key.\<close>

definition tbl_zero :: "'v \<Rightarrow> 'v table \<Rightarrow> string \<Rightarrow> 'v" where
  "tbl_zero z t k = (case tbl_get t k of None \<Rightarrow> z | Some v \<Rightarrow> v)"

lemma tbl_get_put [simp]: "tbl_get (tbl_put k v t) k' = (if k' = k then Some v else tbl_get t k')"
  by (simp add: tbl_get_def tbl_put_def update_conv')

lemma tbl_get_del [simp]: "tbl_get (tbl_del k t) k' = (if k' = k then None else tbl_get t k')"
  by (simp add: tbl_get_def tbl_del_def delete_conv')

lemma tbl_get_Nil [simp]: "tbl_get [] k = None"
  by (simp add: tbl_get_def)

lemma tbl_zero_put [simp]: "tbl_zero z (tbl_put k v t) k' = (if k' = k then v else tbl_zero z t k')"
  by (simp add: tbl_zero_def)

lemma tbl_put_nonempty [simp]: "tbl_put k v t \<noteq> []"
  by (simp add: tbl_put_def update_nonempty)

lemma tbl_del_length: "distinct (map fst t) \<Longrightarrow> k \<in> fst ` set t \<Longrightarrow> Suc (length (tbl_del k t)) = length t"
  unfolding tbl_del_def by (induction t) auto

lemma tbl_put_length: "length (tbl_put k v t) = (if tbl_get t k = None then Suc (length t) else length t)"
  unfolding tbl_put_def tbl_get_def by (induction t) (auto split: if_splits)

lemma tbl_put_distinct: "distinct (map fst t) \<Longrightarrow> distinct (map fst (tbl_put k v t))"
  by (simp add: tbl_put_def distinct_update)

lemma tbl_del_distinct: "distinct (map fst t) \<Longrightarrow> distinct (map fst (tbl_del k t))"
  by (simp add: tbl_del_def distinct_delete)

lemma tbl_put_keys: "fst ` set (tbl_put k v t) = insert k (fst ` set t)"
  unfolding tbl_put_def by (induction t) auto

lemma tbl_get_keys: "tbl_get t k \<noteq> None \<longleftrightarrow> k \<in> fst ` set t"
  by (simp add: tbl_get_def map_of_eq_None_iff)

end
