(* ===== verification/Durations.thy ===== *)
theory Durations
  imports Prelude
begin

text \<open>
  Duration text: Go's \<open>time.ParseDuration\<close> and \<open>Duration.String\<close>, \<open>config.ParseDuration\<close>
  (\<open>config/config.go\<close>), which adds a \<open>d\<close> suffix, and \<open>parseNixPolicyDuration\<close>
  (\<open>plugins/nix.go\<close>), which adds \<open>d\<close> and \<open>w\<close> with a fallback.  Every policy knob of the daemon
  passes through one of these parsers.
\<close>

subsection \<open>\<open>time.ParseDuration\<close>\<close>

text \<open>\<open>leadingInt\<close>: the digits at the front; \<open>None\<close> on overflow past \<open>2 ^ 63\<close>.\<close>

fun leading_int :: "int \<Rightarrow> string \<Rightarrow> (int \<times> string) option" where
  "leading_int x [] = Some (x, [])"
| "leading_int x (c # cs) =
     (if \<not> is_digit c then Some (x, c # cs)
      else if 2 ^ 63 div 10 < x then None
      else let y = x * 10 + digit_value c
           in if 2 ^ 63 < y then None else leading_int y cs)"

text \<open>\<open>leadingFraction\<close>: digits past the precision limit are consumed and ignored.\<close>

fun leading_fraction :: "int \<Rightarrow> rat \<Rightarrow> bool \<Rightarrow> string \<Rightarrow> int \<times> rat \<times> string" where
  "leading_fraction x scale overflow [] = (x, scale, [])"
| "leading_fraction x scale overflow (c # cs) =
     (if \<not> is_digit c then (x, scale, c # cs)
      else if overflow \<or> (2 ^ 63 - 1) div 10 < x then leading_fraction x scale True cs
      else let y = x * 10 + digit_value c
           in if 2 ^ 63 < y then leading_fraction x scale True cs
              else leading_fraction y (scale * 10) False cs)"

definition unit_of :: "string \<Rightarrow> int option" where
  "unit_of u =
     map_of [(''ns'', 1), (''us'', 1000), ([char_of (0xC2::nat), char_of (0xB5::nat), CHR ''s''], 1000),
       ([char_of (0xCE::nat), char_of (0xBC::nat), CHR ''s''], 1000), (''ms'', 1000000),
       (''s'', 1000000000), (''m'', 60000000000), (''h'', 3600000000000)] u"

definition starts_number :: "char \<Rightarrow> bool" where
  "starts_number c = (c = CHR ''.'' \<or> is_digit c)"

text \<open>The optional fraction after the integer digits: value, scale, rest, and whether it had digits.\<close>

definition take_fraction :: "string \<Rightarrow> int \<times> rat \<times> string \<times> bool" where
  "take_fraction s =
     (case s of
        c # r \<Rightarrow> (if c = CHR ''.''
                then (let (f, scale, rest) = leading_fraction 0 1 False r
                      in (f, scale, rest, length rest \<noteq> length r))
                else (0, 1, s, False))
      | [] \<Rightarrow> (0, 1, s, False))"

lemma leading_int_length: "leading_int x s = Some (v, r) \<Longrightarrow> length r \<le> length s"
  by (induction x s rule: leading_int.induct) (auto simp: Let_def split: if_splits)

lemma leading_int_digit: "leading_int x (c # s) = Some (v, r) \<Longrightarrow> is_digit c \<Longrightarrow> length r < Suc (length s)"
  by (auto simp: Let_def less_Suc_eq_le dest!: leading_int_length split: if_splits)

lemma leading_fraction_length: "leading_fraction x k b s = (f, k', r) \<Longrightarrow> length r \<le> length s"
  by (induction x k b s rule: leading_fraction.induct) (auto simp: Let_def split: if_splits)

lemma take_fraction_length: "take_fraction s = (f, k, r, p) \<Longrightarrow> length r \<le> length s"
  by (auto simp: take_fraction_def split: list.splits if_splits prod.splits dest: leading_fraction_length)

text \<open>One \<open>number unit\<close> group: its nanoseconds and the rest of the text.\<close>

definition group_value :: "int \<Rightarrow> int \<Rightarrow> rat \<Rightarrow> int \<Rightarrow> int option" where
  "group_value v f scale un =
     (if 2 ^ 63 div un < v then None
      else let v2 = v * un + (if 0 < f
             then floor (fmul (float_of_int f) (fdiv (of_int un) scale)) else 0)
           in if 2 ^ 63 < v2 then None else Some v2)"

definition next_group :: "string \<Rightarrow> (int \<times> string) option" where
  "next_group s =
     (if s = [] \<or> \<not> starts_number (hd s) then None
      else (case leading_int 0 s of
              None \<Rightarrow> None
            | Some (v, s1) \<Rightarrow>
                (case take_fraction s1 of
                   (f, scale, s2, post) \<Rightarrow>
                     (let u = takeWhile (\<lambda>c. \<not> starts_number c) s2;
                          s3 = dropWhile (\<lambda>c. \<not> starts_number c) s2
                      in if (length s1 = length s \<and> \<not> post) \<or> u = [] then None
                         else (case unit_of u of
                                 None \<Rightarrow> None
                               | Some un \<Rightarrow> map_option (\<lambda>v2. (v2, s3)) (group_value v f scale un))))))"

lemma dropWhile_shorter: "takeWhile P xs \<noteq> [] \<Longrightarrow> length (dropWhile P xs) < length xs"
  by (metis length_append length_greater_0_conv less_add_same_cancel2 takeWhile_dropWhile_id)

lemma next_group_length:
  assumes "next_group s = Some (v, r)"
  shows "length r < length s"
proof -
  from assms obtain n s1 f k s2 p where
    li: "leading_int 0 s = Some (n, s1)" and tf: "take_fraction s1 = (f, k, s2, p)"
    and u: "takeWhile (\<lambda>c. \<not> starts_number c) s2 \<noteq> []" and r: "r = dropWhile (\<lambda>c. \<not> starts_number c) s2"
    by (auto simp: next_group_def Let_def split: if_splits option.splits prod.splits)
  have "length r < length s2" unfolding r by (rule dropWhile_shorter [OF u])
  with leading_int_length [OF li] take_fraction_length [OF tf] show ?thesis by simp
qed

text \<open>The loop; \<open>d\<close> accumulates in a uint64.\<close>

function duration_groups :: "string \<Rightarrow> int \<Rightarrow> int option" where
  "duration_groups s d =
     (if s = [] then Some d
      else (case next_group s of
              None \<Rightarrow> None
            | Some (v, rest) \<Rightarrow>
                (if 2 ^ 63 < (d + v) mod 2 ^ 64 then None else duration_groups rest ((d + v) mod 2 ^ 64))))"
  by pat_completeness auto
termination
  by (relation "measure (\<lambda>(s, d). length s)") (auto dest: next_group_length)

declare duration_groups.simps [simp del]

definition split_sign :: "string \<Rightarrow> bool \<times> string" where
  "split_sign s =
     (if s \<noteq> [] \<and> (hd s = CHR ''-'' \<or> hd s = CHR ''+'') then (hd s = CHR ''-'', tl s) else (False, s))"

definition parse_duration :: "string \<Rightarrow> duration option" where
  "parse_duration orig =
     (case split_sign orig of
        (neg, s) \<Rightarrow>
          (if s = ''0'' then Some 0
           else if s = [] then None
           else (case duration_groups s 0 of
                   None \<Rightarrow> None
                 | Some d \<Rightarrow> (if neg then Some (- d)
                             else if max_i64 < d then None else Some d))))"

lemma duration_groups_bound:
  "duration_groups s d = Some r \<Longrightarrow> 0 \<le> d \<Longrightarrow> d \<le> 2 ^ 63 \<Longrightarrow> 0 \<le> r \<and> r \<le> 2 ^ 63"
proof (induction s d rule: duration_groups.induct)
  case (1 s d)
  from "1.prems" show ?case
    using "1.IH" by (subst (asm) duration_groups.simps) (auto simp: not_less split: if_splits option.splits prod.splits)
qed

lemma parse_duration_bounds:
  assumes "parse_duration s = Some d"
  shows "min_i64 \<le> d \<and> d \<le> max_i64"
proof -
  obtain neg t where st: "split_sign s = (neg, t)" by (cases "split_sign s")
  have grp: "0 \<le> n \<and> min_i64 \<le> - n" if "duration_groups t 0 = Some n" for n
    using duration_groups_bound [OF that] by (simp add: min_i64_def)
  have "min_i64 \<le> 0" "0 \<le> max_i64" by (simp_all add: min_i64_def max_i64_def)
  then show ?thesis
    using assms st grp
    by (auto simp: parse_duration_def not_less split: if_splits option.splits intro: order.trans)
qed

subsection \<open>\<open>config.ParseDuration\<close>\<close>

text \<open>
  \<open>strconv.ParseFloat\<close> on decimal text (sign, digits, fraction, exponent).  Hexadecimal floats,
  \<open>inf\<close> and \<open>nan\<close>, which ParseFloat also reads, are outside the model and count as malformed.
\<close>

definition digits_value :: "string \<Rightarrow> int" where
  "digits_value ds = fold (\<lambda>c x. x * 10 + digit_value c) ds 0"

definition parse_exponent :: "string \<Rightarrow> int option" where
  "parse_exponent s =
     (case s of [] \<Rightarrow> Some 0
      | c # r \<Rightarrow>
          (if to_lower [c] \<noteq> ''e'' then None
           else let (neg, ds) = split_sign r
                in if ds = [] \<or> \<not> list_all is_digit ds then None
                   else Some ((if neg then -1 else 1) * digits_value ds)))"

definition parse_float :: "string \<Rightarrow> float64 option" where
  "parse_float s =
     (let (neg, t) = split_sign s;
          ip = takeWhile is_digit t; t1 = dropWhile is_digit t;
          dot = (t1 \<noteq> [] \<and> hd t1 = CHR ''.'');
          fp = (if dot then takeWhile is_digit (tl t1) else []);
          t2 = (if dot then dropWhile is_digit (tl t1) else t1)
      in if ip = [] \<and> fp = [] then None
         else (case parse_exponent t2 of
                 None \<Rightarrow> None
               | Some e \<Rightarrow>
                   (let m = of_int (digits_value (ip @ fp)) :: rat; k = e - int (length fp);
                        x = (if 0 \<le> k then m * 10 ^ nat k else m / 10 ^ nat (- k))
                    in if 2 ^ 1024 \<le> x then None
                       else Some (fl64 (if neg then - x else x)))))"

text \<open>
  \<open>time.Duration(f)\<close> truncates towards zero; out of range it is the smallest value, as amd64
  converts.
\<close>

definition duration_of_float :: "float64 \<Rightarrow> duration" where
  "duration_of_float x =
     (let n = (if 0 \<le> x then floor x else - floor (- x))
      in if min_i64 \<le> n \<and> n \<le> max_i64 then n else min_i64)"

definition config_parse_duration :: "string \<Rightarrow> duration option" where
  "config_parse_duration value =
     (let v = trim_space value
      in if has_suffix v ''d''
         then map_option (\<lambda>days. duration_of_float (fmul days (float_of_int (24 * hour))))
                (parse_float (butlast v))
         else parse_duration v)"

lemma config_parse_duration_bounds: "config_parse_duration s = Some d \<Longrightarrow> min_i64 \<le> d \<and> d \<le> max_i64"
  by (auto simp: config_parse_duration_def duration_of_float_def Let_def min_i64_def max_i64_def
           dest: parse_duration_bounds [unfolded min_i64_def max_i64_def] split: if_splits)

subsection \<open>\<open>parseNixPolicyDuration\<close>\<close>

text \<open>The regular expression \<open>^(\\d+)\\s*([dDwW])$\<close>: the digits and the unit byte.\<close>

definition match_days_weeks :: "string \<Rightarrow> (string \<times> char) option" where
  "match_days_weeks s =
     (let ds = takeWhile is_digit s;
          rest = dropWhile (\<lambda>c. is_space c \<and> of_char c \<noteq> (11::int)) (dropWhile is_digit s)
      in case rest of
           [u] \<Rightarrow> (if ds \<noteq> [] \<and> lower_char u \<in> {CHR ''d'', CHR ''w''} then Some (ds, u) else None)
         | _ \<Rightarrow> None)"

definition parse_nix_policy_duration :: "string \<Rightarrow> duration \<Rightarrow> duration" where
  "parse_nix_policy_duration raw0 fallback =
     (let raw = trim_space raw0
      in if raw = [] then fallback
         else (case parse_duration raw of
                 Some d \<Rightarrow> d
               | None \<Rightarrow>
                   (case match_days_weeks raw of
                      None \<Rightarrow> fallback
                    | Some (ds, u) \<Rightarrow>
                        (if max_i64 < digits_value ds then fallback
                         else if lower_char u = CHR ''d'' then wrap64 (digits_value ds * 24 * hour)
                         else wrap64 (digits_value ds * 7 * 24 * hour)))))"

lemma parse_nix_policy_duration_empty [simp]: "parse_nix_policy_duration [] fallback = fallback"
  by (simp add: parse_nix_policy_duration_def trim_space_def)

subsection \<open>\<open>Duration.String\<close>\<close>

text \<open>\<open>fmtFrac\<close>: the last \<open>prec\<close> decimals of \<open>v\<close> without trailing zeros, and \<open>v\<close> without them.\<close>

definition fmt_frac :: "int \<Rightarrow> nat \<Rightarrow> string" where
  "fmt_frac v prec =
     (let ds = rev (dropWhile (\<lambda>c. c = CHR ''0'') (rev (show_padded prec (v mod 10 ^ prec))))
      in if prec = 0 \<or> ds = [] then [] else CHR ''.'' # ds)"

definition show_duration :: "duration \<Rightarrow> string" where
  "show_duration d =
     (let u = \<bar>d\<bar>; sg = (if d < 0 then ''-'' else []);
          small = (\<lambda>prec unit. show_nat (u div 10 ^ prec) @ fmt_frac u prec @ unit)
      in if u = 0 then ''0s''
         else if u < 1000 then sg @ small 0 ''ns''
         else if u < 1000000 then sg @ small 3 [char_of (0xC2::nat), char_of (0xB5::nat), CHR ''s'']
         else if u < 1000000000 then sg @ small 6 ''ms''
         else let secs = u div 1000000000; mins = secs div 60; hours = mins div 60;
                  sec_part = show_nat (secs mod 60) @ fmt_frac u 9 @ ''s'';
                  min_part = (if 0 < mins then show_nat (mins mod 60) @ ''m'' else []);
                  hour_part = (if 0 < hours then show_nat hours @ ''h'' else [])
              in sg @ hour_part @ min_part @ sec_part)"

text \<open>RFC3339 text of an instant, for messages: the proleptic Gregorian date of a day number.\<close>

definition civil_date :: "int \<Rightarrow> int \<times> int \<times> int" where
  "civil_date days =
     (let z = days + 719468; era = z div 146097; doe = z mod 146097;
          yoe = (doe - doe div 1460 + doe div 36524 - doe div 146096) div 365;
          doy = doe - (365 * yoe + yoe div 4 - yoe div 100);
          mp = (5 * doy + 2) div 153;
          day = doy - (153 * mp + 2) div 5 + 1;
          month = (if mp < 10 then mp + 3 else mp - 9);
          year = yoe + era * 400 + (if month \<le> 2 then 1 else 0)
      in (year, month, day))"

definition show_instant :: "instant \<Rightarrow> string" where
  "show_instant t =
     (let secs = t div second; tod = secs mod 86400; (y, m, d) = civil_date (secs div 86400);
          p = show_padded
      in p 4 y @ ''-'' @ p 2 m @ ''-'' @ p 2 d @ ''T'' @ p 2 (tod div 3600) @ '':'' @
         p 2 (tod div 60 mod 60) @ '':'' @ p 2 (tod mod 60) @ ''Z'')"

end
