(* ===== verification/Levels.thy ===== *)
theory Levels
  imports Prelude
begin

text \<open>
  The cleanup level, the value that travels between the disk monitor, the cycle, the plugins
  and the state file.  The code declares it twice, \<open>monitor.CleanupLevel\<close> and
  \<open>plugins.CleanupLevel\<close>, with the same constants; the cycle converts one into the other by
  value, so one datatype stands for both.
\<close>

datatype cleanup_level = LevelNone | LevelWarning | LevelModerate | LevelAggressive | LevelCritical

text \<open>The value of the \<open>iota\<close> constant.\<close>

fun level_value :: "cleanup_level \<Rightarrow> int" where
  "level_value LevelNone = 0"
| "level_value LevelWarning = 1"
| "level_value LevelModerate = 2"
| "level_value LevelAggressive = 3"
| "level_value LevelCritical = 4"

lemma level_value_inject [simp]: "level_value a = level_value b \<longleftrightarrow> a = b"
  by (cases a; cases b) auto

lemma level_value_nonneg [simp]: "0 \<le> level_value l"
  by (cases l) auto

instantiation cleanup_level :: linorder
begin

definition less_eq_cleanup_level :: "cleanup_level \<Rightarrow> cleanup_level \<Rightarrow> bool" where
  "less_eq_cleanup_level a b = (level_value a \<le> level_value b)"

definition less_cleanup_level :: "cleanup_level \<Rightarrow> cleanup_level \<Rightarrow> bool" where
  "less_cleanup_level a b = (level_value a < level_value b)"

instance
  by standard (auto simp: less_eq_cleanup_level_def less_cleanup_level_def)

end

lemmas level_order = less_eq_cleanup_level_def less_cleanup_level_def

lemma level_none_least [simp]: "LevelNone \<le> l"
  by (simp add: level_order)

lemma level_critical_greatest [simp]: "l \<le> LevelCritical"
  by (cases l) (simp_all add: level_order)

lemma level_not_none: "l \<noteq> LevelNone \<longleftrightarrow> LevelNone < l"
  by (cases l) (simp_all add: level_order)

text \<open>\<open>CleanupLevel.String\<close>.\<close>

fun level_string :: "cleanup_level \<Rightarrow> string" where
  "level_string LevelNone = ''none''"
| "level_string LevelWarning = ''warning''"
| "level_string LevelModerate = ''moderate''"
| "level_string LevelAggressive = ''aggressive''"
| "level_string LevelCritical = ''critical''"

text \<open>\<open>parseLevel\<close>: anything else is no level.\<close>

definition parseLevel :: "string \<Rightarrow> cleanup_level" where
  "parseLevel s =
     (if s = ''warning'' then LevelWarning
      else if s = ''moderate'' then LevelModerate
      else if s = ''aggressive'' then LevelAggressive
      else if s = ''critical'' then LevelCritical
      else LevelNone)"

lemma parseLevel_string [simp]: "parseLevel (level_string l) = l"
  by (cases l) (simp_all add: parseLevel_def)

lemma parseLevel_Nil [simp]: "parseLevel [] = LevelNone"
  by (simp add: parseLevel_def)

lemma level_string_nonempty [simp]: "level_string l \<noteq> []"
  by (cases l) simp_all

lemma level_string_inject [simp]: "level_string a = level_string b \<longleftrightarrow> a = b"
  by (metis parseLevel_string)

end
