(* ===== verification/Config.thy ===== *)
theory Config
  imports Durations Levels
begin

text \<open>
  The configuration the daemon core reads, from \<open>config/config.go\<close>: thresholds, monitored
  mounts and the policy section, with the validation of a mount.  Plugin sections of the
  configuration are read only by the plugins themselves.  YAML decoding (\<open>gopkg.in/yaml.v3\<close>)
  is outside the repository: a configuration is a value.
\<close>

record thresholds =
  th_Warning :: int
  th_Moderate :: int
  th_Aggressive :: int
  th_Critical :: int

record mount_config =
  mc_Path :: path
  mc_Label :: string
  mc_ThresholdWarning :: int
  mc_ThresholdModerate :: int
  mc_ThresholdAggressive :: int
  mc_ThresholdCritical :: int
  mc_TargetUsedPercent :: int
  mc_ThresholdInodeWarning :: int
  mc_ThresholdInodeCritical :: int
  mc_InodeFreeFloor :: u64

record policy_config =
  pc_Cooldown :: string
  pc_CooldownBypassLevel :: string
  pc_MinimumFreeGB :: int
  pc_StateFile :: path
  pc_InodeNoProgressLimit :: int
  pc_ByteNoProgressLimit :: int
  pc_ByteProgressMinMB :: int
  pc_ByteBackoffMax :: string
  pc_EmergencyFreeGB :: int
  pc_ZeroYieldLimit :: int
  pc_ZeroYieldBackoffBase :: string
  pc_ZeroYieldBackoffMax :: string
  pc_ZeroYieldPressureMinInterval :: string
  pc_ZeroYieldExemptPlugins :: "string list"
  pc_LogRepeatWindow :: string
  pc_PluginTimeout :: string
  pc_PluginTimeouts :: "string table"
  pc_ExecTimeout :: string
  pc_ExecTimeouts :: "string table"
  pc_ExecReclaimTimeout :: string
  pc_MemoryLimitMB :: int

record config =
  cf_PollInterval :: int
  cf_Thresholds :: thresholds
  cf_InodeThresholds :: thresholds
  cf_InodeFreeFloor :: u64
  cf_TargetFree :: int
  cf_Policy :: policy_config
  cf_MonitoredMounts :: "mount_config list"

text \<open>The defaults of \<open>DefaultConfig\<close> for these sections; the state file lies under the home directory.\<close>

definition default_policy :: "path \<Rightarrow> policy_config" where
  "default_policy stateFile =
     \<lparr>pc_Cooldown = ''30m'', pc_CooldownBypassLevel = ''critical'', pc_MinimumFreeGB = 0,
      pc_StateFile = stateFile, pc_InodeNoProgressLimit = 3, pc_ByteNoProgressLimit = 3,
      pc_ByteProgressMinMB = 256, pc_ByteBackoffMax = ''30m'', pc_EmergencyFreeGB = 20,
      pc_ZeroYieldLimit = 2, pc_ZeroYieldBackoffBase = ''30m'', pc_ZeroYieldBackoffMax = ''6h'',
      pc_ZeroYieldPressureMinInterval = ''1h'', pc_ZeroYieldExemptPlugins = [],
      pc_LogRepeatWindow = ''1h'', pc_PluginTimeout = [], pc_PluginTimeouts = [], pc_ExecTimeout = [],
      pc_ExecTimeouts = [], pc_ExecReclaimTimeout = [], pc_MemoryLimitMB = 0\<rparr>"

definition default_config :: "path \<Rightarrow> config" where
  "default_config stateFile =
     \<lparr>cf_PollInterval = 60, cf_Thresholds = \<lparr>th_Warning = 80, th_Moderate = 85, th_Aggressive = 90, th_Critical = 95\<rparr>,
      cf_InodeThresholds = \<lparr>th_Warning = 80, th_Moderate = 85, th_Aggressive = 90, th_Critical = 95\<rparr>,
      cf_InodeFreeFloor = 0, cf_TargetFree = 70, cf_Policy = default_policy stateFile, cf_MonitoredMounts = []\<rparr>"

subsection \<open>\<open>MountConfig.Validate\<close>\<close>

datatype mount_error =
    NotAPercentage string string int
  | LadderDescends string string int string int
  | TargetOutOfRange string int

fun validate_ladder :: "string \<Rightarrow> (string \<times> int) list \<Rightarrow> string \<Rightarrow> int \<Rightarrow> mount_error option" where
  "validate_ladder name [] prevKey prev = None"
| "validate_ladder name ((key, val) # steps) prevKey prev =
     (if val = 0 then validate_ladder name steps prevKey prev
      else if val < 0 \<or> 100 < val then Some (NotAPercentage name key val)
      else if val < prev then Some (LadderDescends name key val prevKey prev)
      else validate_ladder name steps key val)"

definition mount_ladder :: "mount_config \<Rightarrow> (string \<times> int) list" where
  "mount_ladder m =
     [(''threshold_warning'', mc_ThresholdWarning m), (''threshold_moderate'', mc_ThresholdModerate m),
      (''threshold_aggressive'', mc_ThresholdAggressive m), (''threshold_critical'', mc_ThresholdCritical m)]"

definition validate_mount :: "mount_config \<Rightarrow> mount_error option" where
  "validate_mount m =
     (let name = (if mc_Label m = [] then mc_Path m else mc_Label m)
      in case validate_ladder name (mount_ladder m) [] 0 of
           Some err \<Rightarrow> Some err
         | None \<Rightarrow> (if mc_TargetUsedPercent m < 0 \<or> 100 \<le> mc_TargetUsedPercent m
                   then Some (TargetOutOfRange name (mc_TargetUsedPercent m)) else None))"

text \<open>The thresholds a mount sets: those that are not zero, in ladder order.\<close>

definition set_steps :: "(string \<times> int) list \<Rightarrow> int list" where
  "set_steps steps = filter (\<lambda>v. v \<noteq> 0) (map snd steps)"

lemma validate_ladder_iff:
  "0 \<le> prev \<Longrightarrow> validate_ladder name steps prevKey prev = None \<longleftrightarrow>
     (\<forall>v\<in>set (set_steps steps). 1 \<le> v \<and> v \<le> 100) \<and> sorted (prev # set_steps steps)"
proof (induction name steps prevKey prev rule: validate_ladder.induct)
  case (2 name key val steps prevKey prev)
  then show ?case by (auto simp: set_steps_def)
qed (simp add: set_steps_def)

text \<open>A mount passes validation exactly when the thresholds it sets are percentages that do not
  descend and its target is below 100; a threshold of zero is unset.\<close>

theorem validate_mount_iff:
  "validate_mount m = None \<longleftrightarrow>
     (\<forall>v\<in>set (set_steps (mount_ladder m)). 1 \<le> v \<and> v \<le> 100) \<and> sorted (set_steps (mount_ladder m)) \<and>
     0 \<le> mc_TargetUsedPercent m \<and> mc_TargetUsedPercent m \<le> 99"
proof -
  define name where "name = (if mc_Label m = [] then mc_Path m else mc_Label m)"
  have "validate_ladder name (mount_ladder m) [] 0 = None \<longleftrightarrow>
     (\<forall>v\<in>set (set_steps (mount_ladder m)). 1 \<le> v \<and> v \<le> 100) \<and> sorted (set_steps (mount_ladder m))"
    by (subst validate_ladder_iff) (auto intro: order.trans [OF zero_le_one])
  then show ?thesis
    unfolding validate_mount_def Let_def name_def [symmetric] by (auto split: option.splits)
qed

end
