(* ===== verification/Plugin_API.thy ===== *)
theory Plugin_API
  imports Config
begin

text \<open>
  The plugin interface, \<open>plugins/plugin.go\<close>: results, dry-run plans with their target
  accounting, and the registry.  A plugin is a record of its declared facts and of its two
  operations; what an operation does to the host is a function from the world it starts in to
  an \<open>invocation\<close>, which says when it returns (if ever), with what result, and what the world
  looks like after the watchdog has waited a given time.
\<close>

subsection \<open>Results, targets and plans\<close>

record cleanup_result =
  cr_Plugin :: string
  cr_Level :: cleanup_level
  cr_BytesFreed :: int
  cr_EstimatedBytesFreed :: int
  cr_CommandBytesFreed :: int
  cr_HostBytesFreed :: int
  cr_ItemsCleaned :: int
  cr_Error :: "string option"

definition error_text :: "string option \<Rightarrow> string" where
  "error_text e = (case e of None \<Rightarrow> [] | Some m \<Rightarrow> m)"

record cleanup_target =
  ct_Type :: string
  ct_Tier :: string
  ct_Name :: string
  ct_Version :: string
  ct_Path :: path
  ct_Bytes :: int
  ct_LogicalBytes :: int
  ct_Reclaim :: string
  ct_HostReclaimsSpace :: "bool option"
  ct_Active :: bool
  ct_Protected :: bool
  ct_Action :: string
  ct_Reason :: string

record cleanup_plan =
  cp_Plugin :: string
  cp_Level :: string
  cp_Summary :: string
  cp_WouldRun :: bool
  cp_SkipReason :: string
  cp_EstimatedBytesFreed :: int
  cp_RequiredFreeBytes :: int
  cp_Steps :: "string list"
  cp_Targets :: "cleanup_target list"
  cp_Warnings :: "string list"
  cp_Metadata :: "string table"

definition CleanupReclaimHost :: string where "CleanupReclaimHost = ''host''"
definition CleanupReclaimDeferred :: string where "CleanupReclaimDeferred = ''deferred''"
definition CleanupReclaimNone :: string where "CleanupReclaimNone = ''none''"

definition hostReclaimExpectation :: "string \<Rightarrow> bool option" where
  "hostReclaimExpectation reclaim = (if reclaim = [] then None else Some (reclaim = CleanupReclaimHost))"

definition annotateCleanupTargetPolicy :: "string \<Rightarrow> string \<Rightarrow> cleanup_target \<Rightarrow> cleanup_target" where
  "annotateCleanupTargetPolicy tier reclaim target =
     target\<lparr>ct_Tier := tier, ct_Reclaim := reclaim, ct_HostReclaimsSpace := hostReclaimExpectation reclaim\<rparr>"

definition hostReclaimForAction :: "string \<Rightarrow> string" where
  "hostReclaimForAction action =
     (if prefix ''delete'' action \<or> action = ''stop_idle_server_then_delete_output_base''
         \<or> action = ''compress'' \<or> action = ''clean-cache'' \<or> action = ''clean-stale-files''
         \<or> action = ''thin_local_snapshots''
      then CleanupReclaimHost else CleanupReclaimNone)"

text \<open>The six running sums of \<open>annotateCleanupPlanTargetAccounting\<close>.\<close>

record accounting =
  ac_total :: int
  ac_host :: int
  ac_deferred :: int
  ac_protected :: int
  ac_active :: int
  ac_review :: int

definition zero_accounting :: accounting where
  "zero_accounting = \<lparr>ac_total = 0, ac_host = 0, ac_deferred = 0, ac_protected = 0, ac_active = 0, ac_review = 0\<rparr>"

definition target_reclaim :: "cleanup_target \<Rightarrow> string" where
  "target_reclaim t = (if ct_Reclaim t = [] then hostReclaimForAction (ct_Action t) else ct_Reclaim t)"

definition account_target :: "accounting \<Rightarrow> cleanup_target \<Rightarrow> accounting" where
  "account_target a t =
     (if ct_Bytes t \<le> 0 then a
      else let a = a\<lparr>ac_total := ac_total a + ct_Bytes t\<rparr>
           in if ct_Protected t
              then a\<lparr>ac_protected := ac_protected a + ct_Bytes t,
                     ac_active := (if ct_Active t then ac_active a + ct_Bytes t else ac_active a)\<rparr>
              else if target_reclaim t = CleanupReclaimHost then a\<lparr>ac_host := ac_host a + ct_Bytes t\<rparr>
              else if target_reclaim t = CleanupReclaimDeferred then a\<lparr>ac_deferred := ac_deferred a + ct_Bytes t\<rparr>
              else a\<lparr>ac_review := ac_review a + ct_Bytes t\<rparr>)"

definition plan_accounting :: "cleanup_target list \<Rightarrow> accounting" where
  "plan_accounting targets = foldl account_target zero_accounting targets"

definition annotateCleanupPlanTargetAccounting :: "cleanup_plan \<Rightarrow> cleanup_plan" where
  "annotateCleanupPlanTargetAccounting plan =
     (let a = plan_accounting (cp_Targets plan)
      in plan\<lparr>cp_Metadata :=
           tbl_put ''review_physical_bytes'' (show_int (ac_review a))
          (tbl_put ''active_protected_physical_bytes'' (show_int (ac_active a))
          (tbl_put ''protected_physical_bytes'' (show_int (ac_protected a))
          (tbl_put ''deferred_reclaim_candidate_bytes'' (show_int (ac_deferred a))
          (tbl_put ''host_reclaim_candidate_bytes'' (show_int (ac_host a))
          (tbl_put ''total_physical_bytes'' (show_int (ac_total a))
          (tbl_put ''target_count'' (show_int (int (length (cp_Targets plan)))) (cp_Metadata plan)))))))\<rparr>)"

text \<open>\<open>planMetadataInt64\<close> of \<open>report_text.go\<close>: the report reads a figure back with \<open>strconv.ParseInt\<close>.\<close>

text \<open>
  \<open>strconv.ParseInt(s, 10, 64)\<close>: the value and whether there was no error.  The unsigned scan
  stops at the first digit that overflows 64 bits, before looking at the rest.
\<close>

fun scan_uint :: "string \<Rightarrow> int \<Rightarrow> int option" where
  "scan_uint [] n = Some n"
| "scan_uint (c # cs) n =
     (if \<not> is_digit c then None
      else if 2 ^ 64 div 10 + 1 \<le> n \<or> 2 ^ 64 \<le> n * 10 + digit_value c then Some (2 ^ 64 - 1)
      else scan_uint cs (n * 10 + digit_value c))"

definition parse_int64 :: "string \<Rightarrow> int \<times> bool" where
  "parse_int64 s =
     (let neg = prefix ''-'' s;
          digits = (if prefix ''-'' s \<or> prefix ''+'' s then tl s else s)
      in if digits = [] then (0, False)
         else case scan_uint digits 0 of
           None \<Rightarrow> (0, False)
         | Some n \<Rightarrow> (if \<not> neg \<and> 2 ^ 63 \<le> n then (max_i64, False)
                      else if neg \<and> 2 ^ 63 < n then (min_i64, False)
                      else (if neg then - n else n, True)))"

definition planMetadataInt64 :: "string table \<Rightarrow> string \<Rightarrow> int \<times> bool" where
  "planMetadataInt64 metadata key =
     (if metadata = [] then (0, False)
      else case tbl_get metadata key of None \<Rightarrow> (0, False) | Some raw \<Rightarrow> parse_int64 raw)"

subsection \<open>The plugin interface\<close>

text \<open>
  One call of \<open>Cleanup\<close> or \<open>PlanCleanup\<close>: the time until it returns, the result, and, as
  functions of the time waited, the commands killed at their deadline (\<open>RunScope.Wedged\<close>), the
  command started last (\<open>RunScope.LastCommand\<close>) and the world.
\<close>

record ('r, 'w) invocation =
  iv_after :: "duration option"
  iv_result :: 'r
  iv_killed :: "duration \<Rightarrow> string list"
  iv_last :: "duration \<Rightarrow> string"
  iv_world :: "duration \<Rightarrow> 'w"

text \<open>
  What the daemon hands a run through its context: \<open>NewRunScope\<close>, and when the context it
  derives from ends (the daemon's shutdown), if it does.
\<close>

record run_scope =
  rs_plugin :: string
  rs_deadline :: instant
  rs_probe :: duration
  rs_reclaim :: duration
  rs_shutdown :: "instant option"

type_synonym ('r, 'w) operation = "run_scope \<Rightarrow> cleanup_level \<Rightarrow> config \<Rightarrow> 'w \<Rightarrow> ('r, 'w) invocation"

record 'w plugin =
  p_Name :: string
  p_Description :: string
  p_SupportedPlatforms :: "string list"
  p_Enabled :: "config \<Rightarrow> bool"
  p_LevelIndependent :: bool
  p_SafetyCritical :: bool
  p_PlanCleanup :: "(cleanup_plan, 'w) operation option"
  p_Cleanup :: "(cleanup_result, 'w) operation"

subsection \<open>The registry\<close>

type_synonym 'w registry = "'w plugin list"

definition NewRegistry :: "'w registry" where "NewRegistry = []"

definition Register :: "'w plugin \<Rightarrow> 'w registry \<Rightarrow> 'w registry" where
  "Register p r = r @ [p]"

definition platform_supported :: "string \<Rightarrow> string list \<Rightarrow> bool" where
  "platform_supported goos supported = (supported = [] \<or> list_ex (\<lambda>sp. sp = goos) supported)"

definition GetEnabled :: "string \<Rightarrow> config \<Rightarrow> 'w registry \<Rightarrow> 'w plugin list" where
  "GetEnabled goos cfg r = filter (\<lambda>p. p_Enabled p cfg \<and> platform_supported goos (p_SupportedPlatforms p)) r"

subsection \<open>Accounting lemmas\<close>

definition accounting_balanced :: "accounting \<Rightarrow> bool" where
  "accounting_balanced a =
     (ac_total a = ac_host a + ac_deferred a + ac_protected a + ac_review a \<and>
      0 \<le> ac_active a \<and> ac_active a \<le> ac_protected a \<and> 0 \<le> ac_host a \<and> 0 \<le> ac_deferred a \<and> 0 \<le> ac_review a)"

lemma account_target_balanced: "accounting_balanced a \<Longrightarrow> accounting_balanced (account_target a t)"
  by (simp add: accounting_balanced_def account_target_def Let_def)

lemma foldl_account_balanced: "accounting_balanced a \<Longrightarrow> accounting_balanced (foldl account_target a ts)"
  by (induction ts arbitrary: a) (auto simp: account_target_balanced)

lemma plan_accounting_balanced: "accounting_balanced (plan_accounting ts)"
  unfolding plan_accounting_def
  by (rule foldl_account_balanced) (simp add: accounting_balanced_def zero_accounting_def)

lemma foldl_account_total:
  "ac_total (foldl account_target a ts) = ac_total a + (\<Sum>t\<leftarrow>ts. max 0 (ct_Bytes t))"
  by (induction ts arbitrary: a) (auto simp: account_target_def Let_def max_def)

lemma foldl_account_host:
  "ac_host (foldl account_target a ts) =
     ac_host a + (\<Sum>t\<leftarrow>filter (\<lambda>t. \<not> ct_Protected t \<and> target_reclaim t = CleanupReclaimHost) ts. max 0 (ct_Bytes t))"
  by (induction ts arbitrary: a) (auto simp: account_target_def Let_def max_def)

subsection \<open>Decimal text round trip\<close>

lemma digit_props:
  assumes "0 \<le> d" "d < 10"
  shows "is_digit (digit d)" "digit_value (digit d) = d"
  using assms by (simp_all add: digit_def is_digit_def digit_value_def)

lemma scan_uint_append_digit:
  assumes "scan_uint ds n = Some m" "0 \<le> d" "d < 10"
  shows "scan_uint (ds @ [digit d]) n = Some (if 2 ^ 64 \<le> m * 10 + d then 2 ^ 64 - 1 else m * 10 + d)"
  using assms by (induction ds n rule: scan_uint.induct) (auto simp: digit_props split: if_splits)

text \<open>A figure above 64 bits saturates.\<close>

lemma scan_show_nat: "0 \<le> n \<Longrightarrow> scan_uint (show_nat n) 0 = Some (min n (2 ^ 64 - 1))"
proof (induction n rule: show_nat.induct)
  case (1 n)
  show ?case
  proof (cases "n < 10")
    case True
    with 1 show ?thesis by (simp add: show_nat.simps [of n] digit_props)
  next
    case False
    with 1 have "scan_uint (show_nat (n div 10)) 0 = Some (min (n div 10) (2 ^ 64 - 1))" by simp
    from scan_uint_append_digit [OF this, of "n mod 10"] False show ?thesis
      by (auto simp: show_nat.simps [of n] min_def)
  qed
qed

lemma show_nat_hd: "0 \<le> n \<Longrightarrow> show_nat n \<noteq> [] \<and> is_digit (hd (show_nat n))"
proof (induction n rule: show_nat.induct)
  case (1 n)
  then show ?case by (cases "n < 10") (auto simp: show_nat.simps [of n] digit_props hd_append)
qed

lemma is_digit_sign: "\<not> is_digit (CHR ''-'')" "\<not> is_digit (CHR ''+'')"
  by (simp_all add: is_digit_def)

definition saturate64 :: "int \<Rightarrow> int" where "saturate64 n = max min_i64 (min max_i64 n)"

lemma parse_int64_show: "parse_int64 (show_int n) = (saturate64 n, saturate64 n = n)"
proof -
  have nosign: "\<not> prefix ''-'' (show_nat k) \<and> \<not> prefix ''+'' (show_nat k)" if "0 \<le> k" for k
    using show_nat_hd [OF that] is_digit_sign by (cases "show_nat k") (auto simp: prefix_def)
  show ?thesis
  proof (cases "n < 0")
    case True
    with scan_show_nat [of "- n"] show_nat_hd [of "- n"] show ?thesis
      by (auto simp: parse_int64_def show_int_def saturate64_def min_i64_def max_i64_def min_def max_def)
  next
    case False
    with scan_show_nat [of n] show_nat_hd [of n] nosign [of n] show ?thesis
      by (auto simp: parse_int64_def show_int_def saturate64_def min_i64_def max_i64_def min_def max_def)
  qed
qed

subsection \<open>Properties\<close>

text \<open>A figure a plugin writes into its plan's metadata as decimal text is read back exactly and
  without error when it is an int64; any larger or smaller number is clamped to the nearest int64 and
  reported as an error.\<close>

theorem plan_figure_roundtrip:
  "planMetadataInt64 (tbl_put key (show_int n) metadata) key = (saturate64 n, saturate64 n = n)"
  by (simp add: planMetadataInt64_def parse_int64_show)

text \<open>The target accounting of a plan is exact: every target's bytes are in the total once and in
  exactly one of host, deferred, protected or review, the host figure counts the unprotected
  targets that reclaim host space, and the report reads back from the metadata the figures
  that were written.\<close>

theorem plan_accounting_exact:
  defines "t \<equiv> (\<lambda>p. cp_Targets p)"
  assumes "ac_total (plan_accounting (t plan)) \<le> max_i64"
  shows "accounting_balanced (plan_accounting (t plan)) \<and>
    ac_total (plan_accounting (t plan)) = (\<Sum>x\<leftarrow>t plan. max 0 (ct_Bytes x)) \<and>
    planMetadataInt64 (cp_Metadata (annotateCleanupPlanTargetAccounting plan)) ''total_physical_bytes'' =
      (\<Sum>x\<leftarrow>t plan. max 0 (ct_Bytes x), True) \<and>
    planMetadataInt64 (cp_Metadata (annotateCleanupPlanTargetAccounting plan)) ''host_reclaim_candidate_bytes'' =
      (\<Sum>x\<leftarrow>filter (\<lambda>x. \<not> ct_Protected x \<and> target_reclaim x = CleanupReclaimHost) (t plan). max 0 (ct_Bytes x), True)"
proof -
  define a where "a = plan_accounting (t plan)"
  have b: "accounting_balanced a" unfolding a_def by (rule plan_accounting_balanced)
  have tot: "ac_total a = (\<Sum>x\<leftarrow>t plan. max 0 (ct_Bytes x))"
    by (simp add: a_def plan_accounting_def foldl_account_total zero_accounting_def)
  have host: "ac_host a = (\<Sum>x\<leftarrow>filter (\<lambda>x. \<not> ct_Protected x \<and> target_reclaim x = CleanupReclaimHost) (t plan). max 0 (ct_Bytes x))"
    by (simp add: a_def plan_accounting_def foldl_account_host zero_accounting_def)
  have r: "0 \<le> ac_total a" "0 \<le> ac_host a" "ac_host a \<le> ac_total a" "ac_total a \<le> max_i64"
    using b assms(2) by (auto simp: accounting_balanced_def a_def)
  have parse: "parse_int64 (show_int n) = (n, True)" if "0 \<le> n" "n \<le> ac_total a" for n
    using that r(4) by (auto simp: parse_int64_show saturate64_def min_i64_def)
  have "planMetadataInt64 (cp_Metadata (annotateCleanupPlanTargetAccounting plan)) ''total_physical_bytes'' = (ac_total a, True)"
    using parse [of "ac_total a"] r
    by (simp add: planMetadataInt64_def annotateCleanupPlanTargetAccounting_def Let_def a_def t_def)
  moreover have "planMetadataInt64 (cp_Metadata (annotateCleanupPlanTargetAccounting plan)) ''host_reclaim_candidate_bytes'' = (ac_host a, True)"
    using parse [of "ac_host a"] r
    by (simp add: planMetadataInt64_def annotateCleanupPlanTargetAccounting_def Let_def a_def t_def)
  ultimately show ?thesis using b tot host by (simp add: a_def)
qed

definition sample_target :: "int \<Rightarrow> bool \<Rightarrow> string \<Rightarrow> cleanup_target" where
  "sample_target bytes prot action =
     \<lparr>ct_Type = [], ct_Tier = [], ct_Name = [], ct_Version = [], ct_Path = [], ct_Bytes = bytes, ct_LogicalBytes = 0,
      ct_Reclaim = [], ct_HostReclaimsSpace = None, ct_Active = False, ct_Protected = prot, ct_Action = action, ct_Reason = []\<rparr>"

definition sample_plan :: cleanup_plan where
  "sample_plan =
     \<lparr>cp_Plugin = ''cache'', cp_Level = [], cp_Summary = [], cp_WouldRun = True, cp_SkipReason = [], cp_EstimatedBytesFreed = 0,
      cp_RequiredFreeBytes = 0, cp_Steps = [],
      cp_Targets = [sample_target 5 False ''delete'', sample_target 7 True ''delete'', sample_target 2 False ''report''],
      cp_Warnings = [], cp_Metadata = []\<rparr>"

theorem plan_accounting_exact_witness:
  "planMetadataInt64 (cp_Metadata (annotateCleanupPlanTargetAccounting sample_plan)) ''total_physical_bytes'' = (14, True)"
  using plan_accounting_exact [of sample_plan]
  by (simp add: sample_plan_def sample_target_def plan_accounting_def zero_accounting_def account_target_def max_i64_def
      target_reclaim_def hostReclaimForAction_def CleanupReclaimHost_def CleanupReclaimNone_def CleanupReclaimDeferred_def Let_def)

end
