(* ===== verification/Interfaces.thy ===== *)
theory Interfaces
  imports Prelude
begin

text \<open>
  The contracts components rely on.  A contract is a locale: its operations are the locale's
  parameters, the laws the provider promises its assumptions, and the client's reasoning is done
  once inside it.  Each is interpreted on the model's own definitions in the theory of the
  component that provides it.
\<close>

subsection \<open>A capped doubling schedule\<close>

text \<open>
  Backoff intervals: \<open>base\<close> when the failure count reaches \<open>limit\<close>, then doubled per further
  failure up to \<open>cap\<close>.  Providers: zero-yield suppression (\<open>state.go\<close>) and byte backoff
  (\<open>main.go\<close>); \<open>'p\<close> is the policy that fixes the figures.
\<close>

locale backoff_schedule =
  fixes valid :: "'p \<Rightarrow> bool"
    and interval :: "'p \<Rightarrow> int \<Rightarrow> duration"
    and limit :: "'p \<Rightarrow> int"
    and base :: "'p \<Rightarrow> duration"
    and cap :: "'p \<Rightarrow> duration"
  assumes base_range: "valid p \<Longrightarrow> 0 < base p \<and> base p \<le> cap p"
    and start: "valid p \<Longrightarrow> interval p (limit p) = base p"
    and step: "valid p \<Longrightarrow> limit p \<le> n \<Longrightarrow> interval p (n + 1) = min (cap p) (2 * interval p n)"
begin

lemma closed_form:
  assumes v: "valid p"
  shows "interval p (limit p + int k) = min (cap p) (base p * 2 ^ k)"
proof (induction k)
  case 0
  from v start base_range show ?case by auto
next
  case (Suc k)
  have "interval p (limit p + int (Suc k)) = min (cap p) (2 * min (cap p) (base p * 2 ^ k))"
    using step [OF v, of "limit p + int k"] Suc.IH by (simp add: add.commute add.left_commute)
  also have "\<dots> = min (cap p) (base p * 2 ^ Suc k)"
    using base_range [OF v] by (auto simp: min_def)
  finally show ?case .
qed

lemma closed_form_at:
  assumes "valid p" "limit p \<le> n"
  shows "interval p n = min (cap p) (base p * 2 ^ nat (n - limit p))"
  using closed_form [OF assms(1), of "nat (n - limit p)"] assms(2) by simp

lemma bounded:
  assumes "valid p" "limit p \<le> n"
  shows "base p \<le> interval p n \<and> interval p n \<le> cap p"
proof -
  have "base p * 1 \<le> base p * 2 ^ nat (n - limit p)"
    using base_range [OF assms(1)] by (intro mult_left_mono) simp_all
  with closed_form_at [OF assms] base_range [OF assms(1)] show ?thesis by simp
qed

lemma mono:
  assumes "valid p" "limit p \<le> m" "m \<le> n"
  shows "interval p m \<le> interval p n"
proof -
  have "base p * 2 ^ nat (m - limit p) \<le> base p * 2 ^ nat (n - limit p)"
    using assms base_range [OF assms(1)] by (intro mult_left_mono power_increasing) auto
  then show ?thesis using closed_form_at [OF assms(1)] assms by simp
qed

lemma saturates:
  assumes "valid p" "limit p \<le> n" "cap p \<le> base p * 2 ^ nat (n - limit p)"
  shows "interval p n = cap p"
  using closed_form_at [OF assms(1,2)] assms(3) by simp

end

subsection \<open>A counter of consecutive failures\<close>

text \<open>
  The state file keeps three such counters per key: inode and byte no-progress per path and
  zero-yield runs per plugin.  A success resets the key's count, a failure adds one, and other
  keys are left alone.
\<close>

definition trailing_failures :: "bool list \<Rightarrow> nat" where
  "trailing_failures outcomes = length (takeWhile Not (rev outcomes))"

locale streak_counter =
  fixes counting :: "'k \<Rightarrow> bool"
    and count :: "'s \<Rightarrow> 'k \<Rightarrow> int"
    and record_outcome :: "'k \<Rightarrow> 'a \<Rightarrow> bool \<Rightarrow> 's \<Rightarrow> 's"
  assumes success: "counting k \<Longrightarrow> count (record_outcome k a True s) k = 0"
    and failure: "counting k \<Longrightarrow> count (record_outcome k a False s) k = count s k + 1"
    and other: "k' \<noteq> k \<Longrightarrow> count (record_outcome k a b s) k' = count s k'"
begin

lemma run_count:
  assumes "counting k"
  shows "count (foldl (\<lambda>s (a, b). record_outcome k a b s) s os) k =
    (if True \<in> snd ` set os then int (trailing_failures (map snd os)) else count s k + int (length os))"
proof (induction os rule: rev_induct)
  case Nil
  then show ?case by (simp add: trailing_failures_def)
next
  case (snoc oc os)
  obtain a b where "oc = (a, b)" by (cases oc)
  with snoc assms show ?case
    by (cases b) (auto simp: trailing_failures_def success failure)
qed

lemma failing_run:
  assumes "counting k"
  shows "count (foldl (\<lambda>s a. record_outcome k a False s) s as) k = count s k + int (length as)"
proof -
  have "foldl (\<lambda>s a. record_outcome k a False s) s as
      = foldl (\<lambda>s (a, b). record_outcome k a b s) s (map (\<lambda>a. (a, False)) as)"
    by (induction as arbitrary: s) auto
  moreover have "True \<notin> snd ` set (map (\<lambda>a. (a, False)) as)" by auto
  ultimately show ?thesis using run_count [OF assms, of s "map (\<lambda>a. (a, False)) as"] by simp
qed

end

subsection \<open>An atomically replaced document\<close>

text \<open>
  Saving passes through a sequence of file-system states; a crash stops it after any of them.
  \<open>content\<close> is what the reader finds at the document's path.
\<close>

locale atomic_document =
  fixes ready :: "'c \<Rightarrow> 'fs \<Rightarrow> bool"
    and states :: "'c \<Rightarrow> 'v \<Rightarrow> 'fs \<Rightarrow> 'fs list"
    and saved :: "'c \<Rightarrow> 'v \<Rightarrow> 'fs \<Rightarrow> bool"
    and content :: "'fs \<Rightarrow> 'd option"
    and encode :: "'v \<Rightarrow> 'd"
  assumes old_or_new: "ready c fs \<Longrightarrow> fs' \<in> set (states c v fs) \<Longrightarrow> content fs' = content fs \<or> content fs' = Some (encode v)"
    and committed: "ready c fs \<Longrightarrow> saved c v fs \<Longrightarrow> content (last (fs # states c v fs)) = Some (encode v)"
    and aborted: "ready c fs \<Longrightarrow> \<not> saved c v fs \<Longrightarrow> content (last (fs # states c v fs)) = content fs"
begin

text \<open>No crash point exposes a document that was never written: a whole-document test that held
  before and holds of the new document holds throughout.\<close>

lemma crash_safe:
  assumes "ready c fs" "fs' = fs \<or> fs' \<in> set (states c v fs)"
    and "content fs = None \<or> (\<exists>d. content fs = Some d \<and> P d)" "P (encode v)"
  shows "content fs' = None \<or> (\<exists>d. content fs' = Some d \<and> P d)"
  using old_or_new [OF assms(1), of fs' v] assms(2-4) by auto

lemma final_content:
  "ready c fs \<Longrightarrow> content (last (fs # states c v fs)) = (if saved c v fs then Some (encode v) else content fs)"
  using committed aborted by simp

end

subsection \<open>A table of bounded size\<close>

text \<open>
  Evidence and throttling tables that outside input fills: every insertion keeps the size within
  a capacity that insertions do not change.
\<close>

locale bounded_table =
  fixes well_formed :: "'s \<Rightarrow> bool"
    and table_size :: "'s \<Rightarrow> nat"
    and capacity :: "'s \<Rightarrow> nat"
    and insert_entry :: "'a \<Rightarrow> 's \<Rightarrow> 's"
  assumes capacity_insert: "capacity (insert_entry a s) = capacity s"
    and insert_well_formed: "well_formed s \<Longrightarrow> well_formed (insert_entry a s)"
    and within: "well_formed s \<Longrightarrow> table_size s \<le> capacity s"
begin

lemma run_well_formed: "well_formed s \<Longrightarrow> well_formed (foldl (\<lambda>s a. insert_entry a s) s as)"
  by (induction as arbitrary: s) (simp_all add: insert_well_formed)

lemma run_capacity: "capacity (foldl (\<lambda>s a. insert_entry a s) s as) = capacity s"
  by (induction as arbitrary: s) (simp_all add: capacity_insert)

lemma run_within: "well_formed s \<Longrightarrow> table_size (foldl (\<lambda>s a. insert_entry a s) s as) \<le> capacity s"
  using within [OF run_well_formed] by (simp add: run_capacity)

end

subsection \<open>An operation spaced in time\<close>

text \<open>
  An operation that must not run again within \<open>gap\<close> of its last run.  \<open>mark\<close> is the end of the
  last run the state remembers; \<open>attempt\<close> is when a step runs the operation (from, to).
\<close>

fun run_attempts ::
    "('i \<Rightarrow> 's \<Rightarrow> (instant \<times> instant) option) \<Rightarrow> ('i \<Rightarrow> 's \<Rightarrow> 's) \<Rightarrow> 'i list \<Rightarrow> 's \<Rightarrow> (instant \<times> instant) list" where
  "run_attempts attempt step [] s = []"
| "run_attempts attempt step (i # is) s =
     (case attempt i s of None \<Rightarrow> [] | Some x \<Rightarrow> [x]) @ run_attempts attempt step is (step i s)"

locale rate_limited =
  fixes valid :: "'i \<Rightarrow> bool"
    and gap :: duration
    and mark :: "'s \<Rightarrow> instant option"
    and attempt :: "'i \<Rightarrow> 's \<Rightarrow> (instant \<times> instant) option"
    and step :: "'i \<Rightarrow> 's \<Rightarrow> 's"
  assumes spaced: "valid i \<Longrightarrow> attempt i s = Some (b, e) \<Longrightarrow> mark s = Some m \<Longrightarrow> m + gap \<le> b"
    and marked: "valid i \<Longrightarrow> attempt i s = Some (b, e) \<Longrightarrow> b \<le> e \<and> mark (step i s) = Some e"
    and unmarked: "attempt i s = None \<Longrightarrow> mark (step i s) = mark s"
begin

lemma after_mark:
  "list_all valid is \<Longrightarrow> mark s = Some m \<Longrightarrow> 0 \<le> gap \<Longrightarrow> x \<in> set (run_attempts attempt step is s) \<Longrightarrow> m + gap \<le> fst x \<and> fst x \<le> snd x"
proof (induction "is" arbitrary: s m)
  case (Cons i "is")
  show ?case
  proof (cases "attempt i s")
    case None
    with Cons unmarked [OF None] show ?thesis by auto
  next
    case (Some y)
    obtain b e where y: "y = (b, e)" by (cases y)
    with Some Cons.prems have be: "m + gap \<le> b" "b \<le> e" "mark (step i s) = Some e"
      using spaced [of i s b e m] marked [of i s b e] by auto
    from Cons.prems(4) Some y consider "x = (b, e)" | "x \<in> set (run_attempts attempt step is (step i s))" by auto
    then show ?thesis
    proof cases
      case 2
      with Cons.IH [OF _ be(3) Cons.prems(3)] Cons.prems(1,3) be show ?thesis by fastforce
    qed (use be in simp)
  qed
qed simp

lemma attempts_spaced:
  "list_all valid is \<Longrightarrow> 0 \<le> gap \<Longrightarrow> sorted_wrt (\<lambda>(b, e) (b', e'). e + gap \<le> b') (run_attempts attempt step is s)"
proof (induction "is" arbitrary: s)
  case (Cons i "is")
  show ?case
  proof (cases "attempt i s")
    case None
    with Cons show ?thesis by simp
  next
    case (Some y)
    obtain b e where y: "y = (b, e)" by (cases y)
    with Some Cons.prems marked [of i s b e] have "mark (step i s) = Some e" by simp
    with Cons after_mark [of "is" "step i s" e] Some y show ?thesis by auto
  qed
qed simp

end

end
