(* ===== verification/State_File.thy ===== *)
theory State_File
  imports Plugin_API Interfaces
begin

text \<open>
  The persisted cleanup state, \<open>state.go\<close>: per-plugin run records with zero-yield counters,
  per-path inode and byte progress counters, and the atomic save, load and quarantine of the
  state file.  A Go map is an association list; a Go \<open>*cleanupState\<close> that is nil is the error
  case of \<open>loadCleanupState\<close>, which every caller tests first, so the operations take a state.
\<close>

subsection \<open>Records\<close>

definition cleanupStateVersion :: int where "cleanupStateVersion = 2"

record plugin_state_record =
  ps_LastRun :: stamp
  ps_LastLevel :: string
  ps_LastLevelValue :: int
  ps_LastBytesFreed :: int
  ps_LastItemsCleaned :: int
  ps_LastError :: string
  ps_ZeroYieldCount :: int
  ps_SuppressedUntil :: stamp
  ps_ConfigDigest :: string

definition zero_plugin_state :: plugin_state_record where
  "zero_plugin_state =
     \<lparr>ps_LastRun = NoStamp, ps_LastLevel = [], ps_LastLevelValue = 0, ps_LastBytesFreed = 0,
      ps_LastItemsCleaned = 0, ps_LastError = [], ps_ZeroYieldCount = 0, ps_SuppressedUntil = NoStamp,
      ps_ConfigDigest = []\<rparr>"

record inode_progress_record =
  ir_LastRun :: stamp
  ir_LastInodesFree :: u64
  ir_LastInodesUsedPercent :: float64
  ir_LastInodeLevel :: string
  ir_NoProgressCount :: int

definition zero_inode_progress :: inode_progress_record where
  "zero_inode_progress =
     \<lparr>ir_LastRun = NoStamp, ir_LastInodesFree = 0, ir_LastInodesUsedPercent = 0, ir_LastInodeLevel = [],
      ir_NoProgressCount = 0\<rparr>"

record byte_progress_record =
  br_LastRun :: stamp
  br_LastFreeBytes :: u64
  br_LastByteLevel :: string
  br_LastLevelValue :: int
  br_NoProgressCount :: int
  br_Engaged :: bool

definition zero_byte_progress :: byte_progress_record where
  "zero_byte_progress =
     \<lparr>br_LastRun = NoStamp, br_LastFreeBytes = 0, br_LastByteLevel = [], br_LastLevelValue = 0,
      br_NoProgressCount = 0, br_Engaged = False\<rparr>"

record cleanup_state =
  cs_Version :: int
  cs_Plugins :: "plugin_state_record table"
  cs_Inodes :: "inode_progress_record table"
  cs_Bytes :: "byte_progress_record table"

definition newCleanupState :: cleanup_state where
  "newCleanupState = \<lparr>cs_Version = cleanupStateVersion, cs_Plugins = [], cs_Inodes = [], cs_Bytes = []\<rparr>"

subsection \<open>Zero-yield backoff\<close>

record zero_yield_policy =
  zy_limit :: int
  zy_base :: duration
  zy_max :: duration
  zy_pressureMin :: duration

text \<open>
  The doubling loop of \<open>zeroYieldBackoff\<close>, one round per further zero-yield run.  The guard
  before \<open>interval *= 2\<close> keeps the product in range; the wrap-around is written all the same.
\<close>

fun zero_yield_double :: "nat \<Rightarrow> duration \<Rightarrow> duration \<Rightarrow> duration" where
  "zero_yield_double 0 cap interval = interval"
| "zero_yield_double (Suc rounds) cap interval =
     (if \<not> interval < cap then interval
      else if 0 < cap \<and> cap sdiv 2 < interval then cap
      else zero_yield_double rounds cap (wrap64 (interval * 2)))"

definition zeroYieldBackoff :: "int \<Rightarrow> zero_yield_policy \<Rightarrow> duration" where
  "zeroYieldBackoff count policy =
     (if zy_limit policy \<le> 0 \<or> count < zy_limit policy \<or> zy_base policy \<le> 0 then 0
      else let interval = zero_yield_double (nat (count - zy_limit policy)) (zy_max policy) (zy_base policy)
           in if 0 < zy_max policy \<and> zy_max policy < interval then zy_max policy else interval)"

subsection \<open>Plugin records\<close>

definition cooldownRemaining :: "cleanup_state \<Rightarrow> string \<Rightarrow> cleanup_level \<Rightarrow> instant \<Rightarrow> duration \<Rightarrow> duration" where
  "cooldownRemaining s plugin level now cooldown =
     (if cooldown \<le> 0 then 0
      else (case tbl_get (cs_Plugins s) plugin of
              None \<Rightarrow> 0
            | Some r \<Rightarrow>
                (if ps_LastLevelValue r < level_value level then 0
                 else (case parse_stamp (ps_LastRun r) of
                         None \<Rightarrow> 0
                       | Some lastRun \<Rightarrow>
                           (let elapsed = max 0 (time_sub now lastRun)
                            in if cooldown \<le> elapsed then 0 else cooldown - elapsed)))))"

definition recordPluginRun :: "string \<Rightarrow> cleanup_level \<Rightarrow> instant \<Rightarrow> cleanup_result \<Rightarrow> cleanup_state \<Rightarrow> cleanup_state" where
  "recordPluginRun plugin level now result s =
     s\<lparr>cs_Plugins := tbl_put plugin
         ((tbl_zero zero_plugin_state (cs_Plugins s) plugin)
            \<lparr>ps_LastRun := format_stamp now, ps_LastLevel := level_string level,
             ps_LastLevelValue := level_value level, ps_LastBytesFreed := cr_BytesFreed result,
             ps_LastItemsCleaned := cr_ItemsCleaned result, ps_LastError := error_text (cr_Error result)\<rparr>)
         (cs_Plugins s)\<rparr>"

definition yield_record :: "plugin_state_record \<Rightarrow> bool \<Rightarrow> instant \<Rightarrow> string \<Rightarrow> zero_yield_policy \<Rightarrow> bool \<Rightarrow> plugin_state_record" where
  "yield_record r0 zeroYield now digest policy suppressible =
     (let count0 = (if ps_ConfigDigest r0 \<noteq> digest then 0 else ps_ZeroYieldCount r0);
          r = r0\<lparr>ps_ZeroYieldCount := count0, ps_ConfigDigest := digest, ps_SuppressedUntil := NoStamp\<rparr>
      in if \<not> zeroYield \<or> zy_limit policy \<le> 0 then r\<lparr>ps_ZeroYieldCount := 0\<rparr>
         else let interval = zeroYieldBackoff (count0 + 1) policy
              in r\<lparr>ps_ZeroYieldCount := count0 + 1,
                   ps_SuppressedUntil := (if suppressible \<and> 0 < interval then format_stamp (now + interval) else NoStamp)\<rparr>)"

definition recordPluginYield ::
    "string \<Rightarrow> bool \<Rightarrow> instant \<Rightarrow> string \<Rightarrow> zero_yield_policy \<Rightarrow> bool \<Rightarrow> cleanup_state \<Rightarrow> plugin_state_record \<times> cleanup_state" where
  "recordPluginYield plugin zeroYield now digest policy suppressible s =
     (let r = yield_record (tbl_zero zero_plugin_state (cs_Plugins s) plugin) zeroYield now digest policy suppressible
      in (r, s\<lparr>cs_Plugins := tbl_put plugin r (cs_Plugins s)\<rparr>))"

definition pluginLastRun :: "cleanup_state \<Rightarrow> string \<Rightarrow> instant" where
  "pluginLastRun s plugin =
     (case parse_stamp (ps_LastRun (tbl_zero zero_plugin_state (cs_Plugins s) plugin)) of
        None \<Rightarrow> zero_time | Some t \<Rightarrow> t)"

definition liftZeroYieldSuppression :: "cleanup_state \<Rightarrow> bool \<times> cleanup_state" where
  "liftZeroYieldSuppression s =
     (list_ex (\<lambda>(name, r). ps_SuppressedUntil r \<noteq> NoStamp) (cs_Plugins s),
      s\<lparr>cs_Plugins := map (\<lambda>(name, r). (name, r\<lparr>ps_SuppressedUntil := NoStamp\<rparr>)) (cs_Plugins s)\<rparr>)"

text \<open>The four results of \<open>zeroYieldSuppression\<close>.\<close>

record yield_suppression =
  ys_until :: instant
  ys_count :: int
  ys_lifted :: string
  ys_suppressed :: bool

definition zeroYieldSuppression :: "cleanup_state \<Rightarrow> string \<Rightarrow> cleanup_level \<Rightarrow> instant \<Rightarrow> string \<Rightarrow> yield_suppression" where
  "zeroYieldSuppression s plugin level now digest =
     (let none = (\<lambda>n. \<lparr>ys_until = zero_time, ys_count = n, ys_lifted = [], ys_suppressed = False\<rparr>)
      in case tbl_get (cs_Plugins s) plugin of
           None \<Rightarrow> none 0
         | Some r \<Rightarrow>
             (if ps_SuppressedUntil r = NoStamp then none 0
              else (case parse_stamp (ps_SuppressedUntil r) of
                      None \<Rightarrow> none (ps_ZeroYieldCount r)
                    | Some till \<Rightarrow>
                        (if till \<le> now then none (ps_ZeroYieldCount r)
                         else if ps_LastLevelValue r < level_value level
                         then \<lparr>ys_until = till, ys_count = ps_ZeroYieldCount r, ys_lifted = ''level_rose'', ys_suppressed = False\<rparr>
                         else if ps_ConfigDigest r \<noteq> digest
                         then \<lparr>ys_until = till, ys_count = ps_ZeroYieldCount r, ys_lifted = ''config_changed'', ys_suppressed = False\<rparr>
                         else \<lparr>ys_until = till, ys_count = ps_ZeroYieldCount r, ys_lifted = [], ys_suppressed = True\<rparr>))))"

subsection \<open>Progress counters\<close>

definition inodeNoProgressCount :: "cleanup_state \<Rightarrow> path \<Rightarrow> int" where
  "inodeNoProgressCount s p = (if p = [] then 0 else ir_NoProgressCount (tbl_zero zero_inode_progress (cs_Inodes s) p))"

definition recordInodeProgress ::
    "path \<Rightarrow> u64 \<Rightarrow> float64 \<Rightarrow> string \<Rightarrow> instant \<Rightarrow> bool \<Rightarrow> cleanup_state \<Rightarrow> cleanup_state" where
  "recordInodeProgress p inodesFree usedPercent level now improved s =
     (if p = [] then s
      else let r = tbl_zero zero_inode_progress (cs_Inodes s) p
           in s\<lparr>cs_Inodes := tbl_put p
                  \<lparr>ir_LastRun = format_stamp now, ir_LastInodesFree = inodesFree,
                   ir_LastInodesUsedPercent = usedPercent, ir_LastInodeLevel = level,
                   ir_NoProgressCount = (if improved then 0 else ir_NoProgressCount r + 1)\<rparr> (cs_Inodes s)\<rparr>)"

definition byteNoProgressCount :: "cleanup_state \<Rightarrow> path \<Rightarrow> int \<Rightarrow> int" where
  "byteNoProgressCount s p level =
     (if p = [] then 0
      else (case tbl_get (cs_Bytes s) p of
              None \<Rightarrow> 0
            | Some r \<Rightarrow> (if br_LastLevelValue r < level then 0 else br_NoProgressCount r)))"

definition byteNoProgressPending :: "cleanup_state \<Rightarrow> path \<Rightarrow> bool" where
  "byteNoProgressPending s p = (p \<noteq> [] \<and> 0 < br_NoProgressCount (tbl_zero zero_byte_progress (cs_Bytes s) p))"

definition byteBackoffEngaged :: "cleanup_state \<Rightarrow> path \<Rightarrow> bool" where
  "byteBackoffEngaged s p = (p \<noteq> [] \<and> br_Engaged (tbl_zero zero_byte_progress (cs_Bytes s) p))"

definition recordByteProgress ::
    "path \<Rightarrow> u64 \<Rightarrow> string \<Rightarrow> int \<Rightarrow> instant \<Rightarrow> bool \<Rightarrow> bool \<Rightarrow> bool \<Rightarrow> cleanup_state \<Rightarrow> cleanup_state" where
  "recordByteProgress p freeBytes level levelValue now progress cleanupRan engaged s =
     (if p = [] then s
      else let r = tbl_zero zero_byte_progress (cs_Bytes s) p;
               count0 = (if br_LastLevelValue r < levelValue then 0 else br_NoProgressCount r);
               count = (if progress then 0 else if cleanupRan then count0 + 1 else count0)
           in s\<lparr>cs_Bytes := tbl_put p
                  \<lparr>br_LastRun = format_stamp now, br_LastFreeBytes = freeBytes, br_LastByteLevel = level,
                   br_LastLevelValue = levelValue, br_NoProgressCount = count, br_Engaged = engaged\<rparr> (cs_Bytes s)\<rparr>)"

subsection \<open>The counters are failure streaks\<close>

definition inode_outcome :: "path \<Rightarrow> u64 \<times> float64 \<times> string \<times> instant \<Rightarrow> bool \<Rightarrow> cleanup_state \<Rightarrow> cleanup_state" where
  "inode_outcome p a improved s = (case a of (free, pct, level, now) \<Rightarrow> recordInodeProgress p free pct level now improved s)"

interpretation inode_streak: streak_counter "\<lambda>p. p \<noteq> []" inodeNoProgressCount inode_outcome
  by unfold_locales
     (auto simp: inodeNoProgressCount_def inode_outcome_def recordInodeProgress_def Let_def split: prod.splits)

text \<open>At one byte level, in cycles where a ladder plugin ran.\<close>

definition byte_outcome ::
    "int \<Rightarrow> path \<Rightarrow> u64 \<times> string \<times> instant \<times> bool \<Rightarrow> bool \<Rightarrow> cleanup_state \<Rightarrow> cleanup_state" where
  "byte_outcome level p a progress s =
     (case a of (free, name, now, engaged) \<Rightarrow> recordByteProgress p free name level now progress True engaged s)"

lemma tbl_zero_get: "tbl_get t k = Some v \<Longrightarrow> tbl_zero z t k = v" "tbl_get t k = None \<Longrightarrow> tbl_zero z t k = z"
  by (simp_all add: tbl_zero_def)

interpretation byte_streak: streak_counter "\<lambda>p. p \<noteq> []" "\<lambda>s p. byteNoProgressCount s p level" "byte_outcome level"
  for level :: int
  by unfold_locales
     (auto simp: byteNoProgressCount_def byte_outcome_def recordByteProgress_def Let_def tbl_zero_def
        zero_byte_progress_def split: prod.splits option.splits)

text \<open>The zero-yield count that is valid under a configuration digest.\<close>

definition zero_yield_count :: "string \<Rightarrow> cleanup_state \<Rightarrow> string \<Rightarrow> int" where
  "zero_yield_count digest s plugin =
     (let r = tbl_zero zero_plugin_state (cs_Plugins s) plugin
      in if ps_ConfigDigest r = digest then ps_ZeroYieldCount r else 0)"

definition yield_outcome ::
    "string \<Rightarrow> zero_yield_policy \<Rightarrow> string \<Rightarrow> instant \<times> bool \<Rightarrow> bool \<Rightarrow> cleanup_state \<Rightarrow> cleanup_state" where
  "yield_outcome digest policy plugin a yielded s =
     (case a of (now, suppressible) \<Rightarrow> snd (recordPluginYield plugin (\<not> yielded) now digest policy suppressible s))"

interpretation yield_streak: streak_counter "\<lambda>plugin. 0 < zy_limit policy" "zero_yield_count digest" "yield_outcome digest policy"
  for digest :: string and policy :: zero_yield_policy
  by unfold_locales
     (auto simp: zero_yield_count_def yield_outcome_def recordPluginYield_def yield_record_def Let_def split: prod.splits)

subsection \<open>The zero-yield schedule\<close>

definition valid_yield_policy :: "zero_yield_policy \<Rightarrow> bool" where
  "valid_yield_policy q = (0 < zy_limit q \<and> 0 < zy_base q \<and> zy_base q \<le> zy_max q \<and> zy_max q \<le> max_i64)"

lemma zero_yield_double_closed:
  "0 < i \<Longrightarrow> i \<le> cap \<Longrightarrow> cap \<le> max_i64 \<Longrightarrow> zero_yield_double n cap i = min cap (i * 2 ^ n)"
proof (induction n arbitrary: i)
  case 0
  then show ?case by simp
next
  case (Suc n)
  have half: "cap sdiv 2 = cap div 2" using Suc.prems by (simp add: signed_divide_int_eq_divide_int)
  have big: "i * 2 * 2 ^ n \<ge> i * 2" using Suc.prems by simp
  show ?case
  proof (cases "i < cap \<and> \<not> cap sdiv 2 < i")
    case True
    then have "2 * i \<le> cap" unfolding half by linarith
    then have "wrap64 (i * 2) = i * 2" using Suc.prems by (intro wrap64_id) (simp_all add: min_i64_def)
    with True Suc.IH [of "i * 2"] \<open>2 * i \<le> cap\<close> Suc.prems show ?thesis by (simp add: mult.assoc)
  next
    case False
    then have "cap \<le> i * 2" unfolding half using Suc.prems by linarith
    with big have "cap \<le> i * 2 ^ Suc n" by simp
    with False Suc.prems show ?thesis by (auto simp: half min_def)
  qed
qed

interpretation zero_yield: backoff_schedule valid_yield_policy "\<lambda>q n. zeroYieldBackoff n q" zy_limit zy_base zy_max
proof
  fix q n
  assume v: "valid_yield_policy q"
  then show "0 < zy_base q \<and> zy_base q \<le> zy_max q" by (simp add: valid_yield_policy_def)
  have closed: "zeroYieldBackoff m q = min (zy_max q) (zy_base q * 2 ^ nat (m - zy_limit q))" if "zy_limit q \<le> m" for m
    using v that by (simp add: zeroYieldBackoff_def valid_yield_policy_def Let_def zero_yield_double_closed)
  show "zeroYieldBackoff (zy_limit q) q = zy_base q"
    using closed [of "zy_limit q"] v by (simp add: valid_yield_policy_def)
  assume n: "zy_limit q \<le> n"
  have k: "nat (n + 1 - zy_limit q) = Suc (nat (n - zy_limit q))" using n by simp
  define x where "x = zy_base q * 2 ^ nat (n - zy_limit q)"
  have pos: "0 < x" "0 < zy_max q" using v by (auto simp: valid_yield_policy_def x_def)
  have "zeroYieldBackoff (n + 1) q = min (zy_max q) (2 * x)"
    using closed [of "n + 1"] n unfolding k x_def by simp
  moreover have "zeroYieldBackoff n q = min (zy_max q) x" using closed [OF n] by (simp add: x_def)
  ultimately show "zeroYieldBackoff (n + 1) q = min (zy_max q) (2 * zeroYieldBackoff n q)"
    using pos by (simp add: min_def)
qed

subsection \<open>Properties\<close>

text \<open>C39: The zero-yield schedule: from the limit on, each further run that reclaims nothing doubles
  the suppression, starting at the base and stopping exactly at the cap.\<close>

theorem zero_yield_schedule:
  assumes "valid_yield_policy q" "zy_limit q \<le> n"
  shows "zeroYieldBackoff n q = min (zy_max q) (zy_base q * 2 ^ nat (n - zy_limit q))"
  using zero_yield.closed_form_at [OF assms] .

theorem zero_yield_schedule_witness:
  "zeroYieldBackoff 5 \<lparr>zy_limit = 2, zy_base = 30 * minute, zy_max = 6 * hour, zy_pressureMin = hour\<rparr> = 4 * hour"
  using zero_yield_schedule [of "\<lparr>zy_limit = 2, zy_base = 30 * minute, zy_max = 6 * hour, zy_pressureMin = hour\<rparr>" 5]
  by (simp add: valid_yield_policy_def duration_units max_i64_def)

lemma recordPluginYield_entry:
  "tbl_get (cs_Plugins (snd (recordPluginYield plugin z now dg q sb s))) plugin =
     Some (yield_record (tbl_zero zero_plugin_state (cs_Plugins s) plugin) z now dg q sb)"
  by (simp add: recordPluginYield_def Let_def)

text \<open>A run that reclaims nothing after \<open>k\<close> like it, under one configuration, leaves the plugin
  suppressed for the schedule's interval once the limit is reached, and not at all before.\<close>

theorem zero_yield_runs_suppress:
  assumes "valid_yield_policy q" "zero_yield_count dg s plugin = 0" "\<forall>a\<in>set earlier. snd a"
  defines "s' \<equiv> foldl (\<lambda>s a. yield_outcome dg q plugin a False s) s earlier"
    and "n \<equiv> int (length earlier) + 1"
  shows "ps_SuppressedUntil (fst (recordPluginYield plugin True now dg q True s')) =
    (if n < zy_limit q then NoStamp else format_stamp (now + min (zy_max q) (zy_base q * 2 ^ nat (n - zy_limit q))))"
proof -
  have "zero_yield_count dg s' plugin = int (length earlier)"
    using yield_streak.failing_run [of q dg plugin s earlier] assms(1,2) by (simp add: s'_def valid_yield_policy_def)
  then have c: "(let r = tbl_zero zero_plugin_state (cs_Plugins s') plugin
      in if ps_ConfigDigest r \<noteq> dg then 0 else ps_ZeroYieldCount r) + 1 = n"
    by (simp add: zero_yield_count_def n_def Let_def split: if_splits)
  have lim: "0 < zy_limit q" "0 < zy_base q" "0 < zy_max q" using assms(1) by (auto simp: valid_yield_policy_def)
  have rec: "ps_SuppressedUntil (fst (recordPluginYield plugin True now dg q True s')) =
      (if 0 < zeroYieldBackoff n q then format_stamp (now + zeroYieldBackoff n q) else NoStamp)"
    using c lim(1) by (simp add: recordPluginYield_def yield_record_def Let_def)
  show ?thesis
  proof (cases "n < zy_limit q")
    case True
    then have "zeroYieldBackoff n q = 0" by (simp add: zeroYieldBackoff_def)
    with True rec show ?thesis by simp
  next
    case False
    then have "zeroYieldBackoff n q = min (zy_max q) (zy_base q * 2 ^ nat (n - zy_limit q))"
      using zero_yield.closed_form_at [OF assms(1)] by simp
    moreover have "0 < min (zy_max q) (zy_base q * 2 ^ nat (n - zy_limit q))" using lim by simp
    ultimately show ?thesis using False rec by simp
  qed
qed

theorem zero_yield_runs_suppress_witness:
  "ps_SuppressedUntil (fst (recordPluginYield ''nix'' True (10 * minute) ''d''
      \<lparr>zy_limit = 2, zy_base = 30 * minute, zy_max = 6 * hour, zy_pressureMin = hour\<rparr> True
      (foldl (\<lambda>s a. yield_outcome ''d'' \<lparr>zy_limit = 2, zy_base = 30 * minute, zy_max = 6 * hour, zy_pressureMin = hour\<rparr> ''nix'' a False s)
         newCleanupState [(0, True)]))) = format_stamp (40 * minute)"
  using zero_yield_runs_suppress [of "\<lparr>zy_limit = 2, zy_base = 30 * minute, zy_max = 6 * hour, zy_pressureMin = hour\<rparr>" "''d''"
      newCleanupState "''nix''" "[(0, True)]" "10 * minute"]
  by (simp add: valid_yield_policy_def duration_units max_i64_def zero_yield_count_def newCleanupState_def tbl_zero_def
      zero_plugin_state_def)

text \<open>The byte counter of a path is the number of attempts since the last one that made progress,
  whatever happened in between on other paths; at a higher level it starts from zero.\<close>

theorem byte_counter_is_failure_streak:
  assumes "p \<noteq> []"
  shows "byteNoProgressCount (foldl (\<lambda>s (a, progress). byte_outcome level p a progress s) s os) p level =
    (if True \<in> snd ` set os then int (trailing_failures (map snd os)) else byteNoProgressCount s p level + int (length os))"
  using byte_streak.run_count [of p level s os] assms by simp

theorem byte_counter_is_failure_streak_witness:
  "byteNoProgressCount (foldl (\<lambda>s (a, progress). byte_outcome 4 ''/h'' a progress s) newCleanupState
     [((0, [], 0, False), True), ((0, [], 1, False), False), ((0, [], 2, False), False)]) ''/h'' 4 = 2"
  using byte_counter_is_failure_streak [of "''/h''" 4 newCleanupState
      "[((0, [], 0, False), True), ((0, [], 1, False), False), ((0, [], 2, False), False)]"]
  by (simp add: trailing_failures_def)

text \<open>Lifting leaves no plugin suppressed at any level, time or configuration, and changes nothing
  else of the state: counters and last runs stay.\<close>

theorem lift_clears_every_suppression:
  "\<not> ys_suppressed (zeroYieldSuppression (snd (liftZeroYieldSuppression s)) plugin level now digest) \<and>
   cooldownRemaining (snd (liftZeroYieldSuppression s)) plugin level now c = cooldownRemaining s plugin level now c \<and>
   cs_Bytes (snd (liftZeroYieldSuppression s)) = cs_Bytes s \<and> cs_Inodes (snd (liftZeroYieldSuppression s)) = cs_Inodes s \<and>
   pluginLastRun (snd (liftZeroYieldSuppression s)) plugin = pluginLastRun s plugin"
proof -
  have get: "tbl_get (map (\<lambda>(name, r). (name, r\<lparr>ps_SuppressedUntil := NoStamp\<rparr>)) t) k =
      map_option (\<lambda>r. r\<lparr>ps_SuppressedUntil := NoStamp\<rparr>) (tbl_get t k)" for t and k :: string
    by (induction t) (auto simp: tbl_get_def)
  show ?thesis
    by (auto simp: liftZeroYieldSuppression_def zeroYieldSuppression_def cooldownRemaining_def pluginLastRun_def tbl_zero_def get
        zero_plugin_state_def Let_def split: option.split)
qed

end
