(* ===== verification/State_Store.thy ===== *)
theory State_Store
  imports State_File
begin

text \<open>
  The state file on disk, \<open>state.go\<close>: the atomic save, and the load with its quarantine of a
  document that does not decode.  A file is what \<open>json.Unmarshal\<close> can tell about it; system
  calls fail as the fault record says.
\<close>

subsection \<open>Documents and files\<close>

text \<open>A decoded JSON object: a field is absent (or \<open>null\<close>) or holds a value.\<close>

record state_doc =
  sd_Version :: "int option"
  sd_Plugins :: "plugin_state_record table option"
  sd_Inodes :: "inode_progress_record table option"
  sd_Bytes :: "byte_progress_record table option"

text \<open>\<open>Partial d\<close> is a proper prefix of the text of \<open>d\<close>, what an interrupted write leaves.\<close>

datatype file_content = EmptyFile | Garbage string | Partial state_doc | StateDoc state_doc

type_synonym files = "path \<Rightarrow> file_content option"

text \<open>\<open>omitempty\<close> drops an empty inode or byte map.\<close>

definition encode_state :: "cleanup_state \<Rightarrow> state_doc" where
  "encode_state s =
     \<lparr>sd_Version = Some (cs_Version s), sd_Plugins = Some (cs_Plugins s),
      sd_Inodes = (if cs_Inodes s = [] then None else Some (cs_Inodes s)),
      sd_Bytes = (if cs_Bytes s = [] then None else Some (cs_Bytes s))\<rparr>"

definition field_or :: "'a \<Rightarrow> 'a option \<Rightarrow> 'a" where
  "field_or z f = (case f of None \<Rightarrow> z | Some v \<Rightarrow> v)"

definition decode_state :: "state_doc \<Rightarrow> cleanup_state" where
  "decode_state d =
     (let version = field_or cleanupStateVersion (sd_Version d)
      in \<lparr>cs_Version = (if version < cleanupStateVersion then cleanupStateVersion else version),
          cs_Plugins = field_or [] (sd_Plugins d), cs_Inodes = field_or [] (sd_Inodes d),
          cs_Bytes = field_or [] (sd_Bytes d)\<rparr>)"

subsection \<open>Faults of the system calls\<close>

text \<open>
  \<open>sf_suffix\<close> is the random part of the name \<open>os.CreateTemp\<close> picks; the other fields say which
  call fails and with what.
\<close>

record store_faults =
  sf_read :: "string option"
  sf_lstat :: "path \<Rightarrow> string option"
  sf_quarantine :: "string option"
  sf_mkdir :: "string option"
  sf_create :: "string option"
  sf_write :: "string option"
  sf_sync :: "string option"
  sf_chmod :: "string option"
  sf_close :: "string option"
  sf_rename :: "string option"
  sf_remove :: "string option"
  sf_suffix :: string

definition no_faults :: "string \<Rightarrow> store_faults" where
  "no_faults suf =
     \<lparr>sf_read = None, sf_lstat = (\<lambda>_. None), sf_quarantine = None, sf_mkdir = None, sf_create = None,
      sf_write = None, sf_sync = None, sf_chmod = None, sf_close = None, sf_rename = None,
      sf_remove = None, sf_suffix = suf\<rparr>"

subsection \<open>Save\<close>

definition file_base :: "path \<Rightarrow> string" where "file_base p = rev (takeWhile (\<lambda>c. c \<noteq> CHR ''/'') (rev p))"
definition file_dir :: "path \<Rightarrow> path" where "file_dir p = rev (dropWhile (\<lambda>c. c \<noteq> CHR ''/'') (rev p))"

definition temp_name :: "path \<Rightarrow> string \<Rightarrow> path" where
  "temp_name p suf = file_dir p @ ''.'' @ file_base p @ ''.tmp-'' @ suf"

lemma temp_name_fresh [simp]: "temp_name p suf \<noteq> p" "p \<noteq> temp_name p suf"
proof -
  have "file_dir p @ file_base p = p"
    by (metis file_base_def file_dir_def rev_append rev_rev_ident takeWhile_dropWhile_id)
  then have "length (file_dir p) + length (file_base p) = length p" by (metis length_append)
  then have "length p < length (temp_name p suf)" by (simp add: temp_name_def)
  then show "temp_name p suf \<noteq> p" "p \<noteq> temp_name p suf" by auto
qed

text \<open>The first call that fails, in program order, between the write and the rename.\<close>

definition first_fault :: "string option list \<Rightarrow> string option" where
  "first_fault fs = fold (\<lambda>f found. case found of Some e \<Rightarrow> Some e | None \<Rightarrow> f) fs None"

text \<open>
  The file-system states a save passes through, oldest first, and its error.  A crash leaves
  one of them (or the state before).  Any error after the temporary file exists removes it.
\<close>

definition saveCleanupState :: "store_faults \<Rightarrow> path \<Rightarrow> cleanup_state \<Rightarrow> files \<Rightarrow> files list \<times> string option" where
  "saveCleanupState f p s fs =
     (if p = [] then ([], None)
      else case first_fault [sf_mkdir f, sf_create f] of
        Some e \<Rightarrow> ([], Some e)
      | None \<Rightarrow>
          (let tmp = temp_name p (sf_suffix f);
               created = fs(tmp \<mapsto> EmptyFile);
               partial = fs(tmp \<mapsto> Partial (encode_state s));
               written = fs(tmp \<mapsto> StateDoc (encode_state s));
               removed = (\<lambda>x. if sf_remove f = None then x(tmp := None) else x)
           in case sf_write f of
                Some e \<Rightarrow> ([created, partial, removed partial], Some e)
              | None \<Rightarrow>
                  (case first_fault [sf_sync f, sf_chmod f, sf_close f, sf_rename f] of
                     Some e \<Rightarrow> ([created, partial, written, removed written], Some e)
                   | None \<Rightarrow> ([created, partial, written,
                              written(tmp := None, p \<mapsto> StateDoc (encode_state s))], None))))"

text \<open>The files and the error a finished save leaves.\<close>

definition save_result :: "store_faults \<Rightarrow> path \<Rightarrow> cleanup_state \<Rightarrow> files \<Rightarrow> files \<times> string option" where
  "save_result f p s fs = (case saveCleanupState f p s fs of (states, err) \<Rightarrow> (last (fs # states), err))"

subsection \<open>Quarantine\<close>

text \<open>The \<open>20060102T150405Z\<close> layout.\<close>

definition compact_stamp :: "instant \<Rightarrow> string" where
  "compact_stamp t =
     (let s = t div second; sod = s mod 86400
      in case civil_date (s div 86400) of
           (y, m, d) \<Rightarrow> show_padded 4 y @ show_padded 2 m @ show_padded 2 d @ ''T'' @
             show_padded 2 (sod div 3600) @ show_padded 2 (sod div 60 mod 60) @ show_padded 2 (sod mod 60) @ ''Z'')"

text \<open>The loop over candidate names: \<open>n\<close> is \<open>101 - i\<close>, so \<open>i > 100\<close> is \<open>n = 0\<close>.\<close>

fun free_name :: "(path \<Rightarrow> string option) \<Rightarrow> files \<Rightarrow> path \<Rightarrow> nat \<Rightarrow> int \<Rightarrow> path \<Rightarrow> string + path" where
  "free_name lstat fs base n i target =
     (case lstat target of
        Some e \<Rightarrow> Inl e
      | None \<Rightarrow>
          (if fs target = None then Inr target
           else case n of
                  0 \<Rightarrow> Inl (''no free quarantine name'')
                | Suc m \<Rightarrow> free_name lstat fs base m (i + 1) (base @ ''-'' @ show_int i)))"

declare free_name.simps [simp del]

definition quarantineCleanupState :: "store_faults \<Rightarrow> path \<Rightarrow> instant \<Rightarrow> files \<Rightarrow> (string + path) \<times> files" where
  "quarantineCleanupState f p now fs =
     (let base = p @ ''.corrupt-'' @ compact_stamp now
      in case free_name (sf_lstat f) fs base 100 1 base of
           Inl e \<Rightarrow> (Inl e, fs)
         | Inr target \<Rightarrow>
             (case sf_quarantine f of
                Some e \<Rightarrow> (Inl e, fs)
              | None \<Rightarrow> (Inr target, fs(target := fs p, p := None))))"

subsection \<open>Load\<close>

text \<open>The state with the quarantine path (empty: none), or the error; and the files after it.\<close>

definition loadCleanupState ::
    "store_faults \<Rightarrow> path \<Rightarrow> instant \<Rightarrow> files \<Rightarrow> (string + cleanup_state \<times> path) \<times> files" where
  "loadCleanupState f p now fs =
     (if p = [] then (Inr (newCleanupState, []), fs)
      else case sf_read f of
        Some e \<Rightarrow> (Inl e, fs)
      | None \<Rightarrow>
          (case fs p of
             None \<Rightarrow> (Inr (newCleanupState, []), fs)
           | Some EmptyFile \<Rightarrow> (Inr (newCleanupState, []), fs)
           | Some (StateDoc d) \<Rightarrow> (Inr (decode_state d, []), fs)
           | Some _ \<Rightarrow>
               (case quarantineCleanupState f p now fs of
                  (Inl e, fs') \<Rightarrow> (Inl (''decode cleanup state; quarantine failed: '' @ e), fs')
                | (Inr q, fs') \<Rightarrow> (Inr (newCleanupState, q), fs'))))"

subsection \<open>The document round trip\<close>

lemma decode_encode: "cleanupStateVersion \<le> cs_Version s \<Longrightarrow> decode_state (encode_state s) = s"
  by (cases s) (auto simp: decode_state_def encode_state_def field_or_def Let_def)

lemma decode_version: "cleanupStateVersion \<le> cs_Version (decode_state d)"
  by (simp add: decode_state_def Let_def)

subsection \<open>The state file is an atomic document\<close>

lemmas save_cases = saveCleanupState_def Let_def

interpretation state_document: atomic_document
    "\<lambda>f fs. p \<noteq> [] \<and> fs (temp_name p (sf_suffix f)) = None"
    "\<lambda>f s fs. fst (saveCleanupState f p s fs)" "\<lambda>f s fs. snd (saveCleanupState f p s fs) = None"
    "\<lambda>fs. fs p" "\<lambda>s. StateDoc (encode_state s)"
  for p :: path
  by unfold_locales (auto simp: save_cases split: option.splits if_splits)

lemma save_frame:
  "fs' \<in> set (fst (saveCleanupState f p s fs)) \<Longrightarrow> x \<noteq> p \<Longrightarrow> x \<noteq> temp_name p (sf_suffix f) \<Longrightarrow> fs' x = fs x"
  by (auto simp: save_cases split: option.splits if_splits)

lemma save_result_ok:
  "p \<noteq> [] \<Longrightarrow> save_result f p s fs = (fs', None) \<Longrightarrow>
     fs' = fs(temp_name p (sf_suffix f) := None, p \<mapsto> StateDoc (encode_state s))"
  by (auto simp: save_result_def save_cases split: option.splits if_splits)

text \<open>A failed save leaves every file as it was, if the temporary file can be removed.\<close>

lemma save_result_error:
  assumes "save_result f p s fs = (fs', Some e)" "sf_remove f = None" "fs (temp_name p (sf_suffix f)) = None"
  shows "fs' = fs"
  using assms by (auto simp: save_result_def save_cases fun_upd_idem split: option.splits if_splits)

lemma save_no_faults: "snd (save_result (no_faults suf) p s fs) = None"
  by (simp add: save_result_def save_cases no_faults_def first_fault_def)

subsection \<open>Readable documents\<close>

text \<open>A document the loader accepts without quarantine.\<close>

fun readable :: "file_content \<Rightarrow> bool" where
  "readable (Garbage t) = False"
| "readable (Partial d) = False"
| "readable _ = True"

lemma load_readable:
  assumes "sf_read f = None" "fs p = None \<or> (\<exists>c. fs p = Some c \<and> readable c)"
  shows "\<exists>s. loadCleanupState f p now fs = (Inr (s, []), fs)"
  using assms by (auto simp: loadCleanupState_def split: option.splits file_content.splits)

lemma load_doc: "sf_read f = None \<Longrightarrow> p \<noteq> [] \<Longrightarrow> fs p = Some (StateDoc d) \<Longrightarrow> loadCleanupState f p now fs = (Inr (decode_state d, []), fs)"
  by (simp add: loadCleanupState_def)

lemma load_version:
  "loadCleanupState f p now fs = (Inr (s, q), fs') \<Longrightarrow> cleanupStateVersion \<le> cs_Version s"
  by (auto simp: loadCleanupState_def newCleanupState_def decode_version
      split: if_splits option.splits file_content.splits prod.splits sum.splits)

subsection \<open>Properties\<close>

text \<open>C9: A crash at any point of a save leaves the state file either as it was or complete and new;
  no other file is touched, and the next load gets the old state or the new one, never a
  quarantined half of one.\<close>

theorem save_survives_crash:
  assumes "p \<noteq> []" "fs (temp_name p (sf_suffix f)) = None" "fs' \<in> set (fs # fst (saveCleanupState f p s fs))"
    and "fs p = None \<or> (\<exists>c. fs p = Some c \<and> readable c)" "cleanupStateVersion \<le> cs_Version s" "sf_read g = None"
  shows "(\<forall>x. x \<noteq> p \<and> x \<noteq> temp_name p (sf_suffix f) \<longrightarrow> fs' x = fs x) \<and>
    (\<exists>r. loadCleanupState g p now fs' = (Inr (r, []), fs') \<and> (r = s \<or> loadCleanupState g p now fs = (Inr (r, []), fs)))"
proof
  show "\<forall>x. x \<noteq> p \<and> x \<noteq> temp_name p (sf_suffix f) \<longrightarrow> fs' x = fs x"
    using assms(3) save_frame by auto
  have r: "p \<noteq> [] \<and> fs (temp_name p (sf_suffix f)) = None" using assms(1,2) by simp
  have doc: "readable (StateDoc (encode_state s))" by simp
  have "fs' = fs \<or> fs' \<in> set (fst (saveCleanupState f p s fs))" using assms(3) by auto
  then have ok: "fs' p = None \<or> (\<exists>c. fs' p = Some c \<and> readable c)"
    by (rule state_document.crash_safe [of p fs f fs' s readable, OF r _ assms(4) doc])
  show "\<exists>r. loadCleanupState g p now fs' = (Inr (r, []), fs') \<and> (r = s \<or> loadCleanupState g p now fs = (Inr (r, []), fs))"
  proof (cases "fs' p = Some (StateDoc (encode_state s))")
    case True
    from load_doc [of g p fs' "encode_state s" now] True assms(1,6) decode_encode [OF assms(5)] show ?thesis by simp
  next
    case False
    with assms(3) state_document.old_or_new [of p fs f fs' s] r have same: "fs' p = fs p" by auto
    obtain r where "loadCleanupState g p now fs' = (Inr (r, []), fs')" using load_readable [of g fs' p now, OF assms(6) ok] by blast
    moreover from this have "loadCleanupState g p now fs = (Inr (r, []), fs)"
      using same ok assms(1,6) by (auto simp: loadCleanupState_def split: option.splits file_content.splits)
    ultimately show ?thesis by blast
  qed
qed

theorem save_survives_crash_witness:
  "\<exists>r. loadCleanupState (no_faults []) ''/s'' 0 ((\<lambda>_. None)(temp_name ''/s'' ''1'' \<mapsto> Partial (encode_state newCleanupState)))
     = (Inr (r, []), (\<lambda>_. None)(temp_name ''/s'' ''1'' \<mapsto> Partial (encode_state newCleanupState)))"
proof -
  have "(\<lambda>_. None)(temp_name ''/s'' ''1'' \<mapsto> Partial (encode_state newCleanupState))
      \<in> set ((\<lambda>_. None) # fst (saveCleanupState (no_faults ''1'') ''/s'' newCleanupState (\<lambda>_. None)))"
    by (simp add: save_cases no_faults_def first_fault_def)
  from save_survives_crash [OF _ _ this, of "no_faults []" 0] show ?thesis
    by (auto simp: no_faults_def newCleanupState_def)
qed

subsection \<open>Quarantine\<close>

text \<open>The names a quarantine tries, in order.\<close>

definition quarantine_names :: "path \<Rightarrow> instant \<Rightarrow> path list" where
  "quarantine_names p now =
     (let base = p @ ''.corrupt-'' @ compact_stamp now in base # map (\<lambda>k. base @ ''-'' @ show_int k) [1..100])"

definition name_taken :: "store_faults \<Rightarrow> files \<Rightarrow> path \<Rightarrow> bool" where
  "name_taken f fs x = (sf_lstat f x = None \<and> fs x \<noteq> None)"

lemma free_name_search:
  "free_name lstat fs base n i target =
     (case dropWhile (\<lambda>x. lstat x = None \<and> fs x \<noteq> None) (target # map (\<lambda>k. base @ ''-'' @ show_int k) [i..i + int n - 1]) of
        [] \<Rightarrow> Inl ''no free quarantine name''
      | x # _ \<Rightarrow> (case lstat x of Some e \<Rightarrow> Inl e | None \<Rightarrow> Inr x))"
proof (induction n arbitrary: i target)
  case 0
  show ?case by (simp add: free_name.simps split: option.split)
next
  case (Suc n)
  have names: "[i..i + int (Suc n) - 1] = i # [i + 1..i + 1 + int n - 1]" by (simp add: upto_rec1)
  show ?case unfolding names by (subst free_name.simps) (auto simp: Suc.IH split: option.split)
qed

lemma quarantine_search:
  "quarantineCleanupState f p now fs =
     (case dropWhile (name_taken f fs) (quarantine_names p now) of
        [] \<Rightarrow> (Inl ''no free quarantine name'', fs)
      | x # _ \<Rightarrow>
          (case sf_lstat f x of
             Some e \<Rightarrow> (Inl e, fs)
           | None \<Rightarrow> (case sf_quarantine f of Some e \<Rightarrow> (Inl e, fs) | None \<Rightarrow> (Inr x, fs(x := fs p, p := None)))))"
proof -
  have name: "free_name (sf_lstat f) fs (p @ ''.corrupt-'' @ compact_stamp now) 100 1 (p @ ''.corrupt-'' @ compact_stamp now) =
      (case dropWhile (name_taken f fs) (quarantine_names p now) of
         [] \<Rightarrow> Inl ''no free quarantine name''
       | x # _ \<Rightarrow> (case sf_lstat f x of Some e \<Rightarrow> Inl e | None \<Rightarrow> Inr x))"
    unfolding free_name_search quarantine_names_def Let_def name_taken_def [abs_def] by simp
  show ?thesis
  proof (cases "dropWhile (name_taken f fs) (quarantine_names p now)")
    case Nil
    show ?thesis unfolding quarantineCleanupState_def Let_def name Nil by simp
  next
    case (Cons x rest)
    show ?thesis unfolding quarantineCleanupState_def Let_def name Cons by (simp split: option.split)
  qed
qed

lemma load_unreadable:
  assumes "p \<noteq> []" "sf_read f = None" "fs p = Some c" "\<not> readable c"
  shows "loadCleanupState f p now fs =
     (case quarantineCleanupState f p now fs of
        (Inl e, fs') \<Rightarrow> (Inl (''decode cleanup state; quarantine failed: '' @ e), fs')
      | (Inr q, fs') \<Rightarrow> (Inr (newCleanupState, q), fs'))"
  using assms by (cases c) (simp_all add: loadCleanupState_def)

lemma next_name: "dropWhile (name_taken f fs) names = x # rest \<Longrightarrow> x \<in> set names \<and> (sf_lstat f x = None \<longrightarrow> fs x = None)"
  using set_dropWhileD [of x "name_taken f fs" names] hd_dropWhile [of "name_taken f fs" names] by (auto simp: name_taken_def)

text \<open>C28: A state file that can be read but does not decode is never lost.  Whatever fails, its content afterwards stands where it was,
  with every file unchanged and the load an error, or under a quarantine name no file had, with every other file
  unchanged and the load going on with fresh state.  When the names can be examined, one of them is free and the rename
  works, the load does go on, and the content stands under the first free name.\<close>

theorem quarantine_preserves_evidence:
  assumes "p \<noteq> []" "sf_read f = None" "fs p = Some c" "\<not> readable c"
  shows "((\<exists>e. loadCleanupState f p now fs = (Inl e, fs))
      \<or> (\<exists>q. q \<in> set (quarantine_names p now) \<and> fs q = None
            \<and> loadCleanupState f p now fs = (Inr (newCleanupState, q), fs(q := Some c, p := None))))
    \<and> ((\<forall>x. sf_lstat f x = None) \<and> sf_quarantine f = None \<longrightarrow>
         (case filter (\<lambda>x. fs x = None) (quarantine_names p now) of
            [] \<Rightarrow> fst (loadCleanupState f p now fs) = Inl ''decode cleanup state; quarantine failed: no free quarantine name''
          | q # _ \<Rightarrow> loadCleanupState f p now fs = (Inr (newCleanupState, q), fs(q := Some c, p := None))))"
proof (cases "dropWhile (name_taken f fs) (quarantine_names p now)")
  case Nil
  then have "\<forall>x\<in>set (quarantine_names p now). name_taken f fs x" by (simp add: dropWhile_eq_Nil_conv)
  then have "filter (\<lambda>x. fs x = None) (quarantine_names p now) = []" by (auto simp: filter_empty_conv name_taken_def)
  moreover have "loadCleanupState f p now fs = (Inl (''decode cleanup state; quarantine failed: no free quarantine name''), fs)"
    unfolding load_unreadable [of p f fs c, OF assms] quarantine_search Nil by simp
  ultimately show ?thesis by simp
next
  case (Cons x rest)
  have x: "x \<in> set (quarantine_names p now)" "sf_lstat f x = None \<Longrightarrow> fs x = None" using next_name [OF Cons] by blast+
  have head: "\<exists>ys. filter (\<lambda>x. fs x = None) (quarantine_names p now) = x # ys" if "\<forall>x. sf_lstat f x = None"
  proof -
    have "quarantine_names p now = takeWhile (name_taken f fs) (quarantine_names p now) @ x # rest"
      using takeWhile_dropWhile_id [of "name_taken f fs" "quarantine_names p now"] Cons by simp
    moreover have "filter (\<lambda>x. fs x = None) (takeWhile (name_taken f fs) (quarantine_names p now)) = []"
      by (auto simp: filter_empty_conv name_taken_def dest: set_takeWhileD)
    ultimately have "filter (\<lambda>x. fs x = None) (quarantine_names p now) = filter (\<lambda>x. fs x = None) (x # rest)"
      by (metis append_Nil filter_append)
    then show ?thesis using x(2) that by simp
  qed
  have load: "loadCleanupState f p now fs =
      (case sf_lstat f x of
         Some e \<Rightarrow> (Inl (''decode cleanup state; quarantine failed: '' @ e), fs)
       | None \<Rightarrow> (case sf_quarantine f of Some e \<Rightarrow> (Inl (''decode cleanup state; quarantine failed: '' @ e), fs)
                 | None \<Rightarrow> (Inr (newCleanupState, x), fs(x := Some c, p := None))))"
    using assms(3) Cons by (simp add: load_unreadable [of p f fs c, OF assms] quarantine_search split: option.split)
  show ?thesis
  proof (cases "sf_lstat f x = None \<and> sf_quarantine f = None")
    case True
    with load have l: "loadCleanupState f p now fs = (Inr (newCleanupState, x), fs(x := Some c, p := None))" by simp
    show ?thesis using l x True head by auto
  next
    case False
    then have "\<exists>e. loadCleanupState f p now fs = (Inl e, fs)" unfolding load by (auto split: option.split)
    with False show ?thesis by auto
  qed
qed

theorem quarantine_preserves_evidence_witness:
  "fst (loadCleanupState (no_faults []) ''/s'' 0 ((\<lambda>_. None)(''/s'' \<mapsto> Garbage ''x''))) =
     Inr (newCleanupState, ''/s.corrupt-19700101T000000Z'') \<and>
   snd (loadCleanupState (no_faults []) ''/s'' 0 ((\<lambda>_. None)(''/s'' \<mapsto> Garbage ''x''))) ''/s.corrupt-19700101T000000Z'' = Some (Garbage ''x'')"
proof -
  define fs :: files where "fs = (\<lambda>_. None)(''/s'' \<mapsto> Garbage ''x'')"
  have names: "\<exists>ys. quarantine_names ''/s'' 0 = ''/s.corrupt-19700101T000000Z'' # ys" 
  proof -
    have "compact_stamp 0 = ''19700101T000000Z''" by code_simp
    then show ?thesis by (simp add: quarantine_names_def Let_def)
  qed
  then have first: "\<exists>ys. filter (\<lambda>x. fs x = None) (quarantine_names ''/s'' 0) = ''/s.corrupt-19700101T000000Z'' # ys"
    by (auto simp: fs_def)
  have "sf_read (no_faults []) = None" "(\<forall>x. sf_lstat (no_faults []) x = None) \<and> sf_quarantine (no_faults []) = None"
    by (simp_all add: no_faults_def)
  moreover have "fs ''/s'' = Some (Garbage ''x'')" "''/s'' \<noteq> []" "\<not> readable (Garbage ''x'')" by (simp_all add: fs_def)
  ultimately have "loadCleanupState (no_faults []) ''/s'' 0 fs =
      (Inr (newCleanupState, ''/s.corrupt-19700101T000000Z''), fs(''/s.corrupt-19700101T000000Z'' := Some (Garbage ''x''), ''/s'' := None))"
    using quarantine_preserves_evidence [of "''/s''" "no_faults []" fs "Garbage ''x''" 0] first by auto
  then show ?thesis by (simp add: fs_def)
qed

text \<open>C29: A load fails exactly for I/O: the file cannot be read; or it does not decode and the rename fails, the base name
  and its hundred numbered variants are all taken, or a name cannot be examined before which every name is taken.\<close>

theorem load_fails_only_for_io:
  "(\<exists>e. fst (loadCleanupState f p now fs) = Inl e) \<longleftrightarrow>
     p \<noteq> [] \<and> ((\<exists>e. sf_read f = Some e) \<or> (\<exists>c. fs p = Some c \<and> \<not> readable c \<and>
       ((\<exists>e. sf_quarantine f = Some e) \<or> list_all (name_taken f fs) (quarantine_names p now) \<or>
        (\<exists>xs x ys. quarantine_names p now = xs @ x # ys \<and> list_all (name_taken f fs) xs \<and> (\<exists>e. sf_lstat f x = Some e)))))"
proof (cases "p \<noteq> [] \<and> sf_read f = None \<and> (\<exists>c. fs p = Some c \<and> \<not> readable c)")
  case True
  then obtain c where c: "p \<noteq> []" "sf_read f = None" "fs p = Some c" "\<not> readable c" by blast
  let ?names = "quarantine_names p now"
  have examined: "(\<exists>xs x ys. ?names = xs @ x # ys \<and> list_all (name_taken f fs) xs \<and> (\<exists>e. sf_lstat f x = Some e))
      \<longleftrightarrow> (\<exists>x rest. dropWhile (name_taken f fs) ?names = x # rest \<and> (\<exists>e. sf_lstat f x = Some e))"
  proof
    assume "\<exists>xs x ys. ?names = xs @ x # ys \<and> list_all (name_taken f fs) xs \<and> (\<exists>e. sf_lstat f x = Some e)"
    then obtain xs x ys where n: "?names = xs @ x # ys" "list_all (name_taken f fs) xs" "(\<exists>e. sf_lstat f x = Some e)" by blast
    then have "dropWhile (name_taken f fs) ?names = x # ys" by (auto simp: dropWhile_append2 list_all_iff name_taken_def)
    with n(3) show "\<exists>x rest. dropWhile (name_taken f fs) ?names = x # rest \<and> (\<exists>e. sf_lstat f x = Some e)" by blast
  next
    assume "\<exists>x rest. dropWhile (name_taken f fs) ?names = x # rest \<and> (\<exists>e. sf_lstat f x = Some e)"
    then obtain x rest where x: "dropWhile (name_taken f fs) ?names = x # rest" "(\<exists>e. sf_lstat f x = Some e)" by blast
    then have "?names = takeWhile (name_taken f fs) ?names @ x # rest" using takeWhile_dropWhile_id [of "name_taken f fs" ?names] by simp
    moreover have "list_all (name_taken f fs) (takeWhile (name_taken f fs) ?names)" by (auto simp: list_all_iff dest: set_takeWhileD)
    ultimately show "\<exists>xs x ys. ?names = xs @ x # ys \<and> list_all (name_taken f fs) xs \<and> (\<exists>e. sf_lstat f x = Some e)" using x(2) by blast
  qed
  have all: "list_all (name_taken f fs) ?names \<longleftrightarrow> dropWhile (name_taken f fs) ?names = []"
    by (simp add: list_all_iff dropWhile_eq_Nil_conv)
  show ?thesis
  proof (cases "dropWhile (name_taken f fs) ?names")
    case Nil
    have "loadCleanupState f p now fs = (Inl (''decode cleanup state; quarantine failed: no free quarantine name''), fs)"
      unfolding load_unreadable [of p f fs c, OF c] quarantine_search Nil by simp
    then show ?thesis unfolding examined all using c Nil by (simp del: dropWhile_eq_Nil_conv)
  next
    case (Cons x rest)
    show ?thesis unfolding examined all load_unreadable [of p f fs c, OF c] quarantine_search Cons
      using c by (auto split: option.split)
  qed
next
  case False
  then show ?thesis
    by (auto simp: loadCleanupState_def split: option.splits file_content.splits)
qed

end
