(* ===== verification/Monitor.thy ===== *)
theory Monitor
  imports Levels
begin

text \<open>
  The disk monitor, \<open>monitor/disk.go\<close>: the statistics of a mount, the byte and inode pressure
  ladders and the level a mount asks for.  \<open>gopsutil\<close>'s \<open>disk.Usage\<close> is code outside the
  repository and is a parameter.
\<close>

subsection \<open>Statistics\<close>

record disk_stats =
  ds_Path :: path
  ds_Total :: u64
  ds_Used :: u64
  ds_Free :: u64
  ds_UsedPercent :: float64
  ds_FreePercent :: float64
  ds_FreeGB :: float64
  ds_InodesTotal :: u64
  ds_InodesUsed :: u64
  ds_InodesFree :: u64
  ds_InodesUsedPercent :: float64
  ds_InodesFreePercent :: float64
  ds_Fstype :: string
  ds_InodesDynamic :: bool

text \<open>What \<open>disk.Usage\<close> reports (gopsutil's \<open>UsageStat\<close>).\<close>

record disk_usage =
  us_Total :: u64
  us_Used :: u64
  us_Free :: u64
  us_UsedPercent :: float64
  us_InodesTotal :: u64
  us_InodesUsed :: u64
  us_InodesFree :: u64
  us_InodesUsedPercent :: float64
  us_Fstype :: string

definition dynamicInodeFilesystems :: "string list" where
  "dynamicInodeFilesystems = [''xfs'', ''apfs'', ''zfs'', ''btrfs'']"

definition DynamicInodeFilesystem :: "string \<Rightarrow> bool" where
  "DynamicInodeFilesystem fstype = (to_lower (trim_space fstype) \<in> set dynamicInodeFilesystems)"

definition inodeFreePercent :: "u64 \<Rightarrow> float64 \<Rightarrow> float64" where
  "inodeFreePercent inodes usedPercent = (if inodes = 0 then 0 else fsub 100 usedPercent)"

definition inodeUsedPercent :: "u64 \<Rightarrow> u64 \<Rightarrow> float64 \<Rightarrow> float64" where
  "inodeUsedPercent inodes used reported =
     (if inodes = 0 then 0
      else if 0 < used then fmul (fdiv (float_of_u64 used) (float_of_u64 inodes)) 100
      else reported)"

definition GetDiskStats :: "(path \<Rightarrow> string + disk_usage) \<Rightarrow> path \<Rightarrow> string + disk_stats" where
  "GetDiskStats disk_Usage p =
     (case disk_Usage p of
        Inl err \<Rightarrow> Inl err
      | Inr usage \<Rightarrow>
          (let used = (if 0 < us_InodesTotal usage \<and> us_InodesFree usage \<le> us_InodesTotal usage
                       then us_InodesTotal usage - us_InodesFree usage else us_InodesUsed usage);
               usedPercent = inodeUsedPercent (us_InodesTotal usage) used (us_InodesUsedPercent usage)
           in Inr \<lparr>ds_Path = p, ds_Total = us_Total usage, ds_Used = us_Used usage, ds_Free = us_Free usage,
                  ds_UsedPercent = us_UsedPercent usage, ds_FreePercent = fsub 100 (us_UsedPercent usage),
                  ds_FreeGB = fdiv (float_of_u64 (us_Free usage)) (1024 * 1024 * 1024),
                  ds_InodesTotal = us_InodesTotal usage, ds_InodesUsed = used,
                  ds_InodesFree = us_InodesFree usage, ds_InodesUsedPercent = usedPercent,
                  ds_InodesFreePercent = inodeFreePercent (us_InodesTotal usage) usedPercent,
                  ds_Fstype = us_Fstype usage,
                  ds_InodesDynamic = DynamicInodeFilesystem (us_Fstype usage)\<rparr>))"

subsection \<open>The monitor and its ladders\<close>

record disk_monitor =
  dm_Warning :: float64
  dm_Moderate :: float64
  dm_Aggressive :: float64
  dm_Critical :: float64
  dm_InodeWarning :: float64
  dm_InodeModerate :: float64
  dm_InodeAggressive :: float64
  dm_InodeCritical :: float64
  dm_InodeFreeFloor :: u64

definition NewDiskMonitorWithInodeThresholds ::
    "int \<Rightarrow> int \<Rightarrow> int \<Rightarrow> int \<Rightarrow> int \<Rightarrow> int \<Rightarrow> int \<Rightarrow> int \<Rightarrow> disk_monitor" where
  "NewDiskMonitorWithInodeThresholds warning moderate aggressive critical iw im ia ic =
     (let iw = (if iw \<le> 0 then warning else iw); im = (if im \<le> 0 then moderate else im);
          ia = (if ia \<le> 0 then aggressive else ia); ic = (if ic \<le> 0 then critical else ic)
      in \<lparr>dm_Warning = float_of_int warning, dm_Moderate = float_of_int moderate,
          dm_Aggressive = float_of_int aggressive, dm_Critical = float_of_int critical,
          dm_InodeWarning = float_of_int iw, dm_InodeModerate = float_of_int im,
          dm_InodeAggressive = float_of_int ia, dm_InodeCritical = float_of_int ic,
          dm_InodeFreeFloor = 0\<rparr>)"

definition NewDiskMonitor :: "int \<Rightarrow> int \<Rightarrow> int \<Rightarrow> int \<Rightarrow> disk_monitor" where
  "NewDiskMonitor warning moderate aggressive critical =
     NewDiskMonitorWithInodeThresholds warning moderate aggressive critical warning moderate aggressive critical"

definition levelForPercent :: "float64 \<Rightarrow> float64 \<Rightarrow> float64 \<Rightarrow> float64 \<Rightarrow> float64 \<Rightarrow> cleanup_level" where
  "levelForPercent usedPercent warning moderate aggressive critical =
     (if critical \<le> usedPercent then LevelCritical
      else if aggressive \<le> usedPercent then LevelAggressive
      else if moderate \<le> usedPercent then LevelModerate
      else if warning \<le> usedPercent then LevelWarning
      else LevelNone)"

definition CheckByteLevel :: "disk_monitor \<Rightarrow> disk_stats \<Rightarrow> cleanup_level" where
  "CheckByteLevel m stats =
     levelForPercent (ds_UsedPercent stats) (dm_Warning m) (dm_Moderate m) (dm_Aggressive m) (dm_Critical m)"

definition CheckInodeLevel :: "disk_monitor \<Rightarrow> disk_stats \<Rightarrow> cleanup_level" where
  "CheckInodeLevel m stats =
     (if ds_InodesTotal stats = 0 then LevelNone
      else if 0 < dm_InodeFreeFloor m
      then (if ds_InodesFree stats < dm_InodeFreeFloor m then LevelCritical else LevelNone)
      else if ds_InodesDynamic stats then LevelNone
      else levelForPercent (ds_InodesUsedPercent stats)
             (dm_InodeWarning m) (dm_InodeModerate m) (dm_InodeAggressive m) (dm_InodeCritical m))"

definition CheckLevel :: "disk_monitor \<Rightarrow> disk_stats \<Rightarrow> cleanup_level" where
  "CheckLevel m stats =
     (if CheckByteLevel m stats < CheckInodeLevel m stats then CheckInodeLevel m stats else CheckByteLevel m stats)"

definition InodeLadderSkipped :: "disk_monitor \<Rightarrow> disk_stats \<Rightarrow> bool" where
  "InodeLadderSkipped m stats =
     (0 < ds_InodesTotal stats \<and> (0 < dm_InodeFreeFloor m \<or> ds_InodesDynamic stats))"

definition Check :: "disk_monitor \<Rightarrow> (path \<Rightarrow> string + disk_usage) \<Rightarrow> path \<Rightarrow> string + disk_stats \<times> cleanup_level" where
  "Check m disk_Usage p =
     (case GetDiskStats disk_Usage p of Inl err \<Rightarrow> Inl err | Inr stats \<Rightarrow> Inr (stats, CheckLevel m stats))"

subsection \<open>The ladder contract\<close>

text \<open>
  What the cycle relies on in a ladder: a higher reading never asks for less, so a level that
  rose means the reading rose.  The contract has two providers, the byte ladder and the
  inode percentage ladder; \<open>'m\<close> is the monitor that carries the thresholds.
\<close>

locale pressure_ladder =
  fixes level :: "'m \<Rightarrow> float64 \<Rightarrow> cleanup_level"
  assumes level_mono: "p \<le> q \<Longrightarrow> level m p \<le> level m q"
begin

lemma escalation_reading: "level m p < level m q \<Longrightarrow> p < q"
  using level_mono [of q p m] by (auto simp: not_le [symmetric])

lemma relief_reading: "q \<le> p \<Longrightarrow> level m p = LevelNone \<Longrightarrow> level m q = LevelNone"
  using level_mono [of q p m] by (metis level_not_none not_le)

end

definition byte_ladder :: "disk_monitor \<Rightarrow> float64 \<Rightarrow> cleanup_level" where
  "byte_ladder m p = levelForPercent p (dm_Warning m) (dm_Moderate m) (dm_Aggressive m) (dm_Critical m)"

definition inode_ladder :: "disk_monitor \<Rightarrow> float64 \<Rightarrow> cleanup_level" where
  "inode_ladder m p =
     levelForPercent p (dm_InodeWarning m) (dm_InodeModerate m) (dm_InodeAggressive m) (dm_InodeCritical m)"

lemma levelForPercent_mono: "p \<le> q \<Longrightarrow> levelForPercent p w m a c \<le> levelForPercent q w m a c"
  by (auto simp: levelForPercent_def level_order)

interpretation byte_steps: pressure_ladder byte_ladder
  by unfold_locales (simp add: byte_ladder_def levelForPercent_mono)

interpretation inode_steps: pressure_ladder inode_ladder
  by unfold_locales (simp add: inode_ladder_def levelForPercent_mono)

lemma CheckByteLevel_ladder: "CheckByteLevel m s = byte_ladder m (ds_UsedPercent s)"
  by (simp add: CheckByteLevel_def byte_ladder_def)

lemma CheckLevel_max: "CheckLevel m s = max (CheckByteLevel m s) (CheckInodeLevel m s)"
  by (auto simp: CheckLevel_def max_def)

lemma CheckInodeLevel_ladder:
  "\<not> InodeLadderSkipped m s \<Longrightarrow> ds_InodesTotal s \<noteq> 0 \<Longrightarrow>
     CheckInodeLevel m s = inode_ladder m (ds_InodesUsedPercent s)"
  by (auto simp: InodeLadderSkipped_def CheckInodeLevel_def inode_ladder_def word_greater_zero_iff)

text \<open>With thresholds below \<open>2 ^ 53\<close>, a monitor carries exactly the configured percentages.\<close>

lemma NewDiskMonitor_thresholds:
  assumes "\<bar>w\<bar> < 2 ^ 53" "\<bar>mo\<bar> < 2 ^ 53" "\<bar>a\<bar> < 2 ^ 53" "\<bar>c\<bar> < 2 ^ 53"
  shows "byte_ladder (NewDiskMonitorWithInodeThresholds w mo a c iw im ia ic) p =
    levelForPercent p (of_int w) (of_int mo) (of_int a) (of_int c)"
  using assms by (simp add: byte_ladder_def NewDiskMonitorWithInodeThresholds_def Let_def float_of_int_small)

subsection \<open>Properties\<close>

text \<open>The byte ladder never escalates on a better reading: a mount whose byte level rose is fuller,
  and one that is no fuller than a mount without pressure has none.\<close>

theorem byte_escalation_means_fuller:
  "(CheckByteLevel m s < CheckByteLevel m s' \<longrightarrow> ds_UsedPercent s < ds_UsedPercent s') \<and>
   (ds_UsedPercent s' \<le> ds_UsedPercent s \<and> CheckByteLevel m s = LevelNone \<longrightarrow> CheckByteLevel m s' = LevelNone)"
  using byte_steps.escalation_reading [of m] byte_steps.relief_reading [of _ _ m] by (auto simp: CheckByteLevel_ladder)

theorem byte_escalation_means_fuller_witness: "(80::float64) < 95"
proof -
  define m where "m = NewDiskMonitor 80 85 90 95"
  define s where "s = (\<lambda>u. \<lparr>ds_Path = [], ds_Total = 0, ds_Used = 0, ds_Free = 0, ds_UsedPercent = u, ds_FreePercent = 0,
    ds_FreeGB = 0, ds_InodesTotal = 0, ds_InodesUsed = 0, ds_InodesFree = 0, ds_InodesUsedPercent = 0,
    ds_InodesFreePercent = 0, ds_Fstype = [], ds_InodesDynamic = False\<rparr>)"
  have "CheckByteLevel m (s 80) < CheckByteLevel m (s 95)"
    by (simp add: m_def s_def CheckByteLevel_def NewDiskMonitor_def NewDiskMonitorWithInodeThresholds_def Let_def
        float_of_int_small levelForPercent_def level_order)
  with byte_escalation_means_fuller [of m "s 80" "s 95"] show ?thesis by (simp add: s_def)
qed

text \<open>Inode pressure follows one rule at a time: an absolute floor, when set, decides alone and is
  all or nothing; without one, a filesystem that allocates inodes dynamically has no inode
  pressure, and any other follows the percentage ladder.\<close>

theorem inode_level_by_rule:
  "CheckInodeLevel m s =
    (if ds_InodesTotal s = 0 then LevelNone
     else if dm_InodeFreeFloor m \<noteq> 0 then (if ds_InodesFree s < dm_InodeFreeFloor m then LevelCritical else LevelNone)
     else if ds_InodesDynamic s then LevelNone else inode_ladder m (ds_InodesUsedPercent s)) \<and>
   CheckLevel m s = max (CheckByteLevel m s) (CheckInodeLevel m s)"
  by (auto simp: CheckInodeLevel_def inode_ladder_def word_greater_zero_iff CheckLevel_max)

end
