(* ===== verification/Reports.thy ===== *)
theory Reports
  imports State_Store Monitor
begin

text \<open>
  What a cycle reports, \<open>main.go\<close>: the cycle report, one report per plugin, one per mount.
  Field names are the code's, prefixed by the record.  A time kept as RFC3339 text is a
  \<open>stamp\<close>.
\<close>

record mount_report =
  mr_Label :: string
  mr_Path :: path
  mr_UsedPercent :: float64
  mr_FreeGB :: float64
  mr_FreeBytes :: u64
  mr_ByteLevel :: string
  mr_InodesTotal :: u64
  mr_InodesFree :: u64
  mr_InodesUsedPercent :: float64
  mr_InodeLevel :: string
  mr_Fstype :: string
  mr_InodesDynamic :: bool
  mr_InodeFreeFloor :: u64
  mr_InodeLadderSkipped :: bool
  mr_Level :: string
  mr_Error :: string

definition zero_mount_report :: mount_report where
  "zero_mount_report =
     \<lparr>mr_Label = [], mr_Path = [], mr_UsedPercent = 0, mr_FreeGB = 0, mr_FreeBytes = 0, mr_ByteLevel = [],
      mr_InodesTotal = 0, mr_InodesFree = 0, mr_InodesUsedPercent = 0, mr_InodeLevel = [], mr_Fstype = [],
      mr_InodesDynamic = False, mr_InodeFreeFloor = 0, mr_InodeLadderSkipped = False, mr_Level = [],
      mr_Error = []\<rparr>"

record plugin_report =
  pr_Name :: string
  pr_Description :: string
  pr_Level :: string
  pr_DryRun :: bool
  pr_LevelIndependent :: bool
  pr_WouldRun :: bool
  pr_Ran :: bool
  pr_SkipReason :: string
  pr_Plan :: "cleanup_plan option"
  pr_BytesFreed :: int
  pr_EstimatedBytesFreed :: int
  pr_CommandBytesFreed :: int
  pr_HostBytesFreed :: int
  pr_ItemsCleaned :: int
  pr_CooldownRemainingSeconds :: int
  pr_RetryAt :: stamp
  pr_ZeroYieldCount :: int
  pr_SuppressedUntil :: stamp
  pr_ZeroYieldLifted :: string
  pr_Error :: string
  pr_Wedged :: string
  pr_WedgedSince :: stamp
  pr_LastCommand :: string
  pr_WedgedCommands :: "string list"

definition zero_plugin_report :: plugin_report where
  "zero_plugin_report =
     \<lparr>pr_Name = [], pr_Description = [], pr_Level = [], pr_DryRun = False, pr_LevelIndependent = False,
      pr_WouldRun = False, pr_Ran = False, pr_SkipReason = [], pr_Plan = None, pr_BytesFreed = 0,
      pr_EstimatedBytesFreed = 0, pr_CommandBytesFreed = 0, pr_HostBytesFreed = 0, pr_ItemsCleaned = 0,
      pr_CooldownRemainingSeconds = 0, pr_RetryAt = NoStamp, pr_ZeroYieldCount = 0,
      pr_SuppressedUntil = NoStamp, pr_ZeroYieldLifted = [], pr_Error = [], pr_Wedged = [],
      pr_WedgedSince = NoStamp, pr_LastCommand = [], pr_WedgedCommands = []\<rparr>"

record cycle_report =
  r_Timestamp :: stamp
  r_DryRun :: bool
  r_ForcedLevel :: bool
  r_Level :: string
  r_MonitorPath :: path
  r_HostFreeBeforeBytes :: u64
  r_HostFreeAfterBytes :: u64
  r_HostFreeDeltaBytes :: int
  r_HostInodesTotal :: u64
  r_HostInodesFreeBefore :: u64
  r_HostInodesFreeAfter :: u64
  r_HostInodesFreeDelta :: int
  r_HostInodesUsedPercentBefore :: float64
  r_HostInodesUsedPercentAfter :: float64
  r_HostInodeLevel :: string
  r_HostByteLevel :: string
  r_MaxInodeLevel :: string
  r_InodeNoProgressCount :: int
  r_InodeBackoff :: bool
  r_HostByteLevelAfter :: string
  r_ByteNoProgressCount :: int
  r_ByteBackoff :: bool
  r_ByteBackoffReason :: string
  r_ByteBackoffSeconds :: int
  r_EmergencyFreeBytes :: u64
  r_HostFreeError :: string
  r_StateFile :: path
  r_StateError :: string
  r_StateQuarantined :: path
  r_CooldownSeconds :: int
  r_CycleDurationMs :: int
  r_NextCycleAt :: stamp
  r_NextRetryAt :: stamp
  r_TargetUsedPercent :: int
  r_TargetFreeBytes :: u64
  r_TargetFreeDeficitBytes :: int
  r_TargetFreeMet :: bool
  r_MinimumFreeBytes :: u64
  r_MinimumFreeDeficitBytes :: int
  r_MinimumFreeMet :: bool
  r_StopReason :: string
  r_PlannedEstimatedBytesFreed :: int
  r_PlannedRequiredFreeBytes :: int
  r_PlannedTargets :: int
  r_TotalBytesFreed :: int
  r_TotalItemsCleaned :: int
  r_LadderBytesFreed :: int
  r_Mounts :: "mount_report list"
  r_PluginFilter :: "string list"
  r_Plugins :: "plugin_report list"

definition zero_cycle_report :: cycle_report where
  "zero_cycle_report =
     \<lparr>r_Timestamp = NoStamp, r_DryRun = False, r_ForcedLevel = False, r_Level = [], r_MonitorPath = [],
      r_HostFreeBeforeBytes = 0, r_HostFreeAfterBytes = 0, r_HostFreeDeltaBytes = 0, r_HostInodesTotal = 0,
      r_HostInodesFreeBefore = 0, r_HostInodesFreeAfter = 0, r_HostInodesFreeDelta = 0,
      r_HostInodesUsedPercentBefore = 0, r_HostInodesUsedPercentAfter = 0, r_HostInodeLevel = [],
      r_HostByteLevel = [], r_MaxInodeLevel = [], r_InodeNoProgressCount = 0, r_InodeBackoff = False,
      r_HostByteLevelAfter = [], r_ByteNoProgressCount = 0, r_ByteBackoff = False, r_ByteBackoffReason = [],
      r_ByteBackoffSeconds = 0, r_EmergencyFreeBytes = 0, r_HostFreeError = [], r_StateFile = [],
      r_StateError = [], r_StateQuarantined = [], r_CooldownSeconds = 0, r_CycleDurationMs = 0,
      r_NextCycleAt = NoStamp, r_NextRetryAt = NoStamp, r_TargetUsedPercent = 0, r_TargetFreeBytes = 0,
      r_TargetFreeDeficitBytes = 0, r_TargetFreeMet = False, r_MinimumFreeBytes = 0,
      r_MinimumFreeDeficitBytes = 0, r_MinimumFreeMet = False, r_StopReason = [],
      r_PlannedEstimatedBytesFreed = 0, r_PlannedRequiredFreeBytes = 0, r_PlannedTargets = 0,
      r_TotalBytesFreed = 0, r_TotalItemsCleaned = 0, r_LadderBytesFreed = 0, r_Mounts = [],
      r_PluginFilter = [], r_Plugins = []\<rparr>"

subsection \<open>The host and the daemon\<close>

text \<open>What the daemon observes of the host: the clock, \<open>disk.Usage\<close> as \<open>diskStats\<close> returns it, and the state directory.\<close>

record host =
  h_clock :: instant
  h_stats :: "path \<Rightarrow> string + disk_stats"
  h_files :: files

text \<open>
  The daemon's fields that a cycle reads.  \<open>d_digest\<close> is \<open>configDigest\<close> (a SHA-256 of the
  configuration and version), \<open>d_home\<close> is \<open>os.UserHomeDir\<close> (none on error), \<open>d_goos\<close> is
  \<open>runtime.GOOS\<close>, \<open>d_shutdown\<close> when the daemon's context is cancelled, if ever.
\<close>

record daemon =
  d_config :: config
  d_registry :: "host registry"
  d_monitor :: disk_monitor
  d_dryRun :: bool
  d_pluginFilter :: "string list"
  d_pluginGrace :: duration
  d_digest :: string
  d_home :: "string option"
  d_goos :: string
  d_shutdown :: "instant option"

end
