(* ===== verification/Paths.thy ===== *)
theory Paths
  imports Prelude
begin

text \<open>
  The lexical operations of \<open>path/filepath\<close> on Unix paths that the daemon and its plugins use:
  \<open>Clean\<close>, \<open>Join\<close>, \<open>Dir\<close>, \<open>Base\<close>, \<open>IsAbs\<close>.  None of them looks at the file system.
\<close>

definition is_abs :: "path \<Rightarrow> bool" where "is_abs p = prefix ''/'' p"

text \<open>One path element of \<open>Clean\<close>; the accumulator holds the kept elements, last first.\<close>

definition clean_step :: "bool \<Rightarrow> string list \<Rightarrow> string \<Rightarrow> string list" where
  "clean_step rooted acc part =
     (if part = [] \<or> part = ''.'' then acc
      else if part = ''..''
      then (case acc of
              [] \<Rightarrow> (if rooted then [] else [part])
            | q # qs \<Rightarrow> (if q = ''..'' then part # acc else qs))
      else part # acc)"

definition clean_elements :: "path \<Rightarrow> string list" where
  "clean_elements p = rev (foldl (clean_step (is_abs p)) [] (split_on CHR ''/'' p))"

definition clean_path :: "path \<Rightarrow> path" where
  "clean_path p =
     (if p = [] then ''.''
      else if is_abs p then ''/'' @ join_strings ''/'' (clean_elements p)
      else if clean_elements p = [] then ''.''
      else join_strings ''/'' (clean_elements p))"

definition join_path :: "path list \<Rightarrow> path" where
  "join_path parts =
     (let ps = filter (\<lambda>p. p \<noteq> []) parts in if ps = [] then [] else clean_path (join_strings ''/'' ps))"

definition dir_part :: "path \<Rightarrow> path" where "dir_part p = rev (dropWhile (\<lambda>c. c \<noteq> CHR ''/'') (rev p))"

definition path_dir :: "path \<Rightarrow> path" where "path_dir p = clean_path (dir_part p)"

definition path_base :: "path \<Rightarrow> path" where
  "path_base p =
     (if p = [] then ''.''
      else let q = rev (dropWhile (\<lambda>c. c = CHR ''/'') (rev p))
           in if q = [] then ''/'' else rev (takeWhile (\<lambda>c. c \<noteq> CHR ''/'') (rev q)))"

text \<open>\<open>expandHome\<close> of \<open>plugins/devartifacts.go\<close>.\<close>

definition expandHome :: "path \<Rightarrow> path \<Rightarrow> path" where
  "expandHome p home =
     (if prefix ''~/'' p then join_path [home, drop 2 p] else if p = ''~'' then home else p)"

text \<open>A rooted path keeps no element that could climb: every element is a proper name.\<close>

definition proper_element :: "string \<Rightarrow> bool" where
  "proper_element e = (e \<noteq> [] \<and> e \<noteq> ''.'' \<and> e \<noteq> ''..'')"

lemma clean_step_rooted: "list_all proper_element acc \<Longrightarrow> list_all proper_element (clean_step True acc part)"
  by (auto simp: clean_step_def proper_element_def split: list.splits)

lemma clean_elements_rooted:
  assumes "is_abs p"
  shows "list_all proper_element (clean_elements p)"
proof -
  have "list_all proper_element (foldl (clean_step True) acc parts)" if "list_all proper_element acc" for acc parts
    using that by (induction parts arbitrary: acc) (auto simp: clean_step_rooted)
  with assms show ?thesis by (simp add: clean_elements_def list_all_rev)
qed

subsection \<open>The last element of a joined path\<close>

lemma split_on_nonempty: "split_on c s \<noteq> []"
  by (induction s) (auto split: list.splits)

lemma split_on_append: "split_on c (d @ c # e) = split_on c d @ split_on c e"
  using split_on_nonempty [of c] by (induction d) (auto split: list.splits)

lemma split_on_single: "c \<notin> set e \<Longrightarrow> split_on c e = [e]"
  by (induction e) auto

lemma join_strings_snoc:
  "join_strings sep (xs @ [e]) = (if xs = [] then e else join_strings sep xs @ sep @ e)"
  by (induction sep xs rule: join_strings.induct) auto

lemma clean_elements_last:
  assumes "proper_element e" "CHR ''/'' \<notin> set e" "p = e \<or> p = d @ ''/'' @ e"
  obtains xs where "clean_elements p = xs @ [e]"
proof -
  have last_step: "foldl (clean_step r) acc (parts @ [e]) = e # foldl (clean_step r) acc parts" for r acc parts
    using assms(1) by (simp add: clean_step_def proper_element_def)
  have "\<exists>parts. split_on CHR ''/'' p = parts @ [e]"
    using assms(2,3) split_on_append [of "CHR ''/''" d e] split_on_single [of "CHR ''/''" e] by auto
  then obtain parts where "split_on CHR ''/'' p = parts @ [e]" ..
  with last_step [of "is_abs p" "[]" parts] have "clean_elements p = rev (foldl (clean_step (is_abs p)) [] parts) @ [e]"
    by (simp add: clean_elements_def)
  then show thesis by (rule that)
qed

lemma path_base_last:
  assumes "e \<noteq> []" "CHR ''/'' \<notin> set e" "y = [] \<or> last y = CHR ''/''"
  shows "path_base (y @ e) = e"
proof -
  have "last e \<noteq> CHR ''/''" using assms(1,2) by (metis last_in_set)
  then have d: "dropWhile (\<lambda>c. c = CHR ''/'') (rev (y @ e)) = rev (y @ e)"
    using assms(1) by (cases e rule: rev_cases) auto
  have "takeWhile (\<lambda>c. c \<noteq> CHR ''/'') (rev (y @ e)) = rev e"
  proof (cases y rule: rev_cases)
    case Nil
    then show ?thesis using assms(2) by (auto simp: takeWhile_eq_all_conv)
  next
    case (snoc ys c)
    then have "takeWhile (\<lambda>c. c \<noteq> CHR ''/'') (rev e @ CHR ''/'' # rev ys) = rev e"
      using assms(2) by (subst takeWhile_append2) auto
    then show ?thesis using snoc assms(3) by simp
  qed
  with d assms(1) show ?thesis unfolding path_base_def Let_def by simp
qed

lemma path_base_join:
  assumes "proper_element e" "CHR ''/'' \<notin> set e"
  shows "path_base (join_path [d, e]) = e"
proof -
  have e: "e \<noteq> []" using assms(1) by (simp add: proper_element_def)
  define p where "p = (if d = [] then e else d @ ''/'' @ e)"
  have p: "join_path [d, e] = clean_path p" "p \<noteq> []" using e by (auto simp: join_path_def p_def)
  have "p = e \<or> p = d @ ''/'' @ e" by (simp add: p_def)
  from clean_elements_last [OF assms this] obtain xs where xs: "clean_elements p = xs @ [e]" .
  obtain y where "join_strings ''/'' (xs @ [e]) = y @ e" "y = [] \<or> last y = CHR ''/''"
    using that [of "[]"] that [of "join_strings ''/'' xs @ ''/''"]
    by (cases "xs = []") (simp_all add: join_strings_snoc)
  then have "path_base (clean_path p) = e"
    using p(2) e assms(2) path_base_last [of e y] path_base_last [of e "''/'' @ y"]
    by (auto simp: clean_path_def xs)
  with p(1) show ?thesis by simp
qed

subsection \<open>Rooted paths are clean element lists\<close>

lemma split_on_elements: "e \<in> set (split_on c s) \<Longrightarrow> c \<notin> set e"
proof (induction s arbitrary: e)
  case (Cons d s)
  then show ?case by (cases "split_on c s") (auto split: if_splits)
qed simp

text \<open>A path element: proper and without a separator.\<close>

definition plain_element :: "string \<Rightarrow> bool" where
  "plain_element e = (proper_element e \<and> CHR ''/'' \<notin> set e)"

lemma clean_step_set: "set (clean_step r acc part) \<subseteq> insert part (set acc)"
  by (auto simp: clean_step_def split: list.splits)

lemma foldl_clean_set: "set (foldl (clean_step r) acc parts) \<subseteq> set acc \<union> set parts"
proof (induction parts arbitrary: acc)
  case (Cons part parts)
  have "set (foldl (clean_step r) (clean_step r acc part) parts) \<subseteq> set (clean_step r acc part) \<union> set parts" by (rule Cons.IH)
  with clean_step_set [of r acc part] show ?case by auto
qed simp

lemma clean_elements_plain:
  assumes "is_abs p"
  shows "list_all plain_element (clean_elements p)"
proof -
  have "set (clean_elements p) \<subseteq> set (split_on CHR ''/'' p)"
    using foldl_clean_set [of "is_abs p" "[]" "split_on CHR ''/'' p"] by (simp add: clean_elements_def)
  with clean_elements_rooted [OF assms] show ?thesis
    using split_on_elements [of _ "CHR ''/''" p] by (auto simp: plain_element_def list_all_iff)
qed

lemma foldl_clean_plain: "list_all plain_element xs \<Longrightarrow> foldl (clean_step r) acc xs = rev xs @ acc"
  by (induction xs arbitrary: acc) (auto simp: clean_step_def plain_element_def proper_element_def)

lemma split_on_joined:
  "list_all plain_element xs \<Longrightarrow> xs \<noteq> [] \<Longrightarrow> split_on CHR ''/'' (join_strings ''/'' xs) = xs"
proof (induction "''/''" xs rule: join_strings.induct)
  case (3 x y xs)
  then show ?case
    using split_on_append [of "CHR ''/''" x "join_strings ''/'' (y # xs)"]
    by (auto simp: plain_element_def split_on_single)
qed (auto simp: plain_element_def split_on_single)

lemma split_on_rooted:
  "list_all plain_element xs \<Longrightarrow> split_on CHR ''/'' (''/'' @ join_strings ''/'' xs) = [] # (if xs = [] then [[]] else xs)"
  using split_on_append [of "CHR ''/''" "[]" "join_strings ''/'' xs"] split_on_joined [of xs] by auto

lemma clean_step_empty [simp]: "clean_step r acc [] = acc"
  by (simp add: clean_step_def)

lemma clean_elements_joined [simp]:
  "list_all plain_element xs \<Longrightarrow> clean_elements (''/'' @ join_strings ''/'' xs) = xs"
  by (simp add: clean_elements_def is_abs_def split_on_rooted [simplified] foldl_clean_plain)

lemma clean_path_joined: "list_all plain_element xs \<Longrightarrow> clean_path (''/'' @ join_strings ''/'' xs) = ''/'' @ join_strings ''/'' xs"
  using clean_elements_joined [of xs] by (simp add: clean_path_def is_abs_def)

lemma clean_path_abs: "is_abs p \<Longrightarrow> clean_path p = ''/'' @ join_strings ''/'' (clean_elements p)"
  by (auto simp: clean_path_def is_abs_def)

lemma clean_path_idem: "is_abs p \<Longrightarrow> clean_path (clean_path p) = clean_path p"
  using clean_path_joined [OF clean_elements_plain] by (simp add: clean_path_abs)

lemma is_abs_clean: "is_abs p \<Longrightarrow> is_abs (clean_path p)"
  by (simp add: clean_path_abs) (simp add: is_abs_def)

lemma clean_elements_clean: "is_abs p \<Longrightarrow> clean_elements (clean_path p) = clean_elements p"
  using clean_elements_joined [OF clean_elements_plain] by (simp add: clean_path_abs)

lemma path_elements_clean:
  "is_abs p \<Longrightarrow> set (split_on CHR ''/'' (clean_path p)) - {[]} = set (clean_elements p)"
  using split_on_rooted [OF clean_elements_plain [of p]] clean_elements_plain [of p]
  by (auto simp: clean_path_abs plain_element_def proper_element_def list_all_iff)

text \<open>The directory of a joined name.\<close>

lemma clean_elements_snoc:
  assumes "is_abs d" "plain_element e"
  shows "clean_elements (d @ ''/'' @ e) = clean_elements d @ [e]"
proof -
  have "is_abs (d @ ''/'' @ e)" using assms(1) by (auto simp: is_abs_def prefix_def)
  with assms show ?thesis
    using split_on_append [of "CHR ''/''" d e]
    by (simp add: clean_elements_def split_on_single plain_element_def proper_element_def clean_step_def)
qed

lemma join_path_snoc:
  assumes "is_abs d" "plain_element e"
  shows "join_path [d, e] = ''/'' @ join_strings ''/'' (clean_elements d @ [e])"
proof -
  have "is_abs (d @ ''/'' @ e)" "d \<noteq> []" "e \<noteq> []"
    using assms by (auto simp: is_abs_def prefix_def plain_element_def proper_element_def)
  with clean_elements_snoc [OF assms] show ?thesis by (simp add: join_path_def clean_path_abs)
qed

lemma dir_part_snoc: "CHR ''/'' \<notin> set e \<Longrightarrow> dir_part (y @ CHR ''/'' # e) = y @ ''/''"
  by (simp add: dir_part_def dropWhile_append)

lemma clean_path_slash:
  assumes "list_all plain_element xs"
  shows "clean_path ((''/'' @ join_strings ''/'' xs) @ ''/'') = ''/'' @ join_strings ''/'' xs"
proof -
  have "split_on CHR ''/'' ((''/'' @ join_strings ''/'' xs) @ ''/'') = [] # (if xs = [] then [[]] else xs) @ [[]]"
    using split_on_append [of "CHR ''/''" "''/'' @ join_strings ''/'' xs" "[]"] split_on_rooted [OF assms] by simp
  then have "clean_elements ((''/'' @ join_strings ''/'' xs) @ ''/'') = xs"
    by (auto simp: clean_elements_def is_abs_def foldl_clean_plain [OF assms])
  then show ?thesis by (simp add: clean_path_def is_abs_def)
qed

lemma path_dir_join:
  assumes "is_abs d" "plain_element e"
  shows "path_dir (join_path [d, e]) = clean_path d"
proof -
  let ?xs = "clean_elements d"
  have e: "CHR ''/'' \<notin> set e" using assms(2) by (simp add: plain_element_def)
  show ?thesis
  proof (cases "?xs = []")
    case True
    with join_path_snoc [OF assms] e dir_part_snoc [of e "[]"] show ?thesis
      using assms(1) clean_path_joined [of "[]"] by (simp add: path_dir_def clean_path_abs)
  next
    case False
    then have "join_path [d, e] = (''/'' @ join_strings ''/'' ?xs) @ CHR ''/'' # e"
      using join_path_snoc [OF assms] by (simp add: join_strings_snoc)
    then have "path_dir (join_path [d, e]) = clean_path ((''/'' @ join_strings ''/'' ?xs) @ ''/'')"
      by (simp only: path_dir_def dir_part_snoc [OF e])
    with clean_path_slash [OF clean_elements_plain [OF assms(1)]] show ?thesis
      using assms(1) by (simp add: clean_path_abs)
  qed
qed

end
