(* ===== verification/Cycle_Policy.thy ===== *)
theory Cycle_Policy
  imports Reports Paths "HOL-Library.Char_ord" "HOL-Library.List_Lexorder"
begin

text \<open>
  The decisions of a cycle, \<open>main.go\<close>: which mount drives it, which level it asks for, when a
  plugin is held back and when the target is met.  The daemon's methods become functions of the
  daemon record, the report built so far and the host.  The configuration pointer is never nil:
  \<open>main\<close> exits when the configuration does not load.
\<close>

subsection \<open>Constants\<close>

definition defaultInodeNoProgressLimit :: int where "defaultInodeNoProgressLimit = 3"
definition defaultByteNoProgressLimit :: int where "defaultByteNoProgressLimit = 3"
definition defaultByteProgressMinMB :: int where "defaultByteProgressMinMB = 256"
definition defaultByteBackoffMax :: duration where "defaultByteBackoffMax = 30 * minute"
definition defaultZeroYieldLimit :: int where "defaultZeroYieldLimit = 2"
definition defaultZeroYieldBackoffBase :: duration where "defaultZeroYieldBackoffBase = 30 * minute"
definition defaultZeroYieldBackoffMax :: duration where "defaultZeroYieldBackoffMax = 6 * hour"
definition defaultZeroYieldPressureMinInterval :: duration where "defaultZeroYieldPressureMinInterval = hour"
definition minZeroYieldPressureMinInterval :: duration where "minZeroYieldPressureMinInterval = 5 * minute"
definition zeroYieldLiftMountPressure :: string where "zeroYieldLiftMountPressure = ''mount_pressure''"

lemmas policy_defaults = defaultInodeNoProgressLimit_def defaultByteNoProgressLimit_def
  defaultByteProgressMinMB_def defaultByteBackoffMax_def defaultZeroYieldLimit_def
  defaultZeroYieldBackoffBase_def defaultZeroYieldBackoffMax_def
  defaultZeroYieldPressureMinInterval_def minZeroYieldPressureMinInterval_def

subsection \<open>Mounts\<close>

definition withinMountBand :: "int \<Rightarrow> int \<Rightarrow> int \<Rightarrow> int" where
  "withinMountBand step low critical = (if step < low \<or> critical < step then critical else step)"

definition mount_byte_thresholds :: "thresholds \<Rightarrow> mount_config \<Rightarrow> thresholds" where
  "mount_byte_thresholds g m =
     (let warning = (if 0 < mc_ThresholdWarning m then mc_ThresholdWarning m else th_Warning g);
          critical = (if 0 < mc_ThresholdCritical m then mc_ThresholdCritical m else th_Critical g);
          moderate = (if 0 < mc_ThresholdModerate m then mc_ThresholdModerate m
                      else withinMountBand (th_Moderate g) warning critical);
          aggressive = (if 0 < mc_ThresholdAggressive m then mc_ThresholdAggressive m
                        else withinMountBand (th_Aggressive g) moderate critical)
      in \<lparr>th_Warning = warning, th_Moderate = moderate, th_Aggressive = aggressive, th_Critical = critical\<rparr>)"

definition mount_sets_thresholds :: "mount_config \<Rightarrow> bool" where
  "mount_sets_thresholds m =
     (0 < mc_ThresholdWarning m \<or> 0 < mc_ThresholdModerate m \<or> 0 < mc_ThresholdAggressive m \<or>
      0 < mc_ThresholdCritical m \<or> 0 < mc_ThresholdInodeWarning m \<or> 0 < mc_ThresholdInodeCritical m \<or>
      mc_InodeFreeFloor m \<noteq> 0)"

definition monitorForMount :: "daemon \<Rightarrow> mount_config \<Rightarrow> disk_monitor" where
  "monitorForMount d m =
     (if \<not> mount_sets_thresholds m then d_monitor d
      else let b = mount_byte_thresholds (cf_Thresholds (d_config d)) m;
               i = cf_InodeThresholds (d_config d);
               iw = (if 0 < mc_ThresholdInodeWarning m then mc_ThresholdInodeWarning m else th_Warning i);
               ic = (if 0 < mc_ThresholdInodeCritical m then mc_ThresholdInodeCritical m else th_Critical i)
           in (NewDiskMonitorWithInodeThresholds (th_Warning b) (th_Moderate b) (th_Aggressive b) (th_Critical b)
                 iw (th_Moderate i) (th_Aggressive i) ic)
              \<lparr>dm_InodeFreeFloor := (if 0 < mc_InodeFreeFloor m then mc_InodeFreeFloor m
                                    else dm_InodeFreeFloor (d_monitor d))\<rparr>)"

definition mountConfigForPath :: "daemon \<Rightarrow> path \<Rightarrow> mount_config option" where
  "mountConfigForPath d p = find (\<lambda>m. mc_Path m = p) (cf_MonitoredMounts (d_config d))"

definition targetUsedPercent :: "daemon \<Rightarrow> path \<Rightarrow> int" where
  "targetUsedPercent d p =
     (case mountConfigForPath d p of
        Some m \<Rightarrow> (if 0 < mc_TargetUsedPercent m then mc_TargetUsedPercent m else cf_TargetFree (d_config d))
      | None \<Rightarrow> cf_TargetFree (d_config d))"

definition monitorForPath :: "daemon \<Rightarrow> path \<Rightarrow> disk_monitor" where
  "monitorForPath d p =
     (case mountConfigForPath d p of Some m \<Rightarrow> monitorForMount d m | None \<Rightarrow> d_monitor d)"

definition inodeLevelForPath :: "daemon \<Rightarrow> path \<Rightarrow> disk_stats \<Rightarrow> cleanup_level" where
  "inodeLevelForPath d p stats = CheckInodeLevel (monitorForPath d p) stats"

definition byteLevelForPath :: "daemon \<Rightarrow> path \<Rightarrow> disk_stats \<Rightarrow> cleanup_level" where
  "byteLevelForPath d p stats = CheckByteLevel (monitorForPath d p) stats"

subsection \<open>Assessment\<close>

record mount_assessment =
  ma_Level :: cleanup_level
  ma_InodeLevel :: cleanup_level
  ma_Mounts :: "mount_report list"

definition inodeLevelDisplay :: "cleanup_level \<Rightarrow> u64 \<Rightarrow> string" where
  "inodeLevelDisplay level inodesTotal = (if inodesTotal = 0 then [] else level_string level)"

definition unmeasured_mount :: "string \<Rightarrow> path \<Rightarrow> string \<Rightarrow> mount_report" where
  "unmeasured_mount label p err =
     zero_mount_report\<lparr>mr_Label := label, mr_Path := p, mr_Level := level_string LevelNone, mr_Error := err\<rparr>"

definition measured_mount :: "disk_monitor \<Rightarrow> string \<Rightarrow> path \<Rightarrow> disk_stats \<Rightarrow> mount_report" where
  "measured_mount m label p stats =
     zero_mount_report\<lparr>mr_Label := label, mr_Path := p, mr_UsedPercent := ds_UsedPercent stats,
       mr_FreeGB := ds_FreeGB stats, mr_FreeBytes := ds_Free stats,
       mr_ByteLevel := level_string (CheckByteLevel m stats), mr_InodesTotal := ds_InodesTotal stats,
       mr_InodesFree := ds_InodesFree stats, mr_InodesUsedPercent := ds_InodesUsedPercent stats,
       mr_InodeLevel := inodeLevelDisplay (CheckInodeLevel m stats) (ds_InodesTotal stats),
       mr_Level := level_string (CheckLevel m stats)\<rparr>"

definition assess_mount :: "daemon \<Rightarrow> host \<Rightarrow> mount_assessment \<Rightarrow> mount_config \<Rightarrow> mount_assessment" where
  "assess_mount d host a mount =
     (let label = (if mc_Label mount = [] then mc_Path mount else mc_Label mount)
      in case h_stats host (mc_Path mount) of
           Inl err \<Rightarrow> a\<lparr>ma_Mounts := ma_Mounts a @ [unmeasured_mount label (mc_Path mount) err]\<rparr>
         | Inr stats \<Rightarrow>
             (let m = monitorForMount d mount;
                  rep = (measured_mount m label (mc_Path mount) stats)
                    \<lparr>mr_Fstype := ds_Fstype stats, mr_InodesDynamic := ds_InodesDynamic stats,
                     mr_InodeFreeFloor := dm_InodeFreeFloor m, mr_InodeLadderSkipped := InodeLadderSkipped m stats\<rparr>
              in a\<lparr>ma_Mounts := ma_Mounts a @ [rep],
                   ma_Level := (if ma_Level a < CheckLevel m stats then CheckLevel m stats else ma_Level a),
                   ma_InodeLevel := (if ma_InodeLevel a < CheckInodeLevel m stats then CheckInodeLevel m stats
                                     else ma_InodeLevel a)\<rparr>))"

definition home_path :: "daemon \<Rightarrow> path" where
  "home_path d = (case d_home d of None \<Rightarrow> ''/'' | Some h \<Rightarrow> (if h = [] then ''/'' else h))"

definition assess_home :: "daemon \<Rightarrow> host \<Rightarrow> mount_assessment \<Rightarrow> mount_assessment" where
  "assess_home d host a =
     (let p = home_path d
      in case h_stats host p of
           Inl err \<Rightarrow> a\<lparr>ma_Mounts := ma_Mounts a @ [unmeasured_mount p p err]\<rparr>
         | Inr stats \<Rightarrow>
             a\<lparr>ma_Mounts := ma_Mounts a @ [measured_mount (d_monitor d) p p stats],
               ma_Level := CheckLevel (d_monitor d) stats, ma_InodeLevel := CheckInodeLevel (d_monitor d) stats\<rparr>)"

definition assessMounts :: "daemon \<Rightarrow> host \<Rightarrow> mount_assessment" where
  "assessMounts d host =
     (let a = \<lparr>ma_Level = LevelNone, ma_InodeLevel = LevelNone, ma_Mounts = []\<rparr>
      in if cf_MonitoredMounts (d_config d) \<noteq> [] then foldl (assess_mount d host) a (cf_MonitoredMounts (d_config d))
         else assess_home d host a)"

definition primaryMonitorPath :: "daemon \<Rightarrow> mount_assessment \<Rightarrow> path" where
  "primaryMonitorPath d a =
     (case find (\<lambda>m. mr_Error m = [] \<and> mr_Path m \<noteq> [] \<and> mr_Level m = level_string (ma_Level a)) (ma_Mounts a) of
        Some m \<Rightarrow> mr_Path m
      | None \<Rightarrow>
          (case find (\<lambda>m. mr_Error m = [] \<and> mr_Path m \<noteq> []) (ma_Mounts a) of
             Some m \<Rightarrow> mr_Path m
           | None \<Rightarrow> home_path d))"

subsection \<open>Policy values\<close>

abbreviation d_policy :: "daemon \<Rightarrow> policy_config" where "d_policy d \<equiv> cf_Policy (d_config d)"

definition gigabytes :: "int \<Rightarrow> u64" where "gigabytes n = u64_of_int n * 1024 * 1024 * 1024"

definition cleanupCooldown :: "daemon \<Rightarrow> duration" where
  "cleanupCooldown d =
     (if pc_Cooldown (d_policy d) = [] then 0
      else case parse_duration (pc_Cooldown (d_policy d)) of
             None \<Rightarrow> 0 | Some v \<Rightarrow> (if v < 0 then 0 else v))"

definition byteNoProgressLimit :: "daemon \<Rightarrow> int" where
  "byteNoProgressLimit d =
     (if pc_ByteNoProgressLimit (d_policy d) = 0 then defaultByteNoProgressLimit else pc_ByteNoProgressLimit (d_policy d))"

definition byteProgressMinBytes :: "daemon \<Rightarrow> int" where
  "byteProgressMinBytes d =
     (let mb = (if 0 < pc_ByteProgressMinMB (d_policy d) then pc_ByteProgressMinMB (d_policy d) else defaultByteProgressMinMB)
      in wrap64 (mb * 1024 * 1024))"

definition byteBackoffMax :: "daemon \<Rightarrow> duration" where
  "byteBackoffMax d =
     (if pc_ByteBackoffMax (d_policy d) = [] then defaultByteBackoffMax
      else case parse_duration (pc_ByteBackoffMax (d_policy d)) of
             None \<Rightarrow> defaultByteBackoffMax | Some v \<Rightarrow> (if v \<le> 0 then defaultByteBackoffMax else v))"

definition byteBackoffInterval :: "daemon \<Rightarrow> duration" where
  "byteBackoffInterval d =
     (if cleanupCooldown d \<le> 0 \<or> byteBackoffMax d < cleanupCooldown d then byteBackoffMax d else cleanupCooldown d)"

text \<open>The loop \<open>for steps > 0 && interval < limit { interval *= 2 }\<close>, with its wrap-around.\<close>

fun byte_backoff_double :: "nat \<Rightarrow> duration \<Rightarrow> duration \<Rightarrow> duration" where
  "byte_backoff_double 0 limit interval = interval"
| "byte_backoff_double (Suc steps) limit interval =
     (if interval < limit then byte_backoff_double steps limit (wrap64 (interval * 2)) else interval)"

definition byteBackoffIntervalFor :: "daemon \<Rightarrow> int \<Rightarrow> duration" where
  "byteBackoffIntervalFor d noProgress =
     (let limit = byteBackoffMax d;
          interval = byte_backoff_double (nat (noProgress - byteNoProgressLimit d)) limit (byteBackoffInterval d)
      in if limit < interval then limit else interval)"

definition emergencyFreeBytes :: "daemon \<Rightarrow> u64" where
  "emergencyFreeBytes d =
     (if pc_EmergencyFreeGB (d_policy d) \<le> 0 then 0 else gigabytes (pc_EmergencyFreeGB (d_policy d)))"

definition minimumFreeBytes :: "daemon \<Rightarrow> u64" where
  "minimumFreeBytes d =
     (if pc_MinimumFreeGB (d_policy d) \<le> 0 then 0 else gigabytes (pc_MinimumFreeGB (d_policy d)))"

definition positive_duration_or :: "duration \<Rightarrow> string \<Rightarrow> duration" where
  "positive_duration_or z raw =
     (case parse_duration raw of None \<Rightarrow> z | Some v \<Rightarrow> (if 0 < v then v else z))"

definition zeroYieldPolicy :: "daemon \<Rightarrow> zero_yield_policy" where
  "zeroYieldPolicy d =
     (let p = d_policy d;
          pressure = positive_duration_or defaultZeroYieldPressureMinInterval (pc_ZeroYieldPressureMinInterval p);
          limit = (if pc_ZeroYieldLimit p < 0 then 0 else if 0 < pc_ZeroYieldLimit p then pc_ZeroYieldLimit p
                   else defaultZeroYieldLimit);
          base = positive_duration_or defaultZeroYieldBackoffBase (pc_ZeroYieldBackoffBase p);
          mx = positive_duration_or defaultZeroYieldBackoffMax (pc_ZeroYieldBackoffMax p)
      in \<lparr>zy_limit = limit, zy_base = base, zy_max = (if mx < base then base else mx),
          zy_pressureMin = (if pressure < minZeroYieldPressureMinInterval then minZeroYieldPressureMinInterval
                            else pressure)\<rparr>)"

definition inodeNoProgressLimit :: "daemon \<Rightarrow> int" where
  "inodeNoProgressLimit d =
     (if 0 < pc_InodeNoProgressLimit (d_policy d) then pc_InodeNoProgressLimit (d_policy d)
      else defaultInodeNoProgressLimit)"

definition cooldownBypassLevel :: "daemon \<Rightarrow> cleanup_level" where
  "cooldownBypassLevel d =
     (let v = trim_space (to_lower (pc_CooldownBypassLevel (d_policy d)))
      in if v = ''warning'' then LevelWarning
         else if v = ''moderate'' then LevelModerate
         else if v = ''aggressive'' then LevelAggressive
         else LevelCritical)"

definition pollInterval :: "daemon \<Rightarrow> duration" where
  "pollInterval d =
     (if 0 < cf_PollInterval (d_config d) then wrap64 (cf_PollInterval (d_config d) * second) else second)"

subsection \<open>Progress\<close>

definition anyLadderPluginRan :: "plugin_report list \<Rightarrow> bool" where
  "anyLadderPluginRan reports = list_ex (\<lambda>p. pr_Ran p \<and> \<not> pr_LevelIndependent p) reports"

definition byteProgressMade :: "daemon \<Rightarrow> cycle_report \<Rightarrow> bool" where
  "byteProgressMade d r =
     (let before = parseLevel (r_HostByteLevel r); after = parseLevel (r_HostByteLevelAfter r);
          minBytes = byteProgressMinBytes d
      in before = LevelNone \<or> after < before \<or> minBytes \<le> r_LadderBytesFreed r \<or>
         (anyLadderPluginRan (r_Plugins r) \<and> minBytes \<le> r_HostFreeDeltaBytes r))"

subsection \<open>Holding plugins back\<close>

definition inodeBackoffActive :: "daemon \<Rightarrow> cycle_report \<Rightarrow> bool" where
  "inodeBackoffActive d r =
     (let bypass = cooldownBypassLevel d
      in if parseLevel (r_HostInodeLevel r) < bypass then False
         else if bypass \<le> parseLevel (r_HostByteLevel r) then False
         else inodeNoProgressLimit d \<le> r_InodeNoProgressCount r)"

definition byteBackoffActive :: "daemon \<Rightarrow> cycle_report \<Rightarrow> bool \<times> string" where
  "byteBackoffActive d r =
     (let limit = byteNoProgressLimit d; floor = emergencyFreeBytes d
      in if limit \<le> 0 \<or> r_HostByteLevel r = [] then (False, [])
         else if parseLevel (r_HostByteLevel r) = LevelNone then (False, [])
         else if r_ByteNoProgressCount r < limit then (False, [])
         else if 0 < floor \<and> r_HostFreeBeforeBytes r < floor then (False, ''below_emergency_floor'')
         else (True, ''no_progress''))"

definition shouldApplyCooldown :: "daemon \<Rightarrow> cycle_report \<Rightarrow> cleanup_level \<Rightarrow> bool" where
  "shouldApplyCooldown d r level =
     (if 0 < r_MinimumFreeBytes r \<and> \<not> r_MinimumFreeMet r then False
      else if d_dryRun d \<or> r_ForcedLevel r \<or> cleanupCooldown d \<le> 0 then False
      else if cooldownBypassLevel d \<le> level then r_InodeBackoff r
      else True)"

definition pluginCooldown :: "daemon \<Rightarrow> cycle_report \<Rightarrow> cleanup_level \<Rightarrow> (duration \<times> string) option" where
  "pluginCooldown d r level =
     (if shouldApplyCooldown d r level then Some (cleanupCooldown d, ''cooldown'')
      else if r_ByteBackoff r then Some (byteBackoffIntervalFor d (r_ByteNoProgressCount r), ''byte_backoff'')
      else None)"

definition pressuredMount :: "cycle_report \<Rightarrow> string" where
  "pressuredMount r =
     (case find (\<lambda>m. mr_Error m = [] \<and> LevelModerate \<le> parseLevel (mr_Level m)) (r_Mounts r) of
        None \<Rightarrow> []
      | Some m \<Rightarrow> (if mr_Label m \<noteq> [] then mr_Label m else mr_Path m))"

definition zeroYieldPermanentExemption :: "daemon \<Rightarrow> host plugin \<Rightarrow> string" where
  "zeroYieldPermanentExemption d p =
     (if p_SafetyCritical p then ''safety_critical''
      else if list_ex (\<lambda>name. trim_space name = p_Name p) (pc_ZeroYieldExemptPlugins (d_policy d)) then ''exempt_plugin''
      else [])"

definition zeroYieldExemption :: "daemon \<Rightarrow> host plugin \<Rightarrow> cycle_report \<Rightarrow> bool \<Rightarrow> string" where
  "zeroYieldExemption d p r freeKnown =
     (if r_ForcedLevel r \<or> d_dryRun d \<or> d_pluginFilter d \<noteq> [] then ''operator_run''
      else if zeroYieldPermanentExemption d p \<noteq> [] then zeroYieldPermanentExemption d p
      else if \<not> freeKnown then ''free_unknown''
      else if 0 < emergencyFreeBytes d \<and> r_HostFreeBeforeBytes r < emergencyFreeBytes d then ''below_emergency_floor''
      else if pressuredMount r \<noteq> [] then zeroYieldLiftMountPressure
      else [])"

definition zeroYieldRecurringLift :: "string \<Rightarrow> bool" where
  "zeroYieldRecurringLift reason =
     (reason = ''operator_run'' \<or> reason = ''below_emergency_floor'' \<or> reason = ''free_unknown'' \<or>
      reason = zeroYieldLiftMountPressure)"

text \<open>One candidate of \<open>nextRetryAt\<close>; \<open>IsZero\<close> is the instant of year 1.\<close>

definition earlier_retry :: "instant \<Rightarrow> stamp \<Rightarrow> instant" where
  "earlier_retry earliest v =
     (case parse_stamp v of
        None \<Rightarrow> earliest
      | Some t \<Rightarrow> (if earliest = zero_time \<or> t < earliest then t else earliest))"

definition nextRetryAt :: "plugin_report list \<Rightarrow> stamp" where
  "nextRetryAt reports =
     (let earliest = foldl earlier_retry zero_time (concat (map (\<lambda>p. [pr_RetryAt p, pr_SuppressedUntil p]) reports))
      in if earliest = zero_time then NoStamp else format_stamp earliest)"

subsection \<open>The target\<close>

definition targetFreeBytes :: "u64 \<Rightarrow> int \<Rightarrow> u64 option" where
  "targetFreeBytes totalBytes usedPercent =
     (if totalBytes = 0 \<or> usedPercent \<le> 0 \<or> 100 \<le> usedPercent then None
      else Some (totalBytes * u64_of_int (100 - usedPercent) div 100))"

definition updateMinimumFreeStatus :: "disk_stats \<Rightarrow> cycle_report \<Rightarrow> cycle_report" where
  "updateMinimumFreeStatus stats r =
     (if 0 < r_MinimumFreeBytes r
      then (if r_MinimumFreeBytes r \<le> ds_Free stats
            then r\<lparr>r_MinimumFreeDeficitBytes := 0, r_MinimumFreeMet := True\<rparr>
            else r\<lparr>r_MinimumFreeDeficitBytes := i64_of_u64 (r_MinimumFreeBytes r - ds_Free stats),
                   r_MinimumFreeMet := False\<rparr>)
      else r)"

definition updateTargetFreeStatus :: "daemon \<Rightarrow> disk_stats \<Rightarrow> cycle_report \<Rightarrow> cycle_report" where
  "updateTargetFreeStatus d stats r0 =
     (let r = updateMinimumFreeStatus stats r0; used = targetUsedPercent d (r_MonitorPath r)
      in case targetFreeBytes (ds_Total stats) used of
           None \<Rightarrow> r
         | Some target \<Rightarrow>
             (let r = r\<lparr>r_TargetUsedPercent := used, r_TargetFreeBytes := target\<rparr>
              in if target \<le> ds_Free stats then r\<lparr>r_TargetFreeDeficitBytes := 0, r_TargetFreeMet := True\<rparr>
                 else r\<lparr>r_TargetFreeDeficitBytes := i64_of_u64 (target - ds_Free stats), r_TargetFreeMet := False\<rparr>))"

text \<open>\<open>before\<close> is the measurement before cleanup, or its error.\<close>

definition updateHostFreeAfter :: "daemon \<Rightarrow> host \<Rightarrow> string + disk_stats \<Rightarrow> cycle_report \<Rightarrow> cycle_report" where
  "updateHostFreeAfter d host before r =
     (case h_stats host (r_MonitorPath r) of
        Inl err \<Rightarrow> r\<lparr>r_HostFreeError := err\<rparr>
      | Inr after \<Rightarrow>
          (let r = r\<lparr>r_HostFreeAfterBytes := ds_Free after, r_HostInodesTotal := ds_InodesTotal after,
                     r_HostInodesFreeAfter := ds_InodesFree after,
                     r_HostInodesUsedPercentAfter := ds_InodesUsedPercent after,
                     r_HostInodeLevel := level_string (inodeLevelForPath d (r_MonitorPath r) after),
                     r_HostByteLevelAfter := level_string (byteLevelForPath d (r_MonitorPath r) after)\<rparr>;
               r = (case before of
                      Inl _ \<Rightarrow> r
                    | Inr b \<Rightarrow>
                        r\<lparr>r_HostFreeDeltaBytes := wrap64 (i64_of_u64 (ds_Free after) - i64_of_u64 (ds_Free b)),
                          r_HostInodesFreeDelta := wrap64 (i64_of_u64 (ds_InodesFree after) - i64_of_u64 (ds_InodesFree b))\<rparr>)
           in updateTargetFreeStatus d after r))"

definition cleanupTargetMet :: "cycle_report \<Rightarrow> bool" where
  "cleanupTargetMet r = (r_TargetFreeMet r \<and> parseLevel (r_MaxInodeLevel r) = LevelNone)"

section \<open>Lemmas\<close>

subsection \<open>The byte backoff schedule\<close>

lemma byteBackoffMax_pos: "0 < byteBackoffMax d"
  by (auto simp: byteBackoffMax_def policy_defaults duration_units split: option.splits)

lemma byteBackoffInterval_range: "0 < byteBackoffInterval d \<and> byteBackoffInterval d \<le> byteBackoffMax d"
  using byteBackoffMax_pos by (auto simp: byteBackoffInterval_def)

lemma byte_backoff_double_closed:
  "0 < i \<Longrightarrow> cap \<le> 2 ^ 62 \<Longrightarrow> min cap (byte_backoff_double n cap i) = min cap (i * 2 ^ n)"
proof (induction n arbitrary: i)
  case 0
  then show ?case by simp
next
  case (Suc n)
  show ?case
  proof (cases "i < cap")
    case True
    then have "wrap64 (i * 2) = i * 2" using Suc.prems by (intro wrap64_id) (simp_all add: min_i64_def max_i64_def)
    with True Suc.IH [of "i * 2"] Suc.prems show ?thesis by (simp add: mult.assoc)
  next
    case False
    have "i * 1 \<le> i * 2 ^ Suc n" using Suc.prems one_le_power [of "2::int" "Suc n"] by (intro mult_left_mono) simp_all
    with False show ?thesis by (auto simp: min_def)
  qed
qed

text \<open>Without wrap-around: a cap of at most \<open>2 ^ 62\<close> ns, some 146 years.\<close>

definition bounded_backoff :: "daemon \<Rightarrow> bool" where "bounded_backoff d = (byteBackoffMax d \<le> 2 ^ 62)"

lemma byteBackoffIntervalFor_closed:
  assumes "bounded_backoff d"
  shows "byteBackoffIntervalFor d n =
    min (byteBackoffMax d) (byteBackoffInterval d * 2 ^ nat (n - byteNoProgressLimit d))"
  using byte_backoff_double_closed [of "byteBackoffInterval d" "byteBackoffMax d" "nat (n - byteNoProgressLimit d)"]
    assms byteBackoffInterval_range [of d]
  by (auto simp: byteBackoffIntervalFor_def bounded_backoff_def Let_def min_def split: if_splits)

interpretation byte_backoff: backoff_schedule bounded_backoff byteBackoffIntervalFor byteNoProgressLimit
    byteBackoffInterval byteBackoffMax
proof
  fix d n
  show "0 < byteBackoffInterval d \<and> byteBackoffInterval d \<le> byteBackoffMax d" by (rule byteBackoffInterval_range)
  assume v: "bounded_backoff d"
  show "byteBackoffIntervalFor d (byteNoProgressLimit d) = byteBackoffInterval d"
    using byteBackoffInterval_range [of d] by (simp add: byteBackoffIntervalFor_closed [OF v])
  assume n: "byteNoProgressLimit d \<le> n"
  then have k: "nat (n + 1 - byteNoProgressLimit d) = Suc (nat (n - byteNoProgressLimit d))" by simp
  show "byteBackoffIntervalFor d (n + 1) = min (byteBackoffMax d) (2 * byteBackoffIntervalFor d n)"
    unfolding byteBackoffIntervalFor_closed [OF v] k using byteBackoffInterval_range [of d] byteBackoffMax_pos [of d]
    by (simp add: min_def)
qed

subsection \<open>The zero-yield policy\<close>

lemma positive_duration_or_range:
  "0 < z \<Longrightarrow> z \<le> max_i64 \<Longrightarrow> 0 < positive_duration_or z raw \<and> positive_duration_or z raw \<le> max_i64"
  using parse_duration_bounds [of raw] by (auto simp: positive_duration_or_def split: option.splits)

lemma zeroYieldPolicy_pressureMin: "minZeroYieldPressureMinInterval \<le> zy_pressureMin (zeroYieldPolicy d)"
  by (simp add: zeroYieldPolicy_def Let_def)

lemma zeroYieldPolicy_range:
  "0 < zy_base (zeroYieldPolicy d) \<and> zy_base (zeroYieldPolicy d) \<le> zy_max (zeroYieldPolicy d) \<and>
   zy_max (zeroYieldPolicy d) \<le> max_i64 \<and> 0 \<le> zy_limit (zeroYieldPolicy d)"
  using positive_duration_or_range [of defaultZeroYieldBackoffBase "pc_ZeroYieldBackoffBase (d_policy d)"]
    positive_duration_or_range [of defaultZeroYieldBackoffMax "pc_ZeroYieldBackoffMax (d_policy d)"]
  by (auto simp: zeroYieldPolicy_def Let_def policy_defaults duration_units max_i64_def)

lemma zeroYieldPolicy_valid:
  "valid_yield_policy (zeroYieldPolicy d) \<longleftrightarrow> 0 \<le> pc_ZeroYieldLimit (d_policy d)"
  using zeroYieldPolicy_range [of d]
  by (auto simp: valid_yield_policy_def zeroYieldPolicy_def Let_def policy_defaults)

subsection \<open>The earliest retry\<close>

definition retry_times :: "plugin_report list \<Rightarrow> instant list" where
  "retry_times reports = List.map_filter parse_stamp (concat (map (\<lambda>p. [pr_RetryAt p, pr_SuppressedUntil p]) reports))"

lemma earlier_retry_foldl:
  assumes "zero_time \<notin> set (List.map_filter parse_stamp vs)"
  shows "foldl earlier_retry e vs =
    (if e = zero_time
     then (if List.map_filter parse_stamp vs = [] then zero_time else Min (set (List.map_filter parse_stamp vs)))
     else Min (insert e (set (List.map_filter parse_stamp vs))))"
  using assms
proof (induction vs arbitrary: e)
  case Nil
  then show ?case by simp
next
  case (Cons v vs)
  show ?case
  proof (cases "parse_stamp v")
    case None
    with Cons show ?thesis by (simp add: earlier_retry_def List.map_filter_simps)
  next
    case (Some t)
    have "foldl earlier_retry e (v # vs) = foldl earlier_retry (if e = zero_time \<or> t < e then t else e) vs"
      using Some by (simp add: earlier_retry_def)
    also have "\<dots> = Min (insert (if e = zero_time \<or> t < e then t else e) (set (List.map_filter parse_stamp vs)))"
      using Cons Some by (auto simp: List.map_filter_simps)
    also have "\<dots> = (if e = zero_time then Min (insert t (set (List.map_filter parse_stamp vs)))
        else Min (insert e (insert t (set (List.map_filter parse_stamp vs)))))"
    proof -
      define S where "S = set (List.map_filter parse_stamp vs)"
      have "finite S" by (simp add: S_def)
      then show ?thesis unfolding S_def [symmetric]
        by (cases "S = {}") (auto simp: min_def Min_insert)
    qed
    finally show ?thesis using Some by (simp add: List.map_filter_simps insert_commute)
  qed
qed

lemma nextRetryAt_min:
  assumes "zero_time \<notin> set (retry_times reports)"
  shows "nextRetryAt reports = (if retry_times reports = [] then NoStamp else format_stamp (Min (set (retry_times reports))))"
proof -
  have "Min (set (retry_times reports)) \<noteq> zero_time" if "retry_times reports \<noteq> []"
    using assms that Min_in [of "set (retry_times reports)"] by (metis List.finite_set set_empty)
  with earlier_retry_foldl [OF assms [unfolded retry_times_def], of zero_time] show ?thesis
    by (auto simp: nextRetryAt_def Let_def retry_times_def)
qed

subsection \<open>The mounts\<close>

text \<open>A mount's effective ladder lies in its own band.\<close>

lemma withinMountBand_range: "low \<le> critical \<Longrightarrow> low \<le> withinMountBand step low critical \<and> withinMountBand step low critical \<le> critical"
  by (auto simp: withinMountBand_def)

definition measured :: "host \<Rightarrow> mount_config \<Rightarrow> disk_stats option" where
  "measured host m = (case h_stats host (mc_Path m) of Inl _ \<Rightarrow> None | Inr s \<Rightarrow> Some s)"

definition mount_levels :: "daemon \<Rightarrow> host \<Rightarrow> mount_config list \<Rightarrow> cleanup_level list" where
  "mount_levels d host ms =
     List.map_filter (\<lambda>m. map_option (CheckLevel (monitorForMount d m)) (measured host m)) ms"

definition mount_inode_levels :: "daemon \<Rightarrow> host \<Rightarrow> mount_config list \<Rightarrow> cleanup_level list" where
  "mount_inode_levels d host ms =
     List.map_filter (\<lambda>m. map_option (CheckInodeLevel (monitorForMount d m)) (measured host m)) ms"

lemma foldl_assess_level:
  "ma_Level (foldl (assess_mount d host) a ms) = Max (insert (ma_Level a) (set (mount_levels d host ms)))"
proof (induction ms arbitrary: a)
  case Nil
  then show ?case by (simp add: mount_levels_def List.map_filter_simps)
next
  case (Cons m ms)
  show ?case
  proof (cases "h_stats host (mc_Path m)")
    case (Inl e)
    with Cons show ?thesis by (simp add: assess_mount_def mount_levels_def measured_def List.map_filter_simps Let_def)
  next
    case (Inr stats)
    define l where "l = CheckLevel (monitorForMount d m) stats"
    have step: "ma_Level (assess_mount d host a m) = max (ma_Level a) l"
      using Inr by (auto simp: assess_mount_def l_def Let_def max_def)
    have "mount_levels d host (m # ms) = l # mount_levels d host ms"
      using Inr by (simp add: mount_levels_def measured_def List.map_filter_simps l_def)
    then have "Max (insert (ma_Level a) (set (mount_levels d host (m # ms))))
        = Max (insert (max (ma_Level a) l) (set (mount_levels d host ms)))"
      by (cases "mount_levels d host ms = []") (auto simp: max.assoc)
    with Cons.IH step show ?thesis by simp
  qed
qed

lemma foldl_assess_mounts:
  "ma_Mounts (foldl (assess_mount d host) a ms) =
     ma_Mounts a @ concat (map (\<lambda>m. ma_Mounts (assess_mount d host \<lparr>ma_Level = LevelNone, ma_InodeLevel = LevelNone, ma_Mounts = []\<rparr> m)) ms)"
  by (induction ms arbitrary: a) (auto simp: assess_mount_def Let_def split: sum.splits)

section \<open>Properties\<close>

text \<open>The byte backoff interval starts at the cooldown (or the cap), doubles with every further
  attempt without progress and stops at the cap, and so never falls as attempts fail.\<close>

theorem byte_backoff_schedule:
  assumes "bounded_backoff d" "byteNoProgressLimit d \<le> m" "m \<le> n"
  shows "byteBackoffIntervalFor d n = min (byteBackoffMax d) (byteBackoffInterval d * 2 ^ nat (n - byteNoProgressLimit d)) \<and>
    0 < byteBackoffIntervalFor d m \<and> byteBackoffIntervalFor d m \<le> byteBackoffIntervalFor d n \<and>
    byteBackoffIntervalFor d n \<le> byteBackoffMax d"
  using byte_backoff.closed_form_at [of d n] byte_backoff.mono [of d m n] byte_backoff.bounded [of d m] byte_backoff.bounded [of d n]
    byte_backoff.base_range [of d] assms by auto

text \<open>The report's next retry is the earliest time any plugin waits for, and empty when none waits.\<close>

theorem next_retry_is_earliest:
  assumes "zero_time \<notin> set (retry_times reports)"
  shows "(retry_times reports = [] \<longrightarrow> nextRetryAt reports = NoStamp) \<and>
    (retry_times reports \<noteq> [] \<longrightarrow> (\<exists>t\<in>set (retry_times reports). nextRetryAt reports = format_stamp t \<and> (\<forall>u\<in>set (retry_times reports). t \<le> u)))"
  using nextRetryAt_min [OF assms] by (auto intro!: bexI [of _ "Min (set (retry_times reports))"])

theorem next_retry_is_earliest_witness:
  "\<exists>t\<in>{60 * second, 90 * second}. nextRetryAt [zero_plugin_report\<lparr>pr_RetryAt := Stamp (90 * second)\<rparr>,
      zero_plugin_report\<lparr>pr_SuppressedUntil := Stamp (60 * second)\<rparr>] = format_stamp t \<and> t \<le> 60 * second"
proof -
  have r: "retry_times [zero_plugin_report\<lparr>pr_RetryAt := Stamp (90 * second)\<rparr>,
      zero_plugin_report\<lparr>pr_SuppressedUntil := Stamp (60 * second)\<rparr>] = [90 * second, 60 * second]"
    by (simp add: retry_times_def List.map_filter_simps zero_plugin_report_def)
  have z: "zero_time \<notin> set [90 * second, 60 * second]" by (simp add: zero_time_def duration_units)
  from next_retry_is_earliest [of "[zero_plugin_report\<lparr>pr_RetryAt := Stamp (90 * second)\<rparr>,
      zero_plugin_report\<lparr>pr_SuppressedUntil := Stamp (60 * second)\<rparr>]", unfolded r, OF z] show ?thesis by auto
qed

text \<open>A mount that sets only its warning and critical lines gets an ascending ladder inside its own
  band: no inherited step acts below the mount's warning line.\<close>

theorem mount_ladder_inside_band:
  assumes "mc_ThresholdModerate m \<le> 0" "mc_ThresholdAggressive m \<le> 0"
    and "th_Warning (mount_byte_thresholds g m) \<le> th_Critical (mount_byte_thresholds g m)"
  shows "th_Warning (mount_byte_thresholds g m) \<le> th_Moderate (mount_byte_thresholds g m) \<and>
    th_Moderate (mount_byte_thresholds g m) \<le> th_Aggressive (mount_byte_thresholds g m) \<and>
    th_Aggressive (mount_byte_thresholds g m) \<le> th_Critical (mount_byte_thresholds g m)"
  using assms by (auto simp: mount_byte_thresholds_def Let_def withinMountBand_def)

definition narrow_mount :: mount_config where
  "narrow_mount =
     \<lparr>mc_Path = ''/m'', mc_Label = [], mc_ThresholdWarning = 92, mc_ThresholdModerate = 0, mc_ThresholdAggressive = 0,
      mc_ThresholdCritical = 95, mc_TargetUsedPercent = 0, mc_ThresholdInodeWarning = 0, mc_ThresholdInodeCritical = 0,
      mc_InodeFreeFloor = 0\<rparr>"

theorem mount_ladder_inside_band_witness:
  "92 \<le> th_Moderate (mount_byte_thresholds \<lparr>th_Warning = 80, th_Moderate = 85, th_Aggressive = 90, th_Critical = 95\<rparr> narrow_mount)"
  using mount_ladder_inside_band [of narrow_mount "\<lparr>th_Warning = 80, th_Moderate = 85, th_Aggressive = 90, th_Critical = 95\<rparr>"]
  by (simp add: narrow_mount_def mount_byte_thresholds_def Let_def)

lemma foldl_assess_member:
  "mr \<in> set (ma_Mounts (foldl (assess_mount d host) a ms)) \<longleftrightarrow> mr \<in> set (ma_Mounts a) \<or>
     (\<exists>m\<in>set ms. mr \<in> set (ma_Mounts (assess_mount d host \<lparr>ma_Level = LevelNone, ma_InodeLevel = LevelNone, ma_Mounts = []\<rparr> m)))"
  by (subst foldl_assess_mounts) auto

text \<open>The level of a cycle is the highest any measurable mount asks for, and under pressure the
  cycle works on a mount that asks for it, by that mount's own thresholds.\<close>

theorem cycle_driven_by_worst_mount:
  assumes "cf_MonitoredMounts (d_config d) \<noteq> []" "\<forall>m\<in>set (cf_MonitoredMounts (d_config d)). mc_Path m \<noteq> []"
    and "\<forall>p e. h_stats host p = Inl e \<longrightarrow> e \<noteq> []"
  shows "ma_Level (assessMounts d host) = Max (insert LevelNone (set (mount_levels d host (cf_MonitoredMounts (d_config d))))) \<and>
    (ma_Level (assessMounts d host) \<noteq> LevelNone \<longrightarrow>
      (\<exists>m\<in>set (cf_MonitoredMounts (d_config d)). \<exists>stats. h_stats host (mc_Path m) = Inr stats \<and>
         primaryMonitorPath d (assessMounts d host) = mc_Path m \<and>
         CheckLevel (monitorForMount d m) stats = ma_Level (assessMounts d host)))"
proof -
  define ms where "ms = cf_MonitoredMounts (d_config d)"
  define a where "a = assessMounts d host"
  define z :: mount_assessment where "z = \<lparr>ma_Level = LevelNone, ma_InodeLevel = LevelNone, ma_Mounts = []\<rparr>"
  have a: "a = foldl (assess_mount d host) z ms" using assms(1) by (simp add: a_def assessMounts_def ms_def z_def Let_def)
  have lev: "ma_Level a = Max (insert LevelNone (set (mount_levels d host ms)))"
    unfolding a foldl_assess_level by (simp add: z_def)
  define good where "good = (\<lambda>mr::mount_report. mr_Error mr = [] \<and> mr_Path mr \<noteq> [] \<and> mr_Level mr = level_string (ma_Level a))"
  have from_mount: "\<exists>m\<in>set ms. \<exists>stats. h_stats host (mc_Path m) = Inr stats \<and> mr_Path mr = mc_Path m \<and>
      CheckLevel (monitorForMount d m) stats = ma_Level a" if "mr \<in> set (ma_Mounts a)" "good mr" for mr
  proof -
    from that(1) obtain m where m: "m \<in> set ms" "mr \<in> set (ma_Mounts (assess_mount d host z m))"
      unfolding a foldl_assess_member by (auto simp: z_def)
    show ?thesis
    proof (cases "h_stats host (mc_Path m)")
      case (Inl e)
      with m that(2) assms(3) show ?thesis by (auto simp: assess_mount_def z_def unmeasured_mount_def good_def Let_def)
    next
      case (Inr stats)
      with m that(2) show ?thesis
        by (auto simp: assess_mount_def z_def measured_mount_def good_def Let_def intro!: bexI [of _ m])
    qed
  qed
  have exists: "\<exists>mr\<in>set (ma_Mounts a). good mr" if "ma_Level a \<noteq> LevelNone"
  proof -
    have "ma_Level a \<in> insert LevelNone (set (mount_levels d host ms))" unfolding lev by (rule Max_in) auto
    with that obtain m stats where m: "m \<in> set ms" "h_stats host (mc_Path m) = Inr stats"
      "CheckLevel (monitorForMount d m) stats = ma_Level a"
      by (auto simp: mount_levels_def measured_def List.map_filter_def split: sum.splits)
    define mr where "mr = last (ma_Mounts (assess_mount d host z m))"
    have mr: "mr \<in> set (ma_Mounts (assess_mount d host z m))" "good mr"
      using m assms(2) by (auto simp: mr_def assess_mount_def z_def measured_mount_def good_def Let_def ms_def zero_mount_report_def)
    have "mr \<in> set (ma_Mounts a)"
      unfolding a foldl_assess_member using m(1) mr(1) by (auto simp: z_def)
    with mr(2) show ?thesis by blast
  qed
  have "\<exists>m\<in>set ms. \<exists>stats. h_stats host (mc_Path m) = Inr stats \<and> primaryMonitorPath d a = mc_Path m \<and>
      CheckLevel (monitorForMount d m) stats = ma_Level a" if lv: "ma_Level a \<noteq> LevelNone"
  proof -
    obtain mr where f: "find good (ma_Mounts a) = Some mr" using exists [OF lv] by (metis find_None_iff option.exhaust)
    then have "mr \<in> set (ma_Mounts a)" "good mr" by (auto simp: find_Some_iff)
    moreover have "primaryMonitorPath d a = mr_Path mr" using f by (simp add: primaryMonitorPath_def good_def)
    ultimately show ?thesis using from_mount by auto
  qed
  with lev show ?thesis by (simp add: a_def ms_def)
qed

end
