(* ===== verification/Selection.thy ===== *)
theory Selection
  imports Cycle_Policy
begin

text \<open>
  What an operator asks for on the command line, \<open>main.go\<close>: the plugin filter, the target
  override, the plugin list, and \<open>~\<close> in configured paths.
\<close>

subsection \<open>The plugin filter\<close>

datatype filter_error = EmptyPluginName string | UnknownPlugin string "string list"

text \<open>The loop over the parts; \<open>seen\<close> is the filter built so far.\<close>

fun collect_names :: "string \<Rightarrow> string list \<Rightarrow> string list \<Rightarrow> filter_error + string list" where
  "collect_names raw seen [] = Inr seen"
| "collect_names raw seen (part # parts) =
     (let name = trim_space part
      in if name = [] then Inl (EmptyPluginName raw)
         else if name \<in> set seen then collect_names raw seen parts
         else collect_names raw (seen @ [name]) parts)"

definition parsePluginFilter :: "string \<Rightarrow> filter_error + string list" where
  "parsePluginFilter raw0 =
     (let raw = trim_space raw0 in if raw = [] then Inr [] else collect_names raw [] (split_on CHR '','' raw))"

definition availablePluginNames :: "host registry \<Rightarrow> string list" where
  "availablePluginNames reg = sort (remdups (map p_Name reg))"

definition validatePluginFilter :: "string list \<Rightarrow> host registry \<Rightarrow> filter_error option" where
  "validatePluginFilter names reg =
     (case find (\<lambda>name. name \<notin> set (availablePluginNames reg)) names of
        None \<Rightarrow> None | Some name \<Rightarrow> Some (UnknownPlugin name (availablePluginNames reg)))"

definition filterEnabledPlugins :: "host plugin list \<Rightarrow> string list \<Rightarrow> host plugin list" where
  "filterEnabledPlugins enabled names =
     (if names = [] then enabled else filter (\<lambda>p. p_Name p \<in> set names) enabled)"

definition cycle_plugins :: "daemon \<Rightarrow> host plugin list" where
  "cycle_plugins d = filterEnabledPlugins (GetEnabled (d_goos d) (d_config d) (d_registry d)) (d_pluginFilter d)"

subsection \<open>The target override\<close>

definition applyTargetUsedPercentOverride :: "int \<Rightarrow> config \<Rightarrow> int + config" where
  "applyTargetUsedPercentOverride used cfg =
     (if used = 0 then Inr cfg
      else if used \<le> 0 \<or> 100 \<le> used then Inl used
      else Inr (cfg\<lparr>cf_TargetFree := used,
                    cf_MonitoredMounts := map (\<lambda>m. m\<lparr>mc_TargetUsedPercent := 0\<rparr>) (cf_MonitoredMounts cfg)\<rparr>))"

subsection \<open>The plugin list\<close>

record plugin_list_entry =
  pe_Name :: string
  pe_Description :: string
  pe_Enabled :: bool
  pe_Supported :: bool
  pe_SupportedPlatforms :: "string list"

definition pluginSupportedOnCurrentPlatform :: "string \<Rightarrow> string list \<Rightarrow> bool" where
  "pluginSupportedOnCurrentPlatform goos supported = (supported = [] \<or> goos \<in> set supported)"

definition listPluginEntries :: "string \<Rightarrow> host registry \<Rightarrow> config \<Rightarrow> plugin_list_entry list" where
  "listPluginEntries goos reg cfg =
     map (\<lambda>p. \<lparr>pe_Name = p_Name p, pe_Description = p_Description p, pe_Enabled = p_Enabled p cfg,
               pe_Supported = pluginSupportedOnCurrentPlatform goos (p_SupportedPlatforms p),
               pe_SupportedPlatforms = p_SupportedPlatforms p\<rparr>) reg"

definition newline :: string where "newline = [char_of (10::nat)]"

definition plugin_list_line :: "plugin_list_entry \<Rightarrow> string" where
  "plugin_list_line e =
     (let enabled = (if pe_Enabled e then ''enabled'' else ''disabled'');
          supported = (if pe_Supported e then ''supported'' else ''unsupported'') @
            (if pe_SupportedPlatforms e = [] then [] else '' on '' @ join_strings '','' (pe_SupportedPlatforms e))
      in ''- '' @ pe_Name e @ '': '' @ enabled @ '', '' @ supported @ '' - '' @ pe_Description e @ newline)"

text \<open>The text form; the JSON form is \<open>encoding/json\<close>'s.\<close>

definition writePluginList :: "plugin_list_entry list \<Rightarrow> string" where
  "writePluginList entries = ''tinyland-cleanup plugins'' @ newline @ concat (map plugin_list_line entries)"

subsection \<open>\<open>expandPathHome\<close>\<close>

definition expandPathHome :: "string option \<Rightarrow> path \<Rightarrow> path" where
  "expandPathHome home p =
     (if p = [] then []
      else if p = ''~'' then (case home of Some h \<Rightarrow> h | None \<Rightarrow> p)
      else if prefix ''~/'' p
      then (case home of Some h \<Rightarrow> join_path [h, trim_prefix p ''~/''] | None \<Rightarrow> p)
      else p)"

subsection \<open>Lemmas\<close>

lemma collect_names_ok:
  "collect_names raw seen parts = Inr names \<Longrightarrow> distinct seen \<Longrightarrow> [] \<notin> set seen \<Longrightarrow>
     distinct names \<and> [] \<notin> set names \<and> set names = set seen \<union> trim_space ` set parts \<and> prefix seen names"
proof (induction raw seen parts rule: collect_names.induct)
  case (2 raw seen part parts)
  show ?case
  proof (cases "trim_space part \<in> set seen")
    case True
    with 2 show ?thesis by (auto simp: Let_def split: if_splits)
  next
    case False
    with 2 have "distinct names \<and> [] \<notin> set names \<and> set names = set (seen @ [trim_space part]) \<union> trim_space ` set parts
        \<and> prefix (seen @ [trim_space part]) names"
      by (auto simp: Let_def split: if_splits)
    then show ?thesis by (auto dest: append_prefixD)
  qed
qed simp

lemma collect_names_error:
  "collect_names raw seen parts = Inl e \<longleftrightarrow> e = EmptyPluginName raw \<and> [] \<in> trim_space ` set parts"
  by (induction raw seen parts rule: collect_names.induct) (auto simp: Let_def)

lemma availablePluginNames_set [simp]: "set (availablePluginNames reg) = p_Name ` set reg"
  by (simp add: availablePluginNames_def)

lemma validatePluginFilter_None: "validatePluginFilter names reg = None \<longleftrightarrow> set names \<subseteq> p_Name ` set reg"
proof -
  have "validatePluginFilter names reg = None \<longleftrightarrow> find (\<lambda>name. name \<notin> set (availablePluginNames reg)) names = None"
    by (simp add: validatePluginFilter_def split: option.splits)
  then show ?thesis by (auto simp: find_None_iff)
qed

lemma cycle_plugins_enabled:
  "p \<in> set (cycle_plugins d) \<Longrightarrow> p \<in> set (d_registry d) \<and> p_Enabled p (d_config d)
     \<and> platform_supported (d_goos d) (p_SupportedPlatforms p) \<and> (d_pluginFilter d = [] \<or> p_Name p \<in> set (d_pluginFilter d))"
  by (auto simp: cycle_plugins_def filterEnabledPlugins_def GetEnabled_def split: if_splits)

subsection \<open>Properties\<close>

text \<open>A plugin filter that parses names each plugin once and no empty name, exactly the trimmed
  parts of the flag; parsing fails exactly on an empty part, and a parsed filter is accepted
  exactly when every name is a registered plugin.\<close>

theorem plugin_filter_exact:
  assumes "trim_space raw \<noteq> []"
  shows "case parsePluginFilter raw of
      Inr names \<Rightarrow> distinct names \<and> [] \<notin> set names \<and> set names = trim_space ` set (split_on CHR '','' (trim_space raw)) \<and>
        (validatePluginFilter names reg = None \<longleftrightarrow> set names \<subseteq> p_Name ` set reg)
    | Inl e \<Rightarrow> e = EmptyPluginName (trim_space raw) \<and> [] \<in> trim_space ` set (split_on CHR '','' (trim_space raw))"
  using assms collect_names_ok [of "trim_space raw" "[]" "split_on CHR '','' (trim_space raw)"]
    collect_names_error [of "trim_space raw" "[]" "split_on CHR '','' (trim_space raw)"]
  by (auto simp: parsePluginFilter_def Let_def validatePluginFilter_None split: sum.split)

theorem plugin_filter_exact_witness:
  "case parsePluginFilter ''nix, cache,nix'' of Inr names \<Rightarrow> distinct names | Inl e \<Rightarrow> False"
proof -
  have p: "parsePluginFilter ''nix, cache,nix'' = Inr [''nix'', ''cache'']" by code_simp
  have "trim_space ''nix, cache,nix'' \<noteq> []" by code_simp
  from plugin_filter_exact [OF this, of "[]"] show ?thesis unfolding p by simp
qed

end
