(* ===== verification/Watchdog.thy ===== *)
theory Watchdog
  imports Selection
begin

text \<open>
  The plugin watchdog, \<open>watchdog.go\<close>.  A plugin runs in its own goroutine under a deadline and
  a grace period; a run that outlives both is recorded as in flight and its plugin is skipped
  until that run returns.  The goroutine is an \<open>invocation\<close>: when it returns, with what, and
  what the host is after any wait.  The clock that ends the wait is the watchdog's own.
  When the run and a timer are due at the same instant, \<open>select\<close> may take either; the
  model takes the run.
\<close>

definition defaultPluginTimeout :: duration where "defaultPluginTimeout = 45 * minute"
definition defaultPluginGrace :: duration where "defaultPluginGrace = 30 * second"
definition defaultMemoryLimitMB :: int where "defaultMemoryLimitMB = 256"
definition DefaultExecTimeout :: duration where "DefaultExecTimeout = 60 * second"
definition DefaultExecReclaimTimeout :: duration where "DefaultExecReclaimTimeout = 15 * minute"
definition skipReasonPluginWedged :: string where "skipReasonPluginWedged = ''plugin_wedged''"
definition wedgeCancelled :: string where "wedgeCancelled = ''deadline_cancelled''"
definition wedgeAbandoned :: string where "wedgeAbandoned = ''deadline_abandoned''"

lemmas watchdog_defaults = defaultPluginTimeout_def defaultPluginGrace_def DefaultExecTimeout_def
  DefaultExecReclaimTimeout_def
lemmas wedge_names = skipReasonPluginWedged_def wedgeCancelled_def wedgeAbandoned_def

subsection \<open>Deadlines\<close>

definition parsePolicyDuration :: "string \<Rightarrow> duration \<Rightarrow> duration" where
  "parsePolicyDuration raw fallback =
     (if trim_space raw = [] then fallback
      else case config_parse_duration (trim_space raw) of
             None \<Rightarrow> fallback | Some v \<Rightarrow> (if v \<le> 0 then fallback else v))"

definition pluginTimeout :: "daemon \<Rightarrow> string \<Rightarrow> duration" where
  "pluginTimeout d name =
     (let fallback = parsePolicyDuration (pc_PluginTimeout (d_policy d)) defaultPluginTimeout
      in case tbl_get (pc_PluginTimeouts (d_policy d)) name of
           None \<Rightarrow> fallback | Some raw \<Rightarrow> parsePolicyDuration raw fallback)"

definition pluginGraceDuration :: "daemon \<Rightarrow> duration" where
  "pluginGraceDuration d = (if 0 < d_pluginGrace d then d_pluginGrace d else defaultPluginGrace)"

definition execTimeouts :: "daemon \<Rightarrow> string \<Rightarrow> duration \<times> duration" where
  "execTimeouts d name =
     (let probe = parsePolicyDuration (pc_ExecTimeout (d_policy d)) DefaultExecTimeout;
          reclaim = parsePolicyDuration (pc_ExecReclaimTimeout (d_policy d)) DefaultExecReclaimTimeout;
          probe = (case tbl_get (pc_ExecTimeouts (d_policy d)) name of
                     None \<Rightarrow> probe | Some raw \<Rightarrow> parsePolicyDuration raw probe)
      in (probe, reclaim))"

text \<open>\<open>NewRunScope\<close> (\<open>plugins/exec_deadline.go\<close>).\<close>

definition NewRunScope :: "string \<Rightarrow> instant \<Rightarrow> duration \<Rightarrow> duration \<Rightarrow> instant option \<Rightarrow> run_scope" where
  "NewRunScope plugin deadline probe reclaim shutdown =
     \<lparr>rs_plugin = plugin, rs_deadline = deadline,
      rs_probe = (if probe \<le> 0 then DefaultExecTimeout else probe),
      rs_reclaim = (if reclaim \<le> 0 then DefaultExecReclaimTimeout else reclaim), rs_shutdown = shutdown\<rparr>"

subsection \<open>Flights and what the watchdog saw\<close>

text \<open>
  A run the watchdog gave up waiting for.  \<open>fl_done\<close> is when its goroutine returns (never:
  none); the scope's observations are functions of the time since the start.
\<close>

record plugin_flight =
  fl_started :: instant
  fl_done :: "instant option"
  fl_last :: "duration \<Rightarrow> string"
  fl_killed :: "duration \<Rightarrow> string list"

type_synonym flights = "plugin_flight table"

record plugin_watch =
  pw_state :: string
  pw_since :: instant
  pw_timeout :: duration
  pw_lastCommand :: string
  pw_commands :: "string list"

definition returned :: "plugin_watch \<Rightarrow> bool" where
  "returned w = (pw_state w = [] \<or> pw_state w = wedgeCancelled)"

definition is_done :: "instant option \<Rightarrow> instant \<Rightarrow> bool" where
  "is_done t now = (case t of None \<Rightarrow> False | Some u \<Rightarrow> u \<le> now)"

subsection \<open>\<open>watchPlugin\<close>\<close>

text \<open>How long the first \<open>select\<close> waits at most: the deadline, or the daemon's shutdown.\<close>

definition context_wait :: "daemon \<Rightarrow> instant \<Rightarrow> duration \<Rightarrow> duration" where
  "context_wait d now timeout =
     (case d_shutdown d of None \<Rightarrow> timeout | Some t \<Rightarrow> max 0 (min timeout (t - now)))"

definition host_at :: "instant \<Rightarrow> host \<Rightarrow> host" where "host_at t h = h\<lparr>h_clock := t\<rparr>"

definition watch_run ::
    "daemon \<Rightarrow> host plugin \<Rightarrow> ('r, host) operation \<Rightarrow> cleanup_level \<Rightarrow> flights \<Rightarrow> host
       \<Rightarrow> 'r option \<times> plugin_watch \<times> flights \<times> host" where
  "watch_run d p operation level inFlight host =
     (let name = p_Name p; timeout = pluginTimeout d name; started = h_clock host;
          (probe, reclaim) = execTimeouts d name;
          scope = NewRunScope name (started + timeout) probe reclaim (d_shutdown d);
          iv = operation scope level (d_config d) host;
          stop = context_wait d started timeout;
          limit = stop + pluginGraceDuration d;
          watch = \<lparr>pw_state = [], pw_since = started, pw_timeout = timeout, pw_lastCommand = [], pw_commands = []\<rparr>;
          abandoned =
            (None,
             watch\<lparr>pw_state := wedgeAbandoned, pw_commands := iv_killed iv limit, pw_lastCommand := iv_last iv limit\<rparr>,
             tbl_put name
               \<lparr>fl_started = started, fl_done = map_option (\<lambda>a. started + a) (iv_after iv),
                fl_last = iv_last iv, fl_killed = iv_killed iv\<rparr> inFlight,
             host_at (started + limit) (iv_world iv limit))
      in case iv_after iv of
           None \<Rightarrow> abandoned
         | Some a \<Rightarrow>
             (if a \<le> stop
              then (Some (iv_result iv), watch\<lparr>pw_commands := iv_killed iv a\<rparr>, inFlight,
                    host_at (started + a) (iv_world iv a))
              else if a \<le> limit
              then (Some (iv_result iv),
                    watch\<lparr>pw_commands := iv_killed iv a, pw_lastCommand := iv_last iv a,
                          pw_state := (if is_done (d_shutdown d) (started + a) then [] else wedgeCancelled)\<rparr>,
                    inFlight, host_at (started + a) (iv_world iv a))
              else abandoned))"

definition watchPlugin ::
    "daemon \<Rightarrow> host plugin \<Rightarrow> ('r, host) operation \<Rightarrow> cleanup_level \<Rightarrow> flights \<Rightarrow> host
       \<Rightarrow> 'r option \<times> plugin_watch \<times> flights \<times> host" where
  "watchPlugin d p operation level inFlight host =
     (let name = p_Name p; now = h_clock host
      in case tbl_get inFlight name of
           None \<Rightarrow> watch_run d p operation level inFlight host
         | Some flight \<Rightarrow>
             (if is_done (fl_done flight) now then watch_run d p operation level (tbl_del name inFlight) host
              else (None,
                    \<lparr>pw_state = skipReasonPluginWedged, pw_since = fl_started flight, pw_timeout = 0,
                     pw_lastCommand = fl_last flight (now - fl_started flight),
                     pw_commands = fl_killed flight (now - fl_started flight)\<rparr>, inFlight, host)))"

subsection \<open>Reporting\<close>

definition describe :: "plugin_watch \<Rightarrow> string \<Rightarrow> string" where
  "describe w name =
     (let tail = (if pw_lastCommand w = [] then [] else '' (last command: '' @ pw_lastCommand w @ '')'')
      in if pw_state w = wedgeCancelled
         then ''plugin '' @ name @ '' exceeded its '' @ show_duration (pw_timeout w) @ '' deadline and was cancelled'' @ tail
         else if pw_state w = wedgeAbandoned
         then ''plugin '' @ name @ '' exceeded its '' @ show_duration (pw_timeout w)
                @ '' deadline and did not return; the cycle continued without it'' @ tail
         else if pw_state w = skipReasonPluginWedged
         then ''plugin '' @ name @ '' is still wedged in a run started at '' @ show_instant (pw_since w) @ tail
         else [])"

text \<open>The report with what the watchdog saw, and whether the plugin produced no result.\<close>

definition applyWatch :: "plugin_watch \<Rightarrow> plugin_report \<Rightarrow> plugin_report \<times> bool" where
  "applyWatch w pr0 =
     (let pr = pr0\<lparr>pr_WedgedCommands := pw_commands w\<rparr>
      in if pw_state w = [] then (pr, False)
         else let pr = pr\<lparr>pr_Wedged := pw_state w, pr_LastCommand := pw_lastCommand w\<rparr>;
                  message = describe w (pr_Name pr)
              in if pw_state w = skipReasonPluginWedged
                 then (pr\<lparr>pr_WouldRun := False, pr_SkipReason := skipReasonPluginWedged,
                          pr_WedgedSince := format_stamp (pw_since w)\<rparr>, True)
                 else if pw_state w = wedgeAbandoned
                 then (pr\<lparr>pr_WedgedSince := format_stamp (pw_since w), pr_Error := message\<rparr>, True)
                 else (pr, False))"

definition applyMemoryLimit :: "config \<Rightarrow> (string \<Rightarrow> string) \<Rightarrow> int" where
  "applyMemoryLimit cfg getenv =
     (if getenv ''GOMEMLIMIT'' \<noteq> [] then 0
      else let limitMB = (if pc_MemoryLimitMB (cf_Policy cfg) \<noteq> 0 then pc_MemoryLimitMB (cf_Policy cfg)
                          else defaultMemoryLimitMB)
           in if limitMB < 0 then 0 else wrap64 (limitMB * 1024 * 1024))"

subsection \<open>Lemmas\<close>

lemma parsePolicyDuration_pos: "0 < fallback \<Longrightarrow> 0 < parsePolicyDuration raw fallback"
  by (auto simp: parsePolicyDuration_def split: option.splits)

lemma pluginTimeout_pos: "0 < pluginTimeout d name"
  by (auto simp: pluginTimeout_def Let_def watchdog_defaults duration_units parsePolicyDuration_pos split: option.splits)

lemma pluginGrace_pos: "0 < pluginGraceDuration d"
  by (simp add: pluginGraceDuration_def watchdog_defaults duration_units)

lemma context_wait_range: "0 \<le> context_wait d now timeout \<or> timeout < 0" "0 \<le> timeout \<Longrightarrow> context_wait d now timeout \<le> timeout"
  by (auto simp: context_wait_def split: option.splits)

end
