(* ===== verification/Cycle.thy ===== *)
theory Cycle
  imports Watchdog
begin

text \<open>
  One cleanup cycle, \<open>runCycle\<close> of \<open>main.go\<close>, in the order the code has it: assess the mounts,
  load the state, decide the backoffs, step every enabled plugin through its gates, account
  the progress, save.  The local variables of the loop are a record that every step returns
  updated; \<open>stateErr == nil\<close> is a state that is there.  Byte and item totals are sums of
  \<open>int64\<close> figures far below their range and are plain integers.
\<close>

subsection \<open>The loop's variables\<close>

record loop_state =
  l_report :: cycle_report
  l_state :: "cleanup_state option"
  l_dirty :: bool
  l_totalFreed :: int
  l_totalItems :: int
  l_ladderFreed :: int
  l_flights :: flights
  l_host :: host

record cycle_env =
  ce_now :: instant
  ce_level :: cleanup_level
  ce_before :: "string + disk_stats"

definition add_plugin :: "plugin_report \<Rightarrow> cycle_report \<Rightarrow> cycle_report" where
  "add_plugin pr r = r\<lparr>r_Plugins := r_Plugins r @ [pr]\<rparr>"

subsection \<open>Level-independent plugins\<close>

definition dry_run_result :: "host plugin \<Rightarrow> cleanup_plan option \<times> plugin_watch \<times> flights \<times> host \<Rightarrow> plugin_report
    \<Rightarrow> plugin_report \<times> cleanup_plan option \<times> flights \<times> host" where
  "dry_run_result p out pr0 =
     (case out of (res, watch, fl, host) \<Rightarrow>
        (case applyWatch watch pr0 of (pr, noResult) \<Rightarrow>
           (case (res, noResult) of
              (Some plan, False) \<Rightarrow> (pr\<lparr>pr_Plan := Some plan\<rparr>, Some plan, fl, host)
            | _ \<Rightarrow> (pr, None, fl, host))))"

text \<open>The dry run of one plugin: its plan, if it is a planner and returned one.\<close>

definition dry_run_plan ::
    "daemon \<Rightarrow> host plugin \<Rightarrow> cleanup_level \<Rightarrow> flights \<Rightarrow> host \<Rightarrow> plugin_report
       \<Rightarrow> plugin_report \<times> cleanup_plan option \<times> flights \<times> host" where
  "dry_run_plan d p level fl host pr0 =
     (let pr = pr0\<lparr>pr_SkipReason := ''dry_run''\<rparr>
      in case p_PlanCleanup p of
           None \<Rightarrow> (pr, None, fl, host)
         | Some planner \<Rightarrow> dry_run_result p (watchPlugin d p planner level fl host) pr)"

definition plan_totals :: "cleanup_plan option \<Rightarrow> cycle_report \<Rightarrow> cycle_report" where
  "plan_totals plan r =
     (case plan of
        None \<Rightarrow> r
      | Some pl \<Rightarrow> r\<lparr>r_PlannedEstimatedBytesFreed := r_PlannedEstimatedBytesFreed r + cp_EstimatedBytesFreed pl,
                      r_PlannedTargets := r_PlannedTargets r + int (length (cp_Targets pl))\<rparr>)"

text \<open>A result as the watchdog leaves it: a cancelled run without an error of its own gets one.\<close>

definition watched_result :: "host plugin \<Rightarrow> plugin_watch \<Rightarrow> cleanup_result \<Rightarrow> cleanup_result" where
  "watched_result p w res =
     (if pw_state w = wedgeCancelled \<and> cr_Error res = None then res\<lparr>cr_Error := Some (describe w (p_Name p))\<rparr> else res)"

definition independent_outcome :: "host plugin \<Rightarrow> cleanup_result \<Rightarrow> plugin_report \<Rightarrow> plugin_report" where
  "independent_outcome p res pr =
     pr\<lparr>pr_Ran := True, pr_BytesFreed := cr_BytesFreed res, pr_EstimatedBytesFreed := cr_EstimatedBytesFreed res,
        pr_ItemsCleaned := cr_ItemsCleaned res,
        pr_Error := (case cr_Error res of None \<Rightarrow> pr_Error pr | Some e \<Rightarrow> e)\<rparr>"

definition fresh_plugin_report :: "daemon \<Rightarrow> host plugin \<Rightarrow> cleanup_level \<Rightarrow> plugin_report" where
  "fresh_plugin_report d p level =
     zero_plugin_report\<lparr>pr_Name := p_Name p, pr_Description := p_Description p, pr_Level := level_string level,
       pr_DryRun := d_dryRun d, pr_WouldRun := True\<rparr>"

text \<open>The report, the bytes and items it adds, the flights and the host.\<close>

definition runLevelIndependentPlugin ::
    "daemon \<Rightarrow> host plugin \<Rightarrow> cleanup_level \<Rightarrow> cycle_report \<Rightarrow> flights \<Rightarrow> host
       \<Rightarrow> cycle_report \<times> int \<times> int \<times> flights \<times> host" where
  "runLevelIndependentPlugin d p level r fl host =
     (let pr = (fresh_plugin_report d p level)\<lparr>pr_LevelIndependent := True\<rparr>
      in if d_dryRun d
         then (case dry_run_plan d p level fl host pr of (pr, plan, fl, host) \<Rightarrow>
                 (add_plugin pr (plan_totals plan r), 0, 0, fl, host))
         else (case watchPlugin d p (p_Cleanup p) level fl host of (res, watch, fl, host) \<Rightarrow>
                 (case applyWatch watch pr of (pr, noResult) \<Rightarrow>
                    (case (res, noResult) of
                       (Some result, False) \<Rightarrow>
                         (let result = watched_result p watch result;
                              r = add_plugin (independent_outcome p result pr) r
                          in if cr_Error result = None \<and> (0 < cr_BytesFreed result \<or> 0 < cr_ItemsCleaned result)
                             then (r\<lparr>r_TotalBytesFreed := r_TotalBytesFreed r + cr_BytesFreed result,
                                     r_TotalItemsCleaned := r_TotalItemsCleaned r + cr_ItemsCleaned result\<rparr>,
                                   cr_BytesFreed result, cr_ItemsCleaned result, fl, host)
                             else (r, 0, 0, fl, host))
                     | _ \<Rightarrow> (add_plugin (pr\<lparr>pr_Ran := (pw_state watch = wedgeAbandoned)\<rparr>) r, 0, 0, fl, host)))))"

definition independent_step :: "daemon \<Rightarrow> cycle_env \<Rightarrow> host plugin \<Rightarrow> loop_state \<Rightarrow> loop_state" where
  "independent_step d env p l =
     (case runLevelIndependentPlugin d p (ce_level env) (l_report l) (l_flights l) (l_host l) of
        (r, freed, items, fl, host) \<Rightarrow>
          l\<lparr>l_report := updateHostFreeAfter d host (ce_before env) r, l_totalFreed := l_totalFreed l + freed,
            l_totalItems := l_totalItems l + items, l_flights := fl, l_host := host\<rparr>)"

subsection \<open>The gates\<close>

text \<open>A gate returns the plugin report and whether the plugin is held back.\<close>

record zero_yield_verdict =
  zv_held :: bool
  zv_until :: instant
  zv_count :: int
  zv_lifted :: string

definition zero_yield_verdict ::
    "daemon \<Rightarrow> cycle_env \<Rightarrow> host plugin \<Rightarrow> cycle_report \<Rightarrow> cleanup_state \<Rightarrow> zero_yield_verdict" where
  "zero_yield_verdict d env p r s =
     (let y = zeroYieldSuppression s (p_Name p) (ce_level env) (ce_now env) (d_digest d);
          exempt = zeroYieldExemption d p r (\<not> isl (ce_before env));
          next = pluginLastRun s (p_Name p) + zy_pressureMin (zeroYieldPolicy d);
          early = (exempt = zeroYieldLiftMountPressure \<and> ce_now env < next)
      in if \<not> ys_suppressed y
         then \<lparr>zv_held = False, zv_until = ys_until y, zv_count = ys_count y, zv_lifted = ys_lifted y\<rparr>
         else if exempt \<noteq> [] \<and> \<not> early
         then \<lparr>zv_held = False, zv_until = ys_until y, zv_count = ys_count y, zv_lifted = exempt\<rparr>
         else \<lparr>zv_held = True, zv_until = (if early \<and> next < ys_until y then next else ys_until y),
               zv_count = ys_count y, zv_lifted = ys_lifted y\<rparr>)"

definition zero_yield_gate ::
    "daemon \<Rightarrow> cycle_env \<Rightarrow> host plugin \<Rightarrow> loop_state \<Rightarrow> plugin_report \<Rightarrow> plugin_report \<times> bool" where
  "zero_yield_gate d env p l pr =
     (case l_state l of
        None \<Rightarrow> (pr, False)
      | Some s \<Rightarrow>
          (if zy_limit (zeroYieldPolicy d) \<le> 0 then (pr, False)
           else let v = zero_yield_verdict d env p (l_report l) s
                in if zv_held v
                   then (pr\<lparr>pr_WouldRun := False, pr_SkipReason := ''zero_yield_backoff'', pr_ZeroYieldCount := zv_count v,
                            pr_RetryAt := format_stamp (zv_until v)\<rparr>, True)
                   else if zv_lifted v \<noteq> []
                   then (pr\<lparr>pr_ZeroYieldCount := zv_count v, pr_ZeroYieldLifted := zv_lifted v\<rparr>, False)
                   else (pr, False)))"

definition cooldown_gate ::
    "daemon \<Rightarrow> cycle_env \<Rightarrow> host plugin \<Rightarrow> loop_state \<Rightarrow> plugin_report \<Rightarrow> plugin_report \<times> bool" where
  "cooldown_gate d env p l pr =
     (case l_state l of
        None \<Rightarrow> (pr, False)
      | Some s \<Rightarrow>
          (case pluginCooldown d (l_report l) (ce_level env) of
             None \<Rightarrow> (pr, False)
           | Some (cooldown, reason) \<Rightarrow>
               (let remaining = cooldownRemaining s (p_Name p) (ce_level env) (ce_now env) cooldown
                in if 0 < remaining
                   then (pr\<lparr>pr_WouldRun := False, pr_SkipReason := reason,
                            pr_CooldownRemainingSeconds := duration_round remaining second sdiv second,
                            pr_RetryAt := format_stamp (ce_now env + remaining)\<rparr>, True)
                   else (pr, False))))"

subsection \<open>Running and recording\<close>

definition recordRun ::
    "daemon \<Rightarrow> cycle_env \<Rightarrow> host plugin \<Rightarrow> cleanup_result \<Rightarrow> plugin_report \<Rightarrow> cleanup_state
       \<Rightarrow> plugin_report \<times> cleanup_state" where
  "recordRun d env p result pr s =
     (let s = recordPluginRun (p_Name p) (ce_level env) (ce_now env) result s;
          suppressible = (zeroYieldPermanentExemption d p = [])
      in case recordPluginYield (p_Name p) (cr_BytesFreed result < byteProgressMinBytes d) (ce_now env)
                (d_digest d) (zeroYieldPolicy d) suppressible s of
           (rec, s) \<Rightarrow> (pr\<lparr>pr_ZeroYieldCount := ps_ZeroYieldCount rec, pr_SuppressedUntil := ps_SuppressedUntil rec\<rparr>, s))"

text \<open>\<open>if stateErr == nil { recordRun(...) }\<close> and the append that follows it.\<close>

definition record_and_append ::
    "daemon \<Rightarrow> cycle_env \<Rightarrow> host plugin \<Rightarrow> cleanup_result \<Rightarrow> plugin_report \<Rightarrow> loop_state \<Rightarrow> loop_state" where
  "record_and_append d env p result pr l =
     (case l_state l of
        None \<Rightarrow> l\<lparr>l_report := add_plugin pr (l_report l)\<rparr>
      | Some s \<Rightarrow>
          (case recordRun d env p result pr s of
             (pr, s) \<Rightarrow> l\<lparr>l_report := add_plugin pr (l_report l), l_state := Some s, l_dirty := True\<rparr>))"

definition failed_result :: "host plugin \<Rightarrow> cleanup_level \<Rightarrow> string \<Rightarrow> cleanup_result" where
  "failed_result p level message =
     \<lparr>cr_Plugin = p_Name p, cr_Level = level, cr_BytesFreed = 0, cr_EstimatedBytesFreed = 0,
      cr_CommandBytesFreed = 0, cr_HostBytesFreed = 0, cr_ItemsCleaned = 0, cr_Error = Some message\<rparr>"

definition ran_report :: "cleanup_result \<Rightarrow> plugin_report \<Rightarrow> plugin_report" where
  "ran_report result pr =
     pr\<lparr>pr_Ran := True, pr_BytesFreed := cr_BytesFreed result, pr_EstimatedBytesFreed := cr_EstimatedBytesFreed result,
        pr_CommandBytesFreed := cr_CommandBytesFreed result, pr_HostBytesFreed := cr_HostBytesFreed result,
        pr_ItemsCleaned := cr_ItemsCleaned result,
        pr_Error := (case cr_Error result of None \<Rightarrow> pr_Error pr | Some e \<Rightarrow> e)\<rparr>"

definition count_freed :: "cleanup_result \<Rightarrow> loop_state \<Rightarrow> loop_state" where
  "count_freed result l =
     (if 0 < cr_BytesFreed result \<or> 0 < cr_ItemsCleaned result
      then l\<lparr>l_totalFreed := l_totalFreed l + cr_BytesFreed result,
             l_totalItems := l_totalItems l + cr_ItemsCleaned result,
             l_ladderFreed := l_ladderFreed l + cr_BytesFreed result\<rparr>
      else l)"

definition refresh_free :: "daemon \<Rightarrow> cycle_env \<Rightarrow> loop_state \<Rightarrow> loop_state" where
  "refresh_free d env l = l\<lparr>l_report := updateHostFreeAfter d (l_host l) (ce_before env) (l_report l)\<rparr>"

definition run_step :: "daemon \<Rightarrow> cycle_env \<Rightarrow> host plugin \<Rightarrow> plugin_report \<Rightarrow> loop_state \<Rightarrow> loop_state" where
  "run_step d env p pr0 l0 =
     (case watchPlugin d p (p_Cleanup p) (ce_level env) (l_flights l0) (l_host l0) of (res, watch, fl, host) \<Rightarrow>
        (let l = l0\<lparr>l_flights := fl, l_host := host\<rparr>
         in case applyWatch watch pr0 of (pr, noResult) \<Rightarrow>
              (case (res, noResult) of
                 (Some result, False) \<Rightarrow>
                   (let result = watched_result p watch result; l = record_and_append d env p result (ran_report result pr) l
                    in if cr_Error result \<noteq> None then l
                       else refresh_free d env (count_freed result l))
               | _ \<Rightarrow>
                   (if pw_state watch = wedgeAbandoned
                    then record_and_append d env p (failed_result p (ce_level env) (pr_Error pr)) (pr\<lparr>pr_Ran := True\<rparr>) l
                    else l\<lparr>l_report := add_plugin pr (l_report l)\<rparr>))))"

definition dry_run_step :: "daemon \<Rightarrow> cycle_env \<Rightarrow> host plugin \<Rightarrow> plugin_report \<Rightarrow> loop_state \<Rightarrow> loop_state" where
  "dry_run_step d env p pr0 l =
     (case dry_run_plan d p (ce_level env) (l_flights l) (l_host l) pr0 of (pr, plan, fl, host) \<Rightarrow>
        (let r = plan_totals plan (l_report l);
             r = (case plan of
                    None \<Rightarrow> r
                  | Some pl \<Rightarrow> (if r_PlannedRequiredFreeBytes r < cp_RequiredFreeBytes pl
                               then r\<lparr>r_PlannedRequiredFreeBytes := cp_RequiredFreeBytes pl\<rparr> else r))
         in l\<lparr>l_report := add_plugin pr r, l_flights := fl, l_host := host\<rparr>))"

subsection \<open>One plugin of the ladder\<close>

definition target_met_skip :: "plugin_report \<Rightarrow> loop_state \<Rightarrow> loop_state" where
  "target_met_skip pr l =
     l\<lparr>l_report := add_plugin (pr\<lparr>pr_WouldRun := False, pr_SkipReason := ''target_free_met''\<rparr>)
         ((l_report l)\<lparr>r_StopReason := (if r_StopReason (l_report l) = [] then ''target_free_met''
                                       else r_StopReason (l_report l))\<rparr>)\<rparr>"

definition append_report :: "plugin_report \<Rightarrow> loop_state \<Rightarrow> loop_state" where
  "append_report pr l = l\<lparr>l_report := add_plugin pr (l_report l)\<rparr>"

definition ladder_step :: "daemon \<Rightarrow> cycle_env \<Rightarrow> host plugin \<Rightarrow> loop_state \<Rightarrow> loop_state" where
  "ladder_step d env p l =
     (let pr = fresh_plugin_report d p (ce_level env)
      in if \<not> d_dryRun d \<and> cleanupTargetMet (l_report l) then target_met_skip pr l
         else case zero_yield_gate d env p l pr of (pr, held) \<Rightarrow>
           (if held then append_report pr l
            else case cooldown_gate d env p l pr of (pr, held) \<Rightarrow>
              (if held then append_report pr l
               else if d_dryRun d then dry_run_step d env p pr l
               else run_step d env p pr l)))"

definition plugin_step :: "daemon \<Rightarrow> cycle_env \<Rightarrow> loop_state \<Rightarrow> host plugin \<Rightarrow> loop_state" where
  "plugin_step d env l p = (if p_LevelIndependent p then independent_step d env p l else ladder_step d env p l)"

definition plugin_loop :: "daemon \<Rightarrow> cycle_env \<Rightarrow> host plugin list \<Rightarrow> loop_state \<Rightarrow> loop_state" where
  "plugin_loop d env ps l = foldl (plugin_step d env) l ps"

subsection \<open>Before the plugins\<close>

definition cycle_start :: "daemon \<Rightarrow> instant \<Rightarrow> cleanup_level \<Rightarrow> cleanup_level \<Rightarrow> mount_assessment \<Rightarrow> cycle_report" where
  "cycle_start d now forced level a =
     zero_cycle_report\<lparr>r_Timestamp := format_stamp now, r_DryRun := d_dryRun d, r_ForcedLevel := (forced \<noteq> LevelNone),
       r_Level := level_string level, r_MonitorPath := primaryMonitorPath d a,
       r_MaxInodeLevel := level_string (ma_InodeLevel a), r_Mounts := ma_Mounts a, r_PluginFilter := d_pluginFilter d,
       r_CooldownSeconds := (if 0 < cleanupCooldown d then cleanupCooldown d sdiv second else 0),
       r_MinimumFreeBytes := minimumFreeBytes d, r_EmergencyFreeBytes := emergencyFreeBytes d,
       r_StateFile := expandPathHome (d_home d) (pc_StateFile (d_policy d))\<rparr>"

definition loadStateForCycle ::
    "daemon \<Rightarrow> store_faults \<Rightarrow> instant \<Rightarrow> files \<Rightarrow> (string + cleanup_state \<times> path) \<times> files" where
  "loadStateForCycle d f now fs =
     (if d_dryRun d then (Inr (newCleanupState, []), fs)
      else loadCleanupState f (expandPathHome (d_home d) (pc_StateFile (d_policy d))) now fs)"

text \<open>The report, the state and the files after the load.\<close>

definition load_step ::
    "daemon \<Rightarrow> store_faults \<Rightarrow> instant \<Rightarrow> files \<Rightarrow> cycle_report \<Rightarrow> cycle_report \<times> cleanup_state option \<times> files" where
  "load_step d f now fs r =
     (case loadStateForCycle d f now fs of
        (Inl err, fs') \<Rightarrow> (r\<lparr>r_StateError := err\<rparr>, None, fs')
      | (Inr (s, quarantined), fs') \<Rightarrow>
          (r\<lparr>r_StateQuarantined := quarantined, r_InodeNoProgressCount := inodeNoProgressCount s (r_MonitorPath r)\<rparr>,
           Some s, fs'))"

definition measure_before ::
    "daemon \<Rightarrow> string + disk_stats \<Rightarrow> cleanup_state option \<Rightarrow> cycle_report \<Rightarrow> cycle_report" where
  "measure_before d before state r0 =
     (case before of
        Inl err \<Rightarrow> r0\<lparr>r_HostFreeError := err\<rparr>
      | Inr b \<Rightarrow>
          (let r = updateTargetFreeStatus d b
                 (r0\<lparr>r_HostFreeBeforeBytes := ds_Free b, r_HostInodesTotal := ds_InodesTotal b,
                     r_HostInodesFreeBefore := ds_InodesFree b, r_HostInodesUsedPercentBefore := ds_InodesUsedPercent b,
                     r_HostInodeLevel := level_string (inodeLevelForPath d (r_MonitorPath r0) b),
                     r_HostByteLevel := level_string (byteLevelForPath d (r_MonitorPath r0) b)\<rparr>)
           in case state of
                None \<Rightarrow> r
              | Some s \<Rightarrow> r\<lparr>r_ByteNoProgressCount :=
                  byteNoProgressCount s (r_MonitorPath r) (level_value (parseLevel (r_HostByteLevel r)))\<rparr>))"

definition was_engaged :: "cycle_report \<Rightarrow> cleanup_state option \<Rightarrow> bool" where
  "was_engaged r state = (case state of None \<Rightarrow> False | Some s \<Rightarrow> byteBackoffEngaged s (r_MonitorPath r))"

subsection \<open>Saving\<close>

definition save_step :: "store_faults \<Rightarrow> cleanup_state \<Rightarrow> cycle_report \<Rightarrow> host \<Rightarrow> cycle_report \<times> host" where
  "save_step f s r host =
     (case save_result f (r_StateFile r) s (h_files host) of
        (fs, err) \<Rightarrow> ((case err of None \<Rightarrow> r | Some e \<Rightarrow> r\<lparr>r_StateError := e\<rparr>), host\<lparr>h_files := fs\<rparr>))"

subsection \<open>No pressure\<close>

text \<open>What pressure clearing does to the state: the new state and whether it changed.\<close>

definition pressure_cleared :: "daemon \<Rightarrow> instant \<Rightarrow> string + disk_stats \<Rightarrow> cycle_report \<Rightarrow> cleanup_state \<Rightarrow> cleanup_state \<times> bool" where
  "pressure_cleared d now before r s0 =
     (let release = (\<not> isl before \<and> (byteBackoffEngaged s0 (r_MonitorPath r) \<or> byteNoProgressPending s0 (r_MonitorPath r)));
          s = (if release
               then recordByteProgress (r_MonitorPath r) (r_HostFreeBeforeBytes r) (r_HostByteLevel r)
                      (level_value LevelNone) now True False False s0
               else s0)
      in case liftZeroYieldSuppression s of (lifted, s) \<Rightarrow> (s, release \<or> lifted))"

definition quiet_independent :: "daemon \<Rightarrow> cycle_report \<times> flights \<times> host \<Rightarrow> host plugin \<Rightarrow> cycle_report \<times> flights \<times> host" where
  "quiet_independent d x p =
     (case x of (r, fl, host) \<Rightarrow>
        (if p_LevelIndependent p
         then (case runLevelIndependentPlugin d p LevelNone r fl host of (r, _, _, fl, host) \<Rightarrow> (r, fl, host))
         else (r, fl, host)))"

definition quiet_path ::
    "daemon \<Rightarrow> store_faults \<Rightarrow> instant \<Rightarrow> string + disk_stats \<Rightarrow> cleanup_state option \<Rightarrow> cycle_report \<Rightarrow> flights \<Rightarrow> host
       \<Rightarrow> cycle_report \<times> flights \<times> host" where
  "quiet_path d f now before state r fl host =
     (let (r, host) =
        (case state of
           None \<Rightarrow> (r, host)
         | Some s \<Rightarrow>
             (if d_dryRun d then (r, host)
              else (case pressure_cleared d now before r s of
                      (s, dirty) \<Rightarrow> if dirty then save_step f s r host else (r, host))))
      in foldl (quiet_independent d) (r, fl, host) (cycle_plugins d))"

subsection \<open>Under pressure\<close>

definition decide_backoffs :: "daemon \<Rightarrow> cleanup_state option \<Rightarrow> cycle_report \<Rightarrow> cycle_report" where
  "decide_backoffs d state r0 =
     (let r = r0\<lparr>r_InodeBackoff := (\<not> r_ForcedLevel r0 \<and> 0 < cleanupCooldown d \<and> inodeBackoffActive d r0)\<rparr>;
          r = (if \<not> r_ForcedLevel r \<and> \<not> d_dryRun d \<and> state \<noteq> None
               then (case byteBackoffActive d r of (engaged, reason) \<Rightarrow>
                       r\<lparr>r_ByteBackoff := engaged, r_ByteBackoffReason := reason\<rparr>)
               else r)
      in if r_ByteBackoff r
         then r\<lparr>r_ByteBackoffSeconds := byteBackoffIntervalFor d (r_ByteNoProgressCount r) sdiv second\<rparr>
         else r)"

definition cycle_totals :: "loop_state \<Rightarrow> loop_state" where
  "cycle_totals l =
     l\<lparr>l_report := (l_report l)\<lparr>r_TotalBytesFreed := l_totalFreed l, r_TotalItemsCleaned := l_totalItems l,
         r_LadderBytesFreed := l_ladderFreed l, r_NextRetryAt := nextRetryAt (r_Plugins (l_report l))\<rparr>\<rparr>"

definition record_inode_progress :: "daemon \<Rightarrow> instant \<Rightarrow> loop_state \<Rightarrow> loop_state" where
  "record_inode_progress d now l =
     (case l_state l of
        None \<Rightarrow> l
      | Some s \<Rightarrow>
          (let r = l_report l;
               write = (\<lambda>improved. l\<lparr>l_state := Some (recordInodeProgress (r_MonitorPath r) (r_HostInodesFreeAfter r)
                          (r_HostInodesUsedPercentAfter r) (r_HostInodeLevel r) now improved s), l_dirty := True\<rparr>)
           in if d_dryRun d \<or> r_HostInodesTotal r = 0 then l
              else if parseLevel (r_MaxInodeLevel r) \<noteq> LevelNone
              then write (0 < r_HostInodesFreeDelta r \<or> parseLevel (r_HostInodeLevel r) = LevelNone)
              else if 0 < inodeNoProgressCount s (r_MonitorPath r) then write True
              else l))"

definition record_byte_progress :: "daemon \<Rightarrow> cycle_env \<Rightarrow> bool \<Rightarrow> loop_state \<Rightarrow> loop_state" where
  "record_byte_progress d env wasEngaged l =
     (case l_state l of
        None \<Rightarrow> l
      | Some s \<Rightarrow>
          (let r = l_report l; beforeLevel = parseLevel (r_HostByteLevel r)
           in if d_dryRun d \<or> isl (ce_before env) \<or> r_HostFreeError r \<noteq> [] then l
              else if beforeLevel \<noteq> LevelNone \<or> wasEngaged \<or> byteNoProgressPending s (r_MonitorPath r)
              then l\<lparr>l_state := Some (recordByteProgress (r_MonitorPath r) (r_HostFreeAfterBytes r) (r_HostByteLevel r)
                       (level_value beforeLevel) (ce_now env) (byteProgressMade d r) (anyLadderPluginRan (r_Plugins r))
                       (r_ByteBackoff r \<or> (r_ForcedLevel r \<and> wasEngaged)) s), l_dirty := True\<rparr>
              else l))"

definition save_if_dirty :: "store_faults \<Rightarrow> loop_state \<Rightarrow> loop_state" where
  "save_if_dirty f l =
     (case l_state l of
        None \<Rightarrow> l
      | Some s \<Rightarrow>
          (if l_dirty l
           then (case save_step f s (l_report l) (l_host l) of (r, host) \<Rightarrow> l\<lparr>l_report := r, l_host := host\<rparr>)
           else l))"

definition after_plugins :: "daemon \<Rightarrow> store_faults \<Rightarrow> cycle_env \<Rightarrow> bool \<Rightarrow> loop_state \<Rightarrow> loop_state" where
  "after_plugins d f env wasEngaged l =
     save_if_dirty f
       (record_byte_progress d env wasEngaged
         (record_inode_progress d (ce_now env) (refresh_free d env (cycle_totals l))))"

definition pressure_path ::
    "daemon \<Rightarrow> store_faults \<Rightarrow> cycle_env \<Rightarrow> cleanup_state option \<Rightarrow> cycle_report \<Rightarrow> flights \<Rightarrow> host
       \<Rightarrow> cycle_report \<times> flights \<times> host" where
  "pressure_path d f env state r fl host =
     (let l = \<lparr>l_report = decide_backoffs d state r, l_state = state, l_dirty = False, l_totalFreed = 0,
               l_totalItems = 0, l_ladderFreed = 0, l_flights = fl, l_host = host\<rparr>;
          l = after_plugins d f env (was_engaged r state) (plugin_loop d env (cycle_plugins d) l)
      in (l_report l, l_flights l, l_host l))"

subsection \<open>\<open>runCycle\<close>\<close>

definition with_duration :: "instant \<Rightarrow> cycle_report \<times> flights \<times> host \<Rightarrow> cycle_report \<times> flights \<times> host" where
  "with_duration now x =
     (case x of (r, fl, host) \<Rightarrow>
        (r\<lparr>r_CycleDurationMs := duration_millis (max 0 (time_sub (h_clock host) now))\<rparr>, fl, host))"

definition runCycle ::
    "daemon \<Rightarrow> store_faults \<Rightarrow> cleanup_level \<Rightarrow> flights \<Rightarrow> host \<Rightarrow> cycle_report \<times> flights \<times> host" where
  "runCycle d f forced fl host0 =
     (let now = h_clock host0;
          a = assessMounts d host0;
          level = (if forced = LevelNone then ma_Level a else forced)
      in case load_step d f now (h_files host0) (cycle_start d now forced level a) of
           (r, state, fs) \<Rightarrow>
             (let host = host0\<lparr>h_files := fs\<rparr>;
                  before = h_stats host (r_MonitorPath r);
                  r = measure_before d before state r
              in with_duration now
                   (if level = LevelNone then quiet_path d f now before state r fl host
                    else pressure_path d f \<lparr>ce_now = now, ce_level = level, ce_before = before\<rparr> state r fl host)))"

subsection \<open>The daemon loop\<close>

text \<open>
  \<open>run\<close>: a cycle, its report, a full poll interval.  \<open>n\<close> bounds the passes; the loop ends earlier
  when the context is cancelled during the wait, which is how the daemon stops.  The faults
  of the passes are given in order.  The result is the reports, and where the daemon stands.
\<close>

definition schedule_next :: "daemon \<Rightarrow> cycle_report \<times> flights \<times> host \<Rightarrow> cycle_report \<times> flights \<times> host" where
  "schedule_next d x =
     (case x of (r, fl, host) \<Rightarrow> (r\<lparr>r_NextCycleAt := format_stamp (h_clock host + pollInterval d)\<rparr>, fl, host))"

definition shut_down_by :: "daemon \<Rightarrow> instant \<Rightarrow> bool" where "shut_down_by d t = is_done (d_shutdown d) t"

fun run_passes :: "nat \<Rightarrow> daemon \<Rightarrow> (nat \<Rightarrow> store_faults) \<Rightarrow> flights \<Rightarrow> host \<Rightarrow> (instant \<times> cycle_report) list \<times> flights \<times> host" where
  "run_passes 0 d f fl host = ([], fl, host)"
| "run_passes (Suc n) d f fl host =
     (case schedule_next d (runCycle d (f 0) LevelNone fl host) of (r, fl', host') \<Rightarrow>
        (let resume = h_clock host' + pollInterval d
         in if shut_down_by d resume then ([(h_clock host, r)], fl', host')
            else (case run_passes n d (\<lambda>i. f (Suc i)) fl' (host'\<lparr>h_clock := resume\<rparr>) of
                    (rs, x) \<Rightarrow> ((h_clock host, r) # rs, x))))"

text \<open>\<open>overrunning\<close>: whether a pass logs the overrun, once per streak of overrunning cycles.\<close>

fun overrun_log :: "duration \<Rightarrow> bool \<Rightarrow> cycle_report list \<Rightarrow> bool list" where
  "overrun_log interval overrunning [] = []"
| "overrun_log interval overrunning (r # rs) =
     (let over = interval < r_CycleDurationMs r * millisecond
      in (over \<and> \<not> overrunning) # overrun_log interval over rs)"

end
