(* ===== verification/Scenario.thy ===== *)
theory Scenario
  imports Cycle
begin

text \<open>
  A concrete daemon the witnesses run: a critical host, a plugin that reclaims, one that reclaims
  nothing, one that never returns, and a level-independent one.
\<close>

definition demo_result :: "string \<Rightarrow> int \<Rightarrow> cleanup_result" where
  "demo_result name bytes =
     \<lparr>cr_Plugin = name, cr_Level = LevelCritical, cr_BytesFreed = bytes, cr_EstimatedBytesFreed = 0,
      cr_CommandBytesFreed = 0, cr_HostBytesFreed = 0, cr_ItemsCleaned = 0, cr_Error = None\<rparr>"

definition demo_invocation :: "duration option \<Rightarrow> 'r \<Rightarrow> host \<Rightarrow> ('r, host) invocation" where
  "demo_invocation wait res h =
     \<lparr>iv_after = wait, iv_result = res, iv_killed = (\<lambda>_. []), iv_last = (\<lambda>_. []), iv_world = (\<lambda>_. h)\<rparr>"

definition demo_plugin :: "string \<Rightarrow> bool \<Rightarrow> bool \<Rightarrow> duration option \<Rightarrow> int \<Rightarrow> host plugin" where
  "demo_plugin name li critical wait bytes =
     \<lparr>p_Name = name, p_Description = [], p_SupportedPlatforms = [], p_Enabled = (\<lambda>_. True),
      p_LevelIndependent = li, p_SafetyCritical = critical, p_PlanCleanup = None,
      p_Cleanup = (\<lambda>scope level cfg h. demo_invocation wait (demo_result name bytes) h)\<rparr>"

definition demo_stats :: "u64 \<Rightarrow> float64 \<Rightarrow> disk_stats" where
  "demo_stats freeGB used =
     \<lparr>ds_Path = ''/h'', ds_Total = 500 * 1073741824, ds_Used = 0, ds_Free = freeGB * 1073741824, ds_UsedPercent = used,
      ds_FreePercent = 100 - used, ds_FreeGB = 0, ds_InodesTotal = 0, ds_InodesUsed = 0, ds_InodesFree = 0,
      ds_InodesUsedPercent = 0, ds_InodesFreePercent = 0, ds_Fstype = [], ds_InodesDynamic = False\<rparr>"

definition demo_monitor :: disk_monitor where
  "demo_monitor =
     \<lparr>dm_Warning = 80, dm_Moderate = 85, dm_Aggressive = 90, dm_Critical = 95, dm_InodeWarning = 80,
      dm_InodeModerate = 85, dm_InodeAggressive = 90, dm_InodeCritical = 95, dm_InodeFreeFloor = 0\<rparr>"

text \<open>The defaults, with the durations left empty so that each falls back to its default.\<close>

definition demo_config :: config where
  "demo_config =
     (default_config ''/s'')\<lparr>cf_Policy := (default_policy ''/s'')\<lparr>pc_Cooldown := [], pc_ByteBackoffMax := [],
        pc_ZeroYieldBackoffBase := [], pc_ZeroYieldBackoffMax := [], pc_ZeroYieldPressureMinInterval := []\<rparr>\<rparr>"

definition demo_daemon :: "bool \<Rightarrow> host plugin list \<Rightarrow> daemon" where
  "demo_daemon dry ps =
     \<lparr>d_config = demo_config, d_registry = ps, d_monitor = demo_monitor, d_dryRun = dry, d_pluginFilter = [],
      d_pluginGrace = 0, d_digest = ''v'', d_home = Some ''/h'', d_goos = ''linux'', d_shutdown = None\<rparr>"

definition demo_host :: "instant \<Rightarrow> u64 \<Rightarrow> float64 \<Rightarrow> files \<Rightarrow> host" where
  "demo_host now freeGB used fs = \<lparr>h_clock = now, h_stats = (\<lambda>_. Inr (demo_stats freeGB used)), h_files = fs\<rparr>"

definition no_files :: files where "no_files = (\<lambda>_. None)"

definition demo_plugins :: "host plugin list" where
  "demo_plugins =
     [demo_plugin ''docker'' False False (Some (10 * second)) 0, demo_plugin ''nix'' True False (Some second) 5,
      demo_plugin ''stuck'' False False None 0]"

text \<open>State files: byte pressure unrelieved \<open>n\<close> times; and \<open>docker\<close> suppressed until six hours.\<close>

definition state_file :: "cleanup_state \<Rightarrow> files" where
  "state_file s = (\<lambda>p. if p = ''/s'' then Some (StateDoc (encode_state s)) else None)"

definition unrelieved_state :: "int \<Rightarrow> cleanup_state" where
  "unrelieved_state n =
     newCleanupState\<lparr>cs_Bytes := [(''/h'', zero_byte_progress\<lparr>br_LastLevelValue := 4, br_NoProgressCount := n\<rparr>)]\<rparr>"

definition suppressed_state :: "cleanup_state" where
  "suppressed_state =
     newCleanupState\<lparr>cs_Plugins := [(''docker'', zero_plugin_state\<lparr>ps_LastRun := Stamp 0, ps_LastLevelValue := 4,
        ps_ZeroYieldCount := 2, ps_SuppressedUntil := Stamp (6 * hour), ps_ConfigDigest := ''v''\<rparr>)]\<rparr>"

definition demo :: daemon where "demo = demo_daemon False [demo_plugin ''docker'' False False (Some (10 * second)) 0]"
definition demo_three :: daemon where "demo_three = demo_daemon False demo_plugins"
definition calm_host :: host where "calm_host = demo_host (60 * second) 90 82 (state_file suppressed_state)"
definition pressed_host :: host where "pressed_host = demo_host (3 * hour) 25 95 (state_file suppressed_state)"
definition unrelieved_host :: host where "unrelieved_host = demo_host (60 * second) 25 95 (state_file (unrelieved_state 3))"

end
