(* ===== verification/Watchdog_Runs.thy ===== *)
theory Watchdog_Runs
  imports Watchdog
begin

text \<open>
  What the watchdog guarantees whatever a plugin does: a call takes a bounded time, a result
  comes back exactly when the report says so, and no plugin ever has two runs in progress.
\<close>

subsection \<open>One call\<close>

definition sane_operation :: "('r, host) operation \<Rightarrow> bool" where
  "sane_operation op = (\<forall>scope level cfg h a. iv_after (op scope level cfg h) = Some a \<longrightarrow> 0 \<le> a)"

text \<open>The run one call starts: its plugin, its start, and when its goroutine returns.\<close>

record plugin_run =
  run_name :: string
  run_start :: instant
  run_end :: "instant option"

definition started_run :: "daemon \<Rightarrow> host plugin \<Rightarrow> ('r, host) operation \<Rightarrow> cleanup_level \<Rightarrow> host \<Rightarrow> plugin_run" where
  "started_run d p op level host =
     (let name = p_Name p; now = h_clock host; (probe, reclaim) = execTimeouts d name;
          scope = NewRunScope name (now + pluginTimeout d name) probe reclaim (d_shutdown d)
      in \<lparr>run_name = name, run_start = now, run_end = map_option (\<lambda>a. now + a) (iv_after (op scope level (d_config d) host))\<rparr>)"

definition flight_of :: "flights \<Rightarrow> string \<Rightarrow> (instant \<times> instant option) option" where
  "flight_of fl name = map_option (\<lambda>f. (fl_started f, fl_done f)) (tbl_get fl name)"

definition call_limit :: "daemon \<Rightarrow> host plugin \<Rightarrow> duration" where
  "call_limit d p = pluginTimeout d (p_Name p) + pluginGraceDuration d"

lemma context_wait_bounds: "0 \<le> context_wait d now (pluginTimeout d n)" "context_wait d now (pluginTimeout d n) \<le> pluginTimeout d n"
  using pluginTimeout_pos [of d n] by (auto simp: context_wait_def split: option.splits)

lemma watch_run_clock:
  assumes "watch_run d p op level fl host = (res, w, fl', host')" "sane_operation op"
  shows "h_clock host \<le> h_clock host' \<and> h_clock host' \<le> h_clock host + call_limit d p"
  using assms context_wait_bounds [of d "h_clock host" "p_Name p"] pluginGrace_pos [of d]
  by (auto simp: watch_run_def Let_def host_at_def call_limit_def sane_operation_def
      split: prod.splits option.splits if_splits)

lemma watchPlugin_clock:
  assumes "watchPlugin d p op level fl host = (res, w, fl', host')" "sane_operation op"
  shows "h_clock host \<le> h_clock host' \<and> h_clock host' \<le> h_clock host + call_limit d p"
  using assms watch_run_clock [of d p op level _ host res w fl' host'] pluginTimeout_pos [of d "p_Name p"] pluginGrace_pos [of d]
  by (auto simp: watchPlugin_def Let_def call_limit_def split: option.splits if_splits)

lemma watch_run_result:
  "watch_run d p op level fl host = (res, w, fl', host') \<Longrightarrow> (res \<noteq> None) = returned w"
  by (auto simp: watch_run_def Let_def returned_def wedge_names split: prod.splits option.splits if_splits)

lemma watchPlugin_result:
  "watchPlugin d p op level fl host = (res, w, fl', host') \<Longrightarrow> (res \<noteq> None) = returned w"
  using watch_run_result [of d p op level fl host] watch_run_result [of d p op level "tbl_del (p_Name p) fl" host]
  by (auto simp: watchPlugin_def Let_def split: option.splits if_splits)
     (auto simp: returned_def wedge_names)

lemma watch_run_states:
  "watch_run d p op level fl host = (res, w, fl', host') \<Longrightarrow> pw_state w \<in> {[], wedgeCancelled, wedgeAbandoned}"
  by (auto simp: watch_run_def Let_def split: prod.splits option.splits if_splits)

lemma watchPlugin_states:
  "watchPlugin d p op level fl host = (res, w, fl', host') \<Longrightarrow>
     pw_state w \<in> {[], wedgeCancelled, wedgeAbandoned, skipReasonPluginWedged}"
  by (auto simp: watchPlugin_def Let_def dest: watch_run_states split: option.splits if_splits)

lemma watchPlugin_applied:
  "watchPlugin d p op level fl host = (res, w, fl', host') \<Longrightarrow> snd (applyWatch w pr) = (res = None)"
  using watchPlugin_states [of d p op level fl host res w fl' host'] watchPlugin_result [of d p op level fl host res w fl' host']
  by (auto simp: applyWatch_def Let_def returned_def wedge_names)

subsection \<open>A history of calls\<close>

text \<open>
  Any sequence of watchdog calls, with the flights, the host and the runs started so far
  (latest first).  Between calls time passes and the host changes as it likes.
\<close>

inductive watched :: "daemon \<Rightarrow> flights \<Rightarrow> host \<Rightarrow> plugin_run list \<Rightarrow> bool" for d :: daemon where
  start: "watched d [] host []"
| elapse: "watched d fl host runs \<Longrightarrow> h_clock host \<le> h_clock host' \<Longrightarrow> watched d fl host' runs"
| cleanup: "watched d fl host runs \<Longrightarrow> watchPlugin d p (op :: (cleanup_result, host) operation) level fl host = (res, w, fl', host') \<Longrightarrow>
    sane_operation op \<Longrightarrow>
    watched d fl' host' (if pw_state w = skipReasonPluginWedged then runs else started_run d p op level host # runs)"
| plan: "watched d fl host runs \<Longrightarrow> watchPlugin d p (op :: (cleanup_plan, host) operation) level fl host = (res, w, fl', host') \<Longrightarrow>
    sane_operation op \<Longrightarrow>
    watched d fl' host' (if pw_state w = skipReasonPluginWedged then runs else started_run d p op level host # runs)"

text \<open>Earlier runs of a plugin have returned when a later one starts; a run in progress is in flight.\<close>

definition one_at_a_time :: "plugin_run list \<Rightarrow> bool" where
  "one_at_a_time runs = sorted_wrt (\<lambda>later earlier.
     run_name later = run_name earlier \<longrightarrow> is_done (run_end earlier) (run_start later)) runs"

definition tracked :: "flights \<Rightarrow> instant \<Rightarrow> plugin_run list \<Rightarrow> bool" where
  "tracked fl now runs = (\<forall>r\<in>set runs. \<not> is_done (run_end r) now \<longrightarrow> flight_of fl (run_name r) = Some (run_start r, run_end r))"

lemma is_done_mono: "is_done t a \<Longrightarrow> a \<le> b \<Longrightarrow> is_done t b"
  by (auto simp: is_done_def split: option.splits)

lemma tracked_elapse: "tracked fl a runs \<Longrightarrow> a \<le> b \<Longrightarrow> tracked fl b runs"
  by (auto simp: tracked_def dest: is_done_mono)

text \<open>What one run does to the flights: another plugin's flight stays, its own run is tracked.\<close>

lemma watch_run_flights:
  assumes "watch_run d p op level fl host = (res, w, fl', host')" "tbl_get fl (p_Name p) = None"
  shows "n \<noteq> p_Name p \<Longrightarrow> flight_of fl' n = flight_of fl n"
    "is_done (run_end (started_run d p op level host)) (h_clock host') \<or>
     flight_of fl' (p_Name p) = Some (run_start (started_run d p op level host), run_end (started_run d p op level host))"
  using assms
  by (auto simp: watch_run_def Let_def host_at_def started_run_def flight_of_def is_done_def
      split: prod.splits option.splits if_splits)

lemma started_run_fields [simp]:
  "run_name (started_run d p op level host) = p_Name p" "run_start (started_run d p op level host) = h_clock host"
  by (simp_all add: started_run_def Let_def split: prod.splits)

lemma watch_run_history:
  assumes w: "watch_run d p op level fl host = (res, w, fl', host')" and sane: "sane_operation op"
    and free: "tbl_get fl (p_Name p) = None"
    and tr: "tracked fl (h_clock host) runs" and one: "one_at_a_time runs"
  shows "one_at_a_time (started_run d p op level host # runs)
    \<and> tracked fl' (h_clock host') (started_run d p op level host # runs)"
proof
  have dn: "is_done (run_end r) (h_clock host)" if "r \<in> set runs" "run_name r = p_Name p" for r
    using tr that free by (auto simp: tracked_def flight_of_def)
  with one show "one_at_a_time (started_run d p op level host # runs)" by (auto simp: one_at_a_time_def)
  have le: "h_clock host \<le> h_clock host'" using watch_run_clock [OF w sane] by simp
  show "tracked fl' (h_clock host') (started_run d p op level host # runs)"
    unfolding tracked_def
  proof
    fix r assume r: "r \<in> set (started_run d p op level host # runs)"
    show "\<not> is_done (run_end r) (h_clock host') \<longrightarrow> flight_of fl' (run_name r) = Some (run_start r, run_end r)"
    proof (cases "r \<in> set runs")
      case True
      with dn tr le watch_run_flights(1) [OF w free, of "run_name r"] show ?thesis
        by (cases "run_name r = p_Name p") (auto simp: tracked_def dest: is_done_mono)
    next
      case False
      with r watch_run_flights(2) [OF w free] show ?thesis by auto
    qed
  qed
qed

lemma watchPlugin_history:
  assumes w: "watchPlugin d p op level fl host = (res, w, fl', host')" and sane: "sane_operation op"
    and tr: "tracked fl (h_clock host) runs" and one: "one_at_a_time runs"
  defines "runs' \<equiv> if pw_state w = skipReasonPluginWedged then runs else started_run d p op level host # runs"
  shows "one_at_a_time runs' \<and> tracked fl' (h_clock host') runs'"
proof (cases "tbl_get fl (p_Name p)")
  case None
  with w have run: "watch_run d p op level fl host = (res, w, fl', host')" by (simp add: watchPlugin_def)
  from watch_run_states [OF run] have "pw_state w \<noteq> skipReasonPluginWedged" by (auto simp: wedge_names)
  with watch_run_history [OF run sane None tr one] show ?thesis by (simp add: runs'_def)
next
  case (Some f)
  show ?thesis
  proof (cases "is_done (fl_done f) (h_clock host)")
    case True
    with w Some have run: "watch_run d p op level (tbl_del (p_Name p) fl) host = (res, w, fl', host')"
      by (simp add: watchPlugin_def)
    have "tracked (tbl_del (p_Name p) fl) (h_clock host) runs"
      using tr Some True by (auto simp: tracked_def flight_of_def)
    from watch_run_history [OF run sane _ this one] have "one_at_a_time (started_run d p op level host # runs)
        \<and> tracked fl' (h_clock host') (started_run d p op level host # runs)" by simp
    moreover from watch_run_states [OF run] have "pw_state w \<noteq> skipReasonPluginWedged" by (auto simp: wedge_names)
    ultimately show ?thesis by (simp add: runs'_def)
  next
    case False
    with w Some tr one show ?thesis by (auto simp: watchPlugin_def Let_def runs'_def)
  qed
qed

lemma watched_history: "watched d fl host runs \<Longrightarrow> one_at_a_time runs \<and> tracked fl (h_clock host) runs"
proof (induction rule: watched.induct)
  case (start host)
  then show ?case by (simp add: one_at_a_time_def tracked_def)
next
  case (elapse fl host runs host')
  then show ?case by (auto intro: tracked_elapse)
next
  case (cleanup fl host runs p op level res w fl' host')
  then show ?case using watchPlugin_history [of d p op level fl host res w fl' host' runs] by blast
next
  case (plan fl host runs p op level res w fl' host')
  then show ?case using watchPlugin_history [of d p op level fl host res w fl' host' runs] by blast
qed

end
