(* ===== verification/Cycle_Facts.thy ===== *)
theory Cycle_Facts
  imports Cycle Watchdog_Runs
begin

text \<open>
  What a cycle guarantees: which figures of the report the plugin loop leaves alone, that
  every enabled plugin is reported once and in order, what each gate lets through, and what
  reaches the state file.
\<close>

subsection \<open>Frames\<close>

text \<open>The facts fixed before the loop, which every decision of the loop reads.\<close>

definition cycle_facts :: "cycle_report \<Rightarrow> _" where
  "cycle_facts r =
     ((r_MonitorPath r, r_DryRun r, r_ForcedLevel r, r_HostFreeBeforeBytes r, r_HostByteLevel r, r_MaxInodeLevel r),
      (r_InodeBackoff r, r_ByteNoProgressCount r, r_ByteBackoff r, r_ByteBackoffReason r),
      (r_MinimumFreeBytes r, r_StateFile r, r_Mounts r))"

lemma facts_add_plugin [frame_simps]: "cycle_facts (add_plugin pr r) = cycle_facts r"
  by (simp add: cycle_facts_def add_plugin_def)

lemma facts_target [frame_simps]: "cycle_facts (updateTargetFreeStatus d s r) = cycle_facts r"
  by (simp add: cycle_facts_def updateTargetFreeStatus_def updateMinimumFreeStatus_def Let_def split: option.split)

lemma facts_free_after [frame_simps]: "cycle_facts (updateHostFreeAfter d h b r) = cycle_facts r"
  unfolding updateHostFreeAfter_def
  by (auto simp: facts_target Let_def split: sum.split) (simp_all add: cycle_facts_def)

lemma plugins_target [frame_simps]: "r_Plugins (updateTargetFreeStatus d s r) = r_Plugins r"
  by (simp add: updateTargetFreeStatus_def updateMinimumFreeStatus_def Let_def split: option.split)

lemma plugins_free_after [frame_simps]: "r_Plugins (updateHostFreeAfter d h b r) = r_Plugins r"
  by (simp add: updateHostFreeAfter_def frame_simps Let_def split: sum.split)

lemma plugins_add [frame_simps]: "r_Plugins (add_plugin pr r) = r_Plugins r @ [pr]"
  by (simp add: add_plugin_def)

lemma facts_plan [frame_simps]: "cycle_facts (plan_totals plan r) = cycle_facts r" "r_Plugins (plan_totals plan r) = r_Plugins r"
  by (simp_all add: plan_totals_def cycle_facts_def split: option.split)

text \<open>A watchdog verdict and a gate keep the identity of the report.\<close>

definition report_identity :: "plugin_report \<Rightarrow> string \<times> string \<times> bool \<times> bool" where
  "report_identity pr = (pr_Name pr, pr_Level pr, pr_DryRun pr, pr_LevelIndependent pr)"

lemma identity_applyWatch [frame_simps]: "report_identity (fst (applyWatch w pr)) = report_identity pr"
  by (simp add: applyWatch_def Let_def report_identity_def)

lemma identity_zero_yield_gate [frame_simps]: "report_identity (fst (zero_yield_gate d env p l pr)) = report_identity pr"
  by (simp add: zero_yield_gate_def Let_def report_identity_def split: option.split)

lemma identity_cooldown_gate [frame_simps]: "report_identity (fst (cooldown_gate d env p l pr)) = report_identity pr"
  by (simp add: cooldown_gate_def Let_def report_identity_def split: option.split prod.split)

subsection \<open>Every step appends one report\<close>

definition appends :: "plugin_report \<Rightarrow> cycle_report \<Rightarrow> cycle_report \<Rightarrow> bool" where
  "appends pr r r' = (r_Plugins r' = r_Plugins r @ [pr] \<and> cycle_facts r' = cycle_facts r)"

lemma appends_add: "appends pr r (add_plugin pr r)"
  by (simp add: appends_def frame_simps)

lemma appends_after: "appends pr r r' \<Longrightarrow> r_Plugins r'' = r_Plugins r' \<Longrightarrow> cycle_facts r'' = cycle_facts r' \<Longrightarrow> appends pr r r''"
  by (simp add: appends_def)

lemma appends_before: "appends pr r' r'' \<Longrightarrow> r_Plugins r' = r_Plugins r \<Longrightarrow> cycle_facts r' = cycle_facts r \<Longrightarrow> appends pr r r''"
  by (simp add: appends_def)

text \<open>What a plugin report says of the decision, apart from the figures of the run.\<close>

definition decision :: "plugin_report \<Rightarrow> _" where
  "decision pr = (report_identity pr, pr_Ran pr, pr_SkipReason pr, pr_ZeroYieldLifted pr)"

definition same_decision :: "plugin_report \<Rightarrow> plugin_report \<Rightarrow> bool" where
  "same_decision pr pr' = (decision pr = decision pr')"

lemma applyWatch_decision:
  "applyWatch w pr = (pr', n) \<Longrightarrow>
     report_identity pr' = report_identity pr \<and> pr_Ran pr' = pr_Ran pr \<and> pr_ZeroYieldLifted pr' = pr_ZeroYieldLifted pr \<and>
     pr_SkipReason pr' = (if pw_state w = skipReasonPluginWedged then skipReasonPluginWedged else pr_SkipReason pr)"
  by (auto simp: applyWatch_def Let_def report_identity_def wedge_names split: if_splits)

lemma recordRun_report:
  "recordRun d env p result pr s = (pr', s') \<Longrightarrow> decision pr' = decision pr"
  by (auto simp: recordRun_def Let_def decision_def report_identity_def split: prod.splits)

lemma record_and_append_report:
  "\<exists>pr'. appends pr' (l_report l) (l_report (record_and_append d env p result pr l)) \<and> decision pr' = decision pr"
  by (cases "l_state l")
     (auto simp: record_and_append_def dest: recordRun_report split: prod.split intro!: exI appends_add)

lemma record_and_append_frame [frame_simps]:
  "l_flights (record_and_append d env p result pr l) = l_flights l"
  "l_host (record_and_append d env p result pr l) = l_host l"
  "l_totalFreed (record_and_append d env p result pr l) = l_totalFreed l"
  "l_totalItems (record_and_append d env p result pr l) = l_totalItems l"
  "l_ladderFreed (record_and_append d env p result pr l) = l_ladderFreed l"
  "(l_state (record_and_append d env p result pr l) = None) = (l_state l = None)"
  by (simp_all add: record_and_append_def split: option.split prod.split)

lemma refresh_free_frame [frame_simps]:
  "r_Plugins (l_report (refresh_free d env l)) = r_Plugins (l_report l)"
  "cycle_facts (l_report (refresh_free d env l)) = cycle_facts (l_report l)"
  "l_flights (refresh_free d env l) = l_flights l" "l_host (refresh_free d env l) = l_host l"
  "l_state (refresh_free d env l) = l_state l" "l_dirty (refresh_free d env l) = l_dirty l"
  by (simp_all add: refresh_free_def frame_simps)

lemma count_freed_frame [frame_simps]:
  "l_report (count_freed res l) = l_report l" "l_flights (count_freed res l) = l_flights l"
  "l_host (count_freed res l) = l_host l" "l_state (count_freed res l) = l_state l" "l_dirty (count_freed res l) = l_dirty l"
  by (simp_all add: count_freed_def)

text \<open>The three ways a run can go.\<close>

lemma run_step_cases:
  assumes w: "watchPlugin d p (p_Cleanup p) (ce_level env) (l_flights l0) (l_host l0) = (res, watch, fl, host)"
    and a: "applyWatch watch pr0 = (pr, noResult)"
  defines "l \<equiv> l0\<lparr>l_flights := fl, l_host := host\<rparr>"
  shows "run_step d env p pr0 l0 =
    (case res of
       Some result \<Rightarrow>
         (let result = watched_result p watch result; l = record_and_append d env p result (ran_report result pr) l
          in if cr_Error result \<noteq> None then l else refresh_free d env (count_freed result l))
     | None \<Rightarrow>
         (if pw_state watch = wedgeAbandoned
          then record_and_append d env p (failed_result p (ce_level env) (pr_Error pr)) (pr\<lparr>pr_Ran := True\<rparr>) l
          else l\<lparr>l_report := add_plugin pr (l_report l)\<rparr>))"
proof -
  have n: "noResult = (res = None)" using watchPlugin_applied [OF w, of pr0] a by simp
  show ?thesis
    unfolding run_step_def using w a n by (cases res) (simp_all add: l_def Let_def)
qed

lemma ran_report_decision: "report_identity (ran_report res pr) = report_identity pr" "pr_Ran (ran_report res pr)"
  "pr_SkipReason (ran_report res pr) = pr_SkipReason pr" "pr_ZeroYieldLifted (ran_report res pr) = pr_ZeroYieldLifted pr"
  by (simp_all add: ran_report_def report_identity_def)

lemma run_step_report:
  assumes "watchPlugin d p (p_Cleanup p) (ce_level env) (l_flights l) (l_host l) = (res, watch, fl, host)" "\<not> pr_Ran pr0"
  shows "\<exists>pr. appends pr (l_report l) (l_report (run_step d env p pr0 l)) \<and> report_identity pr = report_identity pr0 \<and>
    pr_ZeroYieldLifted pr = pr_ZeroYieldLifted pr0 \<and> (pr_Ran pr \<longleftrightarrow> pw_state watch \<noteq> skipReasonPluginWedged) \<and>
    pr_SkipReason pr = (if pw_state watch = skipReasonPluginWedged then skipReasonPluginWedged else pr_SkipReason pr0)"
proof -
  obtain pr noResult where a: "applyWatch watch pr0 = (pr, noResult)" by (cases "applyWatch watch pr0")
  note dec = applyWatch_decision [OF a]
  note st = watchPlugin_states [OF assms(1)] watchPlugin_result [OF assms(1)]
  define l1 where "l1 = l\<lparr>l_flights := fl, l_host := host\<rparr>"
  have rep: "l_report l1 = l_report l" by (simp add: l1_def)
  show ?thesis
  proof (cases res)
    case (Some result)
    define result' where "result' = watched_result p watch result"
    obtain pr' where pr': "appends pr' (l_report l1) (l_report (record_and_append d env p result' (ran_report result' pr) l1))"
      "decision pr' = decision (ran_report result' pr)"
      using record_and_append_report by blast
    define l2 where "l2 = record_and_append d env p result' (ran_report result' pr) l1"
    have "run_step d env p pr0 l = l2 \<or> run_step d env p pr0 l = refresh_free d env (count_freed result' l2)"
      unfolding run_step_cases [OF assms(1) a] using Some by (simp add: Let_def l2_def l1_def result'_def)
    then have "appends pr' (l_report l) (l_report (run_step d env p pr0 l))"
      using pr'(1) [folded l2_def] unfolding rep by (auto simp: frame_simps intro: appends_after)
    moreover have "pw_state watch \<noteq> skipReasonPluginWedged" using st Some by (auto simp: returned_def wedge_names)
    ultimately show ?thesis using pr'(2) dec by (auto simp: decision_def ran_report_decision)
  next
    case None
    then have nw: "pw_state watch = wedgeAbandoned \<or> pw_state watch = skipReasonPluginWedged"
      using st by (auto simp: returned_def)
    show ?thesis
    proof (cases "pw_state watch = wedgeAbandoned")
      case True
      obtain pr' where pr': "appends pr' (l_report l1) (l_report (record_and_append d env p (failed_result p (ce_level env) (pr_Error pr)) (pr\<lparr>pr_Ran := True\<rparr>) l1))"
        "decision pr' = decision (pr\<lparr>pr_Ran := True\<rparr>)"
        using record_and_append_report by blast
      then show ?thesis unfolding run_step_cases [OF assms(1) a] using None True dec rep
        by (auto simp: decision_def report_identity_def wedge_names l1_def)
    next
      case False
      with nw None dec assms(2) show ?thesis unfolding run_step_cases [OF assms(1) a]
        by (auto simp: wedge_names intro!: exI [of _ pr] appends_add)
    qed
  qed
qed

subsection \<open>Level-independent plugins\<close>

lemma dry_run_plan_decision:
  assumes "dry_run_plan d p level fl host pr0 = (pr, plan, fl', host')"
  shows "report_identity pr = report_identity pr0 \<and> pr_Ran pr = pr_Ran pr0 \<and> pr_ZeroYieldLifted pr = pr_ZeroYieldLifted pr0 \<and>
    pr_SkipReason pr \<in> {''dry_run'', skipReasonPluginWedged}"
proof (cases "p_PlanCleanup p")
  case None
  with assms show ?thesis by (auto simp: dry_run_plan_def report_identity_def)
next
  case (Some planner)
  obtain res watch f h where w: "watchPlugin d p planner level fl host = (res, watch, f, h)"
    by (cases "watchPlugin d p planner level fl host")
  obtain pr1 n where a: "applyWatch watch (pr0\<lparr>pr_SkipReason := ''dry_run''\<rparr>) = (pr1, n)"
    by (cases "applyWatch watch (pr0\<lparr>pr_SkipReason := ''dry_run''\<rparr>)")
  have "pr = pr1 \<or> (\<exists>pl. pr = pr1\<lparr>pr_Plan := Some pl\<rparr>)"
    using assms Some w a by (auto simp: dry_run_plan_def dry_run_result_def Let_def split: option.splits bool.splits)
  with applyWatch_decision [OF a] show ?thesis by (auto simp: report_identity_def)
qed

definition independent_explains :: "daemon \<Rightarrow> host plugin \<Rightarrow> cleanup_level \<Rightarrow> plugin_report \<Rightarrow> bool" where
  "independent_explains d p level pr =
     (report_identity pr = (p_Name p, level_string level, d_dryRun d, True) \<and> (pr_Ran pr \<longrightarrow> \<not> d_dryRun d) \<and>
      pr_SkipReason pr \<in> {[], ''dry_run'', skipReasonPluginWedged} \<and> pr_ZeroYieldLifted pr = [])"

lemma fresh_report_fields:
  "report_identity (fresh_plugin_report d p level) = (p_Name p, level_string level, d_dryRun d, False)"
  "\<not> pr_Ran (fresh_plugin_report d p level)" "pr_SkipReason (fresh_plugin_report d p level) = []"
  "pr_ZeroYieldLifted (fresh_plugin_report d p level) = []"
  by (simp_all add: fresh_plugin_report_def report_identity_def zero_plugin_report_def)

lemma independent_report:
  assumes "runLevelIndependentPlugin d p level r fl host = (r', freed, items, fl', host')"
  shows "\<exists>pr. appends pr r r' \<and> independent_explains d p level pr"
proof -
  define pr0 where "pr0 = (fresh_plugin_report d p level)\<lparr>pr_LevelIndependent := True\<rparr>"
  have pr0: "report_identity pr0 = (p_Name p, level_string level, d_dryRun d, True)" "\<not> pr_Ran pr0"
    "pr_SkipReason pr0 = []" "pr_ZeroYieldLifted pr0 = []"
    using fresh_report_fields [of d p level] by (simp_all add: pr0_def report_identity_def)
  show ?thesis
  proof (cases "d_dryRun d")
    case True
    obtain pr plan f h where dr: "dry_run_plan d p level fl host pr0 = (pr, plan, f, h)"
      by (cases "dry_run_plan d p level fl host pr0")
    have "r' = add_plugin pr (plan_totals plan r)"
      using assms True dr by (simp add: runLevelIndependentPlugin_def pr0_def)
    then have "appends pr r r'" by (simp add: appends_def frame_simps)
    with dry_run_plan_decision [OF dr] pr0 True show ?thesis by (auto simp: independent_explains_def)
  next
    case False
    obtain res watch f h where w: "watchPlugin d p (p_Cleanup p) level fl host = (res, watch, f, h)"
      by (cases "watchPlugin d p (p_Cleanup p) level fl host")
    obtain pr n where a: "applyWatch watch pr0 = (pr, n)" by (cases "applyWatch watch pr0")
    note dec = applyWatch_decision [OF a]
    have n: "n = (res = None)" using watchPlugin_applied [OF w, of pr0] a by simp
    show ?thesis
    proof (cases res)
      case None
      have "r' = add_plugin (pr\<lparr>pr_Ran := (pw_state watch = wedgeAbandoned)\<rparr>) r"
        using assms False w a n None by (simp add: runLevelIndependentPlugin_def pr0_def)
      then have "appends (pr\<lparr>pr_Ran := (pw_state watch = wedgeAbandoned)\<rparr>) r r'" by (simp add: appends_add)
      moreover have "pr_SkipReason pr = [] \<or> pr_SkipReason pr = skipReasonPluginWedged"
        using dec pr0(3) by (auto split: if_splits)
      then have "independent_explains d p level (pr\<lparr>pr_Ran := (pw_state watch = wedgeAbandoned)\<rparr>)"
        using dec pr0 False by (auto simp: independent_explains_def report_identity_def)
      ultimately show ?thesis by blast
    next
      case (Some result)
      define result' where "result' = watched_result p watch result"
      have "r_Plugins r' = r_Plugins (add_plugin (independent_outcome p result' pr) r) \<and>
          cycle_facts r' = cycle_facts (add_plugin (independent_outcome p result' pr) r)"
        using assms False w a n Some
        by (auto simp: runLevelIndependentPlugin_def pr0_def Let_def result'_def cycle_facts_def split: if_splits)
      then have "appends (independent_outcome p result' pr) r r'" by (simp add: appends_def frame_simps)
      moreover have "independent_explains d p level (independent_outcome p result' pr)"
        using dec pr0 False by (auto simp: independent_explains_def independent_outcome_def report_identity_def)
      ultimately show ?thesis by blast
    qed
  qed
qed

subsection \<open>One plugin of the ladder\<close>

definition zero_yield_held :: "daemon \<Rightarrow> cycle_env \<Rightarrow> host plugin \<Rightarrow> loop_state \<Rightarrow> bool" where
  "zero_yield_held d env p l =
     (case l_state l of None \<Rightarrow> False
      | Some s \<Rightarrow> 0 < zy_limit (zeroYieldPolicy d) \<and> zv_held (zero_yield_verdict d env p (l_report l) s))"

definition cooldown_held :: "daemon \<Rightarrow> cycle_env \<Rightarrow> host plugin \<Rightarrow> loop_state \<Rightarrow> bool" where
  "cooldown_held d env p l =
     (case l_state l of None \<Rightarrow> False
      | Some s \<Rightarrow> (case pluginCooldown d (l_report l) (ce_level env) of None \<Rightarrow> False
                 | Some (c, _) \<Rightarrow> 0 < cooldownRemaining s (p_Name p) (ce_level env) (ce_now env) c))"

definition zero_yield_lift :: "daemon \<Rightarrow> cycle_env \<Rightarrow> host plugin \<Rightarrow> loop_state \<Rightarrow> string" where
  "zero_yield_lift d env p l =
     (case l_state l of None \<Rightarrow> []
      | Some s \<Rightarrow> (if 0 < zy_limit (zeroYieldPolicy d) then zv_lifted (zero_yield_verdict d env p (l_report l) s) else []))"

lemma zero_yield_gate_fields:
  assumes "zero_yield_gate d env p l pr = (pr', held)"
  shows "held = zero_yield_held d env p l \<and> report_identity pr' = report_identity pr \<and> pr_Ran pr' = pr_Ran pr \<and>
    pr_SkipReason pr' = (if held then ''zero_yield_backoff'' else pr_SkipReason pr) \<and>
    (\<not> held \<and> pr_ZeroYieldLifted pr = [] \<longrightarrow> pr_ZeroYieldLifted pr' = zero_yield_lift d env p l)"
  using assms
  by (auto simp: zero_yield_gate_def zero_yield_held_def zero_yield_lift_def Let_def report_identity_def
      split: option.splits if_splits)

lemma cooldown_gate_fields:
  assumes "cooldown_gate d env p l pr = (pr', held)"
  shows "held = cooldown_held d env p l \<and> report_identity pr' = report_identity pr \<and> pr_Ran pr' = pr_Ran pr \<and>
    pr_ZeroYieldLifted pr' = pr_ZeroYieldLifted pr \<and>
    (if held then pr_SkipReason pr' \<in> {''cooldown'', ''byte_backoff''} else pr_SkipReason pr' = pr_SkipReason pr)"
  using assms
  by (auto simp: cooldown_gate_def cooldown_held_def Let_def report_identity_def pluginCooldown_def
      split: option.splits if_splits prod.splits)

definition ladder_explains :: "daemon \<Rightarrow> cycle_env \<Rightarrow> host plugin \<Rightarrow> loop_state \<Rightarrow> plugin_report \<Rightarrow> bool" where
  "ladder_explains d env p l pr =
     (report_identity pr = (p_Name p, level_string (ce_level env), d_dryRun d, False) \<and>
      (pr_Ran pr \<longrightarrow> \<not> d_dryRun d \<and> \<not> cleanupTargetMet (l_report l) \<and> \<not> zero_yield_held d env p l \<and>
         \<not> cooldown_held d env p l \<and> pr_ZeroYieldLifted pr = zero_yield_lift d env p l) \<and>
      (pr_SkipReason pr = ''zero_yield_backoff'' \<longrightarrow> zero_yield_held d env p l) \<and>
      (pr_SkipReason pr \<in> {''cooldown'', ''byte_backoff''} \<longrightarrow> cooldown_held d env p l) \<and>
      (pr_SkipReason pr = ''target_free_met'' \<longrightarrow> \<not> d_dryRun d \<and> cleanupTargetMet (l_report l)))"

lemma dry_run_step_report:
  "dry_run_plan d p (ce_level env) (l_flights l) (l_host l) pr0 = (pr, plan, fl, host) \<Longrightarrow>
     appends pr (l_report l) (l_report (dry_run_step d env p pr0 l))"
  by (auto simp: dry_run_step_def Let_def appends_def frame_simps split: option.split)
     (simp_all add: cycle_facts_def plan_totals_def)

lemma ladder_step_report:
  "\<exists>pr. appends pr (l_report l) (l_report (ladder_step d env p l)) \<and> ladder_explains d env p l pr"
proof -
  define pr0 where "pr0 = fresh_plugin_report d p (ce_level env)"
  note f = fresh_report_fields [of d p "ce_level env", folded pr0_def]
  obtain pr1 held1 where z: "zero_yield_gate d env p l pr0 = (pr1, held1)" by (cases "zero_yield_gate d env p l pr0")
  obtain pr2 held2 where c: "cooldown_gate d env p l pr1 = (pr2, held2)" by (cases "cooldown_gate d env p l pr1")
  note zf = zero_yield_gate_fields [OF z] and cf = cooldown_gate_fields [OF c]
  note step = ladder_step_def [of d env p l, unfolded Let_def, folded pr0_def, unfolded z c prod.case]
  consider (met) "\<not> d_dryRun d" "cleanupTargetMet (l_report l)" | (zero) "d_dryRun d \<or> \<not> cleanupTargetMet (l_report l)" held1
    | (cool) "d_dryRun d \<or> \<not> cleanupTargetMet (l_report l)" "\<not> held1" held2
    | (dry) "d_dryRun d" "\<not> held1" "\<not> held2" | (run) "\<not> d_dryRun d" "\<not> cleanupTargetMet (l_report l)" "\<not> held1" "\<not> held2"
    by blast
  then show ?thesis
  proof cases
    case met
    define pr where "pr = pr0\<lparr>pr_WouldRun := False, pr_SkipReason := ''target_free_met''\<rparr>"
    have "appends pr (l_report l) (l_report (ladder_step d env p l))"
      using met by (simp add: step target_met_skip_def appends_def frame_simps pr_def) (simp add: cycle_facts_def add_plugin_def)
    with met f show ?thesis by (auto simp: ladder_explains_def pr_def report_identity_def)
  next
    case zero
    then have "appends pr1 (l_report l) (l_report (ladder_step d env p l))"
      by (auto simp: step append_report_def appends_add)
    with zero f zf show ?thesis by (auto simp: ladder_explains_def)
  next
    case cool
    then have "appends pr2 (l_report l) (l_report (ladder_step d env p l))"
      by (auto simp: step append_report_def appends_add)
    with cool f zf cf show ?thesis by (auto simp: ladder_explains_def)
  next
    case dry
    obtain pr plan fl host where dr: "dry_run_plan d p (ce_level env) (l_flights l) (l_host l) pr2 = (pr, plan, fl, host)"
      by (cases "dry_run_plan d p (ce_level env) (l_flights l) (l_host l) pr2")
    have "appends pr (l_report l) (l_report (ladder_step d env p l))"
      using dry dry_run_step_report [OF dr] by (simp add: step)
    with dry f zf cf dry_run_plan_decision [OF dr] show ?thesis
      by (auto simp: ladder_explains_def wedge_names)
  next
    case run
    obtain res watch fl host where w: "watchPlugin d p (p_Cleanup p) (ce_level env) (l_flights l) (l_host l) = (res, watch, fl, host)"
      by (cases "watchPlugin d p (p_Cleanup p) (ce_level env) (l_flights l) (l_host l)")
    have "\<not> pr_Ran pr2" using f zf cf by simp
    from run_step_report [OF w this] obtain pr where
      "appends pr (l_report l) (l_report (ladder_step d env p l))" "report_identity pr = report_identity pr2"
      "pr_ZeroYieldLifted pr = pr_ZeroYieldLifted pr2"
      "pr_SkipReason pr = (if pw_state watch = skipReasonPluginWedged then skipReasonPluginWedged else pr_SkipReason pr2)"
      using run by (auto simp: step)
    moreover from this(4) have "pr_SkipReason pr = skipReasonPluginWedged \<or> pr_SkipReason pr = []"
      using run f zf cf by (auto split: if_splits)
    then have "ladder_explains d env p l pr"
      using calculation(2,3) run f zf cf by (auto simp: ladder_explains_def wedge_names)
    ultimately show ?thesis by blast
  qed
qed

subsection \<open>The loop\<close>

text \<open>What the state holds for a plugin: nothing without a state, else its entry if it has one.\<close>

definition plugin_entry :: "loop_state \<Rightarrow> string \<Rightarrow> plugin_state_record option option" where
  "plugin_entry l name = map_option (\<lambda>s. tbl_get (cs_Plugins s) name) (l_state l)"

lemma recordRun_entry:
  "recordRun d env p result pr s = (pr', s') \<Longrightarrow> name \<noteq> p_Name p \<Longrightarrow> tbl_get (cs_Plugins s') name = tbl_get (cs_Plugins s) name"
  by (auto simp: recordRun_def Let_def recordPluginRun_def recordPluginYield_def split: prod.splits)

lemma record_and_append_entry:
  "name \<noteq> p_Name p \<Longrightarrow> plugin_entry (record_and_append d env p result pr l) name = plugin_entry l name"
  by (auto simp: record_and_append_def plugin_entry_def recordRun_entry split: option.split prod.split)

lemma plugin_entry_frame [frame_simps]:
  "plugin_entry (refresh_free d env l) name = plugin_entry l name"
  "plugin_entry (count_freed res l) name = plugin_entry l name"
  "plugin_entry (l\<lparr>l_flights := fl, l_host := host\<rparr>) name = plugin_entry l name"
  "plugin_entry (l\<lparr>l_report := r\<rparr>) name = plugin_entry l name"
  by (simp_all add: plugin_entry_def frame_simps)

lemma run_step_entry:
  assumes "name \<noteq> p_Name p"
  shows "plugin_entry (run_step d env p pr0 l) name = plugin_entry l name"
proof -
  obtain res watch fl host where w: "watchPlugin d p (p_Cleanup p) (ce_level env) (l_flights l) (l_host l) = (res, watch, fl, host)"
    by (cases "watchPlugin d p (p_Cleanup p) (ce_level env) (l_flights l) (l_host l)")
  obtain pr n where a: "applyWatch watch pr0 = (pr, n)" by (cases "applyWatch watch pr0")
  show ?thesis
    unfolding run_step_cases [OF w a]
    by (simp add: Let_def frame_simps record_and_append_entry [OF assms] split: option.split)
qed

lemma dry_run_step_state [frame_simps]: "l_state (dry_run_step d env p pr l) = l_state l"
  by (simp add: dry_run_step_def Let_def split: prod.split)

lemma ladder_step_entry: "name \<noteq> p_Name p \<Longrightarrow> plugin_entry (ladder_step d env p l) name = plugin_entry l name"
  by (simp add: ladder_step_def Let_def target_met_skip_def append_report_def frame_simps run_step_entry split: prod.split)
     (simp add: plugin_entry_def frame_simps)

lemma independent_step_state [frame_simps]: "l_state (independent_step d env p l) = l_state l"
  by (simp add: independent_step_def split: prod.split)

lemma plugin_step_entry: "name \<noteq> p_Name p \<Longrightarrow> plugin_entry (plugin_step d env l p) name = plugin_entry l name"
  by (simp add: plugin_step_def ladder_step_entry) (simp add: plugin_entry_def frame_simps)

definition step_explains :: "daemon \<Rightarrow> cycle_env \<Rightarrow> host plugin \<Rightarrow> loop_state \<Rightarrow> plugin_report \<Rightarrow> bool" where
  "step_explains d env p l pr =
     (if p_LevelIndependent p then independent_explains d p (ce_level env) pr else ladder_explains d env p l pr)"

lemma plugin_step_report:
  "\<exists>pr. appends pr (l_report l) (l_report (plugin_step d env l p)) \<and> step_explains d env p l pr"
proof (cases "p_LevelIndependent p")
  case True
  obtain r' freed items fl' host' where
    r: "runLevelIndependentPlugin d p (ce_level env) (l_report l) (l_flights l) (l_host l) = (r', freed, items, fl', host')"
    by (cases "runLevelIndependentPlugin d p (ce_level env) (l_report l) (l_flights l) (l_host l)")
  from independent_report [OF r] obtain pr where
    pr: "appends pr (l_report l) r'" "independent_explains d p (ce_level env) pr" by blast
  have "appends pr (l_report l) (l_report (plugin_step d env l p))"
    using True by (simp add: plugin_step_def independent_step_def r appends_after [OF pr(1)] frame_simps)
  with pr(2) True show ?thesis by (auto simp: step_explains_def)
next
  case False
  with ladder_step_report show ?thesis by (simp add: plugin_step_def step_explains_def)
qed

text \<open>What a step may assume of the loop state it starts in: the facts and its plugin's entry are those of the start.\<close>

definition seen_as :: "loop_state \<Rightarrow> host plugin \<Rightarrow> loop_state \<Rightarrow> bool" where
  "seen_as l p l' = (cycle_facts (l_report l') = cycle_facts (l_report l) \<and> plugin_entry l' (p_Name p) = plugin_entry l (p_Name p))"

lemma plugin_loop_each:
  assumes "distinct (map p_Name ps)"
  shows "\<exists>prs. r_Plugins (l_report (plugin_loop d env ps l)) = r_Plugins (l_report l) @ prs \<and>
    cycle_facts (l_report (plugin_loop d env ps l)) = cycle_facts (l_report l) \<and>
    list_all2 (\<lambda>p pr. \<exists>l'. seen_as l p l' \<and> step_explains d env p l' pr) ps prs"
  using assms
proof (induction ps arbitrary: l)
  case Nil
  then show ?case by (simp add: plugin_loop_def)
next
  case (Cons p ps)
  define l1 where "l1 = plugin_step d env l p"
  obtain pr where pr: "appends pr (l_report l) (l_report l1)" "step_explains d env p l pr"
    using plugin_step_report unfolding l1_def by blast
  from Cons.IH [of l1] Cons.prems obtain prs where
    prs: "r_Plugins (l_report (plugin_loop d env ps l1)) = r_Plugins (l_report l1) @ prs"
      "cycle_facts (l_report (plugin_loop d env ps l1)) = cycle_facts (l_report l1)"
      "list_all2 (\<lambda>p pr. \<exists>l'. seen_as l1 p l' \<and> step_explains d env p l' pr) ps prs" by auto
  have "seen_as l q l'" if "q \<in> set ps" "seen_as l1 q l'" for q l'
  proof -
    have "p_Name q \<noteq> p_Name p" using that(1) Cons.prems by (metis distinct.simps(2) image_eqI list.map(2) set_map)
    with that(2) pr(1) plugin_step_entry [of "p_Name q" p d env l] show ?thesis
      by (simp add: seen_as_def appends_def l1_def)
  qed
  then have "list_all2 (\<lambda>p pr. \<exists>l'. seen_as l p l' \<and> step_explains d env p l' pr) ps prs"
    by (blast intro: list.rel_mono_strong [OF prs(3)])
  moreover have "seen_as l p l" by (simp add: seen_as_def)
  ultimately have "list_all2 (\<lambda>p pr. \<exists>l'. seen_as l p l' \<and> step_explains d env p l' pr) (p # ps) (pr # prs)"
    using pr(2) by auto
  moreover have "plugin_loop d env (p # ps) l = plugin_loop d env ps l1" by (simp add: plugin_loop_def l1_def)
  ultimately show ?case using prs(1,2) pr(1) by (auto simp: appends_def)
qed

text \<open>The gate decisions that depend only on the facts and the plugin's entry.\<close>

lemma cycle_facts_cong:
  assumes "cycle_facts r = cycle_facts r'"
  shows "zeroYieldExemption d p r k = zeroYieldExemption d p r' k" "r_ByteBackoff r = r_ByteBackoff r'"
    "r_ByteNoProgressCount r = r_ByteNoProgressCount r'" "r_ForcedLevel r = r_ForcedLevel r'"
    "r_HostFreeBeforeBytes r = r_HostFreeBeforeBytes r'" "r_MonitorPath r = r_MonitorPath r'"
    "r_MaxInodeLevel r = r_MaxInodeLevel r'" "r_StateFile r = r_StateFile r'" "r_HostByteLevel r = r_HostByteLevel r'"
    "r_InodeBackoff r = r_InodeBackoff r'" "r_Mounts r = r_Mounts r'"
  using assms by (simp_all add: cycle_facts_def zeroYieldExemption_def pressuredMount_def)

lemma entry_cong:
  assumes "tbl_get (cs_Plugins s) n = tbl_get (cs_Plugins s') n"
  shows "zeroYieldSuppression s n level now digest = zeroYieldSuppression s' n level now digest"
    "pluginLastRun s n = pluginLastRun s' n" "cooldownRemaining s n level now c = cooldownRemaining s' n level now c"
  using assms by (simp_all add: zeroYieldSuppression_def pluginLastRun_def cooldownRemaining_def tbl_zero_def)

lemma verdict_cong:
  assumes "cycle_facts r = cycle_facts r'" "tbl_get (cs_Plugins s) (p_Name p) = tbl_get (cs_Plugins s') (p_Name p)"
  shows "zero_yield_verdict d env p r s = zero_yield_verdict d env p r' s'"
  by (simp add: zero_yield_verdict_def cycle_facts_cong(1) [OF assms(1)] entry_cong [OF assms(2)])

lemma seen_as_gate:
  assumes "seen_as l p l'"
  shows "zero_yield_held d env p l' = zero_yield_held d env p l" "zero_yield_lift d env p l' = zero_yield_lift d env p l"
proof -
  have f: "cycle_facts (l_report l') = cycle_facts (l_report l)" and e: "plugin_entry l' (p_Name p) = plugin_entry l (p_Name p)"
    using assms by (simp_all add: seen_as_def)
  have "zero_yield_held d env p l' = zero_yield_held d env p l \<and> zero_yield_lift d env p l' = zero_yield_lift d env p l"
  proof (cases "l_state l")
    case None
    with e have "l_state l' = None" by (simp add: plugin_entry_def)
    with None show ?thesis
      by (simp_all add: zero_yield_held_def zero_yield_lift_def)
  next
    case (Some s)
    with e obtain s' where s': "l_state l' = Some s'" "tbl_get (cs_Plugins s') (p_Name p) = tbl_get (cs_Plugins s) (p_Name p)"
      by (auto simp: plugin_entry_def)
    from verdict_cong [OF f s'(2)] Some s'(1)
    show ?thesis
      by (simp_all add: zero_yield_held_def zero_yield_lift_def)
  qed
  then show "zero_yield_held d env p l' = zero_yield_held d env p l" "zero_yield_lift d env p l' = zero_yield_lift d env p l" by simp_all
qed

end
