(* ===== verification/Cycle_Runs.thy ===== *)
theory Cycle_Runs
  imports Cycle_Facts
begin

text \<open>
  The cycle as a whole: its three phases taken apart, the reports of a pressure cycle with the
  loop state each plugin met, the runs a cycle starts, and the time it takes.
\<close>

subsection \<open>Phases\<close>

definition cycle_level :: "daemon \<Rightarrow> cleanup_level \<Rightarrow> host \<Rightarrow> cleanup_level" where
  "cycle_level d forced host = (if forced = LevelNone then ma_Level (assessMounts d host) else forced)"

text \<open>The report and the state a cycle has when it decides whether there is pressure.\<close>

definition cycle_loaded :: "daemon \<Rightarrow> store_faults \<Rightarrow> cleanup_level \<Rightarrow> host \<Rightarrow> cycle_report \<times> cleanup_state option \<times> files" where
  "cycle_loaded d f forced host =
     load_step d f (h_clock host) (h_files host)
       (cycle_start d (h_clock host) forced (cycle_level d forced host) (assessMounts d host))"

definition monitored_path :: "daemon \<Rightarrow> host \<Rightarrow> path" where
  "monitored_path d host = primaryMonitorPath d (assessMounts d host)"

definition cycle_env_of :: "daemon \<Rightarrow> cleanup_level \<Rightarrow> host \<Rightarrow> cycle_env" where
  "cycle_env_of d forced host =
     \<lparr>ce_now = h_clock host, ce_level = cycle_level d forced host, ce_before = h_stats host (monitored_path d host)\<rparr>"

definition measured_report :: "daemon \<Rightarrow> store_faults \<Rightarrow> cleanup_level \<Rightarrow> host \<Rightarrow> cycle_report" where
  "measured_report d f forced host =
     (let x = cycle_loaded d f forced host
      in measure_before d (ce_before (cycle_env_of d forced host)) (fst (snd x)) (fst x))"

definition loaded_state :: "daemon \<Rightarrow> store_faults \<Rightarrow> cleanup_level \<Rightarrow> host \<Rightarrow> cleanup_state option" where
  "loaded_state d f forced host = fst (snd (cycle_loaded d f forced host))"

definition loaded_host :: "daemon \<Rightarrow> store_faults \<Rightarrow> cleanup_level \<Rightarrow> host \<Rightarrow> host" where
  "loaded_host d f forced host = host\<lparr>h_files := snd (snd (cycle_loaded d f forced host))\<rparr>"

definition first_loop_state :: "daemon \<Rightarrow> store_faults \<Rightarrow> cleanup_level \<Rightarrow> flights \<Rightarrow> host \<Rightarrow> loop_state" where
  "first_loop_state d f forced fl host =
     \<lparr>l_report = decide_backoffs d (loaded_state d f forced host) (measured_report d f forced host),
      l_state = loaded_state d f forced host, l_dirty = False, l_totalFreed = 0, l_totalItems = 0,
      l_ladderFreed = 0, l_flights = fl, l_host = loaded_host d f forced host\<rparr>"

definition last_loop_state :: "daemon \<Rightarrow> store_faults \<Rightarrow> cleanup_level \<Rightarrow> flights \<Rightarrow> host \<Rightarrow> loop_state" where
  "last_loop_state d f forced fl host =
     after_plugins d f (cycle_env_of d forced host)
       (was_engaged (measured_report d f forced host) (loaded_state d f forced host))
       (plugin_loop d (cycle_env_of d forced host) (cycle_plugins d) (first_loop_state d f forced fl host))"

lemma load_step_path: "load_step d f now fs r = (r', s, fs') \<Longrightarrow> r_MonitorPath r' = r_MonitorPath r"
  by (auto simp: load_step_def split: prod.splits sum.splits)

lemma cycle_loaded_path: "r_MonitorPath (fst (cycle_loaded d f forced host)) = monitored_path d host"
  by (cases "cycle_loaded d f forced host")
     (auto simp: cycle_loaded_def monitored_path_def cycle_start_def dest: load_step_path)

lemma runCycle_phases:
  "runCycle d f forced fl host =
     with_duration (h_clock host)
       (if cycle_level d forced host = LevelNone
        then quiet_path d f (h_clock host) (ce_before (cycle_env_of d forced host)) (loaded_state d f forced host)
               (measured_report d f forced host) fl (loaded_host d f forced host)
        else let l = last_loop_state d f forced fl host in (l_report l, l_flights l, l_host l))"
proof -
  obtain r s fs where c: "cycle_loaded d f forced host = (r, s, fs)" by (cases "cycle_loaded d f forced host")
  have p: "r_MonitorPath r = monitored_path d host" using cycle_loaded_path [of d f forced host] c by simp
  show ?thesis
    unfolding runCycle_def Let_def cycle_level_def [symmetric] cycle_loaded_def [symmetric] c prod.case
    by (simp add: p cycle_env_of_def measured_report_def loaded_state_def loaded_host_def last_loop_state_def
        first_loop_state_def pressure_path_def c Let_def)
qed

lemma with_duration_frame [frame_simps]:
  "r_Plugins (fst (with_duration now x)) = r_Plugins (fst x)" "cycle_facts (fst (with_duration now x)) = cycle_facts (fst x)"
  "r_NextRetryAt (fst (with_duration now x)) = r_NextRetryAt (fst x)"
  "snd (with_duration now x) = snd x"
  by (simp_all add: with_duration_def cycle_facts_def split: prod.split)

subsection \<open>After the plugins\<close>

lemma save_step_frame:
  "save_step f s r host = (r', host') \<Longrightarrow> r_Plugins r' = r_Plugins r \<and> cycle_facts r' = cycle_facts r \<and>
     h_clock host' = h_clock host \<and> h_stats host' = h_stats host"
  by (auto simp: save_step_def cycle_facts_def split: prod.splits option.splits)

lemma after_plugins_frame [frame_simps]:
  "r_Plugins (l_report (after_plugins d f env w l)) = r_Plugins (l_report l)"
  "cycle_facts (l_report (after_plugins d f env w l)) = cycle_facts (l_report l)"
  "l_flights (after_plugins d f env w l) = l_flights l"
  "h_clock (l_host (after_plugins d f env w l)) = h_clock (l_host l)"
proof -
  define l1 where "l1 = record_byte_progress d env w (record_inode_progress d (ce_now env) (refresh_free d env (cycle_totals l)))"
  have t: "r_Plugins (l_report (cycle_totals l)) = r_Plugins (l_report l)"
    "cycle_facts (l_report (cycle_totals l)) = cycle_facts (l_report l)"
    by (simp_all add: cycle_totals_def cycle_facts_def)
  have "l_report (record_inode_progress d now x) = l_report x \<and> l_flights (record_inode_progress d now x) = l_flights x \<and>
      l_host (record_inode_progress d now x) = l_host x" for now x
    by (simp add: record_inode_progress_def Let_def split: option.split)
  moreover have "l_report (record_byte_progress d env w x) = l_report x \<and> l_flights (record_byte_progress d env w x) = l_flights x \<and>
      l_host (record_byte_progress d env w x) = l_host x" for x
    by (simp add: record_byte_progress_def Let_def split: option.split)
  ultimately have l1: "r_Plugins (l_report l1) = r_Plugins (l_report l)" "cycle_facts (l_report l1) = cycle_facts (l_report l)"
    "l_flights l1 = l_flights l" "l_host l1 = l_host l"
    by (simp_all add: l1_def frame_simps t) (simp_all add: cycle_totals_def)
  have "after_plugins d f env w l = save_if_dirty f l1" by (simp add: after_plugins_def l1_def)
  moreover have "r_Plugins (l_report (save_if_dirty f l1)) = r_Plugins (l_report l1) \<and>
      cycle_facts (l_report (save_if_dirty f l1)) = cycle_facts (l_report l1) \<and> l_flights (save_if_dirty f l1) = l_flights l1 \<and>
      h_clock (l_host (save_if_dirty f l1)) = h_clock (l_host l1)"
    by (auto simp: save_if_dirty_def dest: save_step_frame split: option.split prod.split)
  ultimately show "r_Plugins (l_report (after_plugins d f env w l)) = r_Plugins (l_report l)"
    "cycle_facts (l_report (after_plugins d f env w l)) = cycle_facts (l_report l)"
    "l_flights (after_plugins d f env w l) = l_flights l"
    "h_clock (l_host (after_plugins d f env w l)) = h_clock (l_host l)"
    using l1 by simp_all
qed

subsection \<open>The facts of a pressure cycle\<close>

lemma measured_report_plugins: "r_Plugins (measured_report d f forced host) = []"
proof -
  obtain r s fs where c: "cycle_loaded d f forced host = (r, s, fs)" by (cases "cycle_loaded d f forced host")
  then have "r_Plugins r = []"
    by (auto simp: cycle_loaded_def load_step_def cycle_start_def zero_cycle_report_def split: prod.splits sum.splits)
  with c show ?thesis
    by (auto simp: measured_report_def measure_before_def frame_simps Let_def split: sum.split option.split)
qed

lemma decide_backoffs_plugins [frame_simps]: "r_Plugins (decide_backoffs d s r) = r_Plugins r"
  by (simp add: decide_backoffs_def Let_def split: prod.split)

lemma pressure_reports:
  assumes "runCycle d f forced fl host = (r, fl', host')" "cycle_level d forced host \<noteq> LevelNone"
  shows "r_Plugins r = r_Plugins (l_report (plugin_loop d (cycle_env_of d forced host) (cycle_plugins d) (first_loop_state d f forced fl host)))"
    "cycle_facts r = cycle_facts (l_report (plugin_loop d (cycle_env_of d forced host) (cycle_plugins d) (first_loop_state d f forced fl host)))"
proof -
  have "with_duration (h_clock host) (l_report (last_loop_state d f forced fl host), l_flights (last_loop_state d f forced fl host),
      l_host (last_loop_state d f forced fl host)) = (r, fl', host')"
    using assms by (simp add: runCycle_phases Let_def)
  then have "r_Plugins r = r_Plugins (l_report (last_loop_state d f forced fl host))"
    "cycle_facts r = cycle_facts (l_report (last_loop_state d f forced fl host))"
    by (metis fst_conv with_duration_frame(1,2))+
  then show "r_Plugins r = r_Plugins (l_report (plugin_loop d (cycle_env_of d forced host) (cycle_plugins d) (first_loop_state d f forced fl host)))"
    "cycle_facts r = cycle_facts (l_report (plugin_loop d (cycle_env_of d forced host) (cycle_plugins d) (first_loop_state d f forced fl host)))"
    by (simp_all add: last_loop_state_def frame_simps)
qed

lemma pressure_each:
  assumes "runCycle d f forced fl host = (r, fl', host')" "cycle_level d forced host \<noteq> LevelNone"
    and "distinct (map p_Name (cycle_plugins d))"
  defines "l0 \<equiv> first_loop_state d f forced fl host"
  shows "cycle_facts r = cycle_facts (l_report l0)"
    "list_all2 (\<lambda>p pr. \<exists>l. seen_as l0 p l \<and> step_explains d (cycle_env_of d forced host) p l pr) (cycle_plugins d) (r_Plugins r)"
proof -
  have "r_Plugins (l_report l0) = []" by (simp add: l0_def first_loop_state_def frame_simps measured_report_plugins)
  with plugin_loop_each [OF assms(3), of d "cycle_env_of d forced host" l0] pressure_reports [OF assms(1,2), folded l0_def]
  show "cycle_facts r = cycle_facts (l_report l0)"
    "list_all2 (\<lambda>p pr. \<exists>l. seen_as l0 p l \<and> step_explains d (cycle_env_of d forced host) p l pr) (cycle_plugins d) (r_Plugins r)"
    by auto
qed

text \<open>A report of a pressure cycle comes from a plugin, stepped in a state seen as the first.\<close>

lemma pressure_report_source:
  assumes "runCycle d f forced fl host = (r, fl', host')" "cycle_level d forced host \<noteq> LevelNone"
    and "distinct (map p_Name (cycle_plugins d))" "pr \<in> set (r_Plugins r)"
  shows "\<exists>p l. p \<in> set (cycle_plugins d) \<and> seen_as (first_loop_state d f forced fl host) p l \<and>
    step_explains d (cycle_env_of d forced host) p l pr"
proof -
  obtain i where i: "i < length (r_Plugins r)" "pr = r_Plugins r ! i" using assms(4) by (auto simp: in_set_conv_nth)
  note all = pressure_each(2) [OF assms(1-3)]
  have "i < length (cycle_plugins d)" using list_all2_lengthD [OF all] i(1) by simp
  with list_all2_nthD2 [OF all i(1)] i(2) show ?thesis by (metis nth_mem)
qed

subsection \<open>The runs a cycle starts\<close>

definition sane_plugin :: "host plugin \<Rightarrow> bool" where
  "sane_plugin p = (sane_operation (p_Cleanup p) \<and> (\<forall>planner. p_PlanCleanup p = Some planner \<longrightarrow> sane_operation planner))"

text \<open>What a plugin's step does to the flights and the host: nothing, or one call of the watchdog.\<close>

inductive step_effect ::
    "daemon \<Rightarrow> cleanup_level \<Rightarrow> host plugin \<Rightarrow> flights \<Rightarrow> host \<Rightarrow> flights \<Rightarrow> host \<Rightarrow> bool \<Rightarrow> bool"
  for d :: daemon and level :: cleanup_level and p :: "host plugin" and fl :: flights and host :: host where
  idle: "step_effect d level p fl host fl host False"
| cleaned: "\<not> d_dryRun d \<Longrightarrow> watchPlugin d p (p_Cleanup p) level fl host = (res, w, fl', host') \<Longrightarrow>
    step_effect d level p fl host fl' host' (pw_state w \<noteq> skipReasonPluginWedged)"
| planned: "d_dryRun d \<Longrightarrow> p_PlanCleanup p = Some planner \<Longrightarrow> watchPlugin d p planner level fl host = (res, w, fl', host') \<Longrightarrow>
    step_effect d level p fl host fl' host' False"

lemma dry_run_effect:
  assumes "dry_run_plan d p level fl host pr0 = (pr, plan, fl', host')" "d_dryRun d"
  shows "step_effect d level p fl host fl' host' False"
proof (cases "p_PlanCleanup p")
  case None
  with assms show ?thesis by (auto simp: dry_run_plan_def intro: step_effect.idle)
next
  case (Some planner)
  obtain res w f h where w: "watchPlugin d p planner level fl host = (res, w, f, h)"
    by (cases "watchPlugin d p planner level fl host")
  have "fl' = f \<and> host' = h" using assms(1) Some w
    by (auto simp: dry_run_plan_def dry_run_result_def Let_def split: prod.splits option.splits bool.splits)
  with step_effect.planned [OF assms(2) Some w] show ?thesis by simp
qed

lemma independent_effect:
  assumes "runLevelIndependentPlugin d p level r fl host = (r', freed, items, fl', host')"
  shows "\<exists>pr. r_Plugins r' = r_Plugins r @ [pr] \<and> pr_Name pr = p_Name p \<and> step_effect d level p fl host fl' host' (pr_Ran pr)"
proof -
  define pr0 where "pr0 = (fresh_plugin_report d p level)\<lparr>pr_LevelIndependent := True\<rparr>"
  have pr0: "pr_Name pr0 = p_Name p" "\<not> pr_Ran pr0"
    by (simp_all add: pr0_def fresh_plugin_report_def zero_plugin_report_def)
  show ?thesis
  proof (cases "d_dryRun d")
    case True
    obtain pr plan f h where dr: "dry_run_plan d p level fl host pr0 = (pr, plan, f, h)"
      by (cases "dry_run_plan d p level fl host pr0")
    have "r' = add_plugin pr (plan_totals plan r) \<and> fl' = f \<and> host' = h"
      using assms True dr by (simp add: runLevelIndependentPlugin_def pr0_def)
    with dry_run_effect [OF dr True] dry_run_plan_decision [OF dr] pr0 show ?thesis
      by (auto simp: frame_simps report_identity_def)
  next
    case False
    obtain res w f h where w: "watchPlugin d p (p_Cleanup p) level fl host = (res, w, f, h)"
      by (cases "watchPlugin d p (p_Cleanup p) level fl host")
    obtain pr n where a: "applyWatch w pr0 = (pr, n)" by (cases "applyWatch w pr0")
    note eff = step_effect.cleaned [OF False w]
    note st = watchPlugin_states [OF w] watchPlugin_result [OF w] applyWatch_decision [OF a]
    have n: "n = (res = None)" using watchPlugin_applied [OF w, of pr0] a by simp
    show ?thesis
    proof (cases res)
      case None
      have eq: "r' = add_plugin (pr\<lparr>pr_Ran := (pw_state w = wedgeAbandoned)\<rparr>) r \<and> fl' = f \<and> host' = h"
        using assms False w a n None by (simp add: runLevelIndependentPlugin_def pr0_def)
      have "(pw_state w = wedgeAbandoned) = (pw_state w \<noteq> skipReasonPluginWedged)"
        using st None by (auto simp: returned_def wedge_names)
      with eq eff st pr0 show ?thesis by (auto simp: frame_simps report_identity_def)
    next
      case (Some result)
      define result' where "result' = watched_result p w result"
      have "r_Plugins r' = r_Plugins r @ [independent_outcome p result' pr] \<and> fl' = f \<and> host' = h"
        using assms False w a n Some
        by (auto simp: runLevelIndependentPlugin_def pr0_def Let_def result'_def frame_simps split: if_splits)
      moreover have "pw_state w \<noteq> skipReasonPluginWedged" using st Some by (auto simp: returned_def wedge_names)
      ultimately show ?thesis using eff st pr0 by (auto simp: independent_outcome_def report_identity_def)
    qed
  qed
qed

lemma run_step_effect:
  assumes "\<not> d_dryRun d" "\<not> pr_Ran pr0"
  shows "\<exists>pr. r_Plugins (l_report (run_step d env p pr0 l)) = r_Plugins (l_report l) @ [pr] \<and> pr_Name pr = pr_Name pr0 \<and>
    step_effect d (ce_level env) p (l_flights l) (l_host l) (l_flights (run_step d env p pr0 l)) (l_host (run_step d env p pr0 l)) (pr_Ran pr)"
proof -
  obtain res w fl host where w: "watchPlugin d p (p_Cleanup p) (ce_level env) (l_flights l) (l_host l) = (res, w, fl, host)"
    by (cases "watchPlugin d p (p_Cleanup p) (ce_level env) (l_flights l) (l_host l)")
  obtain pr n where a: "applyWatch w pr0 = (pr, n)" by (cases "applyWatch w pr0")
  have "l_flights (run_step d env p pr0 l) = fl \<and> l_host (run_step d env p pr0 l) = host"
    unfolding run_step_cases [OF w a] by (simp add: Let_def frame_simps split: option.split)
  with step_effect.cleaned [OF assms(1) w] run_step_report [OF w assms(2)] show ?thesis
    by (auto simp: appends_def report_identity_def)
qed

lemma plugin_step_effect:
  "\<exists>pr. r_Plugins (l_report (plugin_step d env l p)) = r_Plugins (l_report l) @ [pr] \<and> pr_Name pr = p_Name p \<and>
    step_effect d (ce_level env) p (l_flights l) (l_host l) (l_flights (plugin_step d env l p)) (l_host (plugin_step d env l p)) (pr_Ran pr)"
proof (cases "p_LevelIndependent p")
  case True
  obtain r' freed items fl' host' where
    r: "runLevelIndependentPlugin d p (ce_level env) (l_report l) (l_flights l) (l_host l) = (r', freed, items, fl', host')"
    by (cases "runLevelIndependentPlugin d p (ce_level env) (l_report l) (l_flights l) (l_host l)")
  from independent_effect [OF r] True show ?thesis
    by (simp add: plugin_step_def independent_step_def r frame_simps)
next
  case False
  define pr0 where "pr0 = fresh_plugin_report d p (ce_level env)"
  have f: "pr_Name pr0 = p_Name p" "\<not> pr_Ran pr0" by (simp_all add: pr0_def fresh_plugin_report_def zero_plugin_report_def)
  obtain pr1 held1 where z: "zero_yield_gate d env p l pr0 = (pr1, held1)" by (cases "zero_yield_gate d env p l pr0")
  obtain pr2 held2 where c: "cooldown_gate d env p l pr1 = (pr2, held2)" by (cases "cooldown_gate d env p l pr1")
  have fields: "pr_Name pr1 = p_Name p" "\<not> pr_Ran pr1" "pr_Name pr2 = p_Name p" "\<not> pr_Ran pr2"
    using zero_yield_gate_fields [OF z] cooldown_gate_fields [OF c] f by (auto simp: report_identity_def)
  note step = ladder_step_def [of d env p l, unfolded Let_def, folded pr0_def, unfolded z c prod.case]
  have eq: "plugin_step d env l p = ladder_step d env p l" using False by (simp add: plugin_step_def)
  consider (met) "\<not> d_dryRun d" "cleanupTargetMet (l_report l)" | (zero) "d_dryRun d \<or> \<not> cleanupTargetMet (l_report l)" held1
    | (cool) "d_dryRun d \<or> \<not> cleanupTargetMet (l_report l)" "\<not> held1" held2
    | (dry) "d_dryRun d" "\<not> held1" "\<not> held2" | (run) "\<not> d_dryRun d" "\<not> cleanupTargetMet (l_report l)" "\<not> held1" "\<not> held2"
    by blast
  then show ?thesis
  proof cases
    case met
    with f show ?thesis unfolding eq step
      by (auto simp: target_met_skip_def frame_simps add_plugin_def intro: step_effect.idle)
  next
    case zero
    with fields show ?thesis unfolding eq step by (auto simp: append_report_def frame_simps intro: step_effect.idle)
  next
    case cool
    with fields show ?thesis unfolding eq step by (auto simp: append_report_def frame_simps intro: step_effect.idle)
  next
    case dry
    obtain pr plan fl host where dr: "dry_run_plan d p (ce_level env) (l_flights l) (l_host l) pr2 = (pr, plan, fl, host)"
      by (cases "dry_run_plan d p (ce_level env) (l_flights l) (l_host l) pr2")
    have "ladder_step d env p l = dry_run_step d env p pr2 l" using dry by (simp add: step)
    moreover have "l_flights (dry_run_step d env p pr2 l) = fl \<and> l_host (dry_run_step d env p pr2 l) = host"
      by (simp add: dry_run_step_def dr Let_def)
    ultimately show ?thesis unfolding eq
      using dry_run_step_report [OF dr] dry_run_effect [OF dr dry(1)] dry_run_plan_decision [OF dr] fields
      by (auto simp: appends_def report_identity_def)
  next
    case run
    then have "ladder_step d env p l = run_step d env p pr2 l" by (simp add: step)
    with run_step_effect [OF run(1) fields(4), of env p l] fields show ?thesis unfolding eq by simp
  qed
qed

lemma step_effect_clock:
  "step_effect d level p fl host fl' host' has_run \<Longrightarrow> sane_plugin p \<Longrightarrow>
     h_clock host \<le> h_clock host' \<and> h_clock host' \<le> h_clock host + call_limit d p"
proof (induction rule: step_effect.induct)
  case idle
  then show ?case using pluginTimeout_pos [of d "p_Name p"] pluginGrace_pos [of d] by (simp add: call_limit_def)
next
  case (cleaned res w fl' host')
  then show ?case using watchPlugin_clock [OF cleaned(2)] by (simp add: sane_plugin_def)
next
  case (planned planner res w fl' host')
  then show ?case using watchPlugin_clock [OF planned(3)] by (simp add: sane_plugin_def)
qed

text \<open>The history after a step; on a real cycle the runs it adds are those the report calls run.\<close>

lemma step_effect_history:
  "step_effect d level p fl host fl' host' has_run \<Longrightarrow> sane_plugin p \<Longrightarrow> watched d fl host runs \<Longrightarrow>
     \<exists>new. watched d fl' host' (new @ runs) \<and> (\<not> d_dryRun d \<longrightarrow> map run_name new = (if has_run then [p_Name p] else []))"
proof (induction rule: step_effect.induct)
  case idle
  then show ?case by (auto intro!: exI [of _ "[]"])
next
  case (cleaned res w fl' host')
  then have "watched d fl' host' (if pw_state w = skipReasonPluginWedged then runs
      else started_run d p (p_Cleanup p) level host # runs)"
    by (intro watched.cleanup) (auto simp: sane_plugin_def)
  then show ?case
    by (intro exI [of _ "if pw_state w = skipReasonPluginWedged then [] else [started_run d p (p_Cleanup p) level host]"])
       auto
next
  case (planned planner res w fl' host')
  then have "watched d fl' host' (if pw_state w = skipReasonPluginWedged then runs
      else started_run d p planner level host # runs)"
    by (intro watched.plan) (auto simp: sane_plugin_def)
  with planned(1) show ?case
    by (intro exI [of _ "if pw_state w = skipReasonPluginWedged then [] else [started_run d p planner level host]"])
       auto
qed

definition total_limit :: "daemon \<Rightarrow> host plugin list \<Rightarrow> duration" where
  "total_limit d ps = (\<Sum>p\<leftarrow>ps. call_limit d p)"

definition ran_names :: "plugin_report list \<Rightarrow> string list" where
  "ran_names prs = map pr_Name (filter pr_Ran prs)"

text \<open>What a stretch of a cycle did: the reports it appended, the runs it started, the time it took.\<close>

definition stretch ::
    "daemon \<Rightarrow> host plugin list \<Rightarrow> cycle_report \<Rightarrow> flights \<Rightarrow> host \<Rightarrow> plugin_run list
       \<Rightarrow> cycle_report \<Rightarrow> flights \<Rightarrow> host \<Rightarrow> bool" where
  "stretch d ps r fl host runs r' fl' host' =
     (\<exists>prs new. r_Plugins r' = r_Plugins r @ prs \<and> map pr_Name prs = map p_Name ps \<and>
        watched d fl' host' (new @ runs) \<and> (\<not> d_dryRun d \<longrightarrow> rev (map run_name new) = ran_names prs) \<and>
        h_clock host \<le> h_clock host' \<and> h_clock host' \<le> h_clock host + total_limit d ps)"

lemma stretch_Nil: "watched d fl host runs \<Longrightarrow> r_Plugins r' = r_Plugins r \<Longrightarrow> stretch d [] r fl host runs r' fl host"
  by (auto simp: stretch_def total_limit_def ran_names_def intro!: exI [of _ "[]"])

lemma stretch_Cons:
  assumes "r_Plugins r1 = r_Plugins r @ [pr] \<and> pr_Name pr = p_Name p \<and> step_effect d level p fl host fl1 host1 (pr_Ran pr)"
    and "sane_plugin p" "watched d fl host runs"
    and rest: "\<And>runs. watched d fl1 host1 runs \<Longrightarrow> stretch d ps r1 fl1 host1 runs r' fl' host'"
  shows "stretch d (p # ps) r fl host runs r' fl' host'"
proof -
  from step_effect_history assms(1-3) obtain new where
    new: "watched d fl1 host1 (new @ runs)" "\<not> d_dryRun d \<longrightarrow> map run_name new = (if pr_Ran pr then [p_Name p] else [])"
    by blast
  from rest [OF new(1)] obtain prs new' where
    t: "r_Plugins r' = r_Plugins r1 @ prs" "map pr_Name prs = map p_Name ps" "watched d fl' host' (new' @ new @ runs)"
      "\<not> d_dryRun d \<longrightarrow> rev (map run_name new') = ran_names prs" "h_clock host1 \<le> h_clock host'"
      "h_clock host' \<le> h_clock host1 + total_limit d ps"
    by (auto simp: stretch_def)
  have c: "h_clock host \<le> h_clock host1 \<and> h_clock host1 \<le> h_clock host + call_limit d p"
    using step_effect_clock assms(1,2) by blast
  have "\<not> d_dryRun d \<longrightarrow> rev (map run_name (new' @ new)) = ran_names (pr # prs)"
    using new(2) t(4) assms(1) by (auto simp: ran_names_def)
  with t c assms(1) show ?thesis
    unfolding stretch_def
    by (intro exI [of _ "pr # prs"] exI [of _ "new' @ new"]) (auto simp: total_limit_def)
qed

lemma plugin_loop_stretch:
  "(\<And>p. p \<in> set ps \<Longrightarrow> sane_plugin p) \<Longrightarrow> watched d (l_flights l) (l_host l) runs \<Longrightarrow>
     stretch d ps (l_report l) (l_flights l) (l_host l) runs
       (l_report (plugin_loop d env ps l)) (l_flights (plugin_loop d env ps l)) (l_host (plugin_loop d env ps l))"
proof (induction ps arbitrary: l runs)
  case Nil
  then show ?case by (simp add: plugin_loop_def stretch_Nil)
next
  case (Cons p ps)
  have eq: "plugin_loop d env (p # ps) l = plugin_loop d env ps (plugin_step d env l p)" by (simp add: plugin_loop_def)
  from plugin_step_effect [of d env l p] obtain pr where
    pr: "r_Plugins (l_report (plugin_step d env l p)) = r_Plugins (l_report l) @ [pr] \<and> pr_Name pr = p_Name p \<and>
      step_effect d (ce_level env) p (l_flights l) (l_host l) (l_flights (plugin_step d env l p)) (l_host (plugin_step d env l p)) (pr_Ran pr)"
    by blast
  show ?case unfolding eq
    by (rule stretch_Cons [OF pr]) (use Cons in auto)
qed

lemma quiet_stretch:
  "(\<And>p. p \<in> set ps \<Longrightarrow> sane_plugin p) \<Longrightarrow> watched d fl host runs \<Longrightarrow>
     foldl (quiet_independent d) (r, fl, host) ps = (r', fl', host') \<Longrightarrow>
     stretch d (filter p_LevelIndependent ps) r fl host runs r' fl' host'"
proof (induction ps arbitrary: r fl host runs)
  case Nil
  then show ?case by (simp add: stretch_Nil)
next
  case (Cons p ps)
  show ?case
  proof (cases "p_LevelIndependent p")
    case True
    obtain r1 freed items fl1 host1 where i: "runLevelIndependentPlugin d p LevelNone r fl host = (r1, freed, items, fl1, host1)"
      by (cases "runLevelIndependentPlugin d p LevelNone r fl host")
    have "quiet_independent d (r, fl, host) p = (r1, fl1, host1)" using True i by (simp add: quiet_independent_def)
    then have "foldl (quiet_independent d) (r1, fl1, host1) ps = (r', fl', host')"
      using Cons.prems(3) by simp
    moreover from independent_effect [OF i] obtain pr where
      "r_Plugins r1 = r_Plugins r @ [pr] \<and> pr_Name pr = p_Name p \<and> step_effect d LevelNone p fl host fl1 host1 (pr_Ran pr)"
      by blast
    ultimately have "stretch d (p # filter p_LevelIndependent ps) r fl host runs r' fl' host'"
      by (rule_tac stretch_Cons) (use Cons in auto)
    with True show ?thesis by simp
  next
    case False
    then have "quiet_independent d (r, fl, host) p = (r, fl, host)" by (simp add: quiet_independent_def)
    with False Cons show ?thesis by simp
  qed
qed

definition reported_plugins :: "daemon \<Rightarrow> cleanup_level \<Rightarrow> host \<Rightarrow> host plugin list" where
  "reported_plugins d forced host =
     (if cycle_level d forced host = LevelNone then filter p_LevelIndependent (cycle_plugins d) else cycle_plugins d)"

lemma watched_same_clock: "watched d fl host runs \<Longrightarrow> h_clock host' = h_clock host \<Longrightarrow> watched d fl host' runs"
  by (rule watched.elapse) auto

text \<open>The whole cycle as one stretch.\<close>

lemma runCycle_stretch:
  assumes run: "runCycle d f forced fl host = (r, fl', host')" and sane: "\<And>p. p \<in> set (cycle_plugins d) \<Longrightarrow> sane_plugin p"
    and w: "watched d fl host runs"
  shows "stretch d (reported_plugins d forced host) (r\<lparr>r_Plugins := []\<rparr>) fl host runs r fl' host'"
proof -
  define r0 where "r0 = measured_report d f forced host"
  define h0 where "h0 = loaded_host d f forced host"
  have h0: "h_clock h0 = h_clock host" by (simp add: h0_def loaded_host_def)
  show ?thesis
  proof (cases "cycle_level d forced host = LevelNone")
    case True
    obtain r1 h1 where q: "(case loaded_state d f forced host of None \<Rightarrow> (r0, h0)
        | Some s \<Rightarrow> (if d_dryRun d then (r0, h0)
             else (case pressure_cleared d (h_clock host) (ce_before (cycle_env_of d forced host)) r0 s of
                     (s, dirty) \<Rightarrow> if dirty then save_step f s r0 h0 else (r0, h0)))) = (r1, h1)"
      by (rule prod.exhaust)
    have r1: "r_Plugins r1 = [] \<and> h_clock h1 = h_clock host"
      using q measured_report_plugins [of d f forced host, folded r0_def] h0
      by (auto dest: save_step_frame split: option.splits if_splits prod.splits)
    obtain r2 fl2 h2 where q2: "foldl (quiet_independent d) (r1, fl, h1) (cycle_plugins d) = (r2, fl2, h2)"
      by (rule prod_cases3)
    have "with_duration (h_clock host) (r2, fl2, h2) = (r, fl', host')"
      using run True q q2 unfolding runCycle_phases quiet_path_def Let_def r0_def h0_def by simp
    then have res: "r_Plugins r = r_Plugins r2 \<and> fl' = fl2 \<and> host' = h2"
      using with_duration_frame [of "h_clock host" "(r2, fl2, h2)"] by auto
    have "watched d fl h1 runs" using w r1 by (auto intro: watched_same_clock)
    from quiet_stretch [OF sane this q2] have "stretch d (filter p_LevelIndependent (cycle_plugins d)) r1 fl h1 runs r2 fl2 h2" .
    with r1 res True show ?thesis by (simp add: stretch_def reported_plugins_def)
  next
    case False
    define l0 where "l0 = first_loop_state d f forced fl host"
    define l1 where "l1 = plugin_loop d (cycle_env_of d forced host) (cycle_plugins d) l0"
    define l2 where "l2 = last_loop_state d f forced fl host"
    have l0: "l_flights l0 = fl" "h_clock (l_host l0) = h_clock host" "r_Plugins (l_report l0) = []"
      by (simp_all add: l0_def first_loop_state_def h0 [unfolded h0_def] frame_simps measured_report_plugins)
    have "watched d (l_flights l0) (l_host l0) runs" using w l0 by (auto intro: watched_same_clock)
    from plugin_loop_stretch [OF sane this] have st: "stretch d (cycle_plugins d) (l_report l0) fl (l_host l0) runs (l_report l1) (l_flights l1) (l_host l1)"
      by (simp add: l1_def l0)
    have l2: "r_Plugins (l_report l2) = r_Plugins (l_report l1)" "l_flights l2 = l_flights l1" "h_clock (l_host l2) = h_clock (l_host l1)"
      by (simp_all add: l2_def last_loop_state_def l1_def l0_def frame_simps)
    have "with_duration (h_clock host) (l_report l2, l_flights l2, l_host l2) = (r, fl', host')"
      using run False by (simp add: runCycle_phases Let_def l2_def)
    then have "r_Plugins r = r_Plugins (l_report l2) \<and> fl' = l_flights l2 \<and> host' = l_host l2"
      using with_duration_frame [of "h_clock host" "(l_report l2, l_flights l2, l_host l2)"] by auto
    with st l0 l2 False show ?thesis
      by (auto simp: stretch_def reported_plugins_def intro: watched_same_clock)
  qed
qed

end
