(* ===== verification/Cycle_Properties.thy ===== *)
theory Cycle_Properties
  imports Cycle_Runs
begin

text \<open>
  The properties of a cleanup cycle, over \<open>runCycle\<close> and the daemon loop: which plugins run
  and which are held back, what a dry run may do, how long a cycle takes, and what the state
  file remembers.
\<close>

subsection \<open>The report before the plugins\<close>

lemma cycle_loaded_fields:
  assumes "cycle_loaded d f forced host = (r, s, fs)"
  shows "r_ForcedLevel r = (forced \<noteq> LevelNone)" "r_ByteBackoff r = False" "r_MonitorPath r = monitored_path d host"
    "r_Mounts r = ma_Mounts (assessMounts d host)" "r_HostFreeBeforeBytes r = 0" "r_HostByteLevel r = []"
    "r_StateFile r = expandPathHome (d_home d) (pc_StateFile (d_policy d))"
    "r_MaxInodeLevel r = level_string (ma_InodeLevel (assessMounts d host))" "r_ByteNoProgressCount r = 0"
    "r_TargetFreeMet r = False" "r_MinimumFreeBytes r = minimumFreeBytes d"
  using assms
  by (auto simp: cycle_loaded_def load_step_def cycle_start_def zero_cycle_report_def monitored_path_def
      split: prod.splits sum.splits)

lemma target_keeps [frame_simps]:
  "r_ForcedLevel (updateTargetFreeStatus d s r) = r_ForcedLevel r" "r_ByteBackoff (updateTargetFreeStatus d s r) = r_ByteBackoff r"
  "r_MonitorPath (updateTargetFreeStatus d s r) = r_MonitorPath r" "r_Mounts (updateTargetFreeStatus d s r) = r_Mounts r"
  "r_HostFreeBeforeBytes (updateTargetFreeStatus d s r) = r_HostFreeBeforeBytes r"
  "r_HostByteLevel (updateTargetFreeStatus d s r) = r_HostByteLevel r"
  "r_StateFile (updateTargetFreeStatus d s r) = r_StateFile r"
  using facts_target [of d s r] by (simp_all add: cycle_facts_def)

lemma measured_report_fields:
  "r_ForcedLevel (measured_report d f forced host) = (forced \<noteq> LevelNone)"
  "r_ByteBackoff (measured_report d f forced host) = False"
  "r_MonitorPath (measured_report d f forced host) = monitored_path d host"
  "r_Mounts (measured_report d f forced host) = ma_Mounts (assessMounts d host)"
  "r_StateFile (measured_report d f forced host) = expandPathHome (d_home d) (pc_StateFile (d_policy d))"
proof -
  obtain r s fs where c: "cycle_loaded d f forced host = (r, s, fs)" by (cases "cycle_loaded d f forced host")
  note fields = cycle_loaded_fields [OF c]
  show "r_ForcedLevel (measured_report d f forced host) = (forced \<noteq> LevelNone)"
    "r_ByteBackoff (measured_report d f forced host) = False"
    "r_MonitorPath (measured_report d f forced host) = monitored_path d host"
    "r_Mounts (measured_report d f forced host) = ma_Mounts (assessMounts d host)"
    "r_StateFile (measured_report d f forced host) = expandPathHome (d_home d) (pc_StateFile (d_policy d))"
    using fields
    by (auto simp: measured_report_def c measure_before_def Let_def frame_simps split: sum.split option.split)
qed

lemma decide_backoffs_keeps [frame_simps]:
  "r_ForcedLevel (decide_backoffs d s r) = r_ForcedLevel r" "r_MonitorPath (decide_backoffs d s r) = r_MonitorPath r"
  "r_Mounts (decide_backoffs d s r) = r_Mounts r" "r_StateFile (decide_backoffs d s r) = r_StateFile r"
  "r_HostFreeBeforeBytes (decide_backoffs d s r) = r_HostFreeBeforeBytes r"
  "r_HostByteLevel (decide_backoffs d s r) = r_HostByteLevel r"
  "r_ByteNoProgressCount (decide_backoffs d s r) = r_ByteNoProgressCount r"
  by (simp_all add: decide_backoffs_def Let_def split: prod.split)

lemma decide_backoffs_engaged:
  assumes "r_ByteBackoff (decide_backoffs d s r)" "\<not> r_ByteBackoff r"
  shows "\<not> r_ForcedLevel r \<and> \<not> d_dryRun d \<and> s \<noteq> None \<and> byteBackoffActive d r = (True, ''no_progress'')"
proof -
  have "byteBackoffActive d (r\<lparr>r_InodeBackoff := b\<rparr>) = byteBackoffActive d r" for b
    by (simp add: byteBackoffActive_def Let_def)
  with assms show ?thesis
    by (auto simp: decide_backoffs_def Let_def split: prod.splits if_splits)
       (auto simp: byteBackoffActive_def Let_def split: if_splits)
qed

lemma first_loop_report:
  "r_ForcedLevel (l_report (first_loop_state d f forced fl host)) = (forced \<noteq> LevelNone)"
  "r_MonitorPath (l_report (first_loop_state d f forced fl host)) = monitored_path d host"
  "r_Mounts (l_report (first_loop_state d f forced fl host)) = ma_Mounts (assessMounts d host)"
  "r_StateFile (l_report (first_loop_state d f forced fl host)) = expandPathHome (d_home d) (pc_StateFile (d_policy d))"
  "l_state (first_loop_state d f forced fl host) = loaded_state d f forced host"
  "r_Plugins (l_report (first_loop_state d f forced fl host)) = []"
  by (simp_all add: first_loop_state_def frame_simps measured_report_fields measured_report_plugins)

lemma quiet_facts:
  assumes "quiet_path d f now before state r fl host = (r', fl', host')"
  shows "cycle_facts r' = cycle_facts r"
proof -
  have ind: "cycle_facts (fst (foldl (quiet_independent d) x ps)) = cycle_facts (fst x)" for x ps
  proof (induction ps arbitrary: x)
    case (Cons p ps)
    have "cycle_facts (fst (quiet_independent d x p)) = cycle_facts (fst x)"
      by (auto simp: quiet_independent_def appends_def dest!: independent_report split: prod.splits)
    with Cons show ?case by simp
  qed simp
  obtain r1 h1 where q: "(case state of None \<Rightarrow> (r, host)
        | Some s \<Rightarrow> (if d_dryRun d then (r, host)
             else (case pressure_cleared d now before r s of (s, dirty) \<Rightarrow> if dirty then save_step f s r host else (r, host)))) = (r1, h1)"
    by (rule prod.exhaust)
  then have "cycle_facts r1 = cycle_facts r"
    by (auto dest: save_step_frame split: option.splits if_splits prod.splits)
  with ind [of "(r1, fl, h1)" "cycle_plugins d"] assms q show ?thesis
    unfolding quiet_path_def Let_def by simp
qed

subsection \<open>The loop without assumptions on names\<close>

lemma plugin_loop_all:
  "\<exists>prs. r_Plugins (l_report (plugin_loop d env ps l)) = r_Plugins (l_report l) @ prs \<and>
    cycle_facts (l_report (plugin_loop d env ps l)) = cycle_facts (l_report l) \<and>
    list_all2 (\<lambda>p pr. \<exists>l'. step_explains d env p l' pr) ps prs"
proof (induction ps arbitrary: l)
  case Nil
  then show ?case by (simp add: plugin_loop_def)
next
  case (Cons p ps)
  obtain pr where pr: "appends pr (l_report l) (l_report (plugin_step d env l p))" "step_explains d env p l pr"
    using plugin_step_report by blast
  from Cons.IH [of "plugin_step d env l p"] obtain prs where
    "r_Plugins (l_report (plugin_loop d env ps (plugin_step d env l p))) = r_Plugins (l_report (plugin_step d env l p)) @ prs"
    "cycle_facts (l_report (plugin_loop d env ps (plugin_step d env l p))) = cycle_facts (l_report (plugin_step d env l p))"
    "list_all2 (\<lambda>p pr. \<exists>l'. step_explains d env p l' pr) ps prs" by blast
  moreover have "plugin_loop d env (p # ps) l = plugin_loop d env ps (plugin_step d env l p)" by (simp add: plugin_loop_def)
  ultimately show ?case using pr by (intro exI [of _ "pr # prs"]) (auto simp: appends_def)
qed

lemma step_explains_name: "step_explains d env p l pr \<Longrightarrow> pr_Name pr = p_Name p \<and> pr_LevelIndependent pr = p_LevelIndependent p
    \<and> (d_dryRun d \<longrightarrow> \<not> pr_Ran pr)"
  by (auto simp: step_explains_def independent_explains_def ladder_explains_def report_identity_def split: if_splits)

lemma quiet_all:
  "foldl (quiet_independent d) (r, fl, host) ps = (r', fl', host') \<Longrightarrow>
    \<exists>prs. r_Plugins r' = r_Plugins r @ prs \<and> list_all2 (\<lambda>p pr. independent_explains d p LevelNone pr) (filter p_LevelIndependent ps) prs"
proof (induction ps arbitrary: r fl host)
  case (Cons p ps)
  show ?case
  proof (cases "p_LevelIndependent p")
    case True
    obtain r1 freed items fl1 host1 where i: "runLevelIndependentPlugin d p LevelNone r fl host = (r1, freed, items, fl1, host1)"
      by (cases "runLevelIndependentPlugin d p LevelNone r fl host")
    have "quiet_independent d (r, fl, host) p = (r1, fl1, host1)" using True i by (simp add: quiet_independent_def)
    with Cons.prems have "foldl (quiet_independent d) (r1, fl1, host1) ps = (r', fl', host')" by simp
    from Cons.IH [OF this] independent_report [OF i] True show ?thesis
      by (auto simp: appends_def list_all2_Cons1)
  next
    case False
    then have "quiet_independent d (r, fl, host) p = (r, fl, host)" by (simp add: quiet_independent_def)
    with Cons False show ?thesis by simp
  qed
qed simp

text \<open>Where a cycle's report ends up: its facts, and one explained report per plugin.\<close>

definition decided_report :: "daemon \<Rightarrow> store_faults \<Rightarrow> cleanup_level \<Rightarrow> host \<Rightarrow> cycle_report" where
  "decided_report d f forced host =
     (if cycle_level d forced host = LevelNone then measured_report d f forced host
      else decide_backoffs d (loaded_state d f forced host) (measured_report d f forced host))"

definition cycle_explains :: "daemon \<Rightarrow> cleanup_level \<Rightarrow> host \<Rightarrow> host plugin \<Rightarrow> plugin_report \<Rightarrow> bool" where
  "cycle_explains d forced host p pr =
     (if cycle_level d forced host = LevelNone then independent_explains d p LevelNone pr
      else (\<exists>l. step_explains d (cycle_env_of d forced host) p l pr))"

lemma runCycle_all:
  "cycle_facts (fst (runCycle d f forced fl host)) = cycle_facts (decided_report d f forced host)"
  "list_all2 (cycle_explains d forced host) (reported_plugins d forced host) (r_Plugins (fst (runCycle d f forced fl host)))"
proof -
  obtain r fl' host' where c: "runCycle d f forced fl host = (r, fl', host')" by (rule prod_cases3)
  have "cycle_facts r = cycle_facts (decided_report d f forced host) \<and>
      list_all2 (cycle_explains d forced host) (reported_plugins d forced host) (r_Plugins r)"
  proof (cases "cycle_level d forced host = LevelNone")
    case True
    define h where "h = loaded_host d f forced host"
    define q where "q = quiet_path d f (h_clock host) (ce_before (cycle_env_of d forced host)) (loaded_state d f forced host)
       (measured_report d f forced host) fl h"
    obtain r2 fl2 h2 where q2: "q = (r2, fl2, h2)" by (rule prod_cases3)
    have "with_duration (h_clock host) q = (r, fl', host')" using c True by (simp add: runCycle_phases q_def h_def)
    then have r: "r_Plugins r = r_Plugins r2" "cycle_facts r = cycle_facts r2"
      using with_duration_frame(1,2) [of "h_clock host" q] q2 by simp_all
    obtain r1 h1 where s: "(case loaded_state d f forced host of None \<Rightarrow> (measured_report d f forced host, h)
        | Some s \<Rightarrow> (if d_dryRun d then (measured_report d f forced host, h)
             else (case pressure_cleared d (h_clock host) (ce_before (cycle_env_of d forced host)) (measured_report d f forced host) s of
                (s, dirty) \<Rightarrow> if dirty then save_step f s (measured_report d f forced host) h else (measured_report d f forced host, h)))) = (r1, h1)"
      by (rule prod.exhaust)
    have r1: "r_Plugins r1 = []" using s
      by (auto simp: measured_report_plugins dest: save_step_frame split: option.splits if_splits prod.splits)
    have "foldl (quiet_independent d) (r1, fl, h1) (cycle_plugins d) = (r2, fl2, h2)"
      using s q2 by (simp add: q_def quiet_path_def Let_def)
    from quiet_all [OF this] r1 obtain prs where
      "r_Plugins r2 = prs" "list_all2 (\<lambda>p pr. independent_explains d p LevelNone pr) (filter p_LevelIndependent (cycle_plugins d)) prs"
      by auto
    moreover have "cycle_facts r2 = cycle_facts (measured_report d f forced host)"
      using quiet_facts q2 q_def by metis
    ultimately show ?thesis using r True
      by (simp add: decided_report_def reported_plugins_def cycle_explains_def list_all2_conv_all_nth)
  next
    case False
    define env where "env = cycle_env_of d forced host"
    define l0 where "l0 = first_loop_state d f forced fl host"
    have "r_Plugins (l_report l0) = []" by (simp add: l0_def first_loop_report)
    with plugin_loop_all [of d env "cycle_plugins d" l0] pressure_reports [OF c False, folded l0_def env_def]
    have "cycle_facts r = cycle_facts (l_report l0)"
      "list_all2 (\<lambda>p pr. \<exists>l'. step_explains d env p l' pr) (cycle_plugins d) (r_Plugins r)" by auto
    with False show ?thesis
      by (simp add: decided_report_def reported_plugins_def cycle_explains_def env_def l0_def first_loop_state_def list_all2_conv_all_nth)
  qed
  then show "cycle_facts (fst (runCycle d f forced fl host)) = cycle_facts (decided_report d f forced host)"
    "list_all2 (cycle_explains d forced host) (reported_plugins d forced host) (r_Plugins (fst (runCycle d f forced fl host)))"
    by (simp_all add: c)
qed

lemma cycle_explains_name:
  assumes "cycle_explains d forced host p pr" "p \<in> set (reported_plugins d forced host)"
  shows "pr_Name pr = p_Name p \<and> pr_LevelIndependent pr = p_LevelIndependent p \<and> (d_dryRun d \<longrightarrow> \<not> pr_Ran pr)"
proof (cases "cycle_level d forced host = LevelNone")
  case True
  with assms show ?thesis
    by (auto simp: cycle_explains_def independent_explains_def report_identity_def reported_plugins_def)
next
  case False
  with assms show ?thesis using step_explains_name by (auto simp: cycle_explains_def)
qed

subsection \<open>Which plugins a cycle reports and runs\<close>

text \<open>C1: A cycle reports every plugin it is responsible for exactly once, in registry order:
  under pressure every enabled plugin that passes the filter, without pressure the
  level-independent ones.  A held-back, failed, wedged or dry-run plugin is reported too.\<close>

theorem cycle_reports_each_plugin_once:
  "map pr_Name (r_Plugins (fst (runCycle d f forced fl host))) = map p_Name (reported_plugins d forced host)"
  using runCycle_all(2) [of d forced host f fl] cycle_explains_name [of d forced host]
  by (auto simp: list_all2_conv_all_nth intro!: nth_equalityI)

text \<open>C2: The plugins a real cycle reports as run are the ones whose cleanup it started, in that
  order, and over the whole history of the daemon no plugin is started while an earlier run of
  it is still going, however long that run is stuck.\<close>

theorem cycle_never_overlaps_runs:
  assumes "runCycle d f forced fl host = (r, fl', host')" "\<And>p. p \<in> set (cycle_plugins d) \<Longrightarrow> sane_plugin p"
    and "watched d fl host runs" "\<not> d_dryRun d"
  shows "\<exists>new. rev (map run_name new) = ran_names (r_Plugins r) \<and> watched d fl' host' (new @ runs) \<and> one_at_a_time (new @ runs)"
proof -
  from runCycle_stretch [OF assms(1-3)] assms(4) obtain new where
    "rev (map run_name new) = ran_names (r_Plugins r)" "watched d fl' host' (new @ runs)"
    by (auto simp: stretch_def)
  with watched_history show ?thesis by blast
qed

text \<open>C4: Whatever the plugins do, and even if some never return, a cycle ends within the sum of
  its plugins' deadlines and grace periods.\<close>

theorem cycle_bounded_time:
  assumes "runCycle d f forced fl host = (r, fl', host')" "\<And>p. p \<in> set (cycle_plugins d) \<Longrightarrow> sane_plugin p"
    and "watched d fl host runs"
  shows "h_clock host \<le> h_clock host' \<and> h_clock host' \<le> h_clock host + total_limit d (reported_plugins d forced host)"
  using runCycle_stretch [OF assms] by (auto simp: stretch_def)

subsection \<open>Byte backoff\<close>

lemma decided_fields:
  "r_ForcedLevel (decided_report d f forced host) = (forced \<noteq> LevelNone)"
  "r_HostFreeBeforeBytes (decided_report d f forced host) = r_HostFreeBeforeBytes (measured_report d f forced host)"
  by (simp_all add: decided_report_def frame_simps measured_report_fields)

text \<open>C5: A cycle engages byte backoff only on its own initiative (never for a forced level or a
  dry run), only under byte pressure that has outlived the configured number of attempts, and
  never when the host's free space is below the emergency floor.\<close>

theorem byte_backoff_guarded:
  assumes "r_ByteBackoff (fst (runCycle d f forced fl host))"
  shows "forced = LevelNone \<and> \<not> d_dryRun d \<and> 0 < byteNoProgressLimit d \<and>
    parseLevel (r_HostByteLevel (fst (runCycle d f forced fl host))) \<noteq> LevelNone \<and>
    byteNoProgressLimit d \<le> r_ByteNoProgressCount (fst (runCycle d f forced fl host)) \<and>
    emergencyFreeBytes d \<le> r_HostFreeBeforeBytes (fst (runCycle d f forced fl host))"
proof -
  define m where "m = measured_report d f forced host"
  note c = cycle_facts_cong [OF runCycle_all(1) [of d f forced fl host]]
  have eng: "r_ByteBackoff (decided_report d f forced host)" using assms c(2) by simp
  then have "cycle_level d forced host \<noteq> LevelNone" by (auto simp: decided_report_def measured_report_fields)
  then have dec: "decided_report d f forced host = decide_backoffs d (loaded_state d f forced host) m"
    by (simp add: decided_report_def m_def)
  from decide_backoffs_engaged [OF eng [unfolded dec]] measured_report_fields [of d f forced host, folded m_def]
  have a: "forced = LevelNone" "\<not> d_dryRun d" "byteBackoffActive d m = (True, ''no_progress'')" by auto
  then have "0 < byteNoProgressLimit d \<and> parseLevel (r_HostByteLevel m) \<noteq> LevelNone \<and>
      byteNoProgressLimit d \<le> r_ByteNoProgressCount m \<and> emergencyFreeBytes d \<le> r_HostFreeBeforeBytes m"
    by (auto simp: byteBackoffActive_def Let_def not_less word_greater_zero_iff split: if_splits)
  then show ?thesis using a c(3,5,9) unfolding dec by (simp add: frame_simps)
qed

lemma cooldownRemaining_nonneg: "0 \<le> cooldownRemaining s n level now c"
  by (auto simp: cooldownRemaining_def Let_def split: option.split)

lemma cooldownRemaining_mono:
  "b \<le> c \<Longrightarrow> cooldownRemaining s n level now b \<le> cooldownRemaining s n level now c"
  by (auto simp: cooldownRemaining_def Let_def split: option.split)

text \<open>The interval byte backoff holds a plugin back for is never shorter than the first one.\<close>

lemma backoff_cooldown_range:
  assumes "r_ByteBackoff r" "bounded_backoff d" "byteNoProgressLimit d \<le> r_ByteNoProgressCount r"
  shows "\<exists>c reason. pluginCooldown d r level = Some (c, reason) \<and> byteBackoffInterval d \<le> c"
proof (cases "shouldApplyCooldown d r level")
  case True
  then have "0 < cleanupCooldown d" by (auto simp: shouldApplyCooldown_def split: if_splits)
  with True show ?thesis by (auto simp: pluginCooldown_def byteBackoffInterval_def)
next
  case False
  with assms byte_backoff.bounded [OF assms(2,3)] show ?thesis by (auto simp: pluginCooldown_def)
qed

text \<open>How long a plugin is held while byte backoff is engaged: where pressure bypasses the normal cooldown (or there is
  none), the first interval doubled for every cycle without progress beyond the limit, up to the cap; elsewhere the
  normal cooldown wins, which is the first interval or more.\<close>

definition bypassed :: "daemon \<Rightarrow> cycle_report \<Rightarrow> cleanup_level \<Rightarrow> bool" where
  "bypassed d r level = (cleanupCooldown d \<le> 0 \<or> cooldownBypassLevel d \<le> level \<and> \<not> r_InodeBackoff r)"

definition held_for :: "daemon \<Rightarrow> cycle_report \<Rightarrow> cleanup_level \<Rightarrow> duration" where
  "held_for d r level =
     (if bypassed d r level
      then min (byteBackoffMax d) (byteBackoffInterval d * 2 ^ nat (r_ByteNoProgressCount r - byteNoProgressLimit d))
      else byteBackoffInterval d)"

lemma held_for_range:
  assumes "r_ByteBackoff r" "bounded_backoff d" "byteNoProgressLimit d \<le> r_ByteNoProgressCount r"
  shows "\<exists>c reason. pluginCooldown d r level = Some (c, reason) \<and> held_for d r level \<le> c"
proof (cases "bypassed d r level")
  case True
  then have "\<not> shouldApplyCooldown d r level" by (auto simp: bypassed_def shouldApplyCooldown_def)
  with True assms show ?thesis by (simp add: pluginCooldown_def held_for_def byteBackoffIntervalFor_closed)
next
  case False
  then show ?thesis using backoff_cooldown_range [OF assms] by (simp add: held_for_def)
qed

text \<open>C6: While byte backoff is engaged, a plugin of the ladder runs only if its last run at the cycle's level or above
  is at least the interval old that backoff holds it for.  Where pressure bypasses the normal cooldown (the cycle's level
  reaches the bypass level without inode backoff, or no cooldown is set) this is the first interval doubled for every
  attempt without progress beyond the limit, up to the cap; elsewhere it is the first interval.  The cap is at most
  \<open>2^62\<close> ns, plugin names are distinct.\<close>

theorem byte_backoff_rate_limit:
  assumes "r_ByteBackoff (fst (runCycle d f forced fl host))" "bounded_backoff d" "distinct (map p_Name (cycle_plugins d))"
    and "pr \<in> set (r_Plugins (fst (runCycle d f forced fl host)))" "pr_Ran pr" "\<not> pr_LevelIndependent pr"
  shows "\<exists>s. loaded_state d f forced host = Some s \<and>
    cooldownRemaining s (pr_Name pr) (cycle_level d forced host) (h_clock host)
      (held_for d (fst (runCycle d f forced fl host)) (cycle_level d forced host)) = 0"
proof -
  obtain r fl' host' where run: "runCycle d f forced fl host = (r, fl', host')" by (rule prod_cases3)
  define m where "m = measured_report d f forced host"
  define l0 where "l0 = first_loop_state d f forced fl host"
  define env where "env = cycle_env_of d forced host"
  note c = cycle_facts_cong [OF runCycle_all(1) [of d f forced fl host]]
  have eng: "r_ByteBackoff (decided_report d f forced host)" using assms(1) c(2) by simp
  then have lev: "cycle_level d forced host \<noteq> LevelNone" by (auto simp: decided_report_def measured_report_fields)
  then have dec: "decided_report d f forced host = l_report l0" by (simp add: decided_report_def l0_def first_loop_state_def)
  have "r_ByteBackoff (decide_backoffs d (loaded_state d f forced host) m)" using eng lev by (simp add: decided_report_def m_def)
  from decide_backoffs_engaged [OF this] measured_report_fields(2) [of d f forced host, folded m_def]
  have "byteBackoffActive d m = (True, ''no_progress'') \<and> loaded_state d f forced host \<noteq> None" by blast
  then obtain s where s: "loaded_state d f forced host = Some s" and cnt: "byteNoProgressLimit d \<le> r_ByteNoProgressCount (l_report l0)"
    by (auto simp: byteBackoffActive_def Let_def l0_def first_loop_state_def frame_simps m_def split: if_splits)
  have "pr \<in> set (r_Plugins r)" using assms(4) run by simp
  from pressure_report_source [OF run lev assms(3) this, folded l0_def env_def] obtain p l where
    p: "p \<in> set (cycle_plugins d)" and l: "seen_as l0 p l" and ex: "step_explains d env p l pr"
    by blast
  from ex assms(5,6) have held: "\<not> cooldown_held d env p l" and name: "pr_Name pr = p_Name p"
    using step_explains_name [OF ex] by (auto simp: step_explains_def ladder_explains_def)
  have fl: "cycle_facts (l_report l) = cycle_facts (l_report l0)" and e: "plugin_entry l (p_Name p) = plugin_entry l0 (p_Name p)"
    using l by (simp_all add: seen_as_def)
  note fc = cycle_facts_cong [OF fl]
  have "plugin_entry l0 (p_Name p) = Some (tbl_get (cs_Plugins s) (p_Name p))"
    using s by (simp add: plugin_entry_def l0_def first_loop_state_def)
  with e obtain s' where s': "l_state l = Some s'" "tbl_get (cs_Plugins s') (p_Name p) = tbl_get (cs_Plugins s) (p_Name p)"
    by (auto simp: plugin_entry_def)
  have "r_ByteBackoff (l_report l)" using eng dec fc(2) by simp
  moreover have "byteNoProgressLimit d \<le> r_ByteNoProgressCount (l_report l)" using cnt fc(3) by simp
  ultimately obtain cd reason where cd: "pluginCooldown d (l_report l) (ce_level env) = Some (cd, reason)" "held_for d (l_report l) (ce_level env) \<le> cd"
    using held_for_range [OF _ assms(2)] by blast
  from held s'(1) cd(1) have "cooldownRemaining s' (p_Name p) (ce_level env) (ce_now env) cd \<le> 0"
    by (simp add: cooldown_held_def)
  with cooldownRemaining_mono [OF cd(2), of s' "p_Name p"] cooldownRemaining_nonneg [of s' "p_Name p"]
  have "cooldownRemaining s' (p_Name p) (ce_level env) (ce_now env) (held_for d (l_report l) (ce_level env)) = 0"
    by (metis order.antisym order.trans)
  moreover have "held_for d (l_report l) (ce_level env) = held_for d r (cycle_level d forced host)"
    using fc(3,10) c(3,10) dec run by (simp add: held_for_def bypassed_def env_def cycle_env_of_def)
  ultimately show ?thesis using entry_cong(3) [OF s'(2)] s name run by (simp add: env_def cycle_env_of_def)
qed

subsection \<open>Zero-yield suppression\<close>

lemma zeroYieldExemption_strict:
  assumes "zeroYieldExemption d p r k = [] \<or> zeroYieldExemption d p r k = zeroYieldLiftMountPressure"
  shows "\<not> r_ForcedLevel r \<and> \<not> d_dryRun d \<and> d_pluginFilter d = [] \<and> zeroYieldPermanentExemption d p = [] \<and> k \<and>
    emergencyFreeBytes d \<le> r_HostFreeBeforeBytes r"
  using assms
  by (auto simp: zeroYieldExemption_def zeroYieldLiftMountPressure_def zeroYieldPermanentExemption_def
      not_less word_greater_zero_iff split: if_splits)

lemma zero_yield_held_conditions:
  assumes "zero_yield_held d env p l"
  shows "\<exists>s. l_state l = Some s \<and> ys_suppressed (zeroYieldSuppression s (p_Name p) (ce_level env) (ce_now env) (d_digest d)) \<and>
    \<not> r_ForcedLevel (l_report l) \<and> \<not> d_dryRun d \<and> d_pluginFilter d = [] \<and> zeroYieldPermanentExemption d p = [] \<and>
    \<not> isl (ce_before env) \<and> emergencyFreeBytes d \<le> r_HostFreeBeforeBytes (l_report l) \<and>
    (pressuredMount (l_report l) \<noteq> [] \<longrightarrow> ce_now env < pluginLastRun s (p_Name p) + zy_pressureMin (zeroYieldPolicy d))"
proof -
  from assms obtain s where s: "l_state l = Some s" and v: "zv_held (zero_yield_verdict d env p (l_report l) s)"
    by (auto simp: zero_yield_held_def split: option.splits)
  define x where "x = zeroYieldExemption d p (l_report l) (\<not> isl (ce_before env))"
  from v have y: "ys_suppressed (zeroYieldSuppression s (p_Name p) (ce_level env) (ce_now env) (d_digest d))"
    and x: "x = [] \<or> x = zeroYieldLiftMountPressure \<and> ce_now env < pluginLastRun s (p_Name p) + zy_pressureMin (zeroYieldPolicy d)"
    by (auto simp: zero_yield_verdict_def Let_def x_def split: if_splits)
  have "x = [] \<Longrightarrow> pressuredMount (l_report l) = []"
    by (auto simp: x_def zeroYieldExemption_def zeroYieldLiftMountPressure_def split: if_splits)
  with x y s zeroYieldExemption_strict [of d p "l_report l" "\<not> isl (ce_before env)", folded x_def] show ?thesis by auto
qed

text \<open>C7: A plugin is skipped for zero yield only when nothing argues for running it: the state
  suppresses it now, it is not safety-critical and not exempt, the run is not an operator's, free
  space is known and above the emergency floor, and if a mount is under pressure the plugin last
  ran less than the pressure interval ago.\<close>

theorem zero_yield_skip_justified:
  assumes "pr \<in> set (r_Plugins (fst (runCycle d f forced fl host)))" "pr_SkipReason pr = ''zero_yield_backoff''"
    and "distinct (map p_Name (cycle_plugins d))"
  shows "\<exists>p s. p \<in> set (cycle_plugins d) \<and> p_Name p = pr_Name pr \<and> loaded_state d f forced host = Some s \<and>
    ys_suppressed (zeroYieldSuppression s (p_Name p) (cycle_level d forced host) (h_clock host) (d_digest d)) \<and>
    \<not> p_LevelIndependent p \<and> zeroYieldPermanentExemption d p = [] \<and>
    forced = LevelNone \<and> \<not> d_dryRun d \<and> d_pluginFilter d = [] \<and> \<not> isl (h_stats host (monitored_path d host)) \<and>
    emergencyFreeBytes d \<le> r_HostFreeBeforeBytes (fst (runCycle d f forced fl host)) \<and>
    (pressuredMount (fst (runCycle d f forced fl host)) \<noteq> [] \<longrightarrow>
       h_clock host < pluginLastRun s (p_Name p) + zy_pressureMin (zeroYieldPolicy d))"
proof -
  obtain r fl' host' where run: "runCycle d f forced fl host = (r, fl', host')" by (rule prod_cases3)
  define l0 where "l0 = first_loop_state d f forced fl host"
  define env where "env = cycle_env_of d forced host"
  have lev: "cycle_level d forced host \<noteq> LevelNone"
  proof
    assume "cycle_level d forced host = LevelNone"
    then have "\<forall>pr\<in>set (r_Plugins (fst (runCycle d f forced fl host))). pr_SkipReason pr \<in> {[], ''dry_run'', skipReasonPluginWedged}"
      using runCycle_all(2) [of d forced host f fl]
      by (auto simp: cycle_explains_def independent_explains_def list_all2_conv_all_nth in_set_conv_nth)
    with assms(1,2) show False by (auto simp: wedge_names)
  qed
  have "pr \<in> set (r_Plugins r)" using assms(1) run by simp
  from pressure_report_source [OF run lev assms(3) this, folded l0_def env_def] obtain p l where
    p: "p \<in> set (cycle_plugins d)" and l: "seen_as l0 p l" and ex: "step_explains d env p l pr"
    by blast
  have ladder: "\<not> p_LevelIndependent p \<and> zero_yield_held d env p l"
    using ex assms(2) by (auto simp: step_explains_def independent_explains_def ladder_explains_def wedge_names split: if_splits)
  with seen_as_gate(1) [OF l] have "zero_yield_held d env p l0" by simp
  from zero_yield_held_conditions [OF this] obtain s where
    s: "l_state l0 = Some s" "ys_suppressed (zeroYieldSuppression s (p_Name p) (ce_level env) (ce_now env) (d_digest d))"
      "\<not> r_ForcedLevel (l_report l0)" "\<not> d_dryRun d" "d_pluginFilter d = []" "zeroYieldPermanentExemption d p = []"
      "\<not> isl (ce_before env)" "emergencyFreeBytes d \<le> r_HostFreeBeforeBytes (l_report l0)"
      "pressuredMount (l_report l0) \<noteq> [] \<longrightarrow> ce_now env < pluginLastRun s (p_Name p) + zy_pressureMin (zeroYieldPolicy d)"
    by blast
  have facts: "cycle_facts r = cycle_facts (l_report l0)"
    using pressure_each(1) [OF run lev assms(3)] by (simp add: l0_def)
  note fc = cycle_facts_cong [OF facts]
  have "pressuredMount r = pressuredMount (l_report l0)" using fc(11) by (simp add: pressuredMount_def)
  with s ladder p fc(5) step_explains_name [OF ex] run show ?thesis
    by (auto simp: l0_def env_def cycle_env_of_def first_loop_report intro!: exI [of _ p] exI [of _ s])
qed

text \<open>C8: Mount pressure lets a suppressed plugin run at most once per pressure interval, which is
  never shorter than five minutes: such a run starts that long after the plugin's last one.\<close>

theorem mount_pressure_lift_spaced:
  assumes "pr \<in> set (r_Plugins (fst (runCycle d f forced fl host)))" "pr_Ran pr" "pr_ZeroYieldLifted pr = zeroYieldLiftMountPressure"
    and "distinct (map p_Name (cycle_plugins d))"
  shows "\<exists>s. loaded_state d f forced host = Some s \<and>
    pluginLastRun s (pr_Name pr) + zy_pressureMin (zeroYieldPolicy d) \<le> h_clock host \<and>
    5 * minute \<le> zy_pressureMin (zeroYieldPolicy d)"
proof -
  obtain r fl' host' where run: "runCycle d f forced fl host = (r, fl', host')" by (rule prod_cases3)
  define l0 where "l0 = first_loop_state d f forced fl host"
  define env where "env = cycle_env_of d forced host"
  have lev: "cycle_level d forced host \<noteq> LevelNone"
  proof
    assume "cycle_level d forced host = LevelNone"
    then have "\<forall>pr\<in>set (r_Plugins (fst (runCycle d f forced fl host))). pr_ZeroYieldLifted pr = []"
      using runCycle_all(2) [of d forced host f fl]
      by (auto simp: cycle_explains_def independent_explains_def list_all2_conv_all_nth in_set_conv_nth)
    with assms(1,3) show False by (auto simp: zeroYieldLiftMountPressure_def)
  qed
  have "pr \<in> set (r_Plugins r)" using assms(1) run by simp
  from pressure_report_source [OF run lev assms(4) this, folded l0_def env_def] obtain p l where
    l: "seen_as l0 p l" and ex: "step_explains d env p l pr" by blast
  have lift: "zero_yield_lift d env p l = zeroYieldLiftMountPressure"
    using ex assms(2,3) by (auto simp: step_explains_def independent_explains_def ladder_explains_def
        zeroYieldLiftMountPressure_def split: if_splits)
  with seen_as_gate(2) [OF l] have lift0: "zero_yield_lift d env p l0 = zeroYieldLiftMountPressure" by simp
  have nolift: "ys_lifted (zeroYieldSuppression s n lv now dg) \<noteq> zeroYieldLiftMountPressure" for s n lv now dg
    by (auto simp: zeroYieldSuppression_def Let_def zeroYieldLiftMountPressure_def split: option.split)
  from lift0 obtain s where s: "l_state l0 = Some s" "zv_lifted (zero_yield_verdict d env p (l_report l0) s) = zeroYieldLiftMountPressure"
    by (auto simp: zero_yield_lift_def zeroYieldLiftMountPressure_def split: option.splits if_splits)
  then have "\<not> ce_now env < pluginLastRun s (p_Name p) + zy_pressureMin (zeroYieldPolicy d)"
    using nolift by (auto simp: zero_yield_verdict_def Let_def split: if_splits)
  with s(1) zeroYieldPolicy_pressureMin [of d] step_explains_name [OF ex] show ?thesis
    by (auto simp: l0_def env_def cycle_env_of_def first_loop_report minZeroYieldPressureMinInterval_def)
qed

end
