(* ===== verification/Cycle_State.thy ===== *)
theory Cycle_State
  imports Cycle_Properties
begin

text \<open>
  What a cycle leaves behind: the state file after it, the host after a dry run, the loop once
  the target is met, and the daemon's schedule.
\<close>

subsection \<open>What the state file remembers\<close>

definition recorded_run :: "cycle_env \<Rightarrow> plugin_state_record \<Rightarrow> bool" where
  "recorded_run env rec =
     (ps_LastRun rec = format_stamp (ce_now env) \<and> ps_LastLevelValue rec = level_value (ce_level env))"

lemma yield_record_keeps [simp]:
  "ps_LastRun (yield_record r z now dg q s) = ps_LastRun r" "ps_LastLevelValue (yield_record r z now dg q s) = ps_LastLevelValue r"
  by (simp_all add: yield_record_def Let_def)

lemma recordRun_recorded:
  "recordRun d env p result pr s = (pr', s') \<Longrightarrow> \<exists>rec. tbl_get (cs_Plugins s') (p_Name p) = Some rec \<and> recorded_run env rec"
  by (auto simp: recordRun_def Let_def recordPluginYield_def recordPluginRun_def recorded_run_def split: prod.splits)

lemma record_and_append_recorded:
  "l_state l \<noteq> None \<Longrightarrow> l_dirty (record_and_append d env p result pr l) \<and>
     (\<exists>rec. plugin_entry (record_and_append d env p result pr l) (p_Name p) = Some (Some rec) \<and> recorded_run env rec)"
  by (auto simp: record_and_append_def plugin_entry_def dest: recordRun_recorded split: prod.split)

lemma run_step_recorded:
  assumes "l_state l \<noteq> None" "\<not> pr_Ran pr0"
    and "r_Plugins (l_report (run_step d env p pr0 l)) = r_Plugins (l_report l) @ [pr]" "pr_Ran pr"
  shows "l_dirty (run_step d env p pr0 l) \<and>
    (\<exists>rec. plugin_entry (run_step d env p pr0 l) (p_Name p) = Some (Some rec) \<and> recorded_run env rec)"
proof -
  obtain res w fl host where w: "watchPlugin d p (p_Cleanup p) (ce_level env) (l_flights l) (l_host l) = (res, w, fl, host)"
    by (cases "watchPlugin d p (p_Cleanup p) (ce_level env) (l_flights l) (l_host l)")
  obtain pr1 n where a: "applyWatch w pr0 = (pr1, n)" by (cases "applyWatch w pr0")
  have "pw_state w \<noteq> skipReasonPluginWedged"
    using run_step_report [OF w assms(2)] assms(3,4) by (auto simp: appends_def)
  with watchPlugin_states [OF w] watchPlugin_result [OF w]
  have "res = None \<Longrightarrow> pw_state w = wedgeAbandoned" by (auto simp: returned_def)
  moreover have "l_state (l\<lparr>l_flights := fl, l_host := host\<rparr>) \<noteq> None" using assms(1) by simp
  note record_and_append_recorded [OF this, of d env p]
  ultimately show ?thesis
    unfolding run_step_cases [OF w a] by (cases res) (auto simp: Let_def frame_simps)
qed

lemma plugin_step_recorded:
  assumes "l_state l \<noteq> None" "\<not> p_LevelIndependent p"
    and "r_Plugins (l_report (plugin_step d env l p)) = r_Plugins (l_report l) @ [pr]" "pr_Ran pr"
  shows "l_dirty (plugin_step d env l p) \<and>
    (\<exists>rec. plugin_entry (plugin_step d env l p) (p_Name p) = Some (Some rec) \<and> recorded_run env rec)"
proof -
  define pr0 where "pr0 = fresh_plugin_report d p (ce_level env)"
  obtain pr1 held1 where z: "zero_yield_gate d env p l pr0 = (pr1, held1)" by (cases "zero_yield_gate d env p l pr0")
  obtain pr2 held2 where c: "cooldown_gate d env p l pr1 = (pr2, held2)" by (cases "cooldown_gate d env p l pr1")
  note step = ladder_step_def [of d env p l, unfolded Let_def, folded pr0_def, unfolded z c prod.case]
  have eq: "plugin_step d env l p = ladder_step d env p l" using assms(2) by (simp add: plugin_step_def)
  from plugin_step_report [of l d env p] assms(2,3,4)
  have open_gates: "\<not> d_dryRun d" "\<not> cleanupTargetMet (l_report l)" "\<not> zero_yield_held d env p l" "\<not> cooldown_held d env p l"
    by (auto simp: step_explains_def ladder_explains_def appends_def)
  then have "\<not> held1" "\<not> held2" "\<not> pr_Ran pr2"
    using zero_yield_gate_fields [OF z] cooldown_gate_fields [OF c] fresh_report_fields(2) [of d p "ce_level env", folded pr0_def] by auto
  then have "plugin_step d env l p = run_step d env p pr2 l" unfolding eq step using open_gates by simp
  with run_step_recorded [OF assms(1) \<open>\<not> pr_Ran pr2\<close>, of d env p pr] assms(3,4) show ?thesis by simp
qed

lemma plugin_loop_entry: "name \<notin> p_Name ` set ps \<Longrightarrow> plugin_entry (plugin_loop d env ps l) name = plugin_entry l name"
  unfolding plugin_loop_def by (induction ps arbitrary: l) (auto simp: plugin_step_entry)

lemma plugin_entry_state: "plugin_entry l n = Some e \<Longrightarrow> l_state l \<noteq> None"
  by (auto simp: plugin_entry_def)

lemma plugin_step_state: "(l_state (plugin_step d env l p) = None) = (l_state l = None)"
proof -
  have "p_Name p @ ''x'' \<noteq> p_Name p" by simp
  from plugin_step_entry [OF this, of d env l] show ?thesis by (auto simp: plugin_entry_def)
qed

lemma plugin_step_dirty: "l_dirty l \<Longrightarrow> l_dirty (plugin_step d env l p)"
proof -
  assume l: "l_dirty l"
  have rec: "l_dirty x \<Longrightarrow> l_dirty (record_and_append d env p res pr x)" for x res pr
    by (simp add: record_and_append_def split: option.split prod.split)
  have run: "l_dirty (run_step d env p pr l)" for pr
  proof -
    obtain res w fl host where w: "watchPlugin d p (p_Cleanup p) (ce_level env) (l_flights l) (l_host l) = (res, w, fl, host)"
      by (cases "watchPlugin d p (p_Cleanup p) (ce_level env) (l_flights l) (l_host l)")
    obtain pr1 n where a: "applyWatch w pr = (pr1, n)" by (cases "applyWatch w pr")
    show ?thesis unfolding run_step_cases [OF w a] using l by (simp add: Let_def frame_simps rec split: option.split)
  qed
  show ?thesis
    using l run by (simp add: plugin_step_def ladder_step_def Let_def independent_step_def target_met_skip_def append_report_def
        dry_run_step_def split: prod.split)
qed

lemma plugin_loop_dirty: "l_dirty l \<Longrightarrow> l_dirty (plugin_loop d env ps l)"
  unfolding plugin_loop_def by (induction ps arbitrary: l) (simp_all add: plugin_step_dirty)

lemma plugin_loop_recorded:
  "distinct (map p_Name ps) \<Longrightarrow> l_state l \<noteq> None \<Longrightarrow>
    \<exists>prs. r_Plugins (l_report (plugin_loop d env ps l)) = r_Plugins (l_report l) @ prs \<and>
      list_all2 (\<lambda>p pr. pr_Ran pr \<and> \<not> p_LevelIndependent p \<longrightarrow>
        l_dirty (plugin_loop d env ps l) \<and>
        (\<exists>rec. plugin_entry (plugin_loop d env ps l) (p_Name p) = Some (Some rec) \<and> recorded_run env rec)) ps prs"
proof (induction ps arbitrary: l)
  case Nil
  then show ?case by (simp add: plugin_loop_def)
next
  case (Cons p ps)
  define l1 where "l1 = plugin_step d env l p"
  obtain pr where pr: "r_Plugins (l_report l1) = r_Plugins (l_report l) @ [pr]"
    using plugin_step_effect unfolding l1_def by blast
  have eq: "plugin_loop d env (p # ps) l = plugin_loop d env ps l1" by (simp add: plugin_loop_def l1_def)
  have "l_state l1 \<noteq> None" using Cons.prems by (simp add: l1_def plugin_step_state)
  with Cons.IH [of l1] Cons.prems obtain prs where
    prs: "r_Plugins (l_report (plugin_loop d env ps l1)) = r_Plugins (l_report l1) @ prs"
      "list_all2 (\<lambda>p pr. pr_Ran pr \<and> \<not> p_LevelIndependent p \<longrightarrow>
        l_dirty (plugin_loop d env ps l1) \<and>
        (\<exists>rec. plugin_entry (plugin_loop d env ps l1) (p_Name p) = Some (Some rec) \<and> recorded_run env rec)) ps prs" by auto
  have "plugin_entry (plugin_loop d env ps l1) (p_Name p) = plugin_entry l1 (p_Name p)"
    using Cons.prems by (intro plugin_loop_entry) auto
  with plugin_step_recorded [OF Cons.prems(2), of p d env pr] pr prs plugin_loop_dirty [of l1 d env ps] show ?case
    unfolding eq l1_def by (intro exI [of _ "pr # prs"]) auto
qed

subsection \<open>The state after the loop\<close>

definition state_version :: "loop_state \<Rightarrow> int option" where "state_version l = map_option cs_Version (l_state l)"

lemma recordRun_version: "recordRun d env p result pr s = (pr', s') \<Longrightarrow> cs_Version s' = cs_Version s"
  by (auto simp: recordRun_def Let_def recordPluginRun_def recordPluginYield_def split: prod.splits)

lemma record_and_append_version: "state_version (record_and_append d env p result pr l) = state_version l"
  by (auto simp: state_version_def record_and_append_def recordRun_version split: option.split prod.split)

lemma plugin_step_version: "state_version (plugin_step d env l p) = state_version l"
proof (cases "p_LevelIndependent p")
  case True
  then show ?thesis by (simp add: plugin_step_def state_version_def frame_simps)
next
  case False
  have run: "state_version (run_step d env p pr l) = state_version l" for pr
  proof -
    obtain res w fl host where w: "watchPlugin d p (p_Cleanup p) (ce_level env) (l_flights l) (l_host l) = (res, w, fl, host)"
      by (cases "watchPlugin d p (p_Cleanup p) (ce_level env) (l_flights l) (l_host l)")
    obtain pr1 n where a: "applyWatch w pr = (pr1, n)" by (cases "applyWatch w pr")
    have upd: "state_version (refresh_free d env x) = state_version x" "state_version (count_freed y x) = state_version x" for x y
      by (simp_all add: state_version_def frame_simps)
    show ?thesis unfolding run_step_cases [OF w a]
      by (simp add: Let_def upd record_and_append_version split: option.split) (simp add: state_version_def)
  qed
  from False show ?thesis
    by (simp add: plugin_step_def ladder_step_def Let_def run split: prod.split)
       (simp add: state_version_def target_met_skip_def append_report_def frame_simps)
qed

lemma plugin_loop_version: "state_version (plugin_loop d env ps l) = state_version l"
  unfolding plugin_loop_def by (induction ps arbitrary: l) (simp_all add: plugin_step_version)

lemma progress_version:
  "cs_Version (recordInodeProgress p a b c n i s) = cs_Version s" "cs_Version (recordByteProgress p fb lv v n pg cr en s) = cs_Version s"
  "cs_Plugins (recordInodeProgress p a b c n i s) = cs_Plugins s" "cs_Plugins (recordByteProgress p fb lv v n pg cr en s) = cs_Plugins s"
  by (simp_all add: recordInodeProgress_def recordByteProgress_def Let_def)

text \<open>The loop variables just before the save.\<close>

definition before_save :: "daemon \<Rightarrow> cycle_env \<Rightarrow> bool \<Rightarrow> loop_state \<Rightarrow> loop_state" where
  "before_save d env w l = record_byte_progress d env w (record_inode_progress d (ce_now env) (refresh_free d env (cycle_totals l)))"

lemma after_plugins_save: "after_plugins d f env w l = save_if_dirty f (before_save d env w l)"
  by (simp add: after_plugins_def before_save_def)

lemma before_save_frame:
  "plugin_entry (before_save d env w l) name = plugin_entry l name" "state_version (before_save d env w l) = state_version l"
  "l_host (before_save d env w l) = l_host l" "l_dirty l \<Longrightarrow> l_dirty (before_save d env w l)"
  "r_StateFile (l_report (before_save d env w l)) = r_StateFile (l_report l)"
proof -
  have t: "l_state (cycle_totals l) = l_state l" "l_host (cycle_totals l) = l_host l" "l_dirty (cycle_totals l) = l_dirty l"
    "cycle_facts (l_report (cycle_totals l)) = cycle_facts (l_report l)"
    by (simp_all add: cycle_totals_def cycle_facts_def)
  have i: "plugin_entry (record_inode_progress d n x) name = plugin_entry x name" "state_version (record_inode_progress d n x) = state_version x"
    "l_host (record_inode_progress d n x) = l_host x" "l_dirty x \<Longrightarrow> l_dirty (record_inode_progress d n x)"
    "l_report (record_inode_progress d n x) = l_report x" for n x
    by (auto simp: record_inode_progress_def plugin_entry_def state_version_def Let_def progress_version split: option.split)
  have b: "plugin_entry (record_byte_progress d env w x) name = plugin_entry x name" "state_version (record_byte_progress d env w x) = state_version x"
    "l_host (record_byte_progress d env w x) = l_host x" "l_dirty x \<Longrightarrow> l_dirty (record_byte_progress d env w x)"
    "l_report (record_byte_progress d env w x) = l_report x" for x
    by (auto simp: record_byte_progress_def plugin_entry_def state_version_def Let_def progress_version split: option.split)
  show "plugin_entry (before_save d env w l) name = plugin_entry l name"
    by (simp add: before_save_def b i frame_simps) (simp add: plugin_entry_def t)
  show "state_version (before_save d env w l) = state_version l"
    by (simp add: before_save_def b i) (simp add: state_version_def t frame_simps)
  show "l_host (before_save d env w l) = l_host l" by (simp add: before_save_def b i frame_simps t)
  show "l_dirty l \<Longrightarrow> l_dirty (before_save d env w l)" by (simp add: before_save_def b i frame_simps t)
  show "r_StateFile (l_report (before_save d env w l)) = r_StateFile (l_report l)"
    using cycle_facts_cong(8) [of "l_report (refresh_free d env (cycle_totals l))" "l_report l"]
    by (simp add: before_save_def b i frame_simps t)
qed

definition save_ok :: "store_faults \<Rightarrow> bool" where
  "save_ok f = (sf_mkdir f = None \<and> sf_create f = None \<and> sf_write f = None \<and> sf_sync f = None \<and> sf_chmod f = None \<and>
     sf_close f = None \<and> sf_rename f = None)"

lemma save_ok_result:
  "save_ok f \<Longrightarrow> p \<noteq> [] \<Longrightarrow> fst (save_result f p s fs) p = Some (StateDoc (encode_state s))"
  by (simp add: save_ok_def save_result_def save_cases first_fault_def)

lemma loaded_state_version: "loaded_state d f forced host = Some s \<Longrightarrow> cleanupStateVersion \<le> cs_Version s"
  by (auto simp: loaded_state_def cycle_loaded_def load_step_def loadStateForCycle_def newCleanupState_def
      dest: load_version split: prod.splits sum.splits if_splits)

definition state_path :: "daemon \<Rightarrow> path" where
  "state_path d = expandPathHome (d_home d) (pc_StateFile (d_policy d))"

lemma save_if_dirty_doc:
  assumes "l_dirty l" "l_state l = Some s" "save_ok f" "r_StateFile (l_report l) \<noteq> []"
  shows "h_files (l_host (save_if_dirty f l)) (r_StateFile (l_report l)) = Some (StateDoc (encode_state s))"
  using assms save_ok_result [of f "r_StateFile (l_report l)" s "h_files (l_host l)"]
  by (auto simp: save_if_dirty_def save_step_def split: prod.split option.split)

text \<open>C3: The state file remembers every run of a ladder plugin exactly.  When a state was loaded, the save meets no
  fault and the next load can read the file, that load finds the run without quarantine, with the cycle's start to the
  second and its level, neither a lower nor a higher one.  Until the cooldown has passed the plugin is therefore held,
  across a restart of the daemon, at the run's level and below, and is free at every level above.  The state file is
  configured and plugin names are distinct.\<close>

theorem runs_survive_in_state_file:
  assumes "pr \<in> set (r_Plugins (fst (runCycle d f forced fl host)))" "pr_Ran pr" "\<not> pr_LevelIndependent pr"
    and "distinct (map p_Name (cycle_plugins d))" "loaded_state d f forced host \<noteq> None" "save_ok f" "state_path d \<noteq> []"
    and "sf_read g = None" "0 < cooldown" "floor_second (h_clock host) \<le> now"
    and "now < floor_second (h_clock host) + cooldown" "cooldown \<le> max_i64"
  shows "\<exists>s rec. loadCleanupState g (state_path d) now (h_files (snd (snd (runCycle d f forced fl host)))) =
      (Inr (s, []), h_files (snd (snd (runCycle d f forced fl host)))) \<and>
    tbl_get (cs_Plugins s) (pr_Name pr) = Some rec \<and> ps_LastRun rec = format_stamp (h_clock host) \<and>
    ps_LastLevelValue rec = level_value (cycle_level d forced host) \<and>
    cooldownRemaining s (pr_Name pr) level now cooldown =
      (if level \<le> cycle_level d forced host then floor_second (h_clock host) + cooldown - now else 0)"
proof -
  define env where "env = cycle_env_of d forced host"
  define l0 where "l0 = first_loop_state d f forced fl host"
  define l1 where "l1 = plugin_loop d env (cycle_plugins d) l0"
  define w where "w = was_engaged (measured_report d f forced host) (loaded_state d f forced host)"
  define l2 where "l2 = before_save d env w l1"
  obtain r fl' host' where run: "runCycle d f forced fl host = (r, fl', host')" by (rule prod_cases3)
  have lev: "cycle_level d forced host \<noteq> LevelNone"
  proof
    assume q: "cycle_level d forced host = LevelNone"
    then have "pr_LevelIndependent pr"
      using runCycle_all(2) [of d forced host f fl] assms(1)
      by (auto simp: cycle_explains_def independent_explains_def report_identity_def list_all2_conv_all_nth in_set_conv_nth)
    with assms(3) show False by simp
  qed
  have "with_duration (h_clock host) (l_report (save_if_dirty f l2), l_flights (save_if_dirty f l2), l_host (save_if_dirty f l2)) = (r, fl', host')"
    using run lev by (simp add: runCycle_phases Let_def last_loop_state_def after_plugins_save l2_def l1_def l0_def env_def w_def)
  then have h: "host' = l_host (save_if_dirty f l2)" by (metis with_duration_frame(4) snd_conv)
  have "pr \<in> set (r_Plugins r)" using assms(1) run by simp
  moreover have "r_Plugins (l_report l0) = []" by (simp add: l0_def first_loop_report)
  ultimately have pr_in: "pr \<in> set (r_Plugins (l_report l1))"
    using pressure_reports(1) [OF run lev] by (simp add: l1_def l0_def env_def)
  have st0: "l_state l0 \<noteq> None" using assms(5) by (simp add: l0_def first_loop_report)
  from plugin_loop_recorded [OF assms(4) st0, of d env] \<open>r_Plugins (l_report l0) = []\<close> obtain i where
    i: "i < length (cycle_plugins d)" "pr_Ran pr \<and> \<not> p_LevelIndependent (cycle_plugins d ! i) \<longrightarrow> l_dirty l1 \<and>
      (\<exists>rec. plugin_entry l1 (p_Name (cycle_plugins d ! i)) = Some (Some rec) \<and> recorded_run env rec)"
      "pr = r_Plugins (l_report l1) ! i"
    using pr_in by (auto simp: l1_def list_all2_conv_all_nth in_set_conv_nth)
  have "pr_Name pr = p_Name (cycle_plugins d ! i) \<and> pr_LevelIndependent pr = p_LevelIndependent (cycle_plugins d ! i)"
    using plugin_loop_all [of d env "cycle_plugins d" l0] \<open>r_Plugins (l_report l0) = []\<close> i(1,3)
    by (auto simp: l1_def list_all2_conv_all_nth dest: step_explains_name)
  with i(2) assms(2,3) obtain rec where
    rec: "l_dirty l1" "plugin_entry l1 (pr_Name pr) = Some (Some rec)" "recorded_run env rec" by auto
  then have l2: "l_dirty l2" "plugin_entry l2 (pr_Name pr) = Some (Some rec)"
    by (simp_all add: l2_def before_save_frame)
  then obtain s where s: "l_state l2 = Some s" "tbl_get (cs_Plugins s) (pr_Name pr) = Some rec" by (auto simp: plugin_entry_def)
  have "state_version l2 = state_version l0" by (simp add: l2_def l1_def before_save_frame plugin_loop_version)
  with s(1) st0 have "cleanupStateVersion \<le> cs_Version s"
    using loaded_state_version by (auto simp: state_version_def l0_def first_loop_report)
  then have dec: "decode_state (encode_state s) = s" by (rule decode_encode)
  have "r_StateFile (l_report l1) = r_StateFile (l_report l0)"
    using plugin_loop_all [of d env "cycle_plugins d" l0] by (auto simp: l1_def dest: cycle_facts_cong(8))
  then have sp: "r_StateFile (l_report l2) = state_path d"
    by (simp add: l2_def before_save_frame l0_def first_loop_report state_path_def)
  with save_if_dirty_doc [OF l2(1) s(1) assms(6)] assms(7) h
  have "h_files host' (state_path d) = Some (StateDoc (encode_state s))" by simp
  then have load: "loadCleanupState g (state_path d) now (h_files host') = (Inr (s, []), h_files host')"
    using load_doc [OF assms(8,7)] dec by simp
  have recd: "ps_LastLevelValue rec = level_value (cycle_level d forced host)" "ps_LastRun rec = format_stamp (h_clock host)"
    using rec(3) by (simp_all add: recorded_run_def env_def cycle_env_of_def)
  have "0 \<le> now - floor_second (h_clock host)" "now - floor_second (h_clock host) \<le> max_i64"
    using assms(10-12) by auto
  then have "cooldownRemaining s (pr_Name pr) level now cooldown =
      (if level \<le> cycle_level d forced host then floor_second (h_clock host) + cooldown - now else 0)"
    using recd s(2) assms(9,10,11) by (simp add: cooldownRemaining_def Let_def time_sub_def level_order min_i64_def not_less)
  with load run s(2) recd show ?thesis by auto
qed

subsection \<open>A dry run\<close>

lemma report_source:
  assumes "pr \<in> set (r_Plugins (fst (runCycle d f forced fl host)))"
  shows "\<exists>p. p \<in> set (reported_plugins d forced host) \<and> cycle_explains d forced host p pr"
proof -
  note all = runCycle_all(2) [of d forced host f fl]
  obtain i where i: "i < length (r_Plugins (fst (runCycle d f forced fl host)))" "pr = r_Plugins (fst (runCycle d f forced fl host)) ! i"
    using assms by (auto simp: in_set_conv_nth)
  have "i < length (reported_plugins d forced host)" using list_all2_lengthD [OF all] i(1) by simp
  with list_all2_nthD2 [OF all i(1)] i(2) show ?thesis by (metis nth_mem)
qed

definition keeps_files :: "('r, host) operation \<Rightarrow> bool" where
  "keeps_files op = (\<forall>scope level cfg h t. h_files (iv_world (op scope level cfg h) t) = h_files h)"

lemma watchPlugin_files:
  assumes "watchPlugin d p op level fl host = (res, w, fl', host')" "keeps_files op"
  shows "h_files host' = h_files host"
  using assms
  by (auto simp: watchPlugin_def watch_run_def Let_def host_at_def keeps_files_def split: option.splits if_splits prod.splits)

definition quiet_planner :: "host plugin \<Rightarrow> bool" where
  "quiet_planner p = (\<forall>planner. p_PlanCleanup p = Some planner \<longrightarrow> keeps_files planner)"

lemma dry_effect_files:
  "step_effect d level p fl host fl' host' has_run \<Longrightarrow> d_dryRun d \<Longrightarrow> quiet_planner p \<Longrightarrow> h_files host' = h_files host"
  by (induction rule: step_effect.induct) (auto simp: quiet_planner_def dest: watchPlugin_files)

lemma dry_step:
  assumes "d_dryRun d" "quiet_planner p"
  shows "h_files (l_host (plugin_step d env l p)) = h_files (l_host l) \<and> l_dirty (plugin_step d env l p) = l_dirty l \<and>
    l_totalFreed (plugin_step d env l p) = l_totalFreed l"
proof -
  have "h_files (l_host (plugin_step d env l p)) = h_files (l_host l)"
    using plugin_step_effect [of d env l p] dry_effect_files assms by blast
  moreover have "l_dirty (plugin_step d env l p) = l_dirty l \<and> l_totalFreed (plugin_step d env l p) = l_totalFreed l"
    using assms(1)
    by (simp add: plugin_step_def ladder_step_def Let_def independent_step_def append_report_def dry_run_step_def
        runLevelIndependentPlugin_def split: prod.split)
  ultimately show ?thesis by simp
qed

lemma dry_loop:
  "d_dryRun d \<Longrightarrow> \<forall>p\<in>set ps. quiet_planner p \<Longrightarrow>
     h_files (l_host (plugin_loop d env ps l)) = h_files (l_host l) \<and> l_dirty (plugin_loop d env ps l) = l_dirty l \<and>
     l_totalFreed (plugin_loop d env ps l) = l_totalFreed l"
  unfolding plugin_loop_def by (induction ps arbitrary: l) (auto simp: dry_step)

lemma dry_quiet:
  "d_dryRun d \<Longrightarrow> \<forall>p\<in>set ps. quiet_planner p \<Longrightarrow> foldl (quiet_independent d) (r, fl, host) ps = (r', fl', host') \<Longrightarrow>
     h_files host' = h_files host"
proof (induction ps arbitrary: r fl host)
  case (Cons p ps)
  obtain r1 fl1 host1 where q: "quiet_independent d (r, fl, host) p = (r1, fl1, host1)" by (rule prod_cases3)
  have "h_files host1 = h_files host"
  proof (cases "p_LevelIndependent p")
    case True
    obtain r2 freed items fl2 host2 where i: "runLevelIndependentPlugin d p LevelNone r fl host = (r2, freed, items, fl2, host2)"
      by (cases "runLevelIndependentPlugin d p LevelNone r fl host")
    with q True have "host1 = host2" by (simp add: quiet_independent_def)
    with independent_effect [OF i] dry_effect_files Cons.prems(1,2) show ?thesis by auto
  next
    case False
    with q show ?thesis by (simp add: quiet_independent_def)
  qed
  moreover have "foldl (quiet_independent d) (r1, fl1, host1) ps = (r', fl', host')" using Cons.prems(3) q by simp
  ultimately show ?case using Cons.IH Cons.prems(1,2) by simp
qed simp

lemma dry_loaded_host: "d_dryRun d \<Longrightarrow> loaded_host d f forced host = host"
  by (simp add: loaded_host_def cycle_loaded_def load_step_def loadStateForCycle_def)

text \<open>C10: A dry run runs no cleanup, plans only, and neither reads into, quarantines nor writes the
  state file: if the planners leave files alone, every file is as before.\<close>

theorem dry_run_changes_nothing:
  assumes "d_dryRun d" "\<forall>p\<in>set (cycle_plugins d). quiet_planner p"
  shows "h_files (snd (snd (runCycle d f forced fl host))) = h_files host \<and>
    (\<forall>pr\<in>set (r_Plugins (fst (runCycle d f forced fl host))). \<not> pr_Ran pr)"
proof
  show "\<forall>pr\<in>set (r_Plugins (fst (runCycle d f forced fl host))). \<not> pr_Ran pr"
    using report_source cycle_explains_name assms(1) by blast
  obtain r fl' host' where run: "runCycle d f forced fl host = (r, fl', host')" by (rule prod_cases3)
  show "h_files (snd (snd (runCycle d f forced fl host))) = h_files host"
  proof (cases "cycle_level d forced host = LevelNone")
    case True
    define q where "q = quiet_path d f (h_clock host) (ce_before (cycle_env_of d forced host)) (loaded_state d f forced host)
       (measured_report d f forced host) fl host"
    obtain r2 fl2 h2 where q2: "q = (r2, fl2, h2)" by (rule prod_cases3)
    have "with_duration (h_clock host) q = (r, fl', host')"
      using run True dry_loaded_host [OF assms(1)] by (simp add: runCycle_phases q_def)
    then have "host' = h2" using with_duration_frame(4) [of "h_clock host" q] q2 by simp
    moreover have "foldl (quiet_independent d) (measured_report d f forced host, fl, host) (cycle_plugins d) = (r2, fl2, h2)"
      using q2 assms(1) by (simp add: q_def quiet_path_def split: option.splits)
    ultimately show ?thesis using dry_quiet [OF assms] run by simp
  next
    case False
    define env where "env = cycle_env_of d forced host"
    define l0 where "l0 = first_loop_state d f forced fl host"
    define l1 where "l1 = plugin_loop d env (cycle_plugins d) l0"
    define w where "w = was_engaged (measured_report d f forced host) (loaded_state d f forced host)"
    define l2 where "l2 = save_if_dirty f (before_save d env w l1)"
    have "with_duration (h_clock host) (l_report l2, l_flights l2, l_host l2) = (r, fl', host')"
      using run False by (simp add: runCycle_phases Let_def last_loop_state_def after_plugins_save l2_def l1_def l0_def env_def w_def)
    then have h: "host' = l_host l2" by (metis with_duration_frame(4) snd_conv)
    have "\<not> l_dirty l0" "l_host l0 = host"
      by (simp_all add: l0_def first_loop_state_def dry_loaded_host [OF assms(1)])
    with dry_loop [OF assms, of env l0] have l1: "h_files (l_host l1) = h_files host" "\<not> l_dirty l1" by (simp_all add: l1_def)
    have "\<not> l_dirty (before_save d env w l1)"
      using l1(2) assms(1)
      by (simp add: before_save_def record_byte_progress_def record_inode_progress_def Let_def refresh_free_def cycle_totals_def
          split: option.split)
    then have "host' = l_host l1" using h by (simp add: l2_def save_if_dirty_def before_save_frame split: option.split)
    with l1 run show ?thesis by simp
  qed
qed

subsection \<open>Once the target is met\<close>

text \<open>Once the target is met and no mount has inode pressure, a real cycle starts no further
  plugin of the ladder: each is reported as skipped for that reason and host, flights and state
  stay as they are.\<close>

theorem target_met_stops_ladder:
  assumes "\<not> d_dryRun d" "cleanupTargetMet (l_report l)" "\<forall>p\<in>set ps. \<not> p_LevelIndependent p"
  shows "l_host (plugin_loop d env ps l) = l_host l \<and> l_flights (plugin_loop d env ps l) = l_flights l \<and>
    l_state (plugin_loop d env ps l) = l_state l \<and>
    (\<exists>prs. r_Plugins (l_report (plugin_loop d env ps l)) = r_Plugins (l_report l) @ prs \<and> map pr_Name prs = map p_Name ps \<and>
       (\<forall>pr\<in>set prs. \<not> pr_Ran pr \<and> \<not> pr_WouldRun pr \<and> pr_SkipReason pr = ''target_free_met''))"
  using assms(2,3)
proof (induction ps arbitrary: l)
  case Nil
  then show ?case by (simp add: plugin_loop_def)
next
  case (Cons p ps)
  define l1 where "l1 = target_met_skip (fresh_plugin_report d p (ce_level env)) l"
  have step: "plugin_step d env l p = l1"
    using Cons.prems assms(1) by (simp add: plugin_step_def ladder_step_def l1_def Let_def)
  then have eq: "plugin_loop d env (p # ps) l = plugin_loop d env ps l1" by (simp add: plugin_loop_def)
  define pr where "pr = (fresh_plugin_report d p (ce_level env))\<lparr>pr_WouldRun := False, pr_SkipReason := ''target_free_met''\<rparr>"
  have l1: "l_host l1 = l_host l" "l_flights l1 = l_flights l" "l_state l1 = l_state l"
    "r_Plugins (l_report l1) = r_Plugins (l_report l) @ [pr]" "cleanupTargetMet (l_report l1)"
    using Cons.prems(1) by (simp_all add: l1_def target_met_skip_def pr_def add_plugin_def cleanupTargetMet_def)
  have "pr_Name pr = p_Name p" "\<not> pr_Ran pr" "\<not> pr_WouldRun pr" "pr_SkipReason pr = ''target_free_met''"
    by (simp_all add: pr_def fresh_plugin_report_def zero_plugin_report_def)
  with Cons.IH [OF l1(5)] Cons.prems(2) l1 show ?case unfolding eq by force
qed

subsection \<open>The daemon's schedule\<close>

lemma run_passes_first: "fst (run_passes n d f fl host) = (t, r) # rest \<Longrightarrow> t = h_clock host"
  by (cases n) (auto simp: Let_def split: prod.splits if_splits)

text \<open>One pass: its report, then either the end or the passes from the next start.\<close>

lemma run_passes_Suc:
  assumes "runCycle d (f 0) LevelNone fl host = (r, fl1, h1)"
  defines "h2 \<equiv> h1\<lparr>h_clock := h_clock h1 + pollInterval d\<rparr>"
  shows "fst (run_passes (Suc n) d f fl host) =
    (h_clock host, r\<lparr>r_NextCycleAt := format_stamp (h_clock h2)\<rparr>) #
    (if shut_down_by d (h_clock h2) then [] else fst (run_passes n d (\<lambda>i. f (Suc i)) fl1 h2))"
  using assms by (simp add: schedule_next_def Let_def split: prod.split)

text \<open>Each report of the daemon names the time the next cycle really starts (to the second): a
  full poll interval after the cycle's end, whatever the cycle took.\<close>

theorem next_cycle_at_kept:
  assumes "Suc i < length (fst (run_passes n d f fl host))"
  shows "r_NextCycleAt (snd (fst (run_passes n d f fl host) ! i)) = format_stamp (fst (fst (run_passes n d f fl host) ! Suc i))"
  using assms
proof (induction n arbitrary: f fl host i)
  case 0
  then show ?case by simp
next
  case (Suc n)
  obtain r fl1 h1 where c: "runCycle d (f 0) LevelNone fl host = (r, fl1, h1)" by (rule prod_cases3)
  define h2 where "h2 = h1\<lparr>h_clock := h_clock h1 + pollInterval d\<rparr>"
  define rest where "rest = (if shut_down_by d (h_clock h2) then [] else fst (run_passes n d (\<lambda>i. f (Suc i)) fl1 h2))"
  note eq = run_passes_Suc [of d f fl host r fl1 h1 n, OF c, folded h2_def, folded rest_def]
  show ?case
  proof (cases i)
    case 0
    with Suc.prems obtain t r2 rs where "rest = (t, r2) # rs" unfolding eq by (cases rest) auto
    moreover from this have "t = h_clock h2" using run_passes_first by (auto simp: rest_def split: if_splits)
    ultimately show ?thesis using 0 unfolding eq by simp
  next
    case (Suc j)
    with Suc.prems have "Suc j < length rest" unfolding eq by simp
    with Suc.IH [of j "\<lambda>i. f (Suc i)" fl1 h2] Suc show ?thesis unfolding eq by (auto simp: rest_def split: if_splits)
  qed
qed


text \<open>An overrun is logged at the first overrunning cycle of a streak and not again until a cycle
  has kept the interval.\<close>

theorem overrun_logged_once_per_streak:
  assumes "i < length rs"
  shows "overrun_log interval False rs ! i \<longleftrightarrow>
    interval < r_CycleDurationMs (rs ! i) * millisecond \<and> (i = 0 \<or> \<not> interval < r_CycleDurationMs (rs ! (i - 1)) * millisecond)"
proof -
  have "overrun_log interval b rs ! i \<longleftrightarrow> interval < r_CycleDurationMs (rs ! i) * millisecond \<and>
      (if i = 0 then \<not> b else \<not> interval < r_CycleDurationMs (rs ! (i - 1)) * millisecond)" for b
    using assms
  proof (induction rs arbitrary: b i)
    case (Cons r rs)
    then show ?case by (cases i) (auto simp: Let_def nth_Cons split: nat.split)
  qed simp
  then show ?thesis by simp
qed

end
