(* ===== verification/Cycle_Witnesses.thy ===== *)
theory Cycle_Witnesses
  imports Scenario Cycle_State
begin

text \<open>The properties of the cycle at concrete inputs, where their hypotheses hold.\<close>

lemma demo_sane: "p \<in> set (cycle_plugins demo) \<Longrightarrow> sane_plugin p"
  by (auto dest!: cycle_plugins_enabled
      simp: demo_def demo_daemon_def demo_plugins_def demo_plugin_def sane_plugin_def sane_operation_def demo_invocation_def
        duration_units)

lemma demo_distinct: "distinct (map p_Name (cycle_plugins demo))"
  by code_simp

lemma demo_backoff: "r_ByteBackoff (decided_report demo (no_faults ''1'') LevelNone unrelieved_host)"
  by code_simp

lemma demo_backoff_cycle: "r_ByteBackoff (fst (runCycle demo (no_faults ''1'') LevelNone [] unrelieved_host))"
  using demo_backoff cycle_facts_cong(2) [OF runCycle_all(1)] by blast

text \<open>The reports of the loop, and those of the cycle they become.\<close>

definition demo_reports :: "host \<Rightarrow> plugin_report list" where
  "demo_reports host =
     r_Plugins (l_report (plugin_loop demo (cycle_env_of demo LevelNone host) (cycle_plugins demo)
       (first_loop_state demo (no_faults ''1'') LevelNone [] host)))"

lemma demo_cycle_reports:
  assumes "cycle_level demo LevelNone host \<noteq> LevelNone"
  shows "r_Plugins (fst (runCycle demo (no_faults ''1'') LevelNone [] host)) = demo_reports host"
proof -
  obtain r fl' host' where c: "runCycle demo (no_faults ''1'') LevelNone [] host = (r, fl', host')" by (rule prod_cases3)
  from pressure_reports(1) [OF c assms] c show ?thesis by (simp add: demo_reports_def)
qed

theorem cycle_never_overlaps_runs_witness:
  "\<exists>new. rev (map run_name new) = ran_names (r_Plugins (fst (runCycle demo (no_faults ''1'') LevelNone [] unrelieved_host))) \<and>
     one_at_a_time (new @ [])"
proof -
  obtain r fl' host' where c: "runCycle demo (no_faults ''1'') LevelNone [] unrelieved_host = (r, fl', host')" by (rule prod_cases3)
  have "\<not> d_dryRun demo" by (simp add: demo_def demo_daemon_def)
  from cycle_never_overlaps_runs [OF c demo_sane watched.start this] c show ?thesis by auto
qed

theorem cycle_bounded_time_witness:
  "h_clock (snd (snd (runCycle demo (no_faults ''1'') LevelNone [] unrelieved_host))) \<le>
     h_clock unrelieved_host + total_limit demo (reported_plugins demo LevelNone unrelieved_host)"
proof -
  obtain r fl' host' where c: "runCycle demo (no_faults ''1'') LevelNone [] unrelieved_host = (r, fl', host')" by (rule prod_cases3)
  from cycle_bounded_time [OF c demo_sane watched.start] c show ?thesis by simp
qed

theorem byte_backoff_guarded_witness:
  "emergencyFreeBytes demo \<le> r_HostFreeBeforeBytes (fst (runCycle demo (no_faults ''1'') LevelNone [] unrelieved_host))"
  using byte_backoff_guarded [OF demo_backoff_cycle] by simp

lemma unrelieved_level: "cycle_level demo LevelNone unrelieved_host \<noteq> LevelNone" by code_simp
lemma calm_level: "cycle_level demo LevelNone calm_host \<noteq> LevelNone" by code_simp
lemma pressed_level: "cycle_level demo LevelNone pressed_host \<noteq> LevelNone" by code_simp

lemma demo_first_report:
  assumes "map decision (demo_reports host) = [x]" "cycle_level demo LevelNone host \<noteq> LevelNone"
  shows "\<exists>pr. pr \<in> set (r_Plugins (fst (runCycle demo (no_faults ''1'') LevelNone [] host))) \<and> decision pr = x"
  using assms by (auto simp: demo_cycle_reports)

lemma unrelieved_reports:
  "map decision (demo_reports unrelieved_host) = [((''docker'', ''critical'', False, False), True, [], [])]"
  by code_simp

lemma calm_reports:
  "map decision (demo_reports calm_host) = [((''docker'', ''warning'', False, False), False, ''zero_yield_backoff'', [])]"
  by code_simp

lemma pressed_reports:
  "map decision (demo_reports pressed_host) = [((''docker'', ''critical'', False, False), True, [], zeroYieldLiftMountPressure)]"
  by code_simp

theorem byte_backoff_rate_limit_witness:
  "\<exists>s. loaded_state demo (no_faults ''1'') LevelNone unrelieved_host = Some s \<and>
    cooldownRemaining s ''docker'' LevelCritical (60 * second)
      (held_for demo (fst (runCycle demo (no_faults ''1'') LevelNone [] unrelieved_host)) LevelCritical) = 0"
proof -
  have b: "bounded_backoff demo" by code_simp
  have e: "cycle_level demo LevelNone unrelieved_host = LevelCritical" "h_clock unrelieved_host = 60 * second" by code_simp+
  obtain pr where pr: "pr \<in> set (r_Plugins (fst (runCycle demo (no_faults ''1'') LevelNone [] unrelieved_host)))"
    "pr_Ran pr" "\<not> pr_LevelIndependent pr" "pr_Name pr = ''docker''"
    using demo_first_report [OF unrelieved_reports unrelieved_level] by (auto simp: decision_def report_identity_def)
  from byte_backoff_rate_limit [OF demo_backoff_cycle b demo_distinct pr(1-3)] show ?thesis by (simp add: pr(4) e)
qed

theorem zero_yield_skip_justified_witness:
  "\<exists>p. p \<in> set (cycle_plugins demo) \<and> p_Name p = ''docker'' \<and> zeroYieldPermanentExemption demo p = []"
proof -
  obtain pr where pr: "pr \<in> set (r_Plugins (fst (runCycle demo (no_faults ''1'') LevelNone [] calm_host)))"
    "pr_SkipReason pr = ''zero_yield_backoff''" "pr_Name pr = ''docker''"
    using demo_first_report [OF calm_reports calm_level] by (auto simp: decision_def report_identity_def)
  from zero_yield_skip_justified [OF pr(1,2) demo_distinct] show ?thesis unfolding pr(3) by blast
qed

theorem mount_pressure_lift_spaced_witness:
  "\<exists>s. loaded_state demo (no_faults ''1'') LevelNone pressed_host = Some s \<and>
    pluginLastRun s ''docker'' + zy_pressureMin (zeroYieldPolicy demo) \<le> h_clock pressed_host"
proof -
  obtain pr where pr: "pr \<in> set (r_Plugins (fst (runCycle demo (no_faults ''1'') LevelNone [] pressed_host)))"
    "pr_Ran pr" "pr_ZeroYieldLifted pr = zeroYieldLiftMountPressure" "pr_Name pr = ''docker''"
    using demo_first_report [OF pressed_reports pressed_level] by (auto simp: decision_def report_identity_def)
  from mount_pressure_lift_spaced [OF pr(1-3) demo_distinct] show ?thesis unfolding pr(4) by blast
qed

text \<open>The run of the unrelieved cycle, found again by the next load.\<close>

theorem runs_survive_in_state_file_witness:
  "\<exists>s rec. loadCleanupState (no_faults []) (state_path demo) (100 * second)
      (h_files (snd (snd (runCycle demo (no_faults ''1'') LevelNone [] unrelieved_host)))) =
      (Inr (s, []), h_files (snd (snd (runCycle demo (no_faults ''1'') LevelNone [] unrelieved_host)))) \<and>
    tbl_get (cs_Plugins s) ''docker'' = Some rec \<and> ps_LastLevelValue rec = 4 \<and>
    cooldownRemaining s ''docker'' LevelModerate (100 * second) (30 * minute) = floor_second (60 * second) + 30 * minute - 100 * second"
proof -
  have e: "cycle_level demo LevelNone unrelieved_host = LevelCritical" "h_clock unrelieved_host = 60 * second" by code_simp+
  have side: "loaded_state demo (no_faults ''1'') LevelNone unrelieved_host \<noteq> None" "save_ok (no_faults ''1'')" "state_path demo \<noteq> []"
    "sf_read (no_faults []) = None" "0 < 30 * minute" "LevelModerate \<le> LevelCritical" "level_value LevelCritical = 4" "floor_second (60 * second) \<le> 100 * second"
    "100 * second < floor_second (60 * second) + 30 * minute" "30 * minute \<le> max_i64"
    by code_simp+
  obtain pr where pr: "pr \<in> set (r_Plugins (fst (runCycle demo (no_faults ''1'') LevelNone [] unrelieved_host)))"
    "pr_Ran pr" "\<not> pr_LevelIndependent pr" "pr_Name pr = ''docker''"
    using demo_first_report [OF unrelieved_reports unrelieved_level] by (auto simp: decision_def report_identity_def)
  from runs_survive_in_state_file [OF pr(1-3) demo_distinct side(1-4), of "30 * minute" "100 * second" LevelModerate] side(5-10)
  show ?thesis by (auto simp add: e pr(4))
qed

definition demo_planner :: "host plugin" where
  "demo_planner =
     (demo_plugin ''cache'' False False None 0)
       \<lparr>p_PlanCleanup := Some (\<lambda>scope level cfg h. demo_invocation (Some second)
          \<lparr>cp_Plugin = ''cache'', cp_Level = [], cp_Summary = [], cp_WouldRun = True, cp_SkipReason = [],
           cp_EstimatedBytesFreed = 7, cp_RequiredFreeBytes = 0, cp_Steps = [], cp_Targets = [], cp_Warnings = [],
           cp_Metadata = []\<rparr> h)\<rparr>"

theorem dry_run_changes_nothing_witness:
  "h_files (snd (snd (runCycle (demo_daemon True [demo_planner]) (no_faults ''1'') LevelNone [] unrelieved_host))) ''/s'' =
     Some (StateDoc (encode_state (unrelieved_state 3)))"
proof -
  have dry: "d_dryRun (demo_daemon True [demo_planner])" by (simp add: demo_daemon_def)
  have quiet: "\<forall>p\<in>set (cycle_plugins (demo_daemon True [demo_planner])). quiet_planner p"
    by (auto dest!: cycle_plugins_enabled simp: demo_daemon_def demo_planner_def quiet_planner_def keeps_files_def demo_invocation_def)
  from dry_run_changes_nothing [OF dry quiet, of "no_faults ''1''" LevelNone "[]" unrelieved_host] show ?thesis
    by (simp add: unrelieved_host_def demo_host_def state_file_def)
qed

definition met_state :: loop_state where
  "met_state =
     \<lparr>l_report = zero_cycle_report\<lparr>r_TargetFreeMet := True, r_MaxInodeLevel := ''none''\<rparr>, l_state = Some newCleanupState,
      l_dirty = False, l_totalFreed = 0, l_totalItems = 0, l_ladderFreed = 0, l_flights = [], l_host = calm_host\<rparr>"

theorem target_met_stops_ladder_witness:
  "l_host (plugin_loop demo (cycle_env_of demo LevelNone calm_host) [demo_planner] met_state) = calm_host"
proof -
  have "\<not> d_dryRun demo" "cleanupTargetMet (l_report met_state)" "\<forall>p\<in>set [demo_planner]. \<not> p_LevelIndependent p"
    by (simp_all add: demo_def demo_daemon_def met_state_def cleanupTargetMet_def parseLevel_def demo_planner_def demo_plugin_def)
  from target_met_stops_ladder [OF this] show ?thesis by (simp add: met_state_def)
qed

lemma demo_two_passes: "length (fst (run_passes 2 demo (\<lambda>_. no_faults ''1'') [] calm_host)) = 2"
proof -
  have n: "\<not> shut_down_by demo t" for t by (simp add: shut_down_by_def is_done_def demo_def demo_daemon_def)
  have pass: "length (fst (run_passes (Suc m) demo (\<lambda>_. no_faults ''1'') fl h)) =
      Suc (length (fst (run_passes m demo (\<lambda>_. no_faults ''1'')
        (fst (snd (runCycle demo (no_faults ''1'') LevelNone fl h)))
        ((snd (snd (runCycle demo (no_faults ''1'') LevelNone fl h)))
           \<lparr>h_clock := h_clock (snd (snd (runCycle demo (no_faults ''1'') LevelNone fl h))) + pollInterval demo\<rparr>))))" for m fl h
    by (simp add: schedule_next_def Let_def n split: prod.split)
  show ?thesis unfolding numeral_2_eq_2 pass by simp
qed

theorem next_cycle_at_kept_witness:
  "r_NextCycleAt (snd (fst (run_passes 2 demo (\<lambda>_. no_faults ''1'') [] calm_host) ! 0)) =
     format_stamp (fst (fst (run_passes 2 demo (\<lambda>_. no_faults ''1'') [] calm_host) ! Suc 0))"
  using next_cycle_at_kept [of 0 2 demo "\<lambda>_. no_faults ''1''" "[]" calm_host] demo_two_passes by simp


theorem overrun_logged_once_per_streak_witness:
  "overrun_log second False [zero_cycle_report\<lparr>r_CycleDurationMs := 2000\<rparr>, zero_cycle_report\<lparr>r_CycleDurationMs := 3000\<rparr>] ! 1 = False"
  using overrun_logged_once_per_streak [of 1
      "[zero_cycle_report\<lparr>r_CycleDurationMs := 2000\<rparr>, zero_cycle_report\<lparr>r_CycleDurationMs := 3000\<rparr>]" second]
  by (simp add: duration_units)

text \<open>The policies at concrete inputs.\<close>

theorem byte_backoff_schedule_witness:
  "byteBackoffIntervalFor demo 5 = 30 * minute"
proof -
  have "bounded_backoff demo" "byteNoProgressLimit demo = 3" "byteBackoffMax demo = 30 * minute" "byteBackoffInterval demo = 30 * minute"
    by code_simp+
  with byte_backoff_schedule [of demo 5 5] show ?thesis by (simp add: duration_units)
qed

theorem validate_mount_iff_witness: "validate_mount narrow_mount = None"
  using validate_mount_iff [of narrow_mount] by (simp add: narrow_mount_def mount_ladder_def set_steps_def)

definition mounted :: daemon where
  "mounted = demo\<lparr>d_config := (d_config demo)\<lparr>cf_MonitoredMounts := [narrow_mount]\<rparr>\<rparr>"

theorem cycle_driven_by_worst_mount_witness:
  "primaryMonitorPath mounted (assessMounts mounted unrelieved_host) = ''/m''"
proof -
  have m: "cf_MonitoredMounts (d_config mounted) = [narrow_mount]" and p: "mc_Path narrow_mount = ''/m''"
    by (simp_all add: mounted_def narrow_mount_def)
  have h: "cf_MonitoredMounts (d_config mounted) \<noteq> []" "\<forall>x\<in>set (cf_MonitoredMounts (d_config mounted)). mc_Path x \<noteq> []"
    by (simp_all add: m p)
  have e: "\<forall>p e. h_stats unrelieved_host p = Inl e \<longrightarrow> e \<noteq> []" by (simp add: unrelieved_host_def demo_host_def)
  have "ma_Level (assessMounts mounted unrelieved_host) \<noteq> LevelNone" by code_simp
  with cycle_driven_by_worst_mount [OF h e] obtain x where
    "x \<in> set (cf_MonitoredMounts (d_config mounted))" "primaryMonitorPath mounted (assessMounts mounted unrelieved_host) = mc_Path x"
    by blast
  then show ?thesis unfolding m using p by simp
qed

end
