(* ===== verification/Log_Throttle.thy ===== *)
theory Log_Throttle
  imports Cycle Interfaces
begin

text \<open>
  Bounded log emission, \<open>logthrottle.go\<close>: which log records the daemon emits, which it holds
  back and counts, and when a cycle report is written in full.  The mutex of \<open>logThrottle\<close>
  makes each decision one step.  A Go map is an association list whose order stands for the
  iteration order.
\<close>

definition defaultLogRepeatWindow :: duration where "defaultLogRepeatWindow = hour"
definition errorLogRepeatWindow :: duration where "errorLogRepeatWindow = 15 * minute"
definition maxThrottleKeys :: nat where "maxThrottleKeys = 1024"

text \<open>\<open>slog\<close> levels.\<close>

definition LevelInfo :: int where "LevelInfo = 0"
definition LevelError :: int where "LevelError = 8"

definition throttleIdentityKeys :: "string list" where
  "throttleIdentityKeys = [''plugin'', ''path'', ''mount'', ''label'', ''instance'']"

definition throttleVolatileKeys :: "string list" where
  "throttleVolatileKeys =
     [''used_percent'', ''free_gb'', ''free_bytes'', ''inodes_used_percent'', ''inodes_free'', ''before_free_gb'',
      ''after_free_gb'', ''delta_mb'', ''cycle_duration'', ''repeats_suppressed'']"

subsection \<open>The throttle\<close>

record throttle_entry =
  te_fingerprint :: u64
  te_lastEmit :: instant
  te_suppressed :: int

record log_throttle =
  lt_window :: duration
  lt_maxKeys :: nat
  lt_entries :: "throttle_entry table"

definition newLogThrottle :: "duration \<Rightarrow> log_throttle" where
  "newLogThrottle window = \<lparr>lt_window = window, lt_maxKeys = maxThrottleKeys, lt_entries = []\<rparr>"

definition windowFor :: "log_throttle \<Rightarrow> int \<Rightarrow> duration" where
  "windowFor t level =
     (if LevelError \<le> level \<and> errorLogRepeatWindow < lt_window t then errorLogRepeatWindow else lt_window t)"

text \<open>The key \<open>evictLocked\<close> drops: the first with the oldest emission; the empty key when there is none.\<close>

fun oldest_key :: "string \<Rightarrow> instant \<Rightarrow> throttle_entry table \<Rightarrow> string" where
  "oldest_key key oldest [] = key"
| "oldest_key key oldest ((k, e) # es) =
     (if key = [] \<or> te_lastEmit e < oldest then oldest_key k (te_lastEmit e) es else oldest_key key oldest es)"

definition evictLocked :: "log_throttle \<Rightarrow> log_throttle" where
  "evictLocked t =
     (if length (lt_entries t) < lt_maxKeys t then t
      else t\<lparr>lt_entries := tbl_del (oldest_key [] zero_time (lt_entries t)) (lt_entries t)\<rparr>)"

text \<open>Whether the record is emitted, the copies held back before it, and the throttle after it.\<close>

definition decide :: "string \<Rightarrow> u64 \<Rightarrow> int \<Rightarrow> instant \<Rightarrow> log_throttle \<Rightarrow> (bool \<times> int) \<times> log_throttle" where
  "decide key fingerprint level now t =
     (case tbl_get (lt_entries t) key of
        None \<Rightarrow>
          (let t = evictLocked t
           in ((True, 0), t\<lparr>lt_entries := tbl_put key \<lparr>te_fingerprint = fingerprint, te_lastEmit = now, te_suppressed = 0\<rparr> (lt_entries t)\<rparr>))
      | Some e \<Rightarrow>
          (if te_fingerprint e \<noteq> fingerprint \<or> windowFor t level \<le> time_sub now (te_lastEmit e)
           then ((True, te_suppressed e),
                 t\<lparr>lt_entries := tbl_put key \<lparr>te_fingerprint = fingerprint, te_lastEmit = now, te_suppressed = 0\<rparr> (lt_entries t)\<rparr>)
           else ((False, 0), t\<lparr>lt_entries := tbl_put key (e\<lparr>te_suppressed := te_suppressed e + 1\<rparr>) (lt_entries t)\<rparr>)))"

subsection \<open>Records\<close>

datatype attr = Attr (attr_key: string) (attr_value: attr_value)
  and attr_value = Plain string | Group "attr list"

record log_record =
  lr_Level :: int
  lr_LevelName :: string
  lr_Message :: string
  lr_Attrs :: "attr list"

text \<open>\<open>hash/fnv\<close>: FNV-1a on 64 bits.\<close>

unbundle bit_operations_syntax

definition fnv_step :: "u64 \<Rightarrow> char \<Rightarrow> u64" where
  "fnv_step h c = (h XOR of_char c) * 1099511628211"

definition fnv64a :: "string \<Rightarrow> u64" where
  "fnv64a s = foldl fnv_step 14695981039346656037 s"

text \<open>The leaves of an attribute with their dotted names, in the order \<open>walk\<close> meets them.\<close>

fun attr_leaves :: "string \<Rightarrow> attr \<Rightarrow> (string \<times> string) list" where
  "attr_leaves pre (Attr k (Plain v)) = [(pre @ k, v)]"
| "attr_leaves pre (Attr k (Group as)) = concat (map (attr_leaves (pre @ k @ ''.'')) as)"

definition record_leaves :: "log_record \<Rightarrow> (string \<times> string) list" where
  "record_leaves r = concat (map (attr_leaves []) (lr_Attrs r))"

definition recordIdentity :: "string \<Rightarrow> log_record \<Rightarrow> string \<times> u64" where
  "recordIdentity scope r =
     (let leaves = record_leaves r;
          ids = filter (\<lambda>(n, v). n \<in> set throttleIdentityKeys) leaves;
          content = filter (\<lambda>(n, v). n \<notin> set throttleIdentityKeys \<and> n \<notin> set throttleVolatileKeys) leaves
      in (lr_LevelName r @ ''|'' @ lr_Message r @ scope @ concat (map (\<lambda>(n, v). ''|'' @ n @ ''='' @ v) ids),
          fnv64a (concat (map (\<lambda>(n, v). n @ ''='' @ v @ '';'') content))))"

text \<open>\<open>dedupeHandler.Handle\<close>: the record passed on, if any.\<close>

definition handle_record :: "string \<Rightarrow> instant \<Rightarrow> log_record \<Rightarrow> log_throttle \<Rightarrow> log_record option \<times> log_throttle" where
  "handle_record scope now r t =
     (if lr_Level r < LevelInfo then (Some r, t)
      else case recordIdentity scope r of (key, fingerprint) \<Rightarrow>
        (case decide key fingerprint (lr_Level r) now t of
           ((emit, held), t) \<Rightarrow>
             (if \<not> emit then (None, t)
              else if 0 < held then (Some (r\<lparr>lr_Attrs := lr_Attrs r @ [Attr ''repeats_suppressed'' (Plain (show_int held))]\<rparr>), t)
              else (Some r, t))))"

text \<open>\<open>slog\<close>'s text of a value: a group is the bracketed list of its attributes.\<close>

fun attr_text :: "attr \<Rightarrow> string" where
  "attr_text (Attr k (Plain v)) = k @ ''='' @ v"
| "attr_text (Attr k (Group as)) = k @ ''=['' @ join_strings '' '' (map attr_text as) @ '']''"

definition scope_with_attrs :: "string \<Rightarrow> attr list \<Rightarrow> string" where
  "scope_with_attrs scope as = scope @ concat (map (\<lambda>a. ''|'' @ attr_text a) as)"

definition scope_with_group :: "string \<Rightarrow> string \<Rightarrow> string" where "scope_with_group scope name = scope @ ''|g:'' @ name"

definition logRepeatWindow :: "string \<Rightarrow> duration" where
  "logRepeatWindow raw =
     (if trim_space raw = [] then defaultLogRepeatWindow
      else case parse_duration raw of None \<Rightarrow> defaultLogRepeatWindow | Some w \<Rightarrow> w)"

subsection \<open>Compact reports\<close>

definition stamp_text :: "stamp \<Rightarrow> string" where
  "stamp_text s = (case s of Stamp t \<Rightarrow> show_instant t | _ \<Rightarrow> [])"

definition mount_fingerprint :: "mount_report \<Rightarrow> string" where
  "mount_fingerprint m = ''|m:'' @ mr_Label m @ '':'' @ mr_Level m @ '':'' @ mr_Error m"

definition plugin_fingerprint :: "plugin_report \<Rightarrow> string" where
  "plugin_fingerprint p =
     ''|p:'' @ join_strings '':''
       [pr_Name p, show_bool (pr_Ran p), show_bool (pr_WouldRun p), pr_SkipReason p, stamp_text (pr_RetryAt p),
        stamp_text (pr_SuppressedUntil p), pr_ZeroYieldLifted p, show_int (pr_BytesFreed p), show_int (pr_ItemsCleaned p),
        pr_Error p, pr_Wedged p, join_strings '','' (pr_WedgedCommands p)]"

definition reportFingerprint :: "cycle_report \<Rightarrow> string" where
  "reportFingerprint r =
     join_strings ''|''
       [r_Level r, r_HostByteLevel r, r_HostInodeLevel r, r_MaxInodeLevel r, r_StopReason r, show_bool (r_ByteBackoff r),
        r_ByteBackoffReason r, show_bool (r_InodeBackoff r), r_StateError r, r_StateQuarantined r, stamp_text (r_NextRetryAt r)]
     @ concat (map mount_fingerprint (r_Mounts r)) @ concat (map plugin_fingerprint (r_Plugins r))"

record report_throttle =
  rt_window :: duration
  rt_fingerprint :: string
  rt_lastFull :: instant
  rt_unchanged :: int

definition full_report :: "cycle_report \<Rightarrow> instant \<Rightarrow> report_throttle \<Rightarrow> bool \<times> report_throttle" where
  "full_report r now t =
     (let fingerprint = reportFingerprint r
      in if rt_window t \<le> 0 \<or> rt_lastFull t = zero_time \<or> fingerprint \<noteq> rt_fingerprint t
           \<or> rt_window t \<le> time_sub now (rt_lastFull t)
         then (True, t\<lparr>rt_fingerprint := fingerprint, rt_lastFull := now, rt_unchanged := 0\<rparr>)
         else (False, t\<lparr>rt_unchanged := rt_unchanged t + 1\<rparr>))"

definition unchangedReason :: "cycle_report \<Rightarrow> string" where
  "unchangedReason r =
     (if r_StopReason r \<noteq> [] then r_StopReason r
      else if r_Level r = ''none'' \<or> r_Level r = [] then ''no_pressure''
      else let seen = filter (\<lambda>x. x \<noteq> []) (map pr_SkipReason (r_Plugins r)) @ (if r_ByteBackoff r then [''byte_backoff''] else [])
           in if seen = [] then ''no_change'' else join_strings '','' (sort (remdups seen)))"

text \<open>\<open>%.1f\<close> of a float64: its exact value to one decimal, ties to even.\<close>

definition fixed1 :: "float64 \<Rightarrow> string" where
  "fixed1 x =
     (let n = round_half_even (\<bar>x\<bar> * 10)
      in (if x < 0 then ''-'' else []) @ show_nat (n div 10) @ ''.'' @ show_nat (n mod 10))"

definition bytesToGB :: "u64 \<Rightarrow> string" where
  "bytesToGB bytes = fixed1 (fdiv (float_of_u64 bytes) (1024 * 1024 * 1024))"

definition orDash :: "string \<Rightarrow> string" where "orDash v = (if v = [] then ''-'' else v)"

record compact_report =
  k_Timestamp :: stamp
  k_Level :: string
  k_Reason :: string
  k_FreeGB :: string
  k_NextRetryAt :: stamp
  k_NextCycleAt :: stamp
  k_UnchangedCount :: int

text \<open>\<open>encoding/json\<close> is a parameter; the text form is written out.\<close>

definition writeCompactReport :: "(compact_report \<Rightarrow> string) \<Rightarrow> string \<Rightarrow> cycle_report \<Rightarrow> int \<Rightarrow> string" where
  "writeCompactReport to_json output r unchanged =
     (let line = \<lparr>k_Timestamp = r_Timestamp r, k_Level = r_Level r, k_Reason = unchangedReason r,
                  k_FreeGB = bytesToGB (r_HostFreeBeforeBytes r), k_NextRetryAt = r_NextRetryAt r,
                  k_NextCycleAt = r_NextCycleAt r, k_UnchangedCount = unchanged\<rparr>
      in if output = ''json'' then to_json line
         else if output = ''text'' then
           ''cycle unchanged: timestamp='' @ stamp_text (k_Timestamp line) @ '' level='' @ k_Level line
             @ '' reason='' @ k_Reason line @ '' free_gb='' @ k_FreeGB line
             @ '' next_retry_at='' @ orDash (stamp_text (k_NextRetryAt line))
             @ '' next_cycle_at='' @ orDash (stamp_text (k_NextCycleAt line))
             @ '' unchanged_count='' @ show_int (k_UnchangedCount line) @ newline
         else [])"

subsection \<open>Lemmas\<close>

lemma oldest_key_mem:
  "oldest_key key o1 es \<in> insert key (fst ` set es)" "key = [] \<Longrightarrow> es \<noteq> [] \<Longrightarrow> [] \<notin> fst ` set es \<Longrightarrow> oldest_key key o1 es \<in> fst ` set es"
proof -
  show m: "oldest_key key o1 es \<in> insert key (fst ` set es)" for key o1 es
    by (induction key o1 es rule: oldest_key.induct) auto
  show "oldest_key key o1 es \<in> fst ` set es" if "key = []" "es \<noteq> []" "[] \<notin> fst ` set es"
    using that m [of "fst (hd es)" "te_lastEmit (snd (hd es))" "tl es"] by (cases es) (force simp: image_iff)+
qed

text \<open>Keys are never empty: every record's key has a bar in it.\<close>

definition throttle_ok :: "log_throttle \<Rightarrow> bool" where
  "throttle_ok t = (0 < lt_maxKeys t \<and> distinct (map fst (lt_entries t)) \<and> [] \<notin> fst ` set (lt_entries t) \<and>
     length (lt_entries t) \<le> lt_maxKeys t)"

lemma evictLocked_ok:
  assumes "throttle_ok t"
  shows "throttle_ok (evictLocked t)" "length (lt_entries (evictLocked t)) < lt_maxKeys t"
    "lt_maxKeys (evictLocked t) = lt_maxKeys t" "lt_window (evictLocked t) = lt_window t"
proof -
  let ?es = "lt_entries t"
  have ok: "distinct (map fst ?es)" "[] \<notin> fst ` set ?es" "length ?es \<le> lt_maxKeys t" "0 < lt_maxKeys t"
    using assms by (simp_all add: throttle_ok_def)
  have "Suc (length (tbl_del (oldest_key [] zero_time ?es) ?es)) = length ?es" if "\<not> length ?es < lt_maxKeys t"
    using ok that by (intro tbl_del_length oldest_key_mem(2)) auto
  moreover have "fst ` set (tbl_del k ?es) \<subseteq> fst ` set ?es" for k
    unfolding tbl_del_def by (rule AList.dom_delete_subset)
  ultimately show "throttle_ok (evictLocked t)" "length (lt_entries (evictLocked t)) < lt_maxKeys t"
    "lt_maxKeys (evictLocked t) = lt_maxKeys t" "lt_window (evictLocked t) = lt_window t"
    using ok by (auto simp: throttle_ok_def evictLocked_def tbl_del_distinct split: if_splits)
qed

lemma decide_ok:
  assumes "throttle_ok t" "key \<noteq> []"
  shows "throttle_ok (snd (decide key fp lvl now t))"
  using assms evictLocked_ok [OF assms(1)]
  by (auto simp: decide_def throttle_ok_def Let_def tbl_put_length tbl_put_distinct tbl_put_keys split: option.splits)

lemma decide_params [simp]:
  "lt_maxKeys (snd (decide key fp lvl now t)) = lt_maxKeys t" "lt_window (snd (decide key fp lvl now t)) = lt_window t"
  by (auto simp: decide_def evictLocked_def Let_def split: option.splits)

lemma recordIdentity_key: "fst (recordIdentity scope r) \<noteq> []"
  by (simp add: recordIdentity_def Let_def)

lemma handle_record_throttle:
  "snd (handle_record scope now r t) =
     (if lr_Level r < LevelInfo then t
      else snd (decide (fst (recordIdentity scope r)) (snd (recordIdentity scope r)) (lr_Level r) now t))"
  by (simp add: handle_record_def split: prod.splits)

definition throttle_size :: "log_throttle \<Rightarrow> nat" where "throttle_size t = length (lt_entries t)"

definition handled :: "string \<times> instant \<times> log_record \<Rightarrow> log_throttle \<Rightarrow> log_throttle" where
  "handled x t = (case x of (scope, now, r) \<Rightarrow> snd (handle_record scope now r t))"

interpretation lt: bounded_table throttle_ok throttle_size lt_maxKeys handled
proof (unfold_locales)
  fix x t
  show "lt_maxKeys (handled x t) = lt_maxKeys t"
    by (simp add: handled_def handle_record_throttle split: prod.splits)
next
  fix t and x :: "string \<times> instant \<times> log_record"
  assume "throttle_ok t"
  then show "throttle_ok (handled x t)"
    by (simp add: handled_def handle_record_throttle decide_ok recordIdentity_key split: prod.splits)
qed (simp add: throttle_ok_def throttle_size_def)

lemma newLogThrottle_ok: "throttle_ok (newLogThrottle w)"
  by (simp add: throttle_ok_def newLogThrottle_def maxThrottleKeys_def)

text \<open>The key dropped to make room has the oldest emission.\<close>

lemma oldest_key_least:
  "key \<noteq> [] \<Longrightarrow> [] \<notin> fst ` set es \<Longrightarrow>
     \<exists>o'. (oldest_key key o1 es, o') \<in> insert (key, o1) ((\<lambda>(k, e). (k, te_lastEmit e)) ` set es) \<and> o' \<le> o1 \<and>
       (\<forall>x\<in>set es. o' \<le> te_lastEmit (snd x))"
proof (induction key o1 es rule: oldest_key.induct)
  case (2 key o1 k e es)
  show ?case
  proof (cases "te_lastEmit e < o1")
    case True
    have ne: "k \<noteq> []" "[] \<notin> fst ` set es" using "2.prems" by auto
    from "2.IH"(1) [OF disjI2 [OF True] ne] obtain o' where
      "(oldest_key k (te_lastEmit e) es, o') \<in> insert (k, te_lastEmit e) ((\<lambda>(k, e). (k, te_lastEmit e)) ` set es)"
      "o' \<le> te_lastEmit e" "\<forall>x\<in>set es. o' \<le> te_lastEmit (snd x)" by blast
    with True show ?thesis by (intro exI [of _ o']) auto
  next
    case False
    then have step: "oldest_key key o1 ((k, e) # es) = oldest_key key o1 es" using "2.prems" by simp
    have ne: "\<not> (key = [] \<or> te_lastEmit e < o1)" "key \<noteq> []" "[] \<notin> fst ` set es" using False "2.prems" by auto
    from "2.IH"(2) [OF ne] obtain o' where
      "(oldest_key key o1 es, o') \<in> insert (key, o1) ((\<lambda>(k, e). (k, te_lastEmit e)) ` set es)"
      "o' \<le> o1" "\<forall>x\<in>set es. o' \<le> te_lastEmit (snd x)" by blast
    with False show ?thesis unfolding step by (intro exI [of _ o']) auto
  qed
qed simp

definition evicted :: "log_throttle \<Rightarrow> string \<Rightarrow> string \<Rightarrow> bool" where
  "evicted t key k0 =
     (tbl_get (lt_entries t) key = None \<and> length (lt_entries t) = lt_maxKeys t \<and>
      (\<exists>e0. tbl_get (lt_entries t) k0 = Some e0 \<and>
         (\<forall>k1 e1. tbl_get (lt_entries t) k1 = Some e1 \<longrightarrow> te_lastEmit e0 \<le> te_lastEmit e1)))"

lemma evict_oldest:
  assumes "throttle_ok t" "\<not> length (lt_entries t) < lt_maxKeys t" "tbl_get (lt_entries t) key = None"
  shows "evicted t key (oldest_key [] zero_time (lt_entries t))"
proof -
  have ok: "0 < lt_maxKeys t" "distinct (map fst (lt_entries t))" "[] \<notin> fst ` set (lt_entries t)" "length (lt_entries t) \<le> lt_maxKeys t"
    using assms(1) by (simp_all add: throttle_ok_def)
  with assms(2) obtain k e es where es: "lt_entries t = (k, e) # es" by (cases "lt_entries t") auto
  have "k \<noteq> []" "[] \<notin> fst ` set es" using ok(3) es by auto
  from oldest_key_least [OF this, of "te_lastEmit e"] obtain o' where
    o: "(oldest_key k (te_lastEmit e) es, o') \<in> insert (k, te_lastEmit e) ((\<lambda>(k, e). (k, te_lastEmit e)) ` set es)"
      "o' \<le> te_lastEmit e" "\<forall>x\<in>set es. o' \<le> te_lastEmit (snd x)" by blast
  let ?k = "oldest_key [] zero_time (lt_entries t)"
  have k: "?k = oldest_key k (te_lastEmit e) es" by (simp add: es)
  have "\<exists>e0. (?k, e0) \<in> set (lt_entries t) \<and> te_lastEmit e0 = o'" using o(1) unfolding k es by auto
  then obtain e0 where e0: "(?k, e0) \<in> set (lt_entries t)" "te_lastEmit e0 = o'" by blast
  have "tbl_get (lt_entries t) ?k = Some e0" using map_of_is_SomeI [OF ok(2) e0(1)] by (simp add: tbl_get_def)
  moreover have "te_lastEmit e0 \<le> te_lastEmit e1" if "tbl_get (lt_entries t) k1 = Some e1" for k1 e1
    using map_of_SomeD [OF that [unfolded tbl_get_def]] o(2,3) e0(2) unfolding es by auto
  ultimately show ?thesis using assms(2,3) ok(4) by (auto simp: evicted_def)
qed

lemma decide_changes:
  assumes "throttle_ok t"
  shows "\<exists>lost. (\<forall>k1. k1 \<noteq> key \<and> lost \<noteq> Some k1 \<longrightarrow>
      tbl_get (lt_entries (snd (decide key fp lvl now t))) k1 = tbl_get (lt_entries t) k1) \<and>
    (\<forall>k0. lost = Some k0 \<longrightarrow> evicted t key k0 \<and> tbl_get (lt_entries (snd (decide key fp lvl now t))) k0 = None)"
proof (cases "tbl_get (lt_entries t) key")
  case (Some e)
  then show ?thesis by (intro exI [of _ None]) (simp add: decide_def)
next
  case None
  show ?thesis
  proof (cases "length (lt_entries t) < lt_maxKeys t")
    case True
    with None show ?thesis by (intro exI [of _ None]) (simp add: decide_def evictLocked_def Let_def)
  next
    case False
    let ?k = "oldest_key [] zero_time (lt_entries t)"
    have out: "evicted t key ?k" using evict_oldest [OF assms False None] .
    then have "?k \<noteq> key" using None by (auto simp: evicted_def)
    with None False out show ?thesis by (intro exI [of _ "Some ?k"]) (simp add: decide_def evictLocked_def Let_def)
  qed
qed

lemma decide_records: "tbl_get (lt_entries (snd (decide key fp lvl now t))) key \<noteq> None"
  by (simp add: decide_def Let_def split: option.split)

definition throttle_after :: "log_throttle \<Rightarrow> (string \<times> instant \<times> log_record) list \<Rightarrow> log_throttle" where
  "throttle_after t rs = foldl (\<lambda>t (scope, now, r). snd (handle_record scope now r t)) t rs"

lemma throttle_after_run: "throttle_after t rs = foldl (\<lambda>s a. handled a s) t rs"
  unfolding throttle_after_def by (induction rs arbitrary: t) (auto simp: handled_def)

text \<open>C40: whatever records reach the handler, the throttle never holds more keys than its limit, which is 1024 for the
  throttle the daemon makes; a record at info level or above is always remembered under its key; and a record changes
  no other key, save that a new key in a full table evicts exactly one, a key whose last emission is the oldest of all.\<close>

theorem throttle_memory_bounded:
  assumes "0 < m"
  shows "newLogThrottle w = (newLogThrottle w)\<lparr>lt_maxKeys := 1024\<rparr> \<and>
    (let t = throttle_after ((newLogThrottle w)\<lparr>lt_maxKeys := m\<rparr>) rs; t' = snd (handle_record scope now r t);
         key = fst (recordIdentity scope r)
     in length (lt_entries t) \<le> m \<and>
        (LevelInfo \<le> lr_Level r \<longrightarrow> tbl_get (lt_entries t') key \<noteq> None) \<and>
        (\<exists>lost. (\<forall>k1. k1 \<noteq> key \<and> lost \<noteq> Some k1 \<longrightarrow> tbl_get (lt_entries t') k1 = tbl_get (lt_entries t) k1) \<and>
           (\<forall>k0. lost = Some k0 \<longrightarrow> evicted t key k0 \<and> tbl_get (lt_entries t') k0 = None)))"
proof -
  define t0 where "t0 = (newLogThrottle w)\<lparr>lt_maxKeys := m\<rparr>"
  define t where "t = throttle_after t0 rs"
  have ok: "throttle_ok t0" using assms by (simp add: t0_def throttle_ok_def newLogThrottle_def)
  have t: "throttle_ok t" "length (lt_entries t) \<le> m"
    using lt.run_well_formed [OF ok, of rs] lt.run_within [OF ok, of rs]
    by (simp_all add: t_def throttle_after_run throttle_size_def t0_def)
  have "LevelInfo \<le> lr_Level r \<longrightarrow> tbl_get (lt_entries (snd (handle_record scope now r t))) (fst (recordIdentity scope r)) \<noteq> None"
    using decide_records by (simp add: handle_record_throttle)
  moreover have "\<exists>lost. (\<forall>k1. k1 \<noteq> fst (recordIdentity scope r) \<and> lost \<noteq> Some k1 \<longrightarrow>
        tbl_get (lt_entries (snd (handle_record scope now r t))) k1 = tbl_get (lt_entries t) k1) \<and>
      (\<forall>k0. lost = Some k0 \<longrightarrow> evicted t (fst (recordIdentity scope r)) k0 \<and>
        tbl_get (lt_entries (snd (handle_record scope now r t))) k0 = None)"
  proof (cases "lr_Level r < LevelInfo")
    case True
    then show ?thesis by (intro exI [of _ None]) (simp add: handle_record_throttle)
  next
    case False
    then show ?thesis using decide_changes [OF t(1)] by (simp add: handle_record_throttle)
  qed
  moreover have "newLogThrottle w = (newLogThrottle w)\<lparr>lt_maxKeys := 1024\<rparr>" by (simp add: newLogThrottle_def maxThrottleKeys_def)
  ultimately show ?thesis using t(2) unfolding Let_def t_def t0_def by blast
qed

definition demo_record :: "string \<Rightarrow> log_record" where
  "demo_record msg = \<lparr>lr_Level = 0, lr_LevelName = ''INFO'', lr_Message = msg, lr_Attrs = []\<rparr>"

theorem throttle_memory_bounded_witness:
  "evicted (throttle_after ((newLogThrottle hour)\<lparr>lt_maxKeys := 2\<rparr>) [([], 5, demo_record ''a''), ([], 3, demo_record ''b'')])
     ''INFO|c'' ''INFO|b''"
proof -
  let ?t = "throttle_after ((newLogThrottle hour)\<lparr>lt_maxKeys := 2\<rparr>) [([], 5, demo_record ''a''), ([], 3, demo_record ''b'')]"
  have k: "fst (recordIdentity [] (demo_record ''c'')) = ''INFO|c''" by code_simp
  have gone: "tbl_get (lt_entries (snd (handle_record [] 7 (demo_record ''c'') ?t))) ''INFO|b'' = None" by code_simp
  have there: "tbl_get (lt_entries ?t) ''INFO|b'' \<noteq> None" by code_simp
  have "\<exists>lost. (\<forall>k1. k1 \<noteq> ''INFO|c'' \<and> lost \<noteq> Some k1 \<longrightarrow>
        tbl_get (lt_entries (snd (handle_record [] 7 (demo_record ''c'') ?t))) k1 = tbl_get (lt_entries ?t) k1) \<and>
      (\<forall>k0. lost = Some k0 \<longrightarrow> evicted ?t ''INFO|c'' k0)"
    using throttle_memory_bounded [of 2 hour "[([], 5, demo_record ''a''), ([], 3, demo_record ''b'')]" "[]" 7 "demo_record ''c''"]
    unfolding Let_def k by (simp only: zero_less_numeral) blast
  then obtain lost where l: "\<forall>k1. k1 \<noteq> ''INFO|c'' \<and> lost \<noteq> Some k1 \<longrightarrow>
        tbl_get (lt_entries (snd (handle_record [] 7 (demo_record ''c'') ?t))) k1 = tbl_get (lt_entries ?t) k1"
      "\<forall>k0. lost = Some k0 \<longrightarrow> evicted ?t ''INFO|c'' k0" by blast
  have "''INFO|b'' \<noteq> ''INFO|c''" by simp
  then have "lost = Some ''INFO|b''" using spec [OF l(1), of "''INFO|b''"] gone there by auto
  then show ?thesis using l(2) by blast
qed

subsection \<open>Runs of decisions\<close>

text \<open>One decision: the time, the key, the fingerprint, the level.  A run gives each decision its outcome.\<close>

record line =
  ln_key :: string
  ln_fp :: u64
  ln_level :: int
  ln_now :: instant

fun decide_run :: "line list \<Rightarrow> log_throttle \<Rightarrow> (line \<times> bool \<times> int) list \<times> log_throttle" where
  "decide_run [] t = ([], t)"
| "decide_run (l # ls) t =
     (case decide (ln_key l) (ln_fp l) (ln_level l) (ln_now l) t of
        (res, t) \<Rightarrow> (case decide_run ls t of (rest, t) \<Rightarrow> ((l, res) # rest, t)))"

lemma decide_run_append:
  "decide_run (ls @ [l]) t =
     (case decide_run ls t of (rest, t) \<Rightarrow>
        (case decide (ln_key l) (ln_fp l) (ln_level l) (ln_now l) t of (res, t) \<Rightarrow> (rest @ [(l, res)], t)))"
  by (induction ls arbitrary: t) (auto split: prod.splits)

lemma decide_run_lines: "map fst (fst (decide_run ls t)) = ls"
  by (induction ls arbitrary: t) (simp_all add: split_beta)

definition emitted :: "string \<Rightarrow> (line \<times> bool \<times> int) list \<Rightarrow> (line \<times> bool \<times> int) list" where
  "emitted k tr = filter (\<lambda>(l, e, h). ln_key l = k \<and> e) tr"

definition asked :: "string \<Rightarrow> (line \<times> bool \<times> int) list \<Rightarrow> int" where
  "asked k tr = int (length (filter (\<lambda>(l, e, h). ln_key l = k) tr))"

definition accounted :: "string \<Rightarrow> (line \<times> bool \<times> int) list \<Rightarrow> int" where
  "accounted k tr = (\<Sum>(l, e, h) \<leftarrow> emitted k tr. 1 + h)"

definition pending :: "string \<Rightarrow> log_throttle \<Rightarrow> int" where
  "pending k t = (case tbl_get (lt_entries t) k of None \<Rightarrow> 0 | Some e \<Rightarrow> te_suppressed e)"

text \<open>What every run keeps while the table does not overflow.\<close>

lemma decide_no_eviction:
  assumes "length (lt_entries t) < lt_maxKeys t \<or> tbl_get (lt_entries t) (ln_key l) \<noteq> None"
  shows "tbl_get (lt_entries (snd (decide (ln_key l) fp lvl now t))) k =
      (if k = ln_key l
       then (case tbl_get (lt_entries t) k of
               None \<Rightarrow> Some \<lparr>te_fingerprint = fp, te_lastEmit = now, te_suppressed = 0\<rparr>
             | Some e \<Rightarrow> if fst (fst (decide (ln_key l) fp lvl now t))
                         then Some \<lparr>te_fingerprint = fp, te_lastEmit = now, te_suppressed = 0\<rparr>
                         else Some (e\<lparr>te_suppressed := te_suppressed e + 1\<rparr>))
       else tbl_get (lt_entries t) k)"
  using assms by (auto simp: decide_def evictLocked_def Let_def split: option.splits)

text \<open>The entry of a key describes the key's last emitted line and counts the lines held back since.\<close>

definition key_inv :: "string \<Rightarrow> (line \<times> bool \<times> int) list \<Rightarrow> log_throttle \<Rightarrow> bool" where
  "key_inv k tr t =
     (accounted k tr + pending k t = asked k tr \<and>
      (case tbl_get (lt_entries t) k of
         None \<Rightarrow> emitted k tr = []
       | Some e \<Rightarrow> emitted k tr \<noteq> [] \<and> te_fingerprint e = ln_fp (fst (last (emitted k tr)))
           \<and> te_lastEmit e = ln_now (fst (last (emitted k tr)))))"

definition run_inv :: "line list \<Rightarrow> (line \<times> bool \<times> int) list \<Rightarrow> log_throttle \<Rightarrow> bool" where
  "run_inv ls tr t = (throttle_ok t \<and> fst ` set (lt_entries t) \<subseteq> ln_key ` set ls \<and> (\<forall>k. key_inv k tr t))"

lemma trace_append [simp]:
  "emitted k (tr @ [(l, e, h)]) = emitted k tr @ (if ln_key l = k \<and> e then [(l, e, h)] else [])"
  "asked k (tr @ [(l, e, h)]) = asked k tr + (if ln_key l = k then 1 else 0)"
  "accounted k (tr @ [(l, e, h)]) = accounted k tr + (if ln_key l = k \<and> e then 1 + h else 0)"
  by (simp_all add: emitted_def asked_def accounted_def)

lemma decide_outcome:
  "fst (decide key fp lvl now t) =
     (case tbl_get (lt_entries t) key of
        None \<Rightarrow> (True, 0)
      | Some e \<Rightarrow> if te_fingerprint e \<noteq> fp \<or> windowFor t lvl \<le> time_sub now (te_lastEmit e)
                   then (True, te_suppressed e) else (False, 0))"
  by (auto simp: decide_def Let_def split: option.splits)

lemma decide_keys:
  assumes "length (lt_entries t) < lt_maxKeys t \<or> tbl_get (lt_entries t) key \<noteq> None"
  shows "fst ` set (lt_entries (snd (decide key fp lvl now t))) \<subseteq> insert key (fst ` set (lt_entries t))"
  using assms by (auto simp: decide_def evictLocked_def Let_def tbl_put_keys split: option.splits)

lemma run_inv_step:
  assumes inv: "run_inv ls tr t" and key: "ln_key l \<noteq> []" and few: "card (ln_key ` set (ls @ [l])) \<le> lt_maxKeys t"
    and d: "decide (ln_key l) (ln_fp l) (ln_level l) (ln_now l) t = (res, t')"
  shows "run_inv (ls @ [l]) (tr @ [(l, res)]) t'"
proof -
  obtain emit held where res: "res = (emit, held)" by (cases res)
  have room: "length (lt_entries t) < lt_maxKeys t \<or> tbl_get (lt_entries t) (ln_key l) \<noteq> None"
  proof (rule disjCI)
    assume "\<not> tbl_get (lt_entries t) (ln_key l) \<noteq> None"
    then have "ln_key l \<notin> fst ` set (lt_entries t)" using tbl_get_keys by metis
    moreover have "length (lt_entries t) = card (fst ` set (lt_entries t))"
      using inv distinct_card by (fastforce simp: run_inv_def throttle_ok_def)
    moreover have "insert (ln_key l) (fst ` set (lt_entries t)) \<subseteq> ln_key ` set (ls @ [l])"
      using inv by (auto simp: run_inv_def)
    then have "card (insert (ln_key l) (fst ` set (lt_entries t))) \<le> lt_maxKeys t"
      using few card_mono [of "ln_key ` set (ls @ [l])"] by (meson List.finite_set finite_imageI le_trans)
    ultimately show "length (lt_entries t) < lt_maxKeys t" by simp
  qed
  have t': "t' = snd (decide (ln_key l) (ln_fp l) (ln_level l) (ln_now l) t)"
    and res': "(emit, held) = fst (decide (ln_key l) (ln_fp l) (ln_level l) (ln_now l) t)"
    using d res by simp_all
  have "throttle_ok t'" unfolding t' using inv key by (simp add: decide_ok run_inv_def)
  moreover have "fst ` set (lt_entries t') \<subseteq> ln_key ` set (ls @ [l])"
    using inv decide_keys [OF room, of "ln_fp l" "ln_level l" "ln_now l"] by (auto simp: t' run_inv_def)
  moreover have "key_inv k (tr @ [(l, res)]) t'" for k
  proof -
    have "key_inv k tr t" using inv by (simp add: run_inv_def)
    then show ?thesis
      using res' decide_no_eviction [OF room, of "ln_fp l" "ln_level l" "ln_now l" k]
      by (cases "k = ln_key l") (auto simp: key_inv_def pending_def t' res decide_outcome split: option.splits if_splits)
  qed
  ultimately show ?thesis by (simp add: run_inv_def)
qed

lemma decide_run_inv:
  assumes "[] \<notin> ln_key ` set ls" "card (ln_key ` set ls) \<le> maxThrottleKeys"
  shows "run_inv ls (fst (decide_run ls (newLogThrottle w))) (snd (decide_run ls (newLogThrottle w))) \<and>
    lt_maxKeys (snd (decide_run ls (newLogThrottle w))) = maxThrottleKeys \<and>
    lt_window (snd (decide_run ls (newLogThrottle w))) = w"
  using assms
proof (induction ls rule: rev_induct)
  case Nil
  show ?case
    using newLogThrottle_ok [of w]
    by (simp add: run_inv_def key_inv_def) (simp add: newLogThrottle_def pending_def accounted_def asked_def emitted_def)
next
  case (snoc l ls)
  have "card (ln_key ` set ls) \<le> card (ln_key ` set (ls @ [l]))"
    by (rule card_mono) auto
  with snoc obtain tr t where run: "decide_run ls (newLogThrottle w) = (tr, t)"
    and inv: "run_inv ls tr t" "lt_maxKeys t = maxThrottleKeys" "lt_window t = w"
    by (cases "decide_run ls (newLogThrottle w)") auto
  obtain res t' where d: "decide (ln_key l) (ln_fp l) (ln_level l) (ln_now l) t = (res, t')" by (metis surj_pair)
  then have "lt_maxKeys t' = lt_maxKeys t" "lt_window t' = lt_window t"
    by (metis decide_params snd_conv)+
  moreover have "run_inv (ls @ [l]) (tr @ [(l, res)]) t'"
    using snoc.prems inv by (intro run_inv_step [OF inv(1) _ _ d]) auto
  ultimately show ?case
    using inv by (simp add: decide_run_append run d)
qed

text \<open>While at most 1024 different lines occur, no line is lost: for every key, the lines asked
  for are the emitted ones, the copies their counts report, and the ones held back since the last
  emission.\<close>

theorem throttle_counts_every_line:
  assumes "[] \<notin> ln_key ` set ls" "card (ln_key ` set ls) \<le> maxThrottleKeys"
    and "decide_run ls (newLogThrottle w) = (tr, t)"
  shows "asked k tr = (\<Sum>(l, e, h) \<leftarrow> emitted k tr. 1 + h) + pending k t"
  using decide_run_inv [OF assms(1,2), of w] assms(3) by (auto simp: run_inv_def key_inv_def accounted_def)

text \<open>And a line is emitted exactly when it is the first of its key, its content differs from the
  last emitted copy, or that copy is at least a repeat window old (15 minutes for errors when the
  window is longer).\<close>

theorem throttle_emits_iff:
  assumes "[] \<notin> ln_key ` set (ls @ [l])" "card (ln_key ` set (ls @ [l])) \<le> maxThrottleKeys"
    and "decide_run (ls @ [l]) (newLogThrottle w) = (tr @ [(l, emit, held)], t)"
  shows "emit \<longleftrightarrow> emitted (ln_key l) tr = [] \<or>
    (let prev = fst (last (emitted (ln_key l) tr))
     in ln_fp prev \<noteq> ln_fp l \<or>
        (if LevelError \<le> ln_level l then min w errorLogRepeatWindow else w) \<le> time_sub (ln_now l) (ln_now prev))"
proof -
  have "card (ln_key ` set ls) \<le> card (ln_key ` set (ls @ [l]))"
    by (rule card_mono) auto
  then obtain t0 where run: "decide_run ls (newLogThrottle w) = (tr, t0)"
    and inv: "run_inv ls tr t0" "lt_window t0 = w"
    and d: "fst (decide (ln_key l) (ln_fp l) (ln_level l) (ln_now l) t0) = (emit, held)"
    using decide_run_inv [of ls w] assms by (auto simp: decide_run_append split: prod.splits)
  have "key_inv (ln_key l) tr t0" using inv by (simp add: run_inv_def)
  then show ?thesis
    using inv(2) d
    by (auto simp: key_inv_def decide_outcome windowFor_def Let_def split: option.splits if_splits)
qed

definition demo_line :: "string \<Rightarrow> u64 \<Rightarrow> instant \<Rightarrow> line" where
  "demo_line k fp now = \<lparr>ln_key = k, ln_fp = fp, ln_level = LevelInfo, ln_now = now\<rparr>"

definition demo_lines :: "line list" where
  "demo_lines = [demo_line ''a'' 1 0, demo_line ''a'' 1 minute, demo_line ''b'' 7 minute, demo_line ''a'' 1 (2 * minute)]"

lemma demo_run:
  "decide_run demo_lines (newLogThrottle hour) =
     ([(demo_line ''a'' 1 0, True, 0), (demo_line ''a'' 1 minute, False, 0), (demo_line ''b'' 7 minute, True, 0),
       (demo_line ''a'' 1 (2 * minute), False, 0)],
      snd (decide_run demo_lines (newLogThrottle hour)))"
  "decide_run (demo_lines @ [demo_line ''a'' 1 hour]) (newLogThrottle hour) =
     (fst (decide_run demo_lines (newLogThrottle hour)) @ [(demo_line ''a'' 1 hour, True, 2)],
      snd (decide_run (demo_lines @ [demo_line ''a'' 1 hour]) (newLogThrottle hour)))"
  by code_simp+

lemma throttle_counts_every_line_witness:
  "[] \<notin> ln_key ` set demo_lines \<and> card (ln_key ` set demo_lines) \<le> maxThrottleKeys \<and>
   asked ''a'' (fst (decide_run demo_lines (newLogThrottle hour))) = 1 + 2"
proof -
  have h: "[] \<notin> ln_key ` set demo_lines" "card (ln_key ` set demo_lines) \<le> maxThrottleKeys"
    by (simp_all add: demo_lines_def demo_line_def maxThrottleKeys_def card_insert_if)
  have "(\<Sum>(l, e, h) \<leftarrow> emitted ''a'' (fst (decide_run demo_lines (newLogThrottle hour))). 1 + h) = 1"
    "pending ''a'' (snd (decide_run demo_lines (newLogThrottle hour))) = 2"
    by code_simp+
  with throttle_counts_every_line [OF h surjective_pairing, where w = hour and k = "''a''"] h show ?thesis by simp
qed

lemma throttle_emits_iff_witness:
  "[] \<notin> ln_key ` set (demo_lines @ [demo_line ''a'' 1 hour]) \<and>
   card (ln_key ` set (demo_lines @ [demo_line ''a'' 1 hour])) \<le> maxThrottleKeys \<and>
   emitted ''a'' (fst (decide_run demo_lines (newLogThrottle hour))) = [(demo_line ''a'' 1 0, True, 0)] \<and>
   hour \<le> time_sub hour 0"
proof -
  have h: "[] \<notin> ln_key ` set (demo_lines @ [demo_line ''a'' 1 hour])"
    "card (ln_key ` set (demo_lines @ [demo_line ''a'' 1 hour])) \<le> maxThrottleKeys"
    by (simp_all add: demo_lines_def demo_line_def maxThrottleKeys_def card_insert_if)
  have e: "emitted ''a'' (fst (decide_run demo_lines (newLogThrottle hour))) = [(demo_line ''a'' 1 0, True, 0)]"
    by code_simp
  have "ln_key (demo_line ''a'' 1 hour) = ''a''" "\<not> LevelError \<le> ln_level (demo_line ''a'' 1 hour)"
    "ln_fp (demo_line ''a'' 1 hour) = 1" "ln_fp (demo_line ''a'' 1 0) = 1" "ln_now (demo_line ''a'' 1 hour) = hour"
    "ln_now (demo_line ''a'' 1 0) = 0"
    by (simp_all add: demo_line_def LevelInfo_def LevelError_def)
  with throttle_emits_iff [OF h demo_run(2)] h e show ?thesis by simp
qed

subsection \<open>Runs of compact reports\<close>

text \<open>A daemon's reports with the times they are written; which are written in full.\<close>

fun report_run :: "(cycle_report \<times> instant) list \<Rightarrow> report_throttle \<Rightarrow> bool list \<times> report_throttle" where
  "report_run [] t = ([], t)"
| "report_run ((r, now) # rs) t =
     (case full_report r now t of (whole, t) \<Rightarrow> (case report_run rs t of (ws, t) \<Rightarrow> (whole # ws, t)))"

lemma report_run_append:
  "report_run (rs @ [(r, now)]) t =
     (case report_run rs t of (ws, t) \<Rightarrow> (case full_report r now t of (whole, t) \<Rightarrow> (ws @ [whole], t)))"
  by (induction rs t rule: report_run.induct) (auto split: prod.splits)

definition newReportThrottle :: "duration \<Rightarrow> report_throttle" where
  "newReportThrottle w = \<lparr>rt_window = w, rt_fingerprint = [], rt_lastFull = zero_time, rt_unchanged = 0\<rparr>"

text \<open>The reports written in full, and how many compact lines followed the last of them.\<close>

definition full_reports :: "(cycle_report \<times> instant) list \<Rightarrow> bool list \<Rightarrow> (cycle_report \<times> instant) list" where
  "full_reports rs ws = map fst (filter snd (zip rs ws))"

lemma report_run_inv:
  assumes "report_run rs (newReportThrottle w) = (ws, t)" "zero_time \<notin> snd ` set rs"
  shows "length ws = length rs \<and> rt_window t = w \<and> rt_unchanged t = int (trailing_failures ws) \<and>
    (if True \<in> set ws
     then rt_lastFull t = snd (last (full_reports rs ws)) \<and> rt_lastFull t \<noteq> zero_time \<and> full_reports rs ws \<noteq> [] \<and>
       rt_fingerprint t = reportFingerprint (fst (last (full_reports rs ws)))
     else ws = [] \<and> rt_lastFull t = zero_time)"
  using assms
proof (induction rs arbitrary: ws t rule: rev_induct)
  case Nil
  then show ?case by (auto simp: newReportThrottle_def trailing_failures_def)
next
  case (snoc x rs)
  obtain r now where x: "x = (r, now)" by (cases x)
  obtain ws0 t0 where run: "report_run rs (newReportThrottle w) = (ws0, t0)" by (metis surj_pair)
  have IH: "length ws0 = length rs \<and> rt_window t0 = w \<and> rt_unchanged t0 = int (trailing_failures ws0) \<and>
    (if True \<in> set ws0
     then rt_lastFull t0 = snd (last (full_reports rs ws0)) \<and> rt_lastFull t0 \<noteq> zero_time \<and> full_reports rs ws0 \<noteq> [] \<and>
       rt_fingerprint t0 = reportFingerprint (fst (last (full_reports rs ws0)))
     else ws0 = [] \<and> rt_lastFull t0 = zero_time)"
    by (rule snoc.IH [OF run]) (use snoc.prems in auto)
  have now: "now \<noteq> zero_time" using snoc.prems x by force
  show ?case
  proof (cases "fst (full_report r now t0)")
    case True
    with snoc.prems run IH now show ?thesis
      by (auto simp: x report_run_append full_report_def Let_def full_reports_def trailing_failures_def split: if_splits)
  next
    case False
    with snoc.prems run IH show ?thesis
      by (auto simp: x report_run_append full_report_def Let_def full_reports_def trailing_failures_def split: if_splits)
  qed
qed

text \<open>A daemon writes a cycle's report in full exactly when it is the first, its fingerprint
  differs from the last full report's, or that one is at least a window old (always, when the
  window is not positive); the compact line's count is the number of cycles since.\<close>

theorem report_full_iff:
  assumes "report_run (rs @ [(r, now)]) (newReportThrottle w) = (ws @ [whole], t)" "zero_time \<notin> snd ` set (rs @ [(r, now)])"
  shows "(whole \<longleftrightarrow> w \<le> 0 \<or> full_reports rs ws = [] \<or>
      (let (last_r, last_at) = last (full_reports rs ws)
       in reportFingerprint last_r \<noteq> reportFingerprint r \<or> w \<le> time_sub now last_at)) \<and>
    rt_unchanged t = int (trailing_failures (ws @ [whole]))"
proof
  obtain ws0 t0 where run: "report_run rs (newReportThrottle w) = (ws0, t0)" by (metis surj_pair)
  with assms have ws: "ws0 = ws" and full: "full_report r now t0 = (whole, t)"
    by (auto simp: report_run_append split: prod.splits)
  have "zero_time \<notin> snd ` set rs" using assms(2) by auto
  from report_run_inv [OF run this] ws full
  show "whole \<longleftrightarrow> w \<le> 0 \<or> full_reports rs ws = [] \<or>
      (let (last_r, last_at) = last (full_reports rs ws)
       in reportFingerprint last_r \<noteq> reportFingerprint r \<or> w \<le> time_sub now last_at)"
    by (auto simp: full_report_def Let_def split_beta full_reports_def split: if_splits)
  show "rt_unchanged t = int (trailing_failures (ws @ [whole]))"
    using report_run_inv [OF assms] by simp
qed

definition demo_reports_at :: "(cycle_report \<times> instant) list" where
  "demo_reports_at = [(zero_cycle_report, 0), (zero_cycle_report, minute)]"

lemma report_full_iff_witness:
  "zero_time \<notin> snd ` set (demo_reports_at @ [(zero_cycle_report, hour)]) \<and>
   report_run (demo_reports_at @ [(zero_cycle_report, hour)]) (newReportThrottle hour) =
     ([True, False, True], snd (report_run (demo_reports_at @ [(zero_cycle_report, hour)]) (newReportThrottle hour))) \<and>
   hour \<le> time_sub hour 0"
proof -
  have run: "report_run (demo_reports_at @ [(zero_cycle_report, hour)]) (newReportThrottle hour) =
     ([True, False] @ [True], snd (report_run (demo_reports_at @ [(zero_cycle_report, hour)]) (newReportThrottle hour)))"
    by code_simp
  have z: "zero_time \<notin> snd ` set (demo_reports_at @ [(zero_cycle_report, hour)])"
    by (simp add: demo_reports_at_def duration_units zero_time_def)
  have "full_reports demo_reports_at [True, False] = [(zero_cycle_report, 0)]"
    by (simp add: full_reports_def demo_reports_at_def)
  moreover have "\<not> hour \<le> 0" by (simp add: duration_units)
  ultimately show ?thesis using report_full_iff [OF run z] run z by simp
qed

end
