(* ===== verification/Report_Text.thy ===== *)
theory Report_Text
  imports Log_Throttle
begin

text \<open>
  The human-readable cycle report, \<open>report_text.go\<close>, and the daemon's choice between the full
  report and the compact line (\<open>writeDaemonReport\<close>, \<open>writeReport\<close> in \<open>main.go\<close>).  A function
  that writes to an \<open>io.Writer\<close> is the list of its writes, in order; \<open>run_writes\<close> performs them
  and stops at the first that fails, as the code's early returns do.  Times are the RFC3339 text
  of \<open>stamp_text\<close>; a percentage is the rational the float64 denotes.
\<close>

fun run_writes :: "(string \<Rightarrow> 'w \<Rightarrow> string option \<times> 'w) \<Rightarrow> string list \<Rightarrow> 'w \<Rightarrow> string option \<times> 'w" where
  "run_writes write [] w = (None, w)"
| "run_writes write (c # cs) w =
     (case write c w of (Some err, w) \<Rightarrow> (Some err, w) | (None, w) \<Rightarrow> run_writes write cs w)"

subsection \<open>Numbers\<close>

text \<open>The loop that scales a value down and counts the units passed; \<open>hi\<close> is \<open>len(units) - 1\<close>.\<close>

function scale_down :: "rat \<Rightarrow> float64 \<Rightarrow> nat \<Rightarrow> nat \<Rightarrow> float64 \<times> nat" where
  "scale_down base value unit hi =
     (if base \<le> value \<and> unit < hi then scale_down base (fdiv value base) (unit + 1) hi else (value, unit))"
  by pat_completeness auto
termination by (relation "measure (\<lambda>(base, value, unit, hi). hi - unit)") auto

declare scale_down.simps [simp del]

definition formatCount :: "u64 \<Rightarrow> string" where
  "formatCount count =
     (case scale_down 1000 (float_of_u64 count) 0 4 of
        (value, unit) \<Rightarrow>
          (if unit = 0 then show_int (uint count) else fixed1 value @ [[], ''K'', ''M'', ''G'', ''T''] ! unit))"

definition formatByteCount :: "int \<Rightarrow> string" where
  "formatByteCount bytes =
     (if bytes \<le> 0 then ''0 B''
      else case scale_down 1024 (float_of_int bytes) 0 4 of
        (value, unit) \<Rightarrow>
          (if unit = 0 then show_int bytes @ '' B''
           else fixed1 value @ '' '' @ [''B'', ''KiB'', ''MiB'', ''GiB'', ''TiB''] ! unit))"

definition formatSignedByteCount :: "int \<Rightarrow> string" where
  "formatSignedByteCount bytes =
     (if bytes < 0 then ''-'' @ formatByteCount (wrap64 (- bytes))
      else if 0 < bytes then ''+'' @ formatByteCount bytes else ''0 B'')"

definition formatSignedCount :: "int \<Rightarrow> string" where
  "formatSignedCount count =
     (if count < 0 then ''-'' @ formatCount (u64_of_int (wrap64 (- count)))
      else if 0 < count then ''+'' @ formatCount (u64_of_int count) else ''0'')"

text \<open>Freed bytes, with an item count only when there is one.\<close>

definition formatCleaned :: "int \<Rightarrow> int \<Rightarrow> string" where
  "formatCleaned bytes items =
     (if items \<le> 0 then formatByteCount bytes
      else formatByteCount bytes @ '' across '' @ show_int items @ '' '' @ (if items = 1 then ''item'' else ''items''))"

subsection \<open>One plugin\<close>

definition pluginStatus :: "plugin_report \<Rightarrow> string" where
  "pluginStatus p =
     (if pr_Ran p \<and> pr_Error p \<noteq> [] then ''failed''
      else if pr_Ran p then ''ran''
      else if pr_DryRun p \<and> pr_WouldRun p then ''would run''
      else ''skipped'')
     @ (if pr_SkipReason p \<noteq> [] then '' ('' @ pr_SkipReason p @ '')'' else [])"

definition writeTextPlanAccounting :: "string table \<Rightarrow> string list" where
  "writeTextPlanAccounting metadata =
     (case planMetadataInt64 metadata ''total_physical_bytes'' of
        (physical, ok) \<Rightarrow>
          (if \<not> ok \<or> physical \<le> 0 then []
           else [''  accounting: total '' @ formatByteCount physical
                 @ '', host reclaim '' @ formatByteCount (fst (planMetadataInt64 metadata ''host_reclaim_candidate_bytes''))
                 @ '', deferred '' @ formatByteCount (fst (planMetadataInt64 metadata ''deferred_reclaim_candidate_bytes''))
                 @ '', protected '' @ formatByteCount (fst (planMetadataInt64 metadata ''protected_physical_bytes''))
                 @ '', active protected '' @ formatByteCount (fst (planMetadataInt64 metadata ''active_protected_physical_bytes''))
                 @ '', review '' @ formatByteCount (fst (planMetadataInt64 metadata ''review_physical_bytes'')) @ newline]))"

text \<open>The first \<open>limit\<close> items with the shape \<open>show\<close> gives them, then the count of the rest.\<close>

definition limited :: "nat \<Rightarrow> (int \<Rightarrow> string) \<Rightarrow> ('a \<Rightarrow> string list) \<Rightarrow> 'a list \<Rightarrow> string list" where
  "limited limit rest each items =
     concat (map each (take limit items))
     @ (if limit < length items then [rest (int (length items) - int limit)] else [])"

definition writeTextList :: "string \<Rightarrow> string list \<Rightarrow> nat \<Rightarrow> string list" where
  "writeTextList header items limit =
     (header @ newline)
     # limited limit (\<lambda>n. ''  - ... '' @ show_int n @ '' more'' @ newline) (\<lambda>item. [''  - '' @ item @ newline]) items"

definition writeTextTarget :: "cleanup_target \<Rightarrow> string list" where
  "writeTextTarget t =
     (let status = ct_Action t @ (if ct_Protected t then '', protected'' else []) @ (if ct_Active t then '', active'' else []);
          name = (if ct_Name t = [] then ct_Path t else ct_Name t);
          name = (if name = [] then ct_Type t else name);
          name = (if ct_Path t \<noteq> [] \<and> ct_Path t \<noteq> name then name @ '' ('' @ ct_Path t @ '')'' else name)
      in [''  - '' @ name @ '' ['' @ ct_Type t @ '']: '' @ status]
         @ (if ct_Tier t \<noteq> [] then ['', tier='' @ ct_Tier t] else [])
         @ (if ct_Reclaim t \<noteq> [] then ['', reclaim='' @ ct_Reclaim t] else [])
         @ (if 0 < ct_Bytes t then ['', '' @ formatByteCount (ct_Bytes t)] else [])
         @ (if 0 < ct_LogicalBytes t \<and> ct_LogicalBytes t \<noteq> ct_Bytes t
            then ['', logical '' @ formatByteCount (ct_LogicalBytes t)] else [])
         @ (if ct_Reason t \<noteq> [] then ['' - '' @ ct_Reason t] else [])
         @ [newline])"

definition write_plan :: "cleanup_plan \<Rightarrow> string list" where
  "write_plan plan =
     (if cp_Summary plan \<noteq> [] then [''  plan: '' @ cp_Summary plan @ newline] else [])
     @ (if \<not> cp_WouldRun plan \<and> cp_SkipReason plan \<noteq> [] then [''  plan skip: '' @ cp_SkipReason plan @ newline] else [])
     @ (if 0 < cp_EstimatedBytesFreed plan \<or> 0 < cp_RequiredFreeBytes plan \<or> cp_Targets plan \<noteq> []
        then [''  estimate: '' @ formatByteCount (cp_EstimatedBytesFreed plan) @ '' reclaim, ''
              @ formatByteCount (cp_RequiredFreeBytes plan) @ '' required free, ''
              @ show_int (int (length (cp_Targets plan))) @ '' targets'' @ newline]
        else [])
     @ writeTextPlanAccounting (cp_Metadata plan)
     @ (if cp_Warnings plan \<noteq> [] then writeTextList ''  warnings:'' (cp_Warnings plan) 3 else [])
     @ (if cp_Targets plan \<noteq> []
        then (''  targets:'' @ newline)
             # limited 5 (\<lambda>n. ''  - ... '' @ show_int n @ '' more targets'' @ newline) writeTextTarget (cp_Targets plan)
        else [])"

definition write_wedged :: "plugin_report \<Rightarrow> string list" where
  "write_wedged p =
     (if pr_Wedged p \<noteq> []
      then [''  wedged: '' @ pr_Wedged p
            @ (if pr_WedgedSince p \<noteq> NoStamp then '' since '' @ stamp_text (pr_WedgedSince p) else [])
            @ (if pr_LastCommand p \<noteq> [] then '', last command: '' @ pr_LastCommand p else []) @ newline]
      else [])
     @ map (\<lambda>command. ''  killed at deadline: '' @ trim_prefix command ''wedged:'' @ newline) (pr_WedgedCommands p)"

definition writeTextPluginReport :: "plugin_report \<Rightarrow> string list" where
  "writeTextPluginReport p =
     [''- '' @ pr_Name p @ '': '' @ pluginStatus p @ newline] @ write_wedged p
     @ (case pr_Plan p of
          Some plan \<Rightarrow> write_plan plan
        | None \<Rightarrow>
            (if pr_Error p \<noteq> [] then [''  error: '' @ pr_Error p @ newline] else [])
            @ (if 0 < pr_CooldownRemainingSeconds p
               then [''  cooldown remaining: '' @ show_int (pr_CooldownRemainingSeconds p) @ ''s'' @ newline] else [])
            @ (if pr_RetryAt p \<noteq> NoStamp then [''  retry at: '' @ stamp_text (pr_RetryAt p) @ newline] else [])
            @ (if 0 < pr_BytesFreed p \<or> 0 < pr_ItemsCleaned p
               then [''  cleaned: '' @ formatCleaned (pr_BytesFreed p) (pr_ItemsCleaned p) @ newline] else [])
            @ (if pr_SuppressedUntil p \<noteq> NoStamp
               then [''  zero yield: '' @ show_int (pr_ZeroYieldCount p) @ '' runs, suppressed until ''
                     @ stamp_text (pr_SuppressedUntil p) @ newline] else [])
            @ (if pr_ZeroYieldLifted p \<noteq> []
               then [''  zero-yield suppression lifted: '' @ pr_ZeroYieldLifted p @ newline] else []))"

subsection \<open>The report\<close>

definition write_mount :: "mount_report \<Rightarrow> string list" where
  "write_mount m =
     (let label = (if mr_Label m = [] then mr_Path m else mr_Label m)
      in if mr_Error m \<noteq> []
         then [''- '' @ label @ '' ('' @ mr_Path m @ ''): unavailable ('' @ mr_Error m @ '')'' @ newline]
         else
           let inodeStatus =
                 (if mr_InodesTotal m = 0 then ''inodes unavailable''
                  else fixed1 (mr_InodesUsedPercent m) @ ''% inodes used, '' @ formatCount (mr_InodesFree m) @ '' inodes free''
                    @ (if 0 < mr_InodeFreeFloor m
                       then '', floor '' @ formatCount (mr_InodeFreeFloor m) @ '' free (percent ladder skipped)''
                       else if mr_InodesDynamic m
                       then '', dynamic inodes on '' @ mr_Fstype m @ '' (percent ladder skipped; set inode_free_floor)''
                       else []))
           in [''- '' @ label @ '' ('' @ mr_Path m @ ''): '' @ fixed1 (mr_UsedPercent m) @ ''% bytes used, ''
               @ formatByteCount (i64_of_u64 (mr_FreeBytes m)) @ '' free, '' @ inodeStatus @ '', level '' @ mr_Level m]
              @ (if mr_ByteLevel m \<noteq> [] \<or> mr_InodeLevel m \<noteq> []
                 then ['' (bytes '' @ mr_ByteLevel m @ '', inodes ''
                       @ (if mr_InodeLevel m = [] then ''n/a'' else mr_InodeLevel m) @ '')'']
                 else [])
              @ [newline])"

definition write_host :: "cycle_report \<Rightarrow> string list" where
  "write_host r =
     (if r_HostFreeError r \<noteq> [] then [''host free: unavailable ('' @ r_HostFreeError r @ '')'' @ newline]
      else if 0 < r_HostFreeBeforeBytes r \<or> 0 < r_HostFreeAfterBytes r then
        [''host free: '' @ formatByteCount (i64_of_u64 (r_HostFreeBeforeBytes r)) @ '' before, ''
         @ (if 0 < r_HostFreeAfterBytes r then formatByteCount (i64_of_u64 (r_HostFreeAfterBytes r)) else ''not measured'')
         @ '' after, delta '' @ formatSignedByteCount (r_HostFreeDeltaBytes r) @ newline]
      else [])
     @ (if 0 < r_HostInodesTotal r then
          let measured = (0 < r_HostFreeAfterBytes r \<or> 0 < r_HostInodesFreeAfter r \<or> 0 < r_HostInodesUsedPercentAfter r)
          in [''host inodes: '' @ fixed1 (r_HostInodesUsedPercentBefore r) @ ''% used before, ''
              @ fixed1 (if measured then r_HostInodesUsedPercentAfter r else r_HostInodesUsedPercentBefore r)
              @ ''% used after, '' @ formatCount (r_HostInodesFreeBefore r) @ '' free before, ''
              @ (if measured then formatCount (r_HostInodesFreeAfter r) else ''not measured'') @ '' free after, delta ''
              @ formatSignedCount (r_HostInodesFreeDelta r) @ '', level '' @ r_HostInodeLevel r @ newline]
        else [])"

definition write_targets :: "cycle_report \<Rightarrow> string list" where
  "write_targets r =
     (if 0 < r_TargetUsedPercent r
      then [''target: <='' @ show_int (r_TargetUsedPercent r) @ ''% used, need ''
            @ formatByteCount (i64_of_u64 (r_TargetFreeBytes r)) @ '' free, deficit ''
            @ formatByteCount (r_TargetFreeDeficitBytes r) @ newline]
      else [])
     @ (if 0 < r_MinimumFreeBytes r
        then [''minimum free: need '' @ formatByteCount (i64_of_u64 (r_MinimumFreeBytes r)) @ '' free, deficit ''
              @ formatByteCount (r_MinimumFreeDeficitBytes r) @ newline]
        else [])
     @ (if r_StopReason r \<noteq> [] then [''stop: '' @ r_StopReason r @ newline] else [])
     @ (if r_InodeBackoff r
        then [''inode backoff: pressure unrelieved after '' @ show_int (r_InodeNoProgressCount r)
              @ '' cycles, applying cooldown'' @ newline]
        else [])
     @ (if r_ByteBackoff r
        then [''byte backoff: pressure unrelieved after '' @ show_int (r_ByteNoProgressCount r)
              @ '' cycles, plugins run at most every '' @ show_int (r_ByteBackoffSeconds r) @ ''s'' @ newline]
        else if r_ByteBackoffReason r = ''below_emergency_floor''
        then [''byte backoff: held off, free space below the '' @ formatByteCount (i64_of_u64 (r_EmergencyFreeBytes r))
              @ '' emergency floor'' @ newline]
        else [])"

definition write_schedule :: "cycle_report \<Rightarrow> string list" where
  "write_schedule r =
     (if r_StateQuarantined r \<noteq> []
      then [''state: unreadable file quarantined to '' @ r_StateQuarantined r @ ''; continuing with fresh state'' @ newline]
      else [])
     @ (if r_NextRetryAt r \<noteq> NoStamp then [''next plugin retry: '' @ stamp_text (r_NextRetryAt r) @ newline] else [])
     @ (if r_NextCycleAt r \<noteq> NoStamp
        then [''next cycle: '' @ stamp_text (r_NextCycleAt r) @ '' (this cycle took '' @ show_int (r_CycleDurationMs r)
              @ ''ms)'' @ newline]
        else [])"

definition write_header :: "cycle_report \<Rightarrow> string list" where
  "write_header r =
     (let mode = (if r_Level r = level_string LevelNone then ''monitor'' else if r_DryRun r then ''dry-run'' else ''cleanup'')
      in [''tinyland-cleanup '' @ mode @ '' report'' @ newline]
         @ (if r_Timestamp r \<noteq> NoStamp then [''time: '' @ stamp_text (r_Timestamp r) @ newline] else [])
         @ [''level: '' @ r_Level r @ (if r_ForcedLevel r then '' (forced)'' else []) @ newline]
         @ (if r_MonitorPath r \<noteq> [] then [''monitor: '' @ r_MonitorPath r @ newline] else [])
         @ (if r_PluginFilter r \<noteq> [] then [''plugin filter: '' @ join_strings '', '' (r_PluginFilter r) @ newline] else []))"

definition write_totals :: "cycle_report \<Rightarrow> string list" where
  "write_totals r =
     (if 0 < r_PlannedEstimatedBytesFreed r \<or> 0 < r_PlannedRequiredFreeBytes r \<or> 0 < r_PlannedTargets r
      then [''plan: estimated reclaim '' @ formatByteCount (r_PlannedEstimatedBytesFreed r) @ '', required free ''
            @ formatByteCount (r_PlannedRequiredFreeBytes r) @ '', targets '' @ show_int (r_PlannedTargets r) @ newline]
      else [])
     @ (if \<not> r_DryRun r \<and> (0 < r_TotalBytesFreed r \<or> 0 < r_TotalItemsCleaned r)
        then [''cleaned: '' @ formatCleaned (r_TotalBytesFreed r) (r_TotalItemsCleaned r) @ newline]
        else [])"

definition writeTextReport :: "cycle_report \<Rightarrow> string list" where
  "writeTextReport r =
     write_header r @ write_host r @ write_targets r @ write_schedule r
     @ (if r_Mounts r \<noteq> [] then (''mounts:'' @ newline) # concat (map write_mount (r_Mounts r)) else [])
     @ write_totals r
     @ (if r_Plugins r = [] then []
        else (''plugins:'' @ newline) # concat (map writeTextPluginReport (r_Plugins r)))"

text \<open>\<open>encoding/json\<close> is a parameter.\<close>

definition writeReport :: "(cycle_report \<Rightarrow> string) \<Rightarrow> string \<Rightarrow> cycle_report \<Rightarrow> string list" where
  "writeReport report_json output r =
     (if output = ''json'' then [report_json r] else if output = ''text'' then writeTextReport r else [])"

definition writeDaemonReport ::
  "(compact_report \<Rightarrow> string) \<Rightarrow> (cycle_report \<Rightarrow> string) \<Rightarrow> string \<Rightarrow> cycle_report \<Rightarrow> instant \<Rightarrow> report_throttle option
   \<Rightarrow> string list \<times> report_throttle option" where
  "writeDaemonReport compact_json report_json output r now reports =
     (case reports of
        None \<Rightarrow> (writeReport report_json output r, None)
      | Some t \<Rightarrow>
          (case full_report r now t of
             (True, t) \<Rightarrow> (writeReport report_json output r, Some t)
           | (False, t) \<Rightarrow> (let line = writeCompactReport compact_json output r (rt_unchanged t)
                           in (if line = [] then [] else [line], Some t))))"

subsection \<open>Plugin lines\<close>

text \<open>A write that starts a list item at the left margin.\<close>

definition top_item :: "string \<Rightarrow> bool" where "top_item c = prefix ''- '' c"

lemma top_item_cons [simp]: "top_item (c # cs) \<longleftrightarrow> c = CHR ''-'' \<and> cs \<noteq> [] \<and> hd cs = CHR '' ''"
  by (cases cs) (auto simp: top_item_def)

lemma filter_concat_none: "(\<And>x. x \<in> set xs \<Longrightarrow> filter P (f x) = []) \<Longrightarrow> filter P (concat (map f xs)) = []"
  by (induction xs) auto

lemma limited_items:
  assumes "\<And>x. x \<in> set xs \<Longrightarrow> filter P (each x) = []" "\<And>n. \<not> P (rest n)"
  shows "filter P (limited limit rest each xs) = []"
  using assms by (auto simp: limited_def intro!: filter_concat_none dest: in_set_takeD)

lemma newline_top [simp]: "\<not> top_item newline"
  by (simp add: newline_def)

lemma filter_if: "filter P (if b then xs else ys) = (if b then filter P xs else filter P ys)"
  by simp

lemma write_accounting_items: "filter top_item (writeTextPlanAccounting m) = []"
  unfolding writeTextPlanAccounting_def by (simp add: split_beta filter_if)

lemma write_target_items: "filter top_item (writeTextTarget t) = []"
  unfolding writeTextTarget_def Let_def by (simp add: filter_if)

lemma write_list_items: "filter top_item (writeTextList ''  warnings:'' items limit) = []"
  unfolding writeTextList_def by (simp add: limited_items)

lemma write_plan_items: "filter top_item (write_plan plan) = []"
  unfolding write_plan_def
  by (simp add: filter_if write_accounting_items write_list_items limited_items write_target_items)

lemma plugin_report_items:
  "filter top_item (writeTextPluginReport p) = [''- '' @ pr_Name p @ '': '' @ pluginStatus p @ newline]"
proof -
  have "filter top_item (write_wedged p) = []"
    unfolding write_wedged_def by (simp add: filter_if filter_map comp_def)
  then show ?thesis
    by (cases "pr_Plan p") (simp_all add: writeTextPluginReport_def write_plan_items filter_if)
qed

text \<open>In the plugin section of the text report every plugin of the report has exactly one status
  line, in the report's order, and no other write starts an item; a real run never reads as
  planned: ``would run'' is said only of a dry run that ran nothing.\<close>

theorem plugin_section_one_line_each:
  "filter top_item (concat (map writeTextPluginReport ps)) =
     map (\<lambda>p. ''- '' @ pr_Name p @ '': '' @ pluginStatus p @ newline) ps
   \<and> (prefix ''would run'' (pluginStatus p) \<longleftrightarrow> pr_DryRun p \<and> pr_WouldRun p \<and> \<not> pr_Ran p)"
proof
  show "filter top_item (concat (map writeTextPluginReport ps)) =
     map (\<lambda>p. ''- '' @ pr_Name p @ '': '' @ pluginStatus p @ newline) ps"
    by (induction ps) (simp_all add: plugin_report_items)
  show "prefix ''would run'' (pluginStatus p) \<longleftrightarrow> pr_DryRun p \<and> pr_WouldRun p \<and> \<not> pr_Ran p"
    by (simp add: pluginStatus_def)
qed

subsection \<open>Byte figures\<close>

lemma dvd_power_of_two: "d dvd 2 ^ j \<Longrightarrow> 0 < d \<Longrightarrow> \<exists>i \<le> j. d = (2::int) ^ i"
proof (induction j arbitrary: d)
  case 0
  then show ?case by simp
next
  case (Suc j)
  show ?case
  proof (cases "even d")
    case True
    then obtain e where e: "d = 2 * e" by auto
    with Suc.prems have "e dvd 2 ^ j" "0 < e" by auto
    with Suc.IH e show ?thesis by (metis Suc_le_mono power_Suc)
  next
    case False
    then have "coprime d (2 ^ Suc j)" by simp
    with Suc.prems have "d = 1" using coprime_common_divisor [of d "2 ^ Suc j" d] by auto
    then show ?thesis by (intro exI [of _ 0]) simp
  qed
qed

lemma dyadic_quotient:
  assumes "quotient_of (rat_of_int n / 2 ^ j) = (a, d)"
  obtains i where "d = 2 ^ i" "n = a * 2 ^ (j - i)" "i \<le> j"
proof -
  have d: "0 < d" and cop: "coprime a d" and q: "rat_of_int n / 2 ^ j = of_int a / of_int d"
    using assms quotient_of_denom_pos quotient_of_coprime quotient_of_div by blast+
  from q d have "rat_of_int (n * d) = of_int (a * 2 ^ j)" by (simp add: field_simps)
  then have eq: "n * d = a * 2 ^ j" by (simp only: of_int_eq_iff)
  then have "d dvd a * 2 ^ j" by (metis dvd_triv_right)
  with cop have "d dvd 2 ^ j" by (simp add: coprime_commute coprime_dvd_mult_right_iff)
  from dvd_power_of_two [OF this d] obtain i where i: "i \<le> j" "d = 2 ^ i" by auto
  have "n * 2 ^ i = a * 2 ^ (j - i) * 2 ^ i" using eq i by (simp add: mult.assoc flip: power_add)
  then have "n = a * 2 ^ (j - i)" by simp
  with i that show ?thesis by blast
qed

lemma bit_length_pow2: "bit_length (2 ^ i) = Suc i"
  by (induction i) (simp_all add: bit_length.simps)

text \<open>A quotient of a positive integer below \<open>2 ^ 53\<close> by a power of two is a float64 value.\<close>

lemma fl64_dyadic:
  assumes "0 < n" "n < 2 ^ 53"
  shows "fl64 (of_int n / 2 ^ j) = of_int n / 2 ^ j"
proof -
  let ?x = "rat_of_int n / 2 ^ j"
  obtain a d where q: "quotient_of ?x = (a, d)" by (metis surj_pair)
  obtain i where i: "d = 2 ^ i" "n = a * 2 ^ (j - i)" "i \<le> j" by (rule dyadic_quotient [OF q])
  have x: "?x = of_int a / 2 ^ i" using quotient_of_div [OF q] i(1) by simp
  have a: "0 < a" using assms(1) i(2) by (simp add: zero_less_mult_iff)
  then have "a * 1 \<le> n" unfolding i(2) by (intro mult_left_mono) simp_all
  with assms(2) have a53: "a < 2 ^ 53" by simp
  define b where "b = bit_length a"
  have bb: "2 ^ (b - 1) \<le> a" "a < 2 ^ b" "0 < b" using bit_length_bounds [OF a] by (auto simp: b_def)
  have "(2::int) ^ (b - 1) < 2 ^ 53" using bb(1) a53 by simp
  then have b53: "b \<le> 53" using power_less_imp_less_exp [of "2::int" "b - 1" 53] by simp
  have pos: "0 < ?x" "?x \<noteq> 0" "\<bar>?x\<bar> = ?x" "sgn ?x = 1" using assms(1) by simp_all
  have e0: "int (bit_length a) - int (bit_length d) - 53 = - int (i + 54 - b)"
    using b53 bb(3) by (simp add: b_def [symmetric] i(1) bit_length_pow2)
  have e1: "- int (i + 54 - b) + 1 = - int (i + 53 - b)" using b53 by simp
  have sp: "rat_of_int a / 2 ^ i / pow2 (- int (i + k - b)) = of_int a * 2 ^ (k - b)" if "b \<le> k" for k
    using power_add [of "2::rat" i "k - b"] that unfolding pow2_neg by simp
  have "(2::rat) ^ 53 = 2 ^ (b - 1) * 2 ^ (54 - b)"
    using b53 bb(3) by (simp flip: power_add)
  also have "\<dots> \<le> of_int a * 2 ^ (54 - b)"
    using bb(1) by (intro mult_right_mono) (metis of_int_le_iff of_int_numeral of_int_power, simp)
  finally have ge: "2 ^ 53 \<le> \<bar>?x\<bar> / pow2 (int (bit_length a) - int (bit_length d) - 53)"
    unfolding e0 pos(3) unfolding x using sp [of 54] b53 by simp
  have q': "quotient_of \<bar>?x\<bar> = (a, d)" using q pos(3) by simp
  have r: "round_half_even (\<bar>?x\<bar> / pow2 (- int (i + 53 - b))) = a * 2 ^ (53 - b)"
    unfolding pos(3) unfolding x sp [OF b53] by (metis of_int_mult of_int_numeral of_int_power round_half_even_int)
  have "fl64 ?x = of_int (a * 2 ^ (53 - b)) * pow2 (- int (i + 53 - b))"
    using fl64_wide [OF pos(2) q' ge] unfolding e0 e1 r pos(4) by simp
  also have "\<dots> = ?x"
    using power_add [of "2::rat" i "53 - b"] b53 unfolding x pow2_neg by simp
  finally show ?thesis .
qed

lemma scale_down_bytes:
  assumes "0 < n" "n < 2 ^ 53" "u \<le> hi"
  shows "\<exists>k. scale_down 1024 (of_int n / 1024 ^ u) u hi = (of_int n / 1024 ^ k, k) \<and> u \<le> k \<and> k \<le> hi \<and>
    (u < k \<longrightarrow> 1024 ^ k \<le> n) \<and> (k < hi \<longrightarrow> n < 1024 ^ Suc k)"
  using assms(3)
proof (induction "hi - u" arbitrary: u)
  case 0
  then show ?case by (intro exI [of _ hi]) (simp add: scale_down.simps)
next
  case (Suc d)
  let ?x = "rat_of_int n / 1024 ^ u"
  have u: "u < hi" using Suc.hyps(2) by simp
  have le: "1024 \<le> ?x \<longleftrightarrow> 1024 ^ Suc u \<le> n"
    by (simp add: pos_le_divide_eq) (metis (mono_tags) of_int_le_iff of_int_mult of_int_numeral of_int_power)
  show ?case
  proof (cases "1024 \<le> ?x")
    case True
    have p: "(2::rat) ^ (10 * j) = 1024 ^ j" for j unfolding power_mult by simp
    have "fdiv ?x 1024 = fl64 (of_int n / 2 ^ (10 * Suc u))"
      unfolding p by (simp add: fdiv_def mult.commute)
    also have "\<dots> = of_int n / 1024 ^ Suc u"
      using fl64_dyadic [OF assms(1,2), of "10 * Suc u"] unfolding p .
    finally have step: "scale_down 1024 ?x u hi = scale_down 1024 (of_int n / 1024 ^ Suc u) (Suc u) hi"
      using True u by (subst scale_down.simps) simp
    have "\<exists>k. scale_down 1024 (of_int n / 1024 ^ Suc u) (Suc u) hi = (of_int n / 1024 ^ k, k) \<and> Suc u \<le> k \<and> k \<le> hi \<and>
        (Suc u < k \<longrightarrow> 1024 ^ k \<le> n) \<and> (k < hi \<longrightarrow> n < 1024 ^ Suc k)"
      using Suc.hyps by (intro Suc.hyps(1)) auto
    then obtain k where k: "scale_down 1024 (of_int n / 1024 ^ Suc u) (Suc u) hi = (of_int n / 1024 ^ k, k)"
      "Suc u \<le> k" "k \<le> hi" "Suc u < k \<longrightarrow> 1024 ^ k \<le> n" "k < hi \<longrightarrow> n < 1024 ^ Suc k"
      by blast
    have "1024 ^ k \<le> n" using k(2,4) True le by (cases "k = Suc u") auto
    with k step show ?thesis by (intro exI [of _ k]) simp
  next
    case False
    then have "scale_down 1024 ?x u hi = (?x, u)" by (subst scale_down.simps) simp
    with False le Suc.prems show ?thesis by (intro exI [of _ u]) simp
  qed
qed

lemma round_half_even_near: "\<bar>of_int (round_half_even x) - x\<bar> \<le> 1 / 2"
proof -
  have "of_int (floor x) \<le> x" "x < of_int (floor x) + 1" by linarith+
  then show ?thesis unfolding round_half_even_def Let_def by (simp split: if_split)
qed

text \<open>A byte figure in the report is within half of its last digit of the true count: a count below
  1 KiB is printed exactly, any other as tenths \<open>t\<close> of the largest unit not above it, at most
  half a tenth of that unit away.\<close>

theorem byte_text_accurate:
  assumes "0 < n" "n < 2 ^ 53"
  shows "(n < 1024 \<and> formatByteCount n = show_int n @ '' B'') \<or>
    (\<exists>t k. formatByteCount n =
         show_nat (t div 10) @ ''.'' @ show_nat (t mod 10) @ '' '' @ [''B'', ''KiB'', ''MiB'', ''GiB'', ''TiB''] ! k \<and>
       1 \<le> k \<and> k \<le> 4 \<and> 1024 ^ k \<le> n \<and> (k < 4 \<longrightarrow> n < 1024 ^ Suc k) \<and>
       \<bar>20 * n - 2 * t * 1024 ^ k\<bar> \<le> 1024 ^ k)"
proof -
  obtain k where k: "scale_down 1024 (of_int n) 0 4 = (of_int n / 1024 ^ k, k)" "k \<le> 4"
    "0 < k \<longrightarrow> 1024 ^ k \<le> n" "k < 4 \<longrightarrow> n < 1024 ^ Suc k"
    using scale_down_bytes [OF assms, of 0 4] by auto
  have f: "float_of_int n = of_int n" using assms by (simp add: float_of_int_small)
  show ?thesis
  proof (cases "k = 0")
    case True
    with k f assms(1) show ?thesis by (simp add: formatByteCount_def)
  next
    case False
    let ?x = "rat_of_int n / 1024 ^ k"
    define t where "t = round_half_even (?x * 10)"
    have pos: "0 < n" "\<not> ?x < 0" "\<bar>?x\<bar> = ?x" using assms(1) by (simp_all add: divide_less_0_iff)
    have "\<bar>of_int t - ?x * 10\<bar> \<le> 1 / 2" unfolding t_def by (rule round_half_even_near)
    then have "\<bar>of_int t - ?x * 10\<bar> * (2 * 1024 ^ k) \<le> 1024 ^ k" by simp
    then have "\<bar>(of_int t - ?x * 10) * (2 * 1024 ^ k)\<bar> \<le> 1024 ^ k" by (simp add: abs_mult)
    moreover have "(of_int t - ?x * 10) * (2 * 1024 ^ k) = of_int (2 * t * 1024 ^ k - 20 * n)"
      by (simp add: algebra_simps)
    ultimately have "\<bar>of_int (2 * t * 1024 ^ k - 20 * n)\<bar> \<le> rat_of_int (1024 ^ k)" by simp
    then have near: "\<bar>20 * n - 2 * t * 1024 ^ k\<bar> \<le> 1024 ^ k" by (simp only: of_int_abs [symmetric] of_int_le_iff abs_minus_commute)
    have "formatByteCount n = show_nat (t div 10) @ ''.'' @ show_nat (t mod 10) @ '' '' @ [''B'', ''KiB'', ''MiB'', ''GiB'', ''TiB''] ! k"
      using k(1) f False pos by (simp add: formatByteCount_def fixed1_def t_def Let_def)
    with near k False show ?thesis by (intro disjI2 exI [of _ t] exI [of _ k]) simp
  qed
qed

lemma byte_text_accurate_witness:
  "(0::int) < 1572864 \<and> (1572864::int) < 2 ^ 53 \<and> formatByteCount 1572864 = ''1.5 MiB''"
proof -
  have "formatByteCount 1572864 = ''1.5 MiB''" by code_simp
  with byte_text_accurate [of 1572864] show ?thesis by simp
qed

end
