(* ===== verification/Scan_Budget.thy ===== *)
theory Scan_Budget
  imports Plugin_API Paths Interfaces "HOL-Library.Char_ord" "HOL-Library.List_Lexorder"
begin

text \<open>
  The scan budget of the development-artefact walks, \<open>plugins/scan_budget.go\<close>: entry and duration
  bounds, the rotation of workspace roots with its cursor file, the shares of a lane's roots,
  truncation evidence.  A budget is a value that every operation returns updated; a caller
  without a budget (a nil pointer) walks unbounded and is not modelled.
\<close>

definition maxRecordedTruncations :: nat where "maxRecordedTruncations = 20"

record scan_budget =
  sb_maxDuration :: duration
  sb_maxEntries :: int
  sb_workspaceMaxRoots :: int
  sb_cursorFile :: path
  sb_cursors :: "path table"
  sb_persist :: bool
  sb_tempMaxRoots :: int
  sb_entries :: int
  sb_sizingEntries :: int
  sb_rootsVisited :: int
  sb_rootsSkipped :: int
  sb_tempRoots :: int
  sb_tempRootSeen :: "path list"
  sb_truncated :: "string table"
  sb_rootTruncated :: "string table"
  sb_tempPathsTruncated :: int
  sb_rootsTruncated :: int

text \<open>The fields of \<open>DevArtifactsConfig\<close> the budget reads.\<close>

record scan_config =
  sc_ScanMaxDuration :: string
  sc_ScanMaxEntries :: int
  sc_WorkspaceScanMaxRoots :: int
  sc_TempScanMaxRoots :: int

definition empty_budget :: "duration \<Rightarrow> int \<Rightarrow> int \<Rightarrow> int \<Rightarrow> scan_budget" where
  "empty_budget maxDuration maxEntries workspaceMaxRoots tempMaxRoots =
     \<lparr>sb_maxDuration = maxDuration, sb_maxEntries = maxEntries, sb_workspaceMaxRoots = workspaceMaxRoots,
      sb_cursorFile = [], sb_cursors = [], sb_persist = False, sb_tempMaxRoots = tempMaxRoots, sb_entries = 0,
      sb_sizingEntries = 0, sb_rootsVisited = 0, sb_rootsSkipped = 0, sb_tempRoots = 0, sb_tempRootSeen = [],
      sb_truncated = [], sb_rootTruncated = [], sb_tempPathsTruncated = 0, sb_rootsTruncated = 0\<rparr>"

definition newDevArtifactScanBudget :: "scan_config \<Rightarrow> scan_budget" where
  "newDevArtifactScanBudget cfg =
     empty_budget (parse_nix_policy_duration (sc_ScanMaxDuration cfg) (30 * second)) (sc_ScanMaxEntries cfg)
       (sc_WorkspaceScanMaxRoots cfg) (sc_TempScanMaxRoots cfg)"

subsection \<open>Truncations\<close>

definition markTruncated :: "path \<Rightarrow> string \<Rightarrow> scan_budget \<Rightarrow> scan_budget" where
  "markTruncated p reason b =
     (if maxRecordedTruncations \<le> length (sb_truncated b) then b
      else b\<lparr>sb_truncated := tbl_put p reason (sb_truncated b)\<rparr>)"

definition markRootTruncated :: "path \<Rightarrow> string \<Rightarrow> scan_budget \<Rightarrow> scan_budget" where
  "markRootTruncated p reason b =
     (if maxRecordedTruncations \<le> length (sb_rootTruncated b) then b
      else b\<lparr>sb_rootTruncated := tbl_put p reason (sb_rootTruncated b)\<rparr>)"

definition exhausted :: "scan_budget \<Rightarrow> bool" where "exhausted b = (sb_truncated b \<noteq> [])"
definition partial_scan :: "scan_budget \<Rightarrow> bool" where
  "partial_scan b = (sb_truncated b \<noteq> [] \<or> sb_rootTruncated b \<noteq> [])"

definition truncatedDetails :: "scan_budget \<Rightarrow> string list" where
  "truncatedDetails b =
     (if \<not> partial_scan b then []
      else sort (map (\<lambda>(p, reason). p @ '' ('' @ reason @ '')'') (sb_truncated b @ sb_rootTruncated b)))"

subsection \<open>Checks\<close>

text \<open>How a context has ended, if it has: its deadline or a cancellation.\<close>

datatype ctx_error = DeadlineExceeded | Canceled

datatype scan_error = BudgetExceeded | ContextEnded ctx_error

definition durationTruncated :: "path \<Rightarrow> scan_budget \<Rightarrow> scan_budget" where
  "durationTruncated p b = markTruncated p (''scan duration exceeded '' @ show_duration (sb_maxDuration b)) b"

definition checkPath :: "ctx_error option \<Rightarrow> path \<Rightarrow> scan_budget \<Rightarrow> scan_error option \<times> scan_budget" where
  "checkPath ctx p b =
     (case ctx of
        Some err \<Rightarrow>
          (if 0 < sb_maxDuration b \<and> err = DeadlineExceeded then (Some BudgetExceeded, durationTruncated p b)
           else (Some (ContextEnded err), b))
      | None \<Rightarrow>
          (if 0 < sb_maxEntries b \<and> sb_maxEntries b \<le> sb_entries b
           then (Some BudgetExceeded,
                 markTruncated p (''scan entry budget exceeded '' @ show_int (sb_maxEntries b) @ '' entries'') b)
           else (None, b\<lparr>sb_entries := sb_entries b + 1\<rparr>)))"

definition checkTempRoot :: "ctx_error option \<Rightarrow> path \<Rightarrow> scan_budget \<Rightarrow> scan_error option \<times> scan_budget" where
  "checkTempRoot ctx p b0 =
     (case checkPath ctx p b0 of
        (Some err, b) \<Rightarrow> (Some err, b)
      | (None, b) \<Rightarrow>
          (if clean_path p \<in> set (sb_tempRootSeen b) then (None, b)
           else if 0 < sb_tempMaxRoots b \<and> sb_tempMaxRoots b \<le> sb_tempRoots b
           then (Some BudgetExceeded,
                 markTruncated p (''temporary root budget exceeded '' @ show_int (sb_tempMaxRoots b) @ '' roots'') b)
           else (None, b\<lparr>sb_tempRootSeen := clean_path p # sb_tempRootSeen b, sb_tempRoots := sb_tempRoots b + 1\<rparr>)))"

definition markContextError :: "ctx_error option \<Rightarrow> path \<Rightarrow> scan_budget \<Rightarrow> scan_budget" where
  "markContextError ctx p b =
     (if sb_maxDuration b \<le> 0 \<or> ctx \<noteq> Some DeadlineExceeded then b else durationTruncated p b)"

text \<open>
  \<open>sizeDir\<close>: \<open>walk\<close> is what the walk visits, per entry the state of the context there and the size
  of a file (none for a directory or an entry that cannot be read).
\<close>

fun size_walk :: "(ctx_error option \<times> int option) list \<Rightarrow> int \<Rightarrow> int \<Rightarrow> int \<times> int \<times> ctx_error option" where
  "size_walk [] bytes_seen visited = (bytes_seen, visited, None)"
| "size_walk ((Some err, _) # es) bytes_seen visited = (bytes_seen, visited, Some err)"
| "size_walk ((None, bytes) # es) bytes_seen visited =
     size_walk es (bytes_seen + (case bytes of None \<Rightarrow> 0 | Some n \<Rightarrow> n)) (visited + 1)"

definition sizeDir :: "(ctx_error option \<times> int option) list \<Rightarrow> ctx_error option \<Rightarrow> scan_budget
    \<Rightarrow> (int \<times> ctx_error option) \<times> scan_budget" where
  "sizeDir walk ctx b =
     (case size_walk walk 0 0 of
        (bytes_seen, visited, err) \<Rightarrow>
          ((bytes_seen, if err \<noteq> None then err else ctx), b\<lparr>sb_sizingEntries := sb_sizingEntries b + visited\<rparr>))"

subsection \<open>Root pools\<close>

record root_pool =
  rp_maxEntries :: int
  rp_maxDuration :: duration
  rp_usedEntries :: int
  rp_started :: instant
  rp_remaining :: int

definition rootPool :: "scan_budget \<Rightarrow> int \<Rightarrow> instant \<Rightarrow> root_pool" where
  "rootPool b roots now =
     \<lparr>rp_maxEntries = sb_maxEntries b, rp_maxDuration = sb_maxDuration b, rp_usedEntries = 0, rp_started = now,
      rp_remaining = roots\<rparr>"

text \<open>Zero means unbounded.\<close>

definition entryShare :: "root_pool \<Rightarrow> int" where
  "entryShare pl =
     (if rp_maxEntries pl \<le> 0 then 0
      else let roots = max 1 (rp_remaining pl); left = rp_maxEntries pl - rp_usedEntries pl
           in max 1 ((left + roots - 1) sdiv roots))"

definition durationShare :: "root_pool \<Rightarrow> instant \<Rightarrow> duration" where
  "durationShare pl now =
     (if rp_maxDuration pl \<le> 0 then 0
      else let roots = max 1 (rp_remaining pl); left = rp_maxDuration pl - time_sub now (rp_started pl)
           in max second (left sdiv roots))"

definition pool_child :: "root_pool \<Rightarrow> int \<Rightarrow> instant \<Rightarrow> scan_budget \<times> root_pool" where
  "pool_child pl tempMaxRoots now =
     (empty_budget (durationShare pl now) (entryShare pl) 0 tempMaxRoots,
      if 0 < rp_remaining pl then pl\<lparr>rp_remaining := rp_remaining pl - 1\<rparr> else pl)"

definition pool_done :: "scan_budget \<Rightarrow> root_pool \<Rightarrow> root_pool" where
  "pool_done child pl = pl\<lparr>rp_usedEntries := rp_usedEntries pl + sb_entries child\<rparr>"

definition mergeRootBudget :: "scan_budget \<Rightarrow> scan_budget \<Rightarrow> scan_budget" where
  "mergeRootBudget child b0 =
     (let b = b0\<lparr>sb_entries := sb_entries b0 + sb_entries child,
                 sb_sizingEntries := sb_sizingEntries b0 + sb_sizingEntries child\<rparr>
      in foldl (\<lambda>b (p, reason). markRootTruncated p reason b) b (sb_truncated child @ sb_rootTruncated child))"

definition mergeWorkspaceRootBudget :: "scan_budget \<Rightarrow> scan_budget \<Rightarrow> scan_budget" where
  "mergeWorkspaceRootBudget child b =
     mergeRootBudget child (if exhausted child then b\<lparr>sb_rootsTruncated := sb_rootsTruncated b + 1\<rparr> else b)"

definition mergeTempPathBudget :: "scan_budget \<Rightarrow> scan_budget \<Rightarrow> scan_budget" where
  "mergeTempPathBudget child b0 =
     (let b = b0\<lparr>sb_tempRoots := sb_tempRoots b0 + sb_tempRoots child\<rparr>
      in mergeRootBudget child (if exhausted child then b\<lparr>sb_tempPathsTruncated := sb_tempPathsTruncated b + 1\<rparr> else b))"

subsection \<open>Workspace roots and the cursor\<close>

text \<open>The first root after the cursor; the start of the list when there is none.\<close>

fun first_after :: "path list \<Rightarrow> path \<Rightarrow> nat \<Rightarrow> nat option" where
  "first_after [] cursor idx = None"
| "first_after (dir # roots) cursor idx = (if cursor < dir then Some idx else first_after roots cursor (idx + 1))"

definition rotateWorkspaceRootsAfterCursor :: "path list \<Rightarrow> path \<Rightarrow> int \<Rightarrow> path list" where
  "rotateWorkspaceRootsAfterCursor roots cursor maxRoots =
     (if maxRoots \<le> 0 \<or> int (length roots) \<le> maxRoots then roots
      else let start = (if cursor = [] then 0 else case first_after roots cursor 0 of None \<Rightarrow> 0 | Some i \<Rightarrow> i)
           in map (\<lambda>offset. roots ! ((start + offset) mod length roots)) [0..<nat maxRoots])"

definition selectWorkspaceRoots :: "string \<Rightarrow> path list \<Rightarrow> scan_budget \<Rightarrow> path list \<times> scan_budget" where
  "selectWorkspaceRoots key roots b0 =
     (if roots = [] then (roots, b0)
      else let limited = (0 < sb_workspaceMaxRoots b0 \<and> sb_workspaceMaxRoots b0 < int (length roots));
               selected = (if limited
                           then rotateWorkspaceRootsAfterCursor roots (tbl_zero [] (sb_cursors b0) key) (sb_workspaceMaxRoots b0)
                           else roots);
               b = (if limited
                    then b0\<lparr>sb_rootsSkipped := sb_rootsSkipped b0 + int (length roots) - int (length selected)\<rparr> else b0)
           in (selected, b\<lparr>sb_rootsVisited := sb_rootsVisited b + int (length selected)\<rparr>))"

text \<open>\<open>filepath.Ext\<close>: from the last dot of the last path element.\<close>

definition path_ext :: "path \<Rightarrow> string" where
  "path_ext p =
     (let name = rev (takeWhile (\<lambda>c. c \<noteq> CHR ''/'') (rev p))
      in if CHR ''.'' \<in> set name then CHR ''.'' # rev (takeWhile (\<lambda>c. c \<noteq> CHR ''.'') (rev name)) else [])"

definition devArtifactWorkspaceCursorFile :: "path \<Rightarrow> path \<Rightarrow> path" where
  "devArtifactWorkspaceCursorFile home stateFile =
     (if stateFile = [] then []
      else let expanded = expandHome stateFile home; ext = path_ext expanded
           in if ext = [] then expanded @ ''.dev-artifacts.json''
              else take (length expanded - length ext) expanded @ ''.dev-artifacts'' @ ext)"

text \<open>A cursor file as \<open>json.Unmarshal\<close> sees it.\<close>

datatype cursor_doc = CursorGarbage | CursorDoc "path table option"

type_synonym cursor_files = "path \<Rightarrow> cursor_doc option"

definition loadWorkspaceCursors :: "bool \<Rightarrow> cursor_files \<Rightarrow> scan_budget \<Rightarrow> scan_budget" where
  "loadWorkspaceCursors readFails fs b =
     (if sb_cursorFile b = [] \<or> readFails then b
      else case fs (sb_cursorFile b) of
             Some (CursorDoc cursors) \<Rightarrow> b\<lparr>sb_cursors := (case cursors of None \<Rightarrow> [] | Some t \<Rightarrow> t)\<rparr>
           | _ \<Rightarrow> b)"

definition newDevArtifactScanBudgetForConfig ::
    "path \<Rightarrow> path \<Rightarrow> scan_config \<Rightarrow> bool \<Rightarrow> bool \<Rightarrow> cursor_files \<Rightarrow> scan_budget" where
  "newDevArtifactScanBudgetForConfig home stateFile cfg persist readFails fs =
     loadWorkspaceCursors readFails fs
       ((newDevArtifactScanBudget cfg)\<lparr>sb_cursorFile := devArtifactWorkspaceCursorFile home stateFile, sb_persist := persist\<rparr>)"

text \<open>Which system call of a save fails; a failed write may leave part of the document.\<close>

record cursor_faults =
  cu_mkdir :: bool
  cu_write :: bool
  cu_partial :: bool
  cu_rename :: bool

text \<open>The file-system states a save passes through, oldest first.\<close>

definition saveWorkspaceCursors :: "cursor_faults \<Rightarrow> scan_budget \<Rightarrow> cursor_files \<Rightarrow> cursor_files list" where
  "saveWorkspaceCursors f b fs =
     (if \<not> sb_persist b \<or> sb_cursorFile b = [] \<or> sb_cursors b = [] \<or> cu_mkdir f then []
      else let p = sb_cursorFile b; tmp = p @ ''.tmp''; doc = CursorDoc (Some (sb_cursors b));
               partial = fs(tmp \<mapsto> CursorGarbage); written = fs(tmp \<mapsto> doc)
           in if cu_write f then (if cu_partial f then [partial] else [])
              else if cu_rename f then [partial, written]
              else [partial, written, written(tmp := None, p \<mapsto> doc)])"

definition recordWorkspaceCursor ::
    "cursor_faults \<Rightarrow> string \<Rightarrow> path \<Rightarrow> scan_budget \<times> cursor_files \<Rightarrow> scan_budget \<times> cursor_files" where
  "recordWorkspaceCursor f key dir x =
     (case x of (b, fs) \<Rightarrow>
        (if \<not> sb_persist b \<or> sb_cursorFile b = [] \<or> key = [] \<or> dir = [] then (b, fs)
         else let b = b\<lparr>sb_cursors := tbl_put key (clean_path dir) (sb_cursors b)\<rparr>
              in (b, last (fs # saveWorkspaceCursors f b fs))))"

subsection \<open>One lane over its roots\<close>

text \<open>
  \<open>findArtifactDirsOutside\<close> (\<open>devartifacts.go\<close>) from the selection on: a pool over the selected
  roots, each walked under its own share, folded back and recorded as the cursor.  \<open>walk dir
  child t\<close> is the walk of one root under its budget from time \<open>t\<close>: the budget it leaves and when it
  ends; \<open>ends\<close> is when the caller's context ends, and how.
\<close>

definition ctx_at :: "(instant \<times> ctx_error) option \<Rightarrow> instant \<Rightarrow> ctx_error option" where
  "ctx_at ends now = (case ends of None \<Rightarrow> None | Some (t, err) \<Rightarrow> if t \<le> now then Some err else None)"

type_synonym root_walk = "path \<Rightarrow> scan_budget \<Rightarrow> instant \<Rightarrow> scan_budget \<times> instant"

fun walk_roots ::
    "root_walk \<Rightarrow> (instant \<times> ctx_error) option \<Rightarrow> cursor_faults \<Rightarrow> string \<Rightarrow> path list \<Rightarrow> root_pool \<Rightarrow> instant
       \<Rightarrow> scan_budget \<times> cursor_files \<Rightarrow> scan_budget \<times> cursor_files" where
  "walk_roots walk ends f key [] pl now x = x"
| "walk_roots walk ends f key (dir # roots) pl now (b, fs) =
     (case ctx_at ends now of
        Some err \<Rightarrow> (markContextError (Some err) dir b, fs)
      | None \<Rightarrow>
          (case pool_child pl 0 now of (child, pl) \<Rightarrow>
             (case walk dir child now of (child, now) \<Rightarrow>
                walk_roots walk ends f key roots (pool_done child pl) now
                  (recordWorkspaceCursor f key dir (mergeWorkspaceRootBudget child b, fs)))))"

definition walk_lane ::
    "root_walk \<Rightarrow> (instant \<times> ctx_error) option \<Rightarrow> cursor_faults \<Rightarrow> string \<Rightarrow> path list \<Rightarrow> instant
       \<Rightarrow> scan_budget \<times> cursor_files \<Rightarrow> scan_budget \<times> cursor_files" where
  "walk_lane walk ends f key roots now x =
     (case x of (b, fs) \<Rightarrow>
        (case selectWorkspaceRoots key roots b of
           (selected, b) \<Rightarrow> walk_roots walk ends f key selected (rootPool b (int (length selected)) now) now (b, fs)))"

subsection \<open>The plan's metadata\<close>

definition annotatePlan :: "scan_budget \<Rightarrow> cleanup_plan \<Rightarrow> cleanup_plan" where
  "annotatePlan b plan =
     (let put_figure = (\<lambda>m (k, v). tbl_put k v m);
          figures =
            [(''scan_max_duration'', show_duration (sb_maxDuration b)), (''scan_max_entries'', show_int (sb_maxEntries b)),
             (''scan_root_share'', ''carry_over''), (''workspace_scan_max_roots'', show_int (sb_workspaceMaxRoots b)),
             (''workspace_roots_visited'', show_int (sb_rootsVisited b)),
             (''workspace_roots_skipped'', show_int (sb_rootsSkipped b)),
             (''workspace_roots_truncated'', show_int (sb_rootsTruncated b)),
             (''temp_scan_max_roots'', show_int (sb_tempMaxRoots b)), (''scan_entries_visited'', show_int (sb_entries b)),
             (''scan_sizing_entries_visited'', show_int (sb_sizingEntries b)),
             (''temp_roots_visited'', show_int (sb_tempRoots b)), (''temp_scan_max_roots_scope'', ''per_temp_scan_path''),
             (''temp_scan_paths_truncated'', show_int (sb_tempPathsTruncated b)),
             (''scan_budget_shared_exhausted'', if exhausted b then ''true'' else ''false''),
             (''scan_budget_exhausted'', if partial_scan b then ''true'' else ''false'')];
          metadata = foldl put_figure (cp_Metadata plan) figures;
          details = join_strings ''; '' (truncatedDetails b)
      in if \<not> partial_scan b then plan\<lparr>cp_Metadata := metadata\<rparr>
         else plan\<lparr>cp_Metadata := tbl_put ''scan_truncated_paths'' details metadata,
                   cp_Warnings := cp_Warnings plan @
                     [''dev-artifacts scan budget was exhausted; dry-run evidence is partial and omitted paths are not cleanup candidates'',
                      ''dev-artifacts scan truncated at: '' @ details]\<rparr>)"

subsection \<open>The truncation tables are bounded\<close>

interpretation root_evidence: bounded_table
    "\<lambda>b. length (sb_rootTruncated b) \<le> maxRecordedTruncations" "\<lambda>b. length (sb_rootTruncated b)"
    "\<lambda>b. maxRecordedTruncations" "\<lambda>(p, reason) b. markRootTruncated p reason b"
  by unfold_locales (auto simp: markRootTruncated_def tbl_put_length split: if_splits)

interpretation own_evidence: bounded_table
    "\<lambda>b. length (sb_truncated b) \<le> maxRecordedTruncations" "\<lambda>b. length (sb_truncated b)"
    "\<lambda>b. maxRecordedTruncations" "\<lambda>(p, reason) b. markTruncated p reason b"
  by unfold_locales (auto simp: markTruncated_def tbl_put_length split: if_splits)

lemma markRootTruncated_frame [frame_simps]:
  "sb_truncated (markRootTruncated p r b) = sb_truncated b" "sb_entries (markRootTruncated p r b) = sb_entries b"
  "sb_cursors (markRootTruncated p r b) = sb_cursors b" "sb_cursorFile (markRootTruncated p r b) = sb_cursorFile b"
  "sb_persist (markRootTruncated p r b) = sb_persist b" "sb_rootsTruncated (markRootTruncated p r b) = sb_rootsTruncated b"
  "sb_maxEntries (markRootTruncated p r b) = sb_maxEntries b" "sb_maxDuration (markRootTruncated p r b) = sb_maxDuration b"
  by (simp_all add: markRootTruncated_def)

lemma mark_all_frame [frame_simps]:
  fixes es :: "string table"
  defines "g \<equiv> \<lambda>b. foldl (\<lambda>b (p, reason). markRootTruncated p reason b) b es"
  shows "sb_truncated (g b) = sb_truncated b" "sb_entries (g b) = sb_entries b" "sb_cursors (g b) = sb_cursors b"
    "sb_cursorFile (g b) = sb_cursorFile b" "sb_persist (g b) = sb_persist b" "sb_rootsTruncated (g b) = sb_rootsTruncated b"
    "sb_maxEntries (g b) = sb_maxEntries b" "sb_maxDuration (g b) = sb_maxDuration b"
  unfolding g_def by (induction es arbitrary: b) (auto simp: frame_simps)

lemma merge_frame [frame_simps]:
  "sb_truncated (mergeWorkspaceRootBudget c b) = sb_truncated b"
  "sb_cursors (mergeWorkspaceRootBudget c b) = sb_cursors b" "sb_cursorFile (mergeWorkspaceRootBudget c b) = sb_cursorFile b"
  "sb_persist (mergeWorkspaceRootBudget c b) = sb_persist b" "sb_maxEntries (mergeWorkspaceRootBudget c b) = sb_maxEntries b"
  "sb_maxDuration (mergeWorkspaceRootBudget c b) = sb_maxDuration b"
  "sb_entries (mergeWorkspaceRootBudget c b) = sb_entries b + sb_entries c"
  "sb_rootsTruncated (mergeWorkspaceRootBudget c b) = sb_rootsTruncated b + (if exhausted c then 1 else 0)"
  by (auto simp: mergeWorkspaceRootBudget_def mergeRootBudget_def Let_def frame_simps)

lemma mark_all_evidence:
  "length (sb_rootTruncated b) \<le> maxRecordedTruncations \<Longrightarrow>
     length (sb_rootTruncated (foldl (\<lambda>b (p, reason). markRootTruncated p reason b) b es)) \<le> maxRecordedTruncations"
  using root_evidence.run_within [of b es] by (simp add: case_prod_unfold)

lemma mark_all_nonempty:
  "es \<noteq> [] \<or> sb_rootTruncated b \<noteq> [] \<Longrightarrow> sb_rootTruncated (foldl (\<lambda>b (p, reason). markRootTruncated p reason b) b es) \<noteq> []"
proof (induction es arbitrary: b)
  case (Cons e es)
  have "sb_rootTruncated (case e of (p, reason) \<Rightarrow> markRootTruncated p reason b) \<noteq> []"
    by (cases e) (auto simp: markRootTruncated_def maxRecordedTruncations_def)
  with Cons.IH show ?case by simp
qed simp

lemma merge_evidence:
  "length (sb_rootTruncated b) \<le> maxRecordedTruncations \<Longrightarrow>
     length (sb_rootTruncated (mergeWorkspaceRootBudget c b)) \<le> maxRecordedTruncations"
  "exhausted c \<or> sb_rootTruncated b \<noteq> [] \<Longrightarrow> sb_rootTruncated (mergeWorkspaceRootBudget c b) \<noteq> []"
  by (auto simp: mergeWorkspaceRootBudget_def mergeRootBudget_def Let_def exhausted_def intro!: mark_all_evidence mark_all_nonempty)

lemma recordWorkspaceCursor_frame [frame_simps]:
  "sb_truncated (fst (recordWorkspaceCursor f k r x)) = sb_truncated (fst x)"
  "sb_rootTruncated (fst (recordWorkspaceCursor f k r x)) = sb_rootTruncated (fst x)"
  "sb_rootsTruncated (fst (recordWorkspaceCursor f k r x)) = sb_rootsTruncated (fst x)"
  "sb_entries (fst (recordWorkspaceCursor f k r x)) = sb_entries (fst x)"
  "sb_cursorFile (fst (recordWorkspaceCursor f k r x)) = sb_cursorFile (fst x)"
  "sb_persist (fst (recordWorkspaceCursor f k r x)) = sb_persist (fst x)"
  by (auto simp: recordWorkspaceCursor_def Let_def split: prod.splits)

text \<open>A workspace root that runs out of its share is evidence of a partial scan and nothing more:
  it never exhausts the shared budget, so it cannot stop the roots and lanes after it; the scan is
  reported as partial, and the evidence never exceeds 20 entries.\<close>

theorem root_truncation_isolated:
  assumes "length (sb_rootTruncated b) \<le> 20"
    and "b' = fst (walk_roots walk None f key roots pl now (b, fs))"
  shows "exhausted b' = exhausted b \<and> length (sb_rootTruncated b') \<le> 20 \<and>
    (sb_rootsTruncated b' = sb_rootsTruncated b \<or> partial_scan b')"
proof -
  have "sb_truncated (fst x') = sb_truncated (fst x) \<and> length (sb_rootTruncated (fst x')) \<le> maxRecordedTruncations \<and>
      (sb_rootTruncated (fst x) \<noteq> [] \<longrightarrow> sb_rootTruncated (fst x') \<noteq> []) \<and>
      (sb_rootsTruncated (fst x') = sb_rootsTruncated (fst x) \<or> sb_rootTruncated (fst x') \<noteq> [])"
    if "x' = walk_roots walk None f key roots pl now x" "length (sb_rootTruncated (fst x)) \<le> maxRecordedTruncations" for x x' pl now
    using that
  proof (induction roots arbitrary: x x' pl now)
    case (Cons dir roots)
    obtain b fs where x: "x = (b, fs)" by (cases x)
    obtain child pl1 child' now1 where steps: "pool_child pl 0 now = (child, pl1)" "walk dir child now = (child', now1)"
      by (metis surj_pair)
    let ?y = "recordWorkspaceCursor f key dir (mergeWorkspaceRootBudget child' b, fs)"
    have y: "x' = walk_roots walk None f key roots (pool_done child' pl1) now1 ?y"
      using Cons.prems(1) x steps by (simp add: ctx_at_def)
    have len: "length (sb_rootTruncated (fst ?y)) \<le> maxRecordedTruncations"
      using Cons.prems(2) x merge_evidence(1) [of b child'] by (simp add: frame_simps)
    have ev: "exhausted child' \<or> sb_rootTruncated b \<noteq> [] \<Longrightarrow> sb_rootTruncated (fst ?y) \<noteq> []"
      using merge_evidence(2) [of child' b] by (simp add: frame_simps)
    show ?case using Cons.IH [OF y len] ev x by (auto simp: frame_simps split: if_splits)
  qed simp
  from this [OF refl, of "(b, fs)" pl now] show ?thesis
    using assms by (auto simp: exhausted_def partial_scan_def maxRecordedTruncations_def split: prod.splits)
qed

subsection \<open>Shares\<close>

text \<open>A walk that asks the budget before every entry: it leaves at most its bound used.\<close>

definition walk_bounded :: "root_walk \<Rightarrow> bool" where
  "walk_bounded walk =
     (\<forall>d child t. sb_entries child = 0 \<longrightarrow> 0 \<le> sb_entries (fst (walk d child t)) \<and>
        (0 < sb_maxEntries child \<longrightarrow> sb_entries (fst (walk d child t)) \<le> sb_maxEntries child))"

text \<open>The entry share every root of a lane is given.\<close>

fun root_shares :: "root_walk \<Rightarrow> path list \<Rightarrow> root_pool \<Rightarrow> instant \<Rightarrow> int list" where
  "root_shares walk [] pl now = []"
| "root_shares walk (dir # roots) pl now =
     (case pool_child pl 0 now of (child, pl') \<Rightarrow>
        (case walk dir child now of (child', now) \<Rightarrow>
           sb_maxEntries child # root_shares walk roots (pool_done child' pl') now))"

lemma ceiling_share:
  fixes left r q :: int
  assumes "1 \<le> r" "r * q \<le> left" "r \<le> left" "0 \<le> q"
  defines "share \<equiv> (left + r - 1) div r"
  shows "q \<le> share" "1 \<le> share" "0 \<le> u \<Longrightarrow> u \<le> share \<Longrightarrow> (r - 1) * q \<le> left - u \<and> r - 1 \<le> left - u"
proof -
  have s: "r * share \<le> left + r - 1" "left \<le> r * share"
  proof -
    have "r * share + (left + r - 1) mod r = left + r - 1" by (simp add: share_def)
    moreover have "0 \<le> (left + r - 1) mod r" "(left + r - 1) mod r < r" using assms(1) by simp_all
    ultimately show "r * share \<le> left + r - 1" "left \<le> r * share" by linarith+
  qed
  have "r * q \<le> r * share" "r * 1 \<le> r * share" using s(2) assms by linarith+
  then show q: "q \<le> share" "1 \<le> share" using assms(1) by simp_all
  show "(r - 1) * q \<le> left - u \<and> r - 1 \<le> left - u" if "0 \<le> u" "u \<le> share"
  proof -
    have k: "r * k \<le> left \<Longrightarrow> 0 \<le> k \<Longrightarrow> (r - 1) * k \<le> left - share" for k
    proof -
      assume h: "r * k \<le> left" "0 \<le> k"
      have "r * share \<le> left + r - 1" by (rule s(1))
      then have "r * (left - share) \<ge> r * left - left - r + 1" by (simp add: algebra_simps)
      moreover have "(r - 1) * (r * k) \<le> (r - 1) * left" using h(1) assms(1) by (intro mult_left_mono) auto
      ultimately have "r * ((r - 1) * k) < r * (left - share) + r" by (simp add: algebra_simps)
      then have "r * ((r - 1) * k) < r * (left - share + 1)" by (simp add: algebra_simps)
      then show "(r - 1) * k \<le> left - share" using assms(1) by simp
    qed
    from k [of q] k [of 1] assms that show ?thesis by auto
  qed
qed

lemma sdiv_nonneg: "0 \<le> a \<Longrightarrow> 0 < b \<Longrightarrow> a sdiv b = (a :: int) div b"
  by (auto simp: signed_divide_int_def sgn_if)

lemma lane_shares:
  assumes "walk_bounded walk" "0 < rp_maxEntries pl" "rp_remaining pl = int (length roots)" "0 \<le> q"
    and "int (length roots) * q \<le> rp_maxEntries pl - rp_usedEntries pl"
    and "int (length roots) \<le> rp_maxEntries pl - rp_usedEntries pl"
  shows "(\<forall>s \<in> set (root_shares walk roots pl now). q \<le> s) \<and>
    sb_entries (fst (walk_roots walk None f key roots pl now x)) - sb_entries (fst x) \<le> rp_maxEntries pl - rp_usedEntries pl"
  using assms(2-6)
proof (induction roots arbitrary: pl now x)
  case (Cons dir roots)
  obtain b fs where x: "x = (b, fs)" by (cases x)
  obtain child pl1 child' now1 where steps: "pool_child pl 0 now = (child, pl1)" "walk dir child now = (child', now1)"
    by (metis surj_pair)
  let ?left = "rp_maxEntries pl - rp_usedEntries pl" and ?r = "int (length (dir # roots))"
  let ?share = "(?left + ?r - 1) div ?r"
  note cs = ceiling_share [of ?r q ?left]
  have sh: "q \<le> ?share" "1 \<le> ?share" using cs(1,2) Cons.prems by auto
  have share: "sb_maxEntries child = ?share" "sb_entries child = 0"
  proof -
    have "?left + ?r - 1 \<ge> 0" using Cons.prems by simp
    then have "(?left + ?r - 1) sdiv ?r = ?share" by (rule sdiv_nonneg) simp
    then show "sb_maxEntries child = ?share" "sb_entries child = 0"
      using steps(1) Cons.prems sh(2) by (auto simp: pool_child_def entryShare_def empty_budget_def Let_def max_def)
  qed
  have used: "0 \<le> sb_entries child'" "sb_entries child' \<le> ?share"
    using assms(1) share sh(2) steps(2) by (auto simp: walk_bounded_def) (metis fst_conv less_le_trans zero_less_one)+
  have left': "(?r - 1) * q \<le> ?left - sb_entries child'" "?r - 1 \<le> ?left - sb_entries child'"
    using cs(3) [of "sb_entries child'"] Cons.prems used by auto
  let ?pl = "pool_done child' pl1"
  have pl: "rp_maxEntries ?pl = rp_maxEntries pl" "rp_usedEntries ?pl = rp_usedEntries pl + sb_entries child'"
    "rp_remaining ?pl = int (length roots)"
    using steps(1) Cons.prems(2) by (auto simp: pool_child_def pool_done_def)
  let ?y = "recordWorkspaceCursor f key dir (mergeWorkspaceRootBudget child' b, fs)"
  have IH: "(\<forall>s \<in> set (root_shares walk roots ?pl now1). q \<le> s) \<and>
      sb_entries (fst (walk_roots walk None f key roots ?pl now1 ?y)) - sb_entries (fst ?y) \<le> rp_maxEntries ?pl - rp_usedEntries ?pl"
    by (rule Cons.IH) (use Cons.prems left' pl in \<open>simp_all add: algebra_simps\<close>)
  then show ?case using x steps share sh pl by (simp add: ctx_at_def frame_simps)
qed (use assms in simp)

text \<open>The roots of a lane share its entry budget fairly: when there are at most as many roots as
  entries, every root is given at least an equal part whatever the roots before it used, and the
  whole lane never visits more than the budget.\<close>

theorem lane_shares_fair:
  assumes "walk_bounded walk" "0 < sb_maxEntries b" "int (length roots) \<le> sb_maxEntries b" "roots \<noteq> []"
    and "pl = rootPool b (int (length roots)) now"
  shows "(\<forall>s \<in> set (root_shares walk roots pl now). sb_maxEntries b div int (length roots) \<le> s) \<and>
    sb_entries (fst (walk_roots walk None f key roots pl now (b, fs))) \<le> sb_entries b + sb_maxEntries b"
proof -
  have "int (length roots) * (sb_maxEntries b div int (length roots)) \<le> sb_maxEntries b"
    using assms(2,4) by (simp add: minus_mod_eq_mult_div [symmetric])
  then show ?thesis
    using lane_shares [of walk pl roots "sb_maxEntries b div int (length roots)" now f key "(b, fs)"] assms
    by (simp add: rootPool_def pos_imp_zdiv_nonneg_iff)
qed

text \<open>A walk that asks \<open>checkPath\<close> before each of a root's entries and stops at the first refusal is bounded.\<close>

fun check_entries :: "path list \<Rightarrow> scan_budget \<Rightarrow> scan_budget" where
  "check_entries [] b = b"
| "check_entries (p # ps) b =
     (case checkPath None p b of (None, b) \<Rightarrow> check_entries ps b | (Some _, b) \<Rightarrow> b)"

definition entry_walk :: "(path \<Rightarrow> path list) \<Rightarrow> root_walk" where
  "entry_walk entries d child t = (check_entries (entries d) child, t + int (length (entries d)) * millisecond)"

lemma markTruncated_frame [frame_simps]:
  "sb_entries (markTruncated p r b) = sb_entries b" "sb_maxEntries (markTruncated p r b) = sb_maxEntries b"
  by (simp_all add: markTruncated_def)

lemma check_entries_bounded:
  "0 \<le> sb_entries b \<Longrightarrow> 0 < sb_maxEntries b \<longrightarrow> sb_entries b \<le> sb_maxEntries b \<Longrightarrow>
     0 \<le> sb_entries (check_entries ps b) \<and> (0 < sb_maxEntries b \<longrightarrow> sb_entries (check_entries ps b) \<le> sb_maxEntries b)"
proof (induction ps arbitrary: b)
  case (Cons p ps)
  show ?case
  proof (cases "0 < sb_maxEntries b \<and> sb_maxEntries b \<le> sb_entries b")
    case True
    with Cons.prems show ?thesis by (simp add: checkPath_def frame_simps)
  next
    case False
    have "0 \<le> sb_entries (check_entries ps (b\<lparr>sb_entries := sb_entries b + 1\<rparr>)) \<and>
        (0 < sb_maxEntries (b\<lparr>sb_entries := sb_entries b + 1\<rparr>) \<longrightarrow>
           sb_entries (check_entries ps (b\<lparr>sb_entries := sb_entries b + 1\<rparr>)) \<le> sb_maxEntries (b\<lparr>sb_entries := sb_entries b + 1\<rparr>))"
      by (rule Cons.IH) (use Cons.prems False in auto)
    with False show ?thesis by (auto simp: checkPath_def)
  qed
qed simp

lemma entry_walk_bounded: "walk_bounded (entry_walk entries)"
  using check_entries_bounded by (auto simp: walk_bounded_def entry_walk_def)

definition no_cursor_faults :: cursor_faults where
  "no_cursor_faults = \<lparr>cu_mkdir = False, cu_write = False, cu_partial = False, cu_rename = False\<rparr>"

definition demo_tree :: "path \<Rightarrow> path list" where
  "demo_tree d = (if d = ''/w/big'' then replicate 9 ''/w/big/x'' else [''/w/small/y''])"

lemma lane_shares_fair_witness:
  "list_all (\<lambda>s. 3 \<le> s) (root_shares (entry_walk demo_tree) [''/w/big'', ''/w/small'']
       (rootPool (empty_budget 0 6 0 0) (int (length [''/w/big'', ''/w/small''])) 0) 0)"
  using lane_shares_fair [of "entry_walk demo_tree" "empty_budget 0 6 0 0" "[''/w/big'', ''/w/small'']" _ 0, OF entry_walk_bounded _ _ _ refl]
  by (simp add: empty_budget_def list_all_iff)

definition demo_truncated :: scan_budget where
  "demo_truncated =
     fst (walk_roots (entry_walk demo_tree) None no_cursor_faults ''k'' [''/w/big'', ''/w/small'']
       (rootPool (empty_budget 0 6 0 0) 2 0) 0 (empty_budget 0 6 0 0, \<lambda>_. None))"

lemma root_truncation_isolated_witness:
  "sb_rootsTruncated demo_truncated = 1 \<and> \<not> exhausted demo_truncated \<and> partial_scan demo_truncated"
proof -
  have "sb_rootsTruncated demo_truncated = 1" by code_simp
  moreover have "length (sb_rootTruncated (empty_budget 0 6 0 0)) \<le> 20" "sb_rootsTruncated (empty_budget 0 6 0 0) = 0"
    "\<not> exhausted (empty_budget 0 6 0 0)"
    by (simp_all add: empty_budget_def exhausted_def)
  ultimately show ?thesis using root_truncation_isolated [OF _ demo_truncated_def] by simp
qed

subsection \<open>Rotation\<close>

lemma first_after_sorted:
  "sorted_wrt (<) roots \<Longrightarrow> i < length roots \<Longrightarrow>
     first_after roots (roots ! i) k = (if Suc i < length roots then Some (k + Suc i) else None)"
proof (induction roots arbitrary: i k)
  case (Cons r rs)
  show ?case
  proof (cases i)
    case 0
    with Cons.prems show ?thesis by (cases rs) auto
  next
    case (Suc j)
    with Cons.prems have "r < rs ! j" by auto
    then have "\<not> rs ! j < r" by (simp add: order.asym)
    with Suc Cons.IH [of j "k + 1"] Cons.prems show ?thesis by simp
  qed
qed simp

lemma first_after_less: "first_after roots c k = Some i \<Longrightarrow> i < k + length roots"
  by (induction roots arbitrary: k) (force split: if_splits)+

definition start_of :: "path list \<Rightarrow> path \<Rightarrow> nat" where
  "start_of roots cursor =
     (if cursor = [] then 0 else case first_after roots cursor 0 of None \<Rightarrow> 0 | Some i \<Rightarrow> i)"

definition rotated :: "path list \<Rightarrow> nat \<Rightarrow> nat \<Rightarrow> path list" where
  "rotated roots start m = map (\<lambda>offset. roots ! ((start + offset) mod length roots)) [0..<m]"

lemma start_of_less: "roots \<noteq> [] \<Longrightarrow> start_of roots c < length roots"
  using first_after_less [of roots c 0] by (auto simp: start_of_def split: option.splits)

lemma start_of_next:
  assumes "sorted_wrt (<) roots" "[] \<notin> set roots" "i < length roots"
  shows "start_of roots (roots ! i) = Suc i mod length roots"
proof -
  have "roots ! i \<noteq> []" using assms(2,3) nth_mem by metis
  with first_after_sorted [OF assms(1,3), of 0] assms(3) show ?thesis
    by (auto simp: start_of_def not_less less_Suc_eq_le le_Suc_eq mod_if)
qed

lemma start_of_last_rotated:
  assumes "sorted_wrt (<) roots" "[] \<notin> set roots" "roots \<noteq> []" "0 < m"
  shows "start_of roots (last (rotated roots s m)) = (s + m) mod length roots"
proof -
  have "last (rotated roots s m) = roots ! ((s + (m - 1)) mod length roots)"
    using assms(4) by (simp add: rotated_def last_map)
  then have "start_of roots (last (rotated roots s m)) = Suc ((s + (m - 1)) mod length roots) mod length roots"
    using assms by (simp add: start_of_next)
  also have "\<dots> = (s + m) mod length roots"
    using assms(4) by (simp add: mod_Suc_eq)
  finally show ?thesis .
qed

text \<open>One scan of a lane by a fresh budget: the roots it visits and the cursor files after it.\<close>

definition lane_pass ::
    "root_walk \<Rightarrow> scan_config \<Rightarrow> path \<Rightarrow> path \<Rightarrow> string \<Rightarrow> path list \<Rightarrow> instant \<Rightarrow> cursor_files \<Rightarrow> path list \<times> cursor_files" where
  "lane_pass walk cfg home stateFile key roots now fs =
     (let b = newDevArtifactScanBudgetForConfig home stateFile cfg True False fs
      in (fst (selectWorkspaceRoots key roots b), snd (walk_lane walk None no_cursor_faults key roots now (b, fs))))"

fun lane_passes ::
    "root_walk \<Rightarrow> scan_config \<Rightarrow> path \<Rightarrow> path \<Rightarrow> string \<Rightarrow> path list \<Rightarrow> (nat \<Rightarrow> instant) \<Rightarrow> nat \<Rightarrow> cursor_files \<Rightarrow> path list list" where
  "lane_passes walk cfg home stateFile key roots now 0 fs = []"
| "lane_passes walk cfg home stateFile key roots now (Suc k) fs =
     (case lane_pass walk cfg home stateFile key roots (now 0) fs of
        (selected, fs) \<Rightarrow> selected # lane_passes walk cfg home stateFile key roots (\<lambda>i. now (Suc i)) k fs)"

lemma saved_cursor:
  assumes "sb_persist b" "sb_cursorFile b \<noteq> []" "key \<noteq> []" "dir \<noteq> []" "clean_path dir = dir"
  shows "\<exists>b' fs'. recordWorkspaceCursor no_cursor_faults key dir (b, fs) = (b', fs') \<and>
    tbl_get (sb_cursors b') key = Some dir \<and> fs' (sb_cursorFile b) = Some (CursorDoc (Some (sb_cursors b')))"
  using assms by (auto simp: recordWorkspaceCursor_def saveWorkspaceCursors_def no_cursor_faults_def Let_def)

lemma walk_roots_cursor:
  assumes "roots \<noteq> []" "sb_persist b" "sb_cursorFile b \<noteq> []" "key \<noteq> []" "[] \<notin> set roots" "\<forall>r\<in>set roots. clean_path r = r"
  shows "\<exists>t. snd (walk_roots walk None no_cursor_faults key roots pl now (b, fs)) (sb_cursorFile b) = Some (CursorDoc (Some t)) \<and>
    tbl_get t key = Some (last roots)"
  using assms
proof (induction roots arbitrary: b fs pl now)
  case (Cons dir roots)
  obtain child pl1 child' now1 where steps: "pool_child pl 0 now = (child, pl1)" "walk dir child now = (child', now1)"
    by (metis surj_pair)
  let ?m = "mergeWorkspaceRootBudget child' b"
  have m: "sb_persist ?m" "sb_cursorFile ?m = sb_cursorFile b" using Cons.prems by (simp_all add: frame_simps)
  obtain b' fs' where rec: "recordWorkspaceCursor no_cursor_faults key dir (?m, fs) = (b', fs')"
    and saved: "tbl_get (sb_cursors b') key = Some dir" "fs' (sb_cursorFile b) = Some (CursorDoc (Some (sb_cursors b')))"
    using saved_cursor [of ?m key dir fs] m Cons.prems by auto
  have b': "sb_persist b'" "sb_cursorFile b' = sb_cursorFile b"
    using recordWorkspaceCursor_frame [of no_cursor_faults key dir "(?m, fs)"] rec m by simp_all
  show ?case
  proof (cases "roots = []")
    case True
    with steps rec saved show ?thesis by (simp add: ctx_at_def)
  next
    case False
    then show ?thesis
      using Cons.IH [of b' "pool_done child' pl1" now1 fs'] Cons.prems b' steps rec by (simp add: ctx_at_def)
  qed
qed simp

lemma cursor_file_nonempty: "stateFile \<noteq> [] \<Longrightarrow> devArtifactWorkspaceCursorFile home stateFile \<noteq> []"
  by (simp add: devArtifactWorkspaceCursorFile_def Let_def)

lemma config_budget_fields:
  fixes home stateFile cfg persist fails fs
  defines "b \<equiv> newDevArtifactScanBudgetForConfig home stateFile cfg persist fails fs"
  shows "sb_persist b = persist" "sb_cursorFile b = devArtifactWorkspaceCursorFile home stateFile"
    "sb_workspaceMaxRoots b = sc_WorkspaceScanMaxRoots cfg"
  unfolding b_def
  by (auto simp: newDevArtifactScanBudgetForConfig_def loadWorkspaceCursors_def newDevArtifactScanBudget_def
      empty_budget_def split: option.splits cursor_doc.splits)

lemma lane_pass_rotates:
  fixes cfg home stateFile key roots
  defines "budget \<equiv> newDevArtifactScanBudgetForConfig home stateFile cfg True False"
    and "m \<equiv> nat (sc_WorkspaceScanMaxRoots cfg)"
  assumes roots: "sorted_wrt (<) roots" "[] \<notin> set roots" "\<forall>r\<in>set roots. clean_path r = r"
    and names: "stateFile \<noteq> []" "key \<noteq> []"
    and limited: "0 < sc_WorkspaceScanMaxRoots cfg" "sc_WorkspaceScanMaxRoots cfg < int (length roots)"
  shows "\<exists>fs'. lane_pass walk cfg home stateFile key roots now fs =
      (rotated roots (start_of roots (tbl_zero [] (sb_cursors (budget fs)) key)) m, fs') \<and>
    start_of roots (tbl_zero [] (sb_cursors (budget fs')) key) =
      (start_of roots (tbl_zero [] (sb_cursors (budget fs)) key) + m) mod length roots"
proof -
  let ?p = "devArtifactWorkspaceCursorFile home stateFile"
  have b: "sb_persist (budget fs)" "sb_cursorFile (budget fs) = ?p" "sb_workspaceMaxRoots (budget fs) = sc_WorkspaceScanMaxRoots cfg" for fs
    by (simp_all add: budget_def config_budget_fields)
  define s where "s = start_of roots (tbl_zero [] (sb_cursors (budget fs)) key)"
  define sel where "sel = rotated roots s m"
  have ne: "roots \<noteq> []" "0 < m" using limited by (auto simp: m_def)
  then have sel: "sel \<noteq> []" "set sel \<subseteq> set roots"
    by (auto simp: sel_def rotated_def)
  obtain b' where select: "selectWorkspaceRoots key roots (budget fs) = (sel, b')"
    and b': "sb_persist b'" "sb_cursorFile b' = ?p"
    using limited ne b [of fs] by (auto simp: selectWorkspaceRoots_def rotateWorkspaceRootsAfterCursor_def Let_def sel_def rotated_def
        s_def start_of_def m_def)
  obtain t where t: "snd (walk_lane walk None no_cursor_faults key roots now (budget fs, fs)) ?p = Some (CursorDoc (Some t))"
    "tbl_get t key = Some (last sel)"
  proof -
    have ok: "[] \<notin> set sel" "\<forall>r\<in>set sel. clean_path r = r" using sel(2) roots by blast+
    show ?thesis
      using walk_roots_cursor [OF sel(1) b'(1) _ names(2) ok, of walk "rootPool b' (int (length sel)) now" now fs]
        b'(2) cursor_file_nonempty [OF names(1), of home] that
      by (auto simp: walk_lane_def select)
  qed
  define fs' where "fs' = snd (walk_lane walk None no_cursor_faults key roots now (budget fs, fs))"
  have "sb_cursors (budget fs') = t"
    using t(1) cursor_file_nonempty [OF names(1), of home]
    by (simp add: budget_def newDevArtifactScanBudgetForConfig_def loadWorkspaceCursors_def fs'_def)
  then have "start_of roots (tbl_zero [] (sb_cursors (budget fs')) key) = (s + m) mod length roots"
    using start_of_last_rotated [OF roots(1,2) ne] t(2) by (simp add: tbl_zero_def sel_def)
  moreover have "lane_pass walk cfg home stateFile key roots now fs = (sel, fs')"
    by (simp add: lane_pass_def Let_def select fs'_def flip: budget_def)
  ultimately show ?thesis by (auto simp: sel_def s_def)
qed

text \<open>No workspace root is starved: a lane that visits at most \<open>m\<close> roots per scan and remembers
  where it stopped visits every one of \<open>n\<close> roots within \<open>n / m\<close> scans (rounded up), wherever it
  starts and whatever the walks use; no scan visits more than \<open>m\<close>.\<close>

theorem lane_rotation_visits_all:
  assumes "sorted_wrt (<) roots" "[] \<notin> set roots" "\<forall>r\<in>set roots. clean_path r = r" "stateFile \<noteq> []" "key \<noteq> []"
    and "0 < sc_WorkspaceScanMaxRoots cfg" "int (length roots) \<le> int k * sc_WorkspaceScanMaxRoots cfg"
  shows "set roots \<subseteq> (\<Union>sel\<in>set (lane_passes walk cfg home stateFile key roots now k fs). set sel) \<and>
    (\<forall>sel\<in>set (lane_passes walk cfg home stateFile key roots now k fs). int (length sel) \<le> sc_WorkspaceScanMaxRoots cfg)"
proof (cases "sc_WorkspaceScanMaxRoots cfg < int (length roots)")
  case True
  define m where "m = nat (sc_WorkspaceScanMaxRoots cfg)"
  define n where "n = length roots"
  have all: "(\<Union>sel\<in>set (lane_passes walk cfg home stateFile key roots now j fs). set sel) =
      (\<lambda>o'. roots ! ((start_of roots (tbl_zero [] (sb_cursors (newDevArtifactScanBudgetForConfig home stateFile cfg True False fs)) key)
          + o') mod n)) ` {..<j * m} \<and>
    (\<forall>sel\<in>set (lane_passes walk cfg home stateFile key roots now j fs). length sel = m)" for j now fs
  proof (induction j arbitrary: now fs)
    case (Suc j)
    let ?s = "start_of roots (tbl_zero [] (sb_cursors (newDevArtifactScanBudgetForConfig home stateFile cfg True False fs)) key)"
    obtain fs' where pass: "lane_pass walk cfg home stateFile key roots (now 0) fs = (rotated roots ?s m, fs')"
      and next_start: "start_of roots (tbl_zero [] (sb_cursors (newDevArtifactScanBudgetForConfig home stateFile cfg True False fs')) key)
        = (?s + m) mod n"
      using lane_pass_rotates [OF assms(1-6) True, of walk home "now 0" fs] unfolding m_def n_def by blast
    have mset: "{..<Suc j * m} = {..<m} \<union> (\<lambda>i. m + i) ` {..<j * m}"
    proof (rule set_eqI)
      fix x
      show "x \<in> {..<Suc j * m} \<longleftrightarrow> x \<in> {..<m} \<union> (\<lambda>i. m + i) ` {..<j * m}"
        by (cases "x < m") (auto simp: image_iff intro!: bexI [of _ "x - m"])
    qed
    have shift: "((?s + m) mod n + i) mod n = (?s + (m + i)) mod n" for i
      by (simp add: mod_add_left_eq add.assoc)
    have first: "set (rotated roots ?s m) = (\<lambda>o'. roots ! ((?s + o') mod n)) ` {..<m}"
      by (simp add: rotated_def n_def lessThan_atLeast0)
    have passes: "lane_passes walk cfg home stateFile key roots now (Suc j) fs =
        rotated roots ?s m # lane_passes walk cfg home stateFile key roots (\<lambda>i. now (Suc i)) j fs'"
      by (simp add: pass)
    show ?case
      unfolding passes list.set UN_insert ball_simps
      unfolding first mset image_Un image_image Suc.IH [of "\<lambda>i. now (Suc i)" fs', THEN conjunct1] next_start shift
      using Suc.IH [of "\<lambda>i. now (Suc i)" fs', THEN conjunct2] by (simp add: rotated_def)
  qed simp
  have n: "0 < n" "n \<le> k * m" using assms(6,7) True by (auto simp: n_def m_def simp flip: of_nat_le_iff [where 'a = int])
  have "roots ! i \<in> (\<lambda>o'. roots ! ((s + o') mod n)) ` {..<k * m}" if "i < n" "s < n" for i s
  proof -
    have "(s + (n + i - s) mod n) mod n = i" using that by (simp add: mod_add_right_eq)
    moreover have "(n + i - s) mod n < k * m" using n by (meson mod_less_divisor less_le_trans)
    ultimately show ?thesis by (metis (no_types, lifting) image_eqI lessThan_iff)
  qed
  then have cover: "set roots \<subseteq> (\<lambda>o'. roots ! ((s + o') mod n)) ` {..<k * m}" if "s < n" for s
    using that unfolding n_def in_set_conv_nth subset_iff by blast
  have "start_of roots c < n" for c using n(1) start_of_less [of roots] by (simp add: n_def)
  from cover [OF this] all [where j = k and now = now and fs = fs]
  have "set roots \<subseteq> (\<Union>sel\<in>set (lane_passes walk cfg home stateFile key roots now k fs). set sel)"
    and len: "\<forall>sel\<in>set (lane_passes walk cfg home stateFile key roots now k fs). length sel = m"
    by simp_all
  moreover have "int m = sc_WorkspaceScanMaxRoots cfg" using assms(6) by (simp add: m_def)
  ultimately show ?thesis by auto
next
  case False
  have sel: "fst (lane_pass walk cfg home stateFile key roots t fs) = roots" for t fs
    using False by (simp add: lane_pass_def selectWorkspaceRoots_def Let_def config_budget_fields)
  have each: "sel \<in> set (lane_passes walk cfg home stateFile key roots now j fs) \<Longrightarrow> sel = roots" for sel j now fs
    by (induction j arbitrary: now fs) (auto simp: split_beta sel)
  have "roots = [] \<or> roots \<in> set (lane_passes walk cfg home stateFile key roots now k fs)"
  proof (cases k)
    case 0
    with assms(7) show ?thesis by simp
  next
    case (Suc j)
    then show ?thesis by (simp add: split_beta sel)
  qed
  then have "set roots \<subseteq> (\<Union>sel\<in>set (lane_passes walk cfg home stateFile key roots now k fs). set sel)" by auto
  moreover have "\<forall>sel\<in>set (lane_passes walk cfg home stateFile key roots now k fs). int (length sel) \<le> sc_WorkspaceScanMaxRoots cfg"
    using each False by fastforce
  ultimately show ?thesis by blast
qed

definition demo_scan_config :: scan_config where
  "demo_scan_config =
     \<lparr>sc_ScanMaxDuration = [], sc_ScanMaxEntries = 6, sc_WorkspaceScanMaxRoots = 2, sc_TempScanMaxRoots = 0\<rparr>"

lemma lane_rotation_visits_all_witness:
  "{''/a'', ''/b'', ''/c''} \<subseteq> (\<Union>sel\<in>set (lane_passes (entry_walk demo_tree) demo_scan_config [] ''/s'' ''k''
       [''/a'', ''/b'', ''/c''] (\<lambda>_. 0) 2 (\<lambda>_. None)). set sel)"
proof -
  have "sorted_wrt (<) [''/a'', ''/b'', ''/c'']" "\<forall>r\<in>set [''/a'', ''/b'', ''/c'']. clean_path r = r"
    by code_simp+
  then show ?thesis
    using lane_rotation_visits_all [of "[''/a'', ''/b'', ''/c'']" "''/s''" "''k''" demo_scan_config 2 "entry_walk demo_tree"
        "[]" "\<lambda>_. 0" "\<lambda>_. None"]
    by (simp add: demo_scan_config_def)
qed

subsection \<open>The cursor file is an atomic document\<close>

lemma save_states:
  "fs' \<in> set (saveWorkspaceCursors f b fs) \<Longrightarrow>
     fs' (sb_cursorFile b) = fs (sb_cursorFile b) \<or> fs' (sb_cursorFile b) = Some (CursorDoc (Some (sb_cursors b)))"
  unfolding saveWorkspaceCursors_def Let_def by (auto split: if_splits)

lemma save_final:
  "last (fs # saveWorkspaceCursors f b fs) (sb_cursorFile b) =
     (if sb_persist b \<and> sb_cursorFile b \<noteq> [] \<and> sb_cursors b \<noteq> [] \<and> \<not> cu_mkdir f \<and> \<not> cu_write f \<and> \<not> cu_rename f
      then Some (CursorDoc (Some (sb_cursors b))) else fs (sb_cursorFile b))"
  unfolding saveWorkspaceCursors_def Let_def by auto

interpretation cursor_document: atomic_document
    "\<lambda>f fs. p \<noteq> []" "\<lambda>f b fs. saveWorkspaceCursors f (b\<lparr>sb_cursorFile := p\<rparr>) fs"
    "\<lambda>f b fs. sb_persist b \<and> sb_cursors b \<noteq> [] \<and> \<not> cu_mkdir f \<and> \<not> cu_write f \<and> \<not> cu_rename f"
    "\<lambda>fs. fs p" "\<lambda>b. CursorDoc (Some (sb_cursors b))"
  for p :: path
  using save_states [of _ _ "b\<lparr>sb_cursorFile := p\<rparr>" for b] save_final [of _ _ "b\<lparr>sb_cursorFile := p\<rparr>" for b]
  by unfold_locales auto

end
