(* ===== verification/Nix_Cadence.thy ===== *)
theory Nix_Cadence
  imports Plugin_API Paths Durations Interfaces State_Store
begin

text \<open>
  When the Nix plugin may collect, \<open>plugins/nix_cadence.go\<close>: the GC state with its attempt stamp
  and its run of deferrals, the state file, the due decision, the bound on busy deferrals and the
  \<open>--max-freed\<close> bound of a pass.  Texts are ASCII, and JSON keeps a state's instants and texts.
\<close>

subsection \<open>\<open>config.NixConfig\<close>\<close>

record nix_config =
  nc_MinUserGenerations :: int
  nc_MinHomeManagerGenerations :: int
  nc_MinSystemGenerations :: int
  nc_MaxUserGenerations :: int
  nc_MaxHomeManagerGenerations :: int
  nc_HostMeasurePath :: string
  nc_DeleteGenerationsOlderThan :: string
  nc_CriticalDeleteGenerationsOlderThan :: string
  nc_DeleteHomeManagerGenerations :: bool
  nc_HomeManagerDeleteGenerationsOlderThan :: string
  nc_HomeManagerCriticalDeleteGenerationsOlderThan :: string
  nc_AllowStoreOptimize :: bool
  nc_SkipWhenDaemonBusy :: bool
  nc_DaemonBusyBackoff :: string
  nc_MaxBusyDeferrals :: int
  nc_MaxBusyDeferralDuration :: string
  nc_PeriodicGCInterval :: string
  nc_MinGCInterval :: string
  nc_MaxFreedPerPass :: string
  nc_GCStateFile :: path
  nc_HookPinFiles :: "path list"
  nc_HookPinDir :: path
  nc_HookPinSessionComms :: "string list"
  nc_HookPinRequired :: bool
  nc_GCLockFile :: path
  nc_GCDeferPaths :: "path list"

subsection \<open>The GC state\<close>

definition nixDefaultMinGCInterval :: duration where "nixDefaultMinGCInterval = 30 * minute"

record nix_gc_state =
  gs_LastGCAttempt :: instant
  gs_DeferredPasses :: int
  gs_FirstDeferredAt :: instant
  gs_LastDeferral :: string

definition zero_gc_state :: nix_gc_state where
  "zero_gc_state =
     \<lparr>gs_LastGCAttempt = zero_time, gs_DeferredPasses = 0, gs_FirstDeferredAt = zero_time, gs_LastDeferral = []\<rparr>"

definition recordDeferral :: "instant \<Rightarrow> string \<Rightarrow> nix_gc_state \<Rightarrow> nix_gc_state" where
  "recordDeferral now reason st =
     (let st = (if gs_DeferredPasses st = 0 \<or> gs_FirstDeferredAt st = zero_time
                then st\<lparr>gs_FirstDeferredAt := now\<rparr> else st)
      in st\<lparr>gs_DeferredPasses := wrap64 (gs_DeferredPasses st + 1), gs_LastDeferral := reason\<rparr>)"

definition recordAttempt :: "instant \<Rightarrow> nix_gc_state \<Rightarrow> nix_gc_state" where
  "recordAttempt now st =
     st\<lparr>gs_LastGCAttempt := now, gs_DeferredPasses := 0, gs_FirstDeferredAt := zero_time, gs_LastDeferral := []\<rparr>"

definition nixBusyDeferralBound :: "nix_config \<Rightarrow> nix_gc_state \<Rightarrow> instant \<Rightarrow> bool \<times> string" where
  "nixBusyDeferralBound cfg st now =
     (if 0 < nc_MaxBusyDeferrals cfg \<and> nc_MaxBusyDeferrals cfg \<le> gs_DeferredPasses st
      then (True, ''max_busy_deferrals='' @ show_int (nc_MaxBusyDeferrals cfg))
      else let limit = parse_nix_policy_duration (nc_MaxBusyDeferralDuration cfg) 0
           in if 0 < limit \<and> 0 < gs_DeferredPasses st \<and> gs_FirstDeferredAt st \<noteq> zero_time \<and>
                 limit \<le> time_sub now (gs_FirstDeferredAt st)
              then (True, ''max_busy_deferral_duration='' @ nc_MaxBusyDeferralDuration cfg)
              else (False, []))"

subsection \<open>The state file\<close>

definition nixGCStatePath :: "nix_config \<Rightarrow> path \<Rightarrow> path" where
  "nixGCStatePath cfg home =
     (if nc_GCStateFile cfg = [] then [] else clean_path (expandHome (nc_GCStateFile cfg) home))"

text \<open>
  A state file as \<open>json.Unmarshal\<close> sees it: not JSON, or the fields it stores (the rest keep
  their zero value).
\<close>

record gc_fields =
  gd_LastGCAttempt :: "instant option"
  gd_DeferredPasses :: "int option"
  gd_FirstDeferredAt :: "instant option"
  gd_LastDeferral :: "string option"

datatype gc_doc = GCGarbage | GCDoc gc_fields

type_synonym gc_files = "path \<Rightarrow> gc_doc option"

definition decode_gc :: "gc_fields \<Rightarrow> nix_gc_state" where
  "decode_gc d =
     \<lparr>gs_LastGCAttempt = field_or zero_time (gd_LastGCAttempt d), gs_DeferredPasses = field_or 0 (gd_DeferredPasses d),
      gs_FirstDeferredAt = field_or zero_time (gd_FirstDeferredAt d), gs_LastDeferral = field_or [] (gd_LastDeferral d)\<rparr>"

definition encode_gc :: "nix_gc_state \<Rightarrow> gc_fields" where
  "encode_gc st =
     \<lparr>gd_LastGCAttempt = Some (gs_LastGCAttempt st), gd_DeferredPasses = Some (gs_DeferredPasses st),
      gd_FirstDeferredAt = Some (gs_FirstDeferredAt st),
      gd_LastDeferral = (if gs_LastDeferral st = [] then None else Some (gs_LastDeferral st))\<rparr>"

definition loadNixGCState :: "bool \<Rightarrow> gc_files \<Rightarrow> path \<Rightarrow> nix_gc_state" where
  "loadNixGCState readFails fs p =
     (if p = [] \<or> readFails then zero_gc_state
      else case fs p of Some (GCDoc d) \<Rightarrow> decode_gc d | _ \<Rightarrow> zero_gc_state)"

text \<open>Which call of a save fails and with what; a failed write may leave part of the document.\<close>

record gc_faults =
  gf_mkdir :: "string option"
  gf_marshal :: "string option"
  gf_write :: "string option"
  gf_rename :: "string option"
  gf_partial :: bool

text \<open>The file-system states a save passes through, oldest first, and its error.\<close>

definition saveNixGCState :: "gc_faults \<Rightarrow> path \<Rightarrow> nix_gc_state \<Rightarrow> gc_files \<Rightarrow> gc_files list \<times> string option" where
  "saveNixGCState f p st fs =
     (if p = [] then ([], None)
      else case first_fault [gf_mkdir f, gf_marshal f] of
        Some e \<Rightarrow> ([], Some e)
      | None \<Rightarrow>
          (let tmp = p @ ''.tmp''; doc = GCDoc (encode_gc st);
               partial = fs(tmp \<mapsto> GCGarbage); written = fs(tmp \<mapsto> doc)
           in case gf_write f of
                Some e \<Rightarrow> (if gf_partial f then [partial] else [], Some e)
              | None \<Rightarrow>
                  (case gf_rename f of
                     Some e \<Rightarrow> ([partial, written], Some e)
                   | None \<Rightarrow> ([partial, written, written(tmp := None, p \<mapsto> doc)], None))))"

subsection \<open>When a collection is due\<close>

definition nixGCDue :: "cleanup_level \<Rightarrow> nix_config \<Rightarrow> nix_gc_state \<Rightarrow> instant \<Rightarrow> cleanup_level \<times> string" where
  "nixGCDue level cfg st now =
     (let minGap = parse_nix_policy_duration (nc_MinGCInterval cfg) nixDefaultMinGCInterval;
          periodic = parse_nix_policy_duration (nc_PeriodicGCInterval cfg) 0;
          since = time_sub now (gs_LastGCAttempt st)
      in if gs_LastGCAttempt st \<noteq> zero_time \<and> 0 < minGap \<and> since < minGap then (LevelNone, ''min_gc_interval'')
         else if LevelWarning \<le> level then (level, ''pressure'')
         else if 0 < periodic \<and> (gs_LastGCAttempt st = zero_time \<or> periodic \<le> since) then (LevelWarning, ''periodic'')
         else (LevelNone, ''not_due''))"

subsection \<open>The bound of a pass\<close>

definition nixDefaultMaxFreedPerPass :: int where "nixDefaultMaxFreedPerPass = push_bit 30 50"

definition suffix_shift :: "char \<Rightarrow> nat" where
  "suffix_shift c =
     (let u = lower_char c
      in if u = CHR ''k'' then 10 else if u = CHR ''m'' then 20 else if u = CHR ''g'' then 30
         else if u = CHR ''t'' then 40 else 0)"

text \<open>\<open>None\<close> is the error.\<close>

definition nixParseMaxFreed :: "string \<Rightarrow> int option" where
  "nixParseMaxFreed raw =
     (let s = trim_space raw
      in if s = [] then Some 0
         else let shift = suffix_shift (last s); s = (if 0 < shift then butlast s else s)
              in case parse_int64 s of
                   (n, ok) \<Rightarrow> (if \<not> ok \<or> n < 0 \<or> drop_bit shift max_i64 < n then None else Some (push_bit shift n)))"

definition nixMaxFreedArgs :: "nix_config \<Rightarrow> string list" where
  "nixMaxFreedArgs cfg =
     (let n = (case nixParseMaxFreed (nc_MaxFreedPerPass cfg) of Some n \<Rightarrow> n | None \<Rightarrow> nixDefaultMaxFreedPerPass)
      in if n = 0 then [] else [''--max-freed'', show_int n])"

subsection \<open>Facts about the state\<close>

lemma zero_gc_state_simps [simp]:
  "gs_LastGCAttempt zero_gc_state = zero_time" "gs_DeferredPasses zero_gc_state = 0"
  "gs_FirstDeferredAt zero_gc_state = zero_time"
  by (simp_all add: zero_gc_state_def)

lemma recordDeferral_simps [simp]:
  "gs_LastGCAttempt (recordDeferral now reason st) = gs_LastGCAttempt st"
  "gs_DeferredPasses (recordDeferral now reason st) = wrap64 (gs_DeferredPasses st + 1)"
  "gs_FirstDeferredAt (recordDeferral now reason st) =
     (if gs_DeferredPasses st = 0 \<or> gs_FirstDeferredAt st = zero_time then now else gs_FirstDeferredAt st)"
  by (simp_all add: recordDeferral_def Let_def)

lemma recordAttempt_simps [simp]:
  "gs_LastGCAttempt (recordAttempt now st) = now" "gs_DeferredPasses (recordAttempt now st) = 0"
  by (simp_all add: recordAttempt_def)

lemma decode_encode_gc [simp]: "decode_gc (encode_gc st) = st"
  by (simp add: decode_gc_def encode_gc_def field_or_def)

text \<open>A due pass is at least the minimum gap after the last attempt.\<close>

lemma time_sub_ge: "d \<le> time_sub t u \<Longrightarrow> min_i64 < d \<Longrightarrow> d \<le> t - u"
  by (auto simp: time_sub_def max_def min_def split: if_splits)

lemma due_spaced:
  assumes "nixGCDue level cfg st now = (l, why)" "l \<noteq> LevelNone"
    and "parse_nix_policy_duration (nc_MinGCInterval cfg) nixDefaultMinGCInterval = gap" "0 < gap"
    and "gs_LastGCAttempt st \<noteq> zero_time"
  shows "gs_LastGCAttempt st + gap \<le> now"
proof -
  from assms have "gap \<le> time_sub now (gs_LastGCAttempt st)"
    by (auto simp: nixGCDue_def Let_def not_less split: if_splits)
  from time_sub_ge [OF this] \<open>0 < gap\<close> show ?thesis by (simp add: min_i64_def)
qed

text \<open>The deferral bound ignores the due decision, and a due decision the deferrals.\<close>

lemma due_ignores_deferrals:
  "nixGCDue level cfg (recordDeferral now reason st) t = nixGCDue level cfg st t"
  by (auto simp: nixGCDue_def Let_def)

lemma busy_bound_released:
  "0 < nc_MaxBusyDeferrals cfg \<Longrightarrow> nc_MaxBusyDeferrals cfg \<le> gs_DeferredPasses st \<Longrightarrow>
    fst (nixBusyDeferralBound cfg st now)"
  by (simp add: nixBusyDeferralBound_def)

subsection \<open>The state file is replaced atomically\<close>

lemma save_gc_states:
  assumes "p \<noteq> []" "fs' \<in> set (fst (saveNixGCState f p st fs))"
  shows "fs' p = fs p \<or> fs' p = Some (GCDoc (encode_gc st))"
  using assms by (auto simp: saveNixGCState_def Let_def split: option.splits if_splits)

lemma save_gc_final:
  assumes "p \<noteq> []"
  shows "last (fs # fst (saveNixGCState f p st fs)) p =
    (if snd (saveNixGCState f p st fs) = None then Some (GCDoc (encode_gc st)) else fs p)"
  using assms by (auto simp: saveNixGCState_def Let_def split: option.splits)

interpretation gc_document: atomic_document
    "\<lambda>f fs. p \<noteq> []" "\<lambda>f st fs. fst (saveNixGCState f p st fs)" "\<lambda>f st fs. snd (saveNixGCState f p st fs) = None"
    "\<lambda>fs. fs p" "\<lambda>st. GCDoc (encode_gc st)"
  for p :: path
  using save_gc_states save_gc_final by unfold_locales auto

lemma load_after_save:
  assumes "p \<noteq> []" "snd (saveNixGCState f p st fs) = None"
  shows "loadNixGCState False (last (fs # fst (saveNixGCState f p st fs))) p = st"
  using gc_document.final_content [of p fs f st] assms by (simp add: loadNixGCState_def)

subsection \<open>The bound of a pass is read exactly\<close>

lemma trim_space_id: "s \<noteq> [] \<Longrightarrow> \<not> is_space (hd s) \<Longrightarrow> \<not> is_space (last s) \<Longrightarrow> trim_space s = s"
  by (metis dropWhile_eq_self_iff hd_rev rev_is_Nil_conv rev_rev_ident trim_space_def)

lemma digit_not_space: "is_digit c \<Longrightarrow> \<not> is_space c"
  by (auto simp: is_digit_def is_space_def)

lemma show_nat_last: "0 \<le> n \<Longrightarrow> is_digit (last (show_nat n))"
  by (subst show_nat.simps) (simp add: digit_props)

lemma show_int_ends:
  "show_int n \<noteq> [] \<and> \<not> is_space (hd (show_int n)) \<and> is_digit (last (show_int n))"
proof (cases "n < 0")
  case True
  then show ?thesis
    using show_nat_hd [of "- n"] show_nat_last [of "- n"] by (simp add: show_int_def is_space_def)
next
  case False
  then show ?thesis
    using show_nat_hd [of n] show_nat_last [of n] by (simp add: show_int_def digit_not_space)
qed

lemma digit_no_suffix: "is_digit c \<Longrightarrow> suffix_shift c = 0"
  by (auto simp: suffix_shift_def is_digit_def lower_char_def)

lemma parse_max_freed_plain:
  "nixParseMaxFreed (show_int n) = (if 0 \<le> n \<and> n \<le> max_i64 then Some n else None)"
  using show_int_ends [of n]
  by (auto simp: nixParseMaxFreed_def trim_space_id digit_not_space digit_no_suffix parse_int64_show
      saturate64_def min_i64_def max_i64_def)

lemma le_int_div_iff: "0 < b \<Longrightarrow> (n :: int) \<le> a div b \<longleftrightarrow> n * b \<le> a"
proof
  assume "0 < b" "n \<le> a div b"
  then have "n * b \<le> a div b * b" by (intro mult_right_mono) auto
  also have "\<dots> \<le> a" using \<open>0 < b\<close> by (simp add: div_mult_mod_eq [symmetric] minus_mod_eq_div_mult [symmetric])
  finally show "n * b \<le> a" .
next
  assume "0 < b" "n * b \<le> a"
  then have "n * b div b \<le> a div b" by (intro zdiv_mono1) auto
  then show "n \<le> a div b" using \<open>0 < b\<close> by simp
qed

lemma parse_max_freed_suffix:
  assumes "0 < suffix_shift u" "\<not> is_space u"
  shows "nixParseMaxFreed (show_int n @ [u]) =
    (if 0 \<le> n \<and> n * 2 ^ suffix_shift u \<le> max_i64 then Some (n * 2 ^ suffix_shift u) else None)"
proof -
  have trim: "trim_space (show_int n @ [u]) = show_int n @ [u]"
    using show_int_ends [of n] assms(2) by (intro trim_space_id) auto
  have le: "n \<le> max_i64 div 2 ^ suffix_shift u \<longleftrightarrow> n * 2 ^ suffix_shift u \<le> max_i64"
    by (rule le_int_div_iff) simp
  have small: "n \<le> max_i64" if "0 \<le> n" "n * 2 ^ suffix_shift u \<le> max_i64"
    using mult_left_mono [of 1 "2 ^ suffix_shift u" n] that by simp
  have parsed: "nixParseMaxFreed (show_int n @ [u]) =
      (if saturate64 n \<noteq> n \<or> saturate64 n < 0 \<or> max_i64 div 2 ^ suffix_shift u < saturate64 n then None
       else Some (saturate64 n * 2 ^ suffix_shift u))"
    unfolding nixParseMaxFreed_def trim Let_def using assms(1)
    by (simp add: parse_int64_show drop_bit_eq_div push_bit_eq_mult)
  show ?thesis
  proof (cases "0 \<le> n \<and> n \<le> max_i64")
    case True
    then have "saturate64 n = n" by (simp add: saturate64_def min_i64_def)
    with True le show ?thesis by (auto simp: parsed not_less)
  next
    case False
    then have "saturate64 n \<noteq> n \<or> saturate64 n < 0" by (auto simp: saturate64_def min_i64_def max_i64_def)
    with False small show ?thesis by (auto simp: parsed)
  qed
qed

text \<open>The \<open>--max-freed\<close> bound is read exactly: any decimal number with no suffix or a binary K, M, G or T suffix (either case) gives that many bytes, and it is refused exactly when it is negative or the byte count does not fit in 63 bits.\<close>

theorem max_freed_read_exactly:
  "list_all (\<lambda>(u, k). nixParseMaxFreed (show_int n @ u) =
       (if 0 \<le> n \<and> n * 2 ^ k \<le> max_i64 then Some (n * 2 ^ k) else None))
     [([], 0), (''K'', 10), (''k'', 10), (''M'', 20), (''m'', 20), (''G'', 30), (''g'', 30), (''T'', 40), (''t'', 40 :: nat)]"
proof -
  have shifts: "suffix_shift CHR ''K'' = 10" "suffix_shift CHR ''k'' = 10" "suffix_shift CHR ''M'' = 20"
    "suffix_shift CHR ''m'' = 20" "suffix_shift CHR ''G'' = 30" "suffix_shift CHR ''g'' = 30"
    "suffix_shift CHR ''T'' = 40" "suffix_shift CHR ''t'' = 40"
    by code_simp+
  have "\<not> is_space c" if "c \<in> set ''KkMmGgTt''" for c using that by (auto simp: is_space_def)
  then show ?thesis
    by (simp add: parse_max_freed_plain parse_max_freed_suffix shifts)
qed

end
