(* ===== verification/Nix_Generations.thy ===== *)
theory Nix_Generations
  imports Nix_Cadence "HOL-Library.Char_ord" "HOL-Library.List_Lexorder" "HOL-Library.Product_Lexorder"
    "HOL-Library.Multiset"
begin

text \<open>
  Retention of Nix profile generations, \<open>plugins/nix.go\<close>: reading the generation list of
  \<open>nix-env\<close> and of profile links, selecting the generations outside the policy, deleting them.
  External commands are observations: whether they exist, their output and error.  A deletion
  returns, beside its result, the commands it ran.  Go's \<open>sort.Slice\<close> may order equal
  elements either way; the model keeps their order.
\<close>

definition CleanupTierWarm :: string where "CleanupTierWarm = ''warm''"
definition CleanupTierPrivileged :: string where "CleanupTierPrivileged = ''privileged''"

record nix_generation =
  ng_Number :: int
  ng_CreatedAt :: instant
  ng_Current :: bool
  ng_Scope :: string
  ng_Profile :: path

subsection \<open>Reading generations\<close>

text \<open>\<open>\\s\<close> of a Go regular expression.\<close>

definition re_space :: "char \<Rightarrow> bool" where "re_space c = (is_space c \<and> of_char c \<noteq> (11 :: int))"

text \<open>\<open>\\s+\<close> at the head of the text: what follows it.\<close>

definition skip_spaces1 :: "string \<Rightarrow> string option" where
  "skip_spaces1 s = (if s = [] \<or> \<not> re_space (hd s) then None else Some (dropWhile re_space s))"

text \<open>A fixed layout of digits (\<open>d\<close>) and literal bytes at the head of the text.\<close>

definition take_layout :: "string \<Rightarrow> string \<Rightarrow> (string \<times> string) option" where
  "take_layout layout s =
     (if length layout \<le> length s \<and>
         list_all2 (\<lambda>l c. if l = CHR ''d'' then is_digit c else c = l) layout (take (length layout) s)
      then Some (take (length layout) s, drop (length layout) s) else None)"

definition contains_text :: "string \<Rightarrow> string \<Rightarrow> bool" where "contains_text s t = sublist t s"

text \<open>\<open>strconv.Atoi\<close> on digits.\<close>

definition atoi_digits :: "string \<Rightarrow> int option" where
  "atoi_digits ds = (if digits_value ds \<le> max_i64 then Some (digits_value ds) else None)"

text \<open>
  One line; \<open>parse_local\<close> is \<open>time.ParseInLocation\<close> with the layout \<open>2006-01-02 15:04:05\<close> in
  the local time zone.
\<close>

definition parse_generation_line ::
    "(string \<Rightarrow> instant option) \<Rightarrow> string \<Rightarrow> path \<Rightarrow> string \<Rightarrow> nix_generation option" where
  "parse_generation_line parse_local scope profile line =
     (let ds = takeWhile is_digit line
      in if ds = [] then None
         else Option.bind (skip_spaces1 (dropWhile is_digit line)) (\<lambda>r1.
              Option.bind (take_layout ''dddd-dd-dd'' r1) (\<lambda>(date, r2).
              Option.bind (skip_spaces1 r2) (\<lambda>r3.
              Option.bind (take_layout ''dd:dd:dd'' r3) (\<lambda>(clock, _).
              Option.bind (atoi_digits ds) (\<lambda>number.
              map_option (\<lambda>created.
                  \<lparr>ng_Number = number, ng_CreatedAt = created, ng_Current = contains_text line ''(current)'',
                   ng_Scope = scope, ng_Profile = profile\<rparr>)
                (parse_local (date @ '' '' @ clock))))))))"

definition parseNixGenerations ::
    "(string \<Rightarrow> instant option) \<Rightarrow> string \<Rightarrow> string \<Rightarrow> path \<Rightarrow> nix_generation list" where
  "parseNixGenerations parse_local output scope profile =
     List.map_filter (\<lambda>raw. let line = trim_space raw
                            in if line = [] then None else parse_generation_line parse_local scope profile line)
       (split_on CHR ''\<newline>'' output)"

text \<open>
  \<open>listGenerations\<close>: \<open>nix-env\<close> run with the given arguments gives its output and error.
\<close>

definition listGenerations ::
    "(string \<Rightarrow> instant option) \<Rightarrow> (string list \<Rightarrow> string \<times> string option) \<Rightarrow> string \<Rightarrow> path \<Rightarrow> string + nix_generation list" where
  "listGenerations parse_local nix_env scope profile =
     (let args = (if profile = [] then [] else [''-p'', profile]) @ [''--list-generations'']
      in case nix_env args of
           (output, Some err) \<Rightarrow>
             Inl (''nix-env '' @ join_strings '' '' args @ '' failed: '' @ err @ '': '' @ trim_space output)
         | (output, None) \<Rightarrow> Inr (parseNixGenerations parse_local output scope profile))"

text \<open>
  The profile links of a directory: the names \<open>os.ReadDir\<close> returns (or that the directory is
  missing, or an error), the target of the current link, and each entry's modification time.
\<close>

datatype dir_listing = DirMissing | DirError string | DirEntries "string list"

definition link_number :: "string \<Rightarrow> string \<Rightarrow> int option" where
  "link_number profileName name =
     (let p = profileName @ ''-''; r = drop (length p) name; ds = takeWhile is_digit r
      in if prefix p name \<and> ds \<noteq> [] \<and> dropWhile is_digit r = ''-link'' then atoi_digits ds else None)"

fun link_generations ::
    "(path \<Rightarrow> string + instant) \<Rightarrow> path \<Rightarrow> string \<Rightarrow> string \<Rightarrow> string \<Rightarrow> string list \<Rightarrow> string + nix_generation list" where
  "link_generations lstat dir profileName scope current [] = Inr []"
| "link_generations lstat dir profileName scope current (name # names) =
     (case link_number profileName name of
        None \<Rightarrow> link_generations lstat dir profileName scope current names
      | Some number \<Rightarrow>
          (let p = join_path [dir, name]
           in case lstat p of
                Inl err \<Rightarrow> Inl err
              | Inr modified \<Rightarrow>
                  map_sum id
                    (\<lambda>gs. \<lparr>ng_Number = number, ng_CreatedAt = modified, ng_Current = (name = current),
                           ng_Scope = scope, ng_Profile = p\<rparr> # gs)
                    (link_generations lstat dir profileName scope current names)))"

definition discoverNixProfileLinkGenerations ::
    "(path \<Rightarrow> dir_listing) \<Rightarrow> (path \<Rightarrow> path option) \<Rightarrow> (path \<Rightarrow> string + instant) \<Rightarrow>
      path \<Rightarrow> string \<Rightarrow> string \<Rightarrow> string + nix_generation list" where
  "discoverNixProfileLinkGenerations read_dir readlink lstat dir profileName scope =
     (case read_dir dir of
        DirMissing \<Rightarrow> Inr []
      | DirError err \<Rightarrow> Inl err
      | DirEntries names \<Rightarrow>
          (let current = (case readlink (join_path [dir, profileName]) of None \<Rightarrow> [] | Some t \<Rightarrow> path_base t)
           in map_sum id (sort_key ng_Number) (link_generations lstat dir profileName scope current names)))"

subsection \<open>Retention\<close>

text \<open>\<open>protectNewestIncludingCurrent\<close>; the map's keys in the order they are added, so that
  \<open>protectedCount\<close> is the number of keys.\<close>

definition protect_current :: "nix_generation list \<Rightarrow> int list" where
  "protect_current gs =
     foldl (\<lambda>ps g. if ng_Current g \<and> ng_Number g \<notin> set ps then ps @ [ng_Number g] else ps) [] gs"

fun protect_newest :: "int \<Rightarrow> nix_generation list \<Rightarrow> int list \<Rightarrow> int list" where
  "protect_newest limit [] ps = ps"
| "protect_newest limit (g # gs) ps =
     (if limit \<le> int (length ps) then ps
      else if ng_Number g \<in> set ps then protect_newest limit gs ps
      else protect_newest limit gs (ps @ [ng_Number g]))"

definition protectNewestIncludingCurrent :: "nix_generation list \<Rightarrow> int \<Rightarrow> int list" where
  "protectNewestIncludingCurrent gs limit = protect_newest limit gs (protect_current gs)"

definition generation_action ::
    "instant \<Rightarrow> duration \<Rightarrow> int \<Rightarrow> int list \<Rightarrow> int list \<Rightarrow> nix_generation \<Rightarrow> string \<times> string" where
  "generation_action now olderThan maxKeep byMinimum byMaximum g =
     (if ng_Current g then (''keep_generation'', ''current profile generation'')
      else if ng_Number g \<in> set byMinimum
        then (''keep_generation'', ''within minimum retained '' @ ng_Scope g @ '' generations'')
      else if 0 < maxKeep \<and> ng_Number g \<notin> set byMaximum
        then (''delete_generation'', ''exceeds configured maximum generation count and outside retained minimum'')
      else if 0 < olderThan \<and> now - olderThan < ng_CreatedAt g
        then (''keep_generation'', ''younger than configured generation age'')
      else if 0 < olderThan
        then (''delete_generation'', ''older than configured generation age and outside retained minimum'')
      else (''keep_generation'', ''within generation retention policy''))"

definition generation_target :: "string \<times> string \<Rightarrow> nix_generation \<Rightarrow> cleanup_target" where
  "generation_target verdict g =
     (let (action, reason) = verdict
      in annotateCleanupTargetPolicy CleanupTierWarm
           (if action = ''delete_generation'' then CleanupReclaimDeferred else CleanupReclaimNone)
           \<lparr>ct_Type = ''nix_generation'', ct_Tier = [],
            ct_Name = (if ng_Scope g = [] then ''profile'' else ng_Scope g) @ '' generation '' @ show_int (ng_Number g),
            ct_Version = show_int (ng_Number g), ct_Path = ng_Profile g, ct_Bytes = 0, ct_LogicalBytes = 0,
            ct_Reclaim = [], ct_HostReclaimsSpace = None, ct_Active = False,
            ct_Protected = (action \<noteq> ''delete_generation''), ct_Action = action, ct_Reason = reason\<rparr>)"

definition newest_first :: "nix_generation list \<Rightarrow> nix_generation list" where
  "newest_first gs = sort_key (\<lambda>g. (- ng_CreatedAt g, - ng_Number g)) gs"

definition nixGenerationTargetsWithMax ::
    "nix_generation list \<Rightarrow> instant \<Rightarrow> int \<Rightarrow> duration \<Rightarrow> int \<Rightarrow> cleanup_target list" where
  "nixGenerationTargetsWithMax generations now minKeep olderThan maxKeep =
     (let minKeep = (if minKeep < 1 then 1 else minKeep);
          maxKeep = (if 0 < maxKeep \<and> maxKeep < minKeep then minKeep else maxKeep);
          ordered = newest_first generations;
          byMinimum = protectNewestIncludingCurrent ordered minKeep;
          byMaximum = (if 0 < maxKeep then protectNewestIncludingCurrent ordered maxKeep else [])
      in sort_key ct_Name
           (map (\<lambda>g. generation_target (generation_action now olderThan maxKeep byMinimum byMaximum g) g) ordered))"

definition nixGenerationTargets :: "nix_generation list \<Rightarrow> instant \<Rightarrow> int \<Rightarrow> duration \<Rightarrow> cleanup_target list" where
  "nixGenerationTargets generations now minKeep olderThan =
     nixGenerationTargetsWithMax generations now minKeep olderThan 0"

definition nixReviewOnlyGenerationTargets ::
    "cleanup_target list \<Rightarrow> string \<Rightarrow> string \<Rightarrow> string \<Rightarrow> cleanup_target list" where
  "nixReviewOnlyGenerationTargets targets action deleteReason tier =
     map (\<lambda>t. if ct_Action t \<noteq> ''delete_generation'' then t
              else annotateCleanupTargetPolicy tier CleanupReclaimDeferred
                     (t\<lparr>ct_Protected := True, ct_Action := action, ct_Reason := deleteReason\<rparr>)) targets"

definition nixHomeManagerGenerationTargets :: "cleanup_target list \<Rightarrow> nix_config \<Rightarrow> cleanup_target list" where
  "nixHomeManagerGenerationTargets targets cfg =
     (if \<not> nc_DeleteHomeManagerGenerations cfg
      then nixReviewOnlyGenerationTargets targets ''review_home_manager_generation''
             ''outside retention policy, but Home Manager generation deletion requires delete_home_manager_generations=true''
             CleanupTierWarm
      else map (\<lambda>t. if ct_Action t \<noteq> ''delete_generation'' then t
              else annotateCleanupTargetPolicy CleanupTierWarm CleanupReclaimDeferred
                     (t\<lparr>ct_Action := ''delete_home_manager_generation'',
                        ct_Reason := ''outside Home Manager retention policy and eligible for home-manager remove-generations''\<rparr>))
             targets)"

subsection \<open>The policy of a level\<close>

definition nixGenerationPolicyAge :: "cleanup_level \<Rightarrow> nix_config \<Rightarrow> string" where
  "nixGenerationPolicyAge level cfg =
     (case level of
        LevelCritical \<Rightarrow> nc_CriticalDeleteGenerationsOlderThan cfg
      | LevelModerate \<Rightarrow> nc_DeleteGenerationsOlderThan cfg
      | LevelAggressive \<Rightarrow> nc_DeleteGenerationsOlderThan cfg
      | _ \<Rightarrow> [])"

definition nixHomeManagerGenerationPolicyAge :: "cleanup_level \<Rightarrow> nix_config \<Rightarrow> string" where
  "nixHomeManagerGenerationPolicyAge level cfg =
     (if level = LevelCritical \<and> trim_space (nc_HomeManagerCriticalDeleteGenerationsOlderThan cfg) \<noteq> []
      then nc_HomeManagerCriticalDeleteGenerationsOlderThan cfg
      else if level \<in> {LevelModerate, LevelAggressive} \<and> trim_space (nc_HomeManagerDeleteGenerationsOlderThan cfg) \<noteq> []
      then nc_HomeManagerDeleteGenerationsOlderThan cfg
      else nixGenerationPolicyAge level cfg)"

definition nixMinHomeManagerGenerations :: "nix_config \<Rightarrow> int" where
  "nixMinHomeManagerGenerations cfg =
     (if 0 < nc_MinHomeManagerGenerations cfg then nc_MinHomeManagerGenerations cfg else nc_MinUserGenerations cfg)"

subsection \<open>What is deleted\<close>

text \<open>The versions the deletion loops collect from the targets.\<close>

definition delete_numbers :: "cleanup_target list \<Rightarrow> string list" where
  "delete_numbers targets = map ct_Version (filter (\<lambda>t. ct_Action t = ''delete_generation'') targets)"

lemma digits_value_append: "digits_value (ds @ [c]) = digits_value ds * 10 + digit_value c"
  by (simp add: digits_value_def)

lemma digits_value_show_nat: "0 \<le> n \<Longrightarrow> digits_value (show_nat n) = n"
proof (induction n rule: show_nat.induct)
  case (1 n)
  show ?case
  proof (cases "n < 10")
    case True
    with "1.prems" show ?thesis by (simp add: show_nat.simps [of n] digits_value_def digit_props)
  next
    case False
    with 1 show ?thesis by (simp add: show_nat.simps [of n] digits_value_append digit_props)
  qed
qed

lemma show_int_sign: "(hd (show_int k) = CHR ''-'') = (k < 0)"
proof (cases "k < 0")
  case False
  then have "is_digit (hd (show_nat k))" using show_nat_hd [of k] by simp
  with False show ?thesis using is_digit_sign(1) by (auto simp: show_int_def)
qed (simp add: show_int_def)

lemma show_int_inject: "show_int m = show_int n \<Longrightarrow> m = n"
proof -
  assume eq: "show_int m = show_int n"
  then have sign: "(m < 0) = (n < 0)" by (metis show_int_sign)
  show "m = n"
  proof (cases "m < 0")
    case True
    with sign eq have "show_nat (- m) = show_nat (- n)" by (simp add: show_int_def)
    then have "digits_value (show_nat (- m)) = digits_value (show_nat (- n))" by (rule arg_cong)
    moreover have "0 \<le> - m" "0 \<le> - n" using True sign by auto
    ultimately show ?thesis by (simp only: digits_value_show_nat neg_equal_iff_equal)
  next
    case False
    with sign eq have "show_nat m = show_nat n" by (simp add: show_int_def)
    then have "digits_value (show_nat m) = digits_value (show_nat n)" by (rule arg_cong)
    moreover have "0 \<le> m" "0 \<le> n" using False sign by auto
    ultimately show ?thesis by (simp only: digits_value_show_nat)
  qed
qed

lemma protect_current_props:
  "distinct (protect_current gs)" "set (protect_current gs) = ng_Number ` {g \<in> set gs. ng_Current g}"
proof -
  have "distinct (protect_current gs) \<and> set (protect_current gs) = ng_Number ` {g \<in> set gs. ng_Current g}"
    unfolding protect_current_def by (induction gs rule: rev_induct) auto
  then show "distinct (protect_current gs)" "set (protect_current gs) = ng_Number ` {g \<in> set gs. ng_Current g}"
    by simp_all
qed

lemma protect_newest_props:
  assumes "distinct ps"
  shows "distinct (protect_newest l gs ps)"
    and "set ps \<subseteq> set (protect_newest l gs ps)"
    and "set (protect_newest l gs ps) \<subseteq> set ps \<union> ng_Number ` set gs"
    and "int (length (protect_newest l gs ps)) \<le> max l (int (length ps))"
    and "l \<le> int (length (protect_newest l gs ps)) \<or> ng_Number ` set gs \<subseteq> set (protect_newest l gs ps)"
  using assms by (induction l gs ps rule: protect_newest.induct) (auto simp: image_subset_iff)

lemma protect_newest_mono: "l \<le> l' \<Longrightarrow> distinct ps \<Longrightarrow> set (protect_newest l gs ps) \<subseteq> set (protect_newest l' gs ps)"
proof (induction gs arbitrary: ps)
  case (Cons g gs)
  then show ?case
    using protect_newest_props(2) [of ps l' "g # gs"] by auto
qed simp

text \<open>A newer generation is protected before an older one.\<close>

lemma protect_newest_order:
  assumes "ng_Number g \<in> set (protect_newest l (xs @ h # ys) ps)" "ng_Number g \<notin> set ps"
    and "g \<in> set ys" "ng_Number g \<notin> ng_Number ` set xs" "ng_Number g \<noteq> ng_Number h" "distinct ps"
  shows "ng_Number h \<in> set (protect_newest l (xs @ h # ys) ps)"
  using assms
proof (induction xs arbitrary: ps)
  case Nil
  then show ?case
    using protect_newest_props(2) [of "ps @ [ng_Number h]" l ys] protect_newest_props(2) [of ps l ys]
    by (auto split: if_splits)
qed (auto split: if_splits)

text \<open>The verdict on one generation of a list.\<close>

definition keep_at_least :: "int \<Rightarrow> int" where "keep_at_least minKeep = (if minKeep < 1 then 1 else minKeep)"

definition keep_at_most :: "int \<Rightarrow> int \<Rightarrow> int" where
  "keep_at_most minKeep maxKeep =
     (if 0 < maxKeep \<and> maxKeep < keep_at_least minKeep then keep_at_least minKeep else maxKeep)"

definition minimum_kept :: "nix_generation list \<Rightarrow> int \<Rightarrow> int list" where
  "minimum_kept gens minKeep = protectNewestIncludingCurrent (newest_first gens) (keep_at_least minKeep)"

definition maximum_kept :: "nix_generation list \<Rightarrow> int \<Rightarrow> int \<Rightarrow> int list" where
  "maximum_kept gens minKeep maxKeep =
     (if 0 < keep_at_most minKeep maxKeep
      then protectNewestIncludingCurrent (newest_first gens) (keep_at_most minKeep maxKeep) else [])"

definition doomed :: "nix_generation list \<Rightarrow> instant \<Rightarrow> int \<Rightarrow> duration \<Rightarrow> int \<Rightarrow> nix_generation \<Rightarrow> bool" where
  "doomed gens now minKeep olderThan maxKeep g =
     (\<not> ng_Current g \<and> ng_Number g \<notin> set (minimum_kept gens minKeep) \<and>
      (0 < keep_at_most minKeep maxKeep \<and> ng_Number g \<notin> set (maximum_kept gens minKeep maxKeep) \<or>
       0 < olderThan \<and> ng_CreatedAt g \<le> now - olderThan))"

lemma target_simps [simp]:
  "ct_Version (generation_target v g) = show_int (ng_Number g)" "ct_Action (generation_target v g) = fst v"
  by (simp_all add: generation_target_def annotateCleanupTargetPolicy_def split_beta)

lemma newest_first_simps [simp]:
  "set (newest_first gs) = set gs" "length (newest_first gs) = length gs" "mset (newest_first gs) = mset gs"
  by (simp_all add: newest_first_def)

lemma targets_view:
  "mset (delete_numbers (nixGenerationTargetsWithMax gens now minKeep olderThan maxKeep)) =
     mset (map (show_int \<circ> ng_Number) (filter (doomed gens now minKeep olderThan maxKeep) gens))"
proof -
  have act: "fst (generation_action now olderThan (keep_at_most minKeep maxKeep) (minimum_kept gens minKeep)
       (maximum_kept gens minKeep maxKeep) g) = ''delete_generation'' \<longleftrightarrow> doomed gens now minKeep olderThan maxKeep g" for g
    by (auto simp: generation_action_def doomed_def)
  have "nixGenerationTargetsWithMax gens now minKeep olderThan maxKeep =
      sort_key ct_Name (map (\<lambda>g. generation_target (generation_action now olderThan (keep_at_most minKeep maxKeep)
        (minimum_kept gens minKeep) (maximum_kept gens minKeep maxKeep) g) g) (newest_first gens))"
    by (simp add: nixGenerationTargetsWithMax_def Let_def keep_at_least_def keep_at_most_def minimum_kept_def maximum_kept_def)
  then show ?thesis
    by (simp add: delete_numbers_def filter_mset_image_mset image_mset.compositionality o_def act)
qed

lemma deleted_set:
  "set (delete_numbers (nixGenerationTargetsWithMax gens now minKeep olderThan maxKeep)) =
     (show_int \<circ> ng_Number) ` {g \<in> set gens. doomed gens now minKeep olderThan maxKeep g}"
  using arg_cong [OF targets_view [of gens now minKeep olderThan maxKeep], of set_mset] by simp

lemma doomed_iff:
  assumes "distinct (map ng_Number gens)" "g \<in> set gens"
  shows "show_int (ng_Number g) \<in> set (delete_numbers (nixGenerationTargetsWithMax gens now minKeep olderThan maxKeep)) \<longleftrightarrow>
    doomed gens now minKeep olderThan maxKeep g"
proof -
  have "h = g" if "h \<in> set gens" "show_int (ng_Number g) = show_int (ng_Number h)" for h
    using show_int_inject [OF that(2)] that(1) assms by (auto simp: distinct_map dest: inj_onD)
  then show ?thesis using assms(2) by (auto simp: deleted_set)
qed

lemma protected_facts:
  "distinct (protectNewestIncludingCurrent gs l)"
  "set (protect_current gs) \<subseteq> set (protectNewestIncludingCurrent gs l)"
  "set (protectNewestIncludingCurrent gs l) \<subseteq> ng_Number ` set gs"
  "int (length (protectNewestIncludingCurrent gs l)) \<le> max l (int (length (protect_current gs)))"
  "l \<le> int (length (protectNewestIncludingCurrent gs l)) \<or> ng_Number ` set gs \<subseteq> set (protectNewestIncludingCurrent gs l)"
  "l \<le> l' \<Longrightarrow> set (protectNewestIncludingCurrent gs l) \<subseteq> set (protectNewestIncludingCurrent gs l')"
  using protect_newest_props [of "protect_current gs" l gs] protect_current_props [of gs]
    protect_newest_mono [of l l' "protect_current gs" gs]
  by (auto simp: protectNewestIncludingCurrent_def)

lemma retention_lower:
  assumes "distinct (map ng_Number gens)"
  shows "min (int (length gens)) (keep_at_least minKeep) \<le>
    int (length (filter (\<lambda>g. \<not> doomed gens now minKeep olderThan maxKeep g) gens))"
proof -
  let ?kept = "filter (\<lambda>g. \<not> doomed gens now minKeep olderThan maxKeep g) gens"
  let ?P = "minimum_kept gens minKeep"
  have inP: "g \<in> set ?kept" if "g \<in> set gens" "ng_Number g \<in> set ?P" for g
    using that by (simp add: doomed_def)
  have "set ?P \<subseteq> ng_Number ` set gens"
    using protected_facts(3) [of "newest_first gens"] by (simp add: minimum_kept_def)
  with inP have "set ?P \<subseteq> ng_Number ` set ?kept" by blast
  then have "card (set ?P) \<le> card (ng_Number ` set ?kept)" by (intro card_mono) auto
  also have "\<dots> \<le> card (set ?kept)" by (rule card_image_le) simp
  also have "\<dots> \<le> length ?kept" by (rule card_length)
  finally have len: "length ?P \<le> length ?kept"
    using protected_facts(1) by (simp add: minimum_kept_def distinct_card)
  from protected_facts(5) [of "keep_at_least minKeep" "newest_first gens"]
  consider "keep_at_least minKeep \<le> int (length ?P)" | "ng_Number ` set gens \<subseteq> set ?P"
    by (auto simp: minimum_kept_def)
  then show ?thesis
  proof cases
    case 1
    with len show ?thesis by linarith
  next
    case 2
    with inP have "?kept = gens" by (auto simp: filter_id_conv)
    then show ?thesis by simp
  qed
qed

lemma retention_upper:
  assumes "distinct (map ng_Number gens)" "0 < maxKeep"
  shows "int (length (filter (\<lambda>g. \<not> doomed gens now minKeep olderThan maxKeep g) gens)) \<le>
    max (max maxKeep (keep_at_least minKeep)) (int (length (filter ng_Current gens)))"
proof -
  let ?kept = "filter (\<lambda>g. \<not> doomed gens now minKeep olderThan maxKeep g) gens"
  let ?M = "maximum_kept gens minKeep maxKeep"
  have pos: "0 < keep_at_most minKeep maxKeep" and le: "keep_at_least minKeep \<le> keep_at_most minKeep maxKeep"
    and top: "keep_at_most minKeep maxKeep \<le> max maxKeep (keep_at_least minKeep)"
    using assms(2) by (auto simp: keep_at_most_def keep_at_least_def)
  have M: "?M = protectNewestIncludingCurrent (newest_first gens) (keep_at_most minKeep maxKeep)"
    using pos by (simp add: maximum_kept_def)
  have "set (minimum_kept gens minKeep) \<subseteq> set ?M"
    using protected_facts(6) [OF le] by (simp add: M minimum_kept_def)
  moreover have "ng_Number g \<in> set ?M" if "g \<in> set gens" "ng_Current g" for g
    using that protected_facts(2) [of "newest_first gens"] protect_current_props(2) [of "newest_first gens"]
    unfolding M by auto
  ultimately have sub: "ng_Number ` set ?kept \<subseteq> set ?M"
    using pos by (auto simp: doomed_def)
  have "distinct (map ng_Number ?kept)" using assms(1) by (rule distinct_map_filter)
  then have "length ?kept = card (ng_Number ` set ?kept)" by (metis distinct_card length_map set_map)
  also have "\<dots> \<le> card (set ?M)" using sub by (intro card_mono) auto
  also have "\<dots> = length ?M" using protected_facts(1) by (simp add: M distinct_card)
  finally have "int (length ?kept) \<le> max (keep_at_most minKeep maxKeep) (int (length (protect_current (newest_first gens))))"
    using protected_facts(4) [of "newest_first gens" "keep_at_most minKeep maxKeep"] unfolding M by linarith
  moreover have "length (protect_current (newest_first gens)) \<le> length (filter ng_Current gens)"
  proof -
    have "length (protect_current (newest_first gens)) = card (ng_Number ` {g \<in> set gens. ng_Current g})"
      using distinct_card [OF protect_current_props(1) [of "newest_first gens"]] by (simp add: protect_current_props(2))
    also have "\<dots> \<le> card (set (filter ng_Current gens))" by (simp add: card_image_le)
    also have "\<dots> \<le> length (filter ng_Current gens)" by (rule card_length)
    finally show ?thesis .
  qed
  ultimately show ?thesis using top by linarith
qed

text \<open>Among generations that are not current, no older one outlives a deleted newer one.\<close>

lemma protected_newer:
  assumes "distinct (map ng_Number gens)" "g \<in> set gens" "h \<in> set gens" "\<not> ng_Current g" 
    and "(ng_CreatedAt g, ng_Number g) < (ng_CreatedAt h, ng_Number h)"
    and "ng_Number g \<in> set (protectNewestIncludingCurrent (newest_first gens) l)"
  shows "ng_Number h \<in> set (protectNewestIncludingCurrent (newest_first gens) l)"
proof -
  let ?S = "newest_first gens" and ?key = "\<lambda>g. (- ng_CreatedAt g, - ng_Number g)"
  have srt: "sorted (map ?key ?S)" by (simp add: newest_first_def)
  from assms(3) obtain xs ys where S: "?S = xs @ h # ys" by (metis newest_first_simps(1) split_list)
  have inj: "k = g" if "k \<in> set gens" "ng_Number k = ng_Number g" for k
    using that assms(1,2) by (auto simp: distinct_map dest: inj_onD)
  have "g \<notin> set xs"
  proof
    assume "g \<in> set xs"
    with srt S have "?key g \<le> ?key h" by (auto simp: sorted_append)
    with assms(5) show False by (auto simp: less_eq_prod_def less_prod_def split: if_splits)
  qed
  moreover have "g \<noteq> h" using assms(5) by auto
  ultimately have gy: "g \<in> set ys" using assms(2) S by (metis UnE newest_first_simps(1) set_ConsD set_append)
  have inS: "k \<in> set gens" if "k \<in> set xs \<or> k = h" for k using that S by (metis in_set_conv_decomp newest_first_simps(1) Un_iff set_append)
  have cur: "ng_Number g \<notin> set (protect_current ?S)"
    using assms(4) inj by (auto simp: protect_current_props(2))
  have new: "ng_Number g \<notin> ng_Number ` set xs" "ng_Number g \<noteq> ng_Number h"
    using inj inS \<open>g \<notin> set xs\<close> \<open>g \<noteq> h\<close> by (fastforce, metis)
  show ?thesis
    using assms(6) unfolding protectNewestIncludingCurrent_def S
    by (rule protect_newest_order [OF _ cur [unfolded S] gy new protect_current_props(1)])
qed

lemma doomed_older:
  assumes "distinct (map ng_Number gens)" "g \<in> set gens" "h \<in> set gens" "\<not> ng_Current g"
    and "(ng_CreatedAt g, ng_Number g) < (ng_CreatedAt h, ng_Number h)"
    and "doomed gens now minKeep olderThan maxKeep h"
  shows "doomed gens now minKeep olderThan maxKeep g"
proof -
  have "ng_CreatedAt g \<le> ng_CreatedAt h" using assms(5) by (auto simp: less_prod_def split: if_splits)
  with assms(6) protected_newer [OF assms(1-5)] assms(4) show ?thesis
    by (auto simp: doomed_def minimum_kept_def maximum_kept_def)
qed

text \<open>C16: generation retention is safe and exact: from generations with distinct numbers the plan never deletes a current one, keeps at least the configured minimum (at least one) or all there are, keeps no more than the configured maximum (raised to the minimum, or the number of current ones) when there is one, and never deletes a generation while an older non-current one is kept.\<close>

theorem generation_retention:
  assumes "distinct (map ng_Number gens)"
  shows "let deleted = set (delete_numbers (nixGenerationTargetsWithMax gens now minKeep olderThan maxKeep));
             gone = (\<lambda>g. show_int (ng_Number g) \<in> deleted);
             kept = filter (\<lambda>g. \<not> gone g) gens
         in (\<forall>g \<in> set gens. ng_Current g \<longrightarrow> \<not> gone g) \<and>
            min (int (length gens)) (max 1 minKeep) \<le> int (length kept) \<and>
            (0 < maxKeep \<longrightarrow> int (length kept) \<le> max (max maxKeep (max 1 minKeep)) (int (length (filter ng_Current gens)))) \<and>
            (\<forall>g \<in> set gens. \<forall>h \<in> set gens. gone h \<and> \<not> ng_Current g \<and>
               (ng_CreatedAt g, ng_Number g) < (ng_CreatedAt h, ng_Number h) \<longrightarrow> gone g)"
proof -
  let ?gone = "\<lambda>g. show_int (ng_Number g) \<in> set (delete_numbers (nixGenerationTargetsWithMax gens now minKeep olderThan maxKeep))"
  let ?doomed = "doomed gens now minKeep olderThan maxKeep"
  have iff: "?gone g = ?doomed g" if "g \<in> set gens" for g
    using doomed_iff [OF assms that] .
  then have kept: "filter (\<lambda>g. \<not> ?gone g) gens = filter (\<lambda>g. \<not> ?doomed g) gens" by (simp cong: filter_cong)
  have least: "keep_at_least minKeep = max 1 minKeep" by (auto simp: keep_at_least_def)
  have "\<forall>g \<in> set gens. ng_Current g \<longrightarrow> \<not> ?gone g" using iff by (simp add: doomed_def)
  moreover have "\<forall>g \<in> set gens. \<forall>h \<in> set gens. ?gone h \<and> \<not> ng_Current g \<and>
      (ng_CreatedAt g, ng_Number g) < (ng_CreatedAt h, ng_Number h) \<longrightarrow> ?gone g"
    using doomed_older [OF assms] iff by blast
  ultimately show ?thesis
    unfolding Let_def kept
    using retention_lower [OF assms, of minKeep now olderThan maxKeep] retention_upper [OF assms, of maxKeep now minKeep olderThan]
    by (simp add: least)
qed

definition demo_generations :: "nix_generation list" where
  "demo_generations = map (\<lambda>(n, t, c). \<lparr>ng_Number = n, ng_CreatedAt = t, ng_Current = c, ng_Scope = ''user'', ng_Profile = []\<rparr>)
     [(1, 100, False), (2, 200, True), (3, 300, False), (4, 400, False), (5, 500, False)]"

theorem generation_retention_witness:
  "\<not> show_int 2 \<in> set (delete_numbers (nixGenerationTargetsWithMax demo_generations 1000 2 550 3)) \<and>
   2 \<le> length (filter (\<lambda>g. show_int (ng_Number g) \<notin> set (delete_numbers (nixGenerationTargetsWithMax demo_generations 1000 2 550 3))) demo_generations)"
proof -
  have "distinct (map ng_Number demo_generations)" by code_simp
  from generation_retention [OF this, of 1000 2 550 3] show ?thesis
    by (simp add: Let_def demo_generations_def)
qed

text \<open>Without the flag no Home Manager generation is marked for deletion.\<close>

lemma home_manager_review_only:
  "\<not> nc_DeleteHomeManagerGenerations cfg \<Longrightarrow>
    delete_numbers (nixHomeManagerGenerationTargets targets cfg) = []"
  by (auto simp: nixHomeManagerGenerationTargets_def nixReviewOnlyGenerationTargets_def delete_numbers_def
      filter_empty_conv annotateCleanupTargetPolicy_def)

end
