(* ===== verification/Nix_Output.thy ===== *)
theory Nix_Output
  imports Nix_Generations
begin

text \<open>
  What the Nix plugin reads from the output of the commands it runs, \<open>plugins/nix.go\<close>: store
  contention, a wedged application bundle, byte and path counts.  A regular expression is a
  matcher at the head of a text, tried at every position from the left; in each of them every
  greedy part is followed by something it cannot match, so no backtracking changes the match.
  Output is ASCII.
\<close>

subsection \<open>Contention\<close>

text \<open>\<open>strings.Fields\<close>.\<close>

fun fields_of :: "string \<Rightarrow> string \<Rightarrow> string list" where
  "fields_of word [] = (if word = [] then [] else [word])"
| "fields_of word (c # s) =
     (if is_space c then (if word = [] then fields_of [] s else word # fields_of [] s)
      else fields_of (word @ [c]) s)"

definition nixContentionReason :: "string \<Rightarrow> string option" where
  "nixContentionReason output =
     (let normalized = to_lower (join_strings '' '' (fields_of [] output)); has = contains_text normalized
      in if normalized = [] then None
         else if has ''sqlite'' \<and> has ''busy'' then Some ''sqlite database busy''
         else if has ''database is locked'' then Some ''sqlite database locked''
         else if has ''big-lock'' \<and>
                 (has ''resource temporarily unavailable'' \<or> has ''temporarily unavailable'' \<or> has ''locked'' \<or> has ''busy'')
           then Some ''nix store big-lock busy''
         else if has ''waiting for the big nix store lock'' then Some ''nix store big-lock busy''
         else None)"

subsection \<open>Matchers\<close>

text \<open>The first position at which a matcher succeeds.\<close>

fun find_first :: "(string \<Rightarrow> 'a option) \<Rightarrow> string \<Rightarrow> 'a option" where
  "find_first m [] = m []"
| "find_first m (c # s) = (case m (c # s) of Some r \<Rightarrow> Some r | None \<Rightarrow> find_first m s)"

definition skip_text :: "string \<Rightarrow> string \<Rightarrow> string option" where
  "skip_text t s = (if prefix t s then Some (drop (length t) s) else None)"

definition take_run :: "(char \<Rightarrow> bool) \<Rightarrow> string \<Rightarrow> (string \<times> string) option" where
  "take_run P s = (let r = takeWhile P s in if r = [] then None else Some (r, dropWhile P s))"

definition quantity_units :: "string list" where "quantity_units = [''B'', ''KiB'', ''MiB'', ''GiB'', ''TiB'']"

definition take_unit :: "string \<Rightarrow> (string \<times> string) option" where
  "take_unit s = (case filter (\<lambda>u. prefix u s) quantity_units of [] \<Rightarrow> None | u # _ \<Rightarrow> Some (u, drop (length u) s))"

text \<open>\<open>([\\d.]+)\\s*(B|KiB|MiB|GiB|TiB)\<close>: the number, the unit and the rest.\<close>

definition take_quantity :: "string \<Rightarrow> (string \<times> string \<times> string) option" where
  "take_quantity s =
     Option.bind (take_run (\<lambda>c. is_digit c \<or> c = CHR ''.'') s) (\<lambda>(n, r).
       map_option (\<lambda>(u, r). (n, u, r)) (take_unit (dropWhile re_space r)))"

definition quantity_then :: "string \<Rightarrow> string \<Rightarrow> (string \<times> string) option" where
  "quantity_then t s =
     Option.bind (take_quantity s) (\<lambda>(n, u, r).
       Option.bind (skip_spaces1 r) (\<lambda>r. map_option (\<lambda>_. (n, u)) (skip_text t r)))"

definition would_free :: "string \<Rightarrow> (string \<times> string) option" where
  "would_free s =
     Option.bind (skip_text ''would free'' s) (\<lambda>r.
       Option.bind (skip_spaces1 r) (\<lambda>r. map_option (\<lambda>(n, u, _). (n, u)) (take_quantity r)))"

definition saved :: "string \<Rightarrow> (string \<times> string) option" where
  "saved s = Option.bind (skip_text ''saved'' s) (\<lambda>r. map_option (\<lambda>(n, u, _). (n, u)) (take_quantity (dropWhile re_space r)))"

subsection \<open>Byte quantities\<close>

definition unit_factor :: "string \<Rightarrow> rat" where
  "unit_factor u =
     (if u = ''TiB'' then 2 ^ 40 else if u = ''GiB'' then 2 ^ 30 else if u = ''MiB'' then 2 ^ 20
      else if u = ''KiB'' then 2 ^ 10 else 1)"

text \<open>The conversion \<open>int64(value * 1024 * ...)\<close> of a float64, as amd64 converts.\<close>

definition quantity_bytes :: "float64 \<Rightarrow> string \<Rightarrow> int" where
  "quantity_bytes value u = duration_of_float (fmul value (unit_factor u))"

fun parseNixByteQuantity :: "string \<Rightarrow> (string \<Rightarrow> (string \<times> string) option) list \<Rightarrow> int" where
  "parseNixByteQuantity output [] = 0"
| "parseNixByteQuantity output (pattern # patterns) =
     (case find_first pattern output of
        None \<Rightarrow> parseNixByteQuantity output patterns
      | Some (n, u) \<Rightarrow>
          (case parse_float n of
             None \<Rightarrow> parseNixByteQuantity output patterns
           | Some value \<Rightarrow> quantity_bytes value u))"

definition parseFreedSpace :: "string \<Rightarrow> int" where
  "parseFreedSpace output = parseNixByteQuantity output [quantity_then ''freed'']"

definition parseDryRunFreedSpace :: "string \<Rightarrow> int" where
  "parseDryRunFreedSpace output =
     (let value = parseNixByteQuantity output [would_free, quantity_then ''would be freed'']
      in if 0 < value then value else parseFreedSpace output)"

definition parseOptimizedSpace :: "string \<Rightarrow> int" where
  "parseOptimizedSpace output = parseNixByteQuantity output [quantity_then ''freed by hard-linking'', saved]"

subsection \<open>Path counts\<close>

text \<open>\<open>would delete\\s+(\\d+)\\s+store paths?\<close>\<close>

definition would_delete :: "string \<Rightarrow> string option" where
  "would_delete s =
     Option.bind (skip_text ''would delete'' s) (\<lambda>r.
     Option.bind (skip_spaces1 r) (\<lambda>r.
     Option.bind (take_run is_digit r) (\<lambda>(n, r).
     Option.bind (skip_spaces1 r) (\<lambda>r. map_option (\<lambda>_. n) (skip_text ''store path'' r)))))"

text \<open>\<open>(\\d+)\\s+store paths?\\s+would be deleted\<close>\<close>

definition paths_would_be_deleted :: "string \<Rightarrow> string option" where
  "paths_would_be_deleted s =
     Option.bind (take_run is_digit s) (\<lambda>(n, r).
     Option.bind (skip_spaces1 r) (\<lambda>r.
     Option.bind (skip_text ''store path'' r) (\<lambda>r.
     Option.bind (skip_spaces1 (if prefix ''s'' r then tl r else r)) (\<lambda>r.
       map_option (\<lambda>_. n) (skip_text ''would be deleted'' r)))))"

text \<open>\<open>(\\d+)\\s*store paths deleted\<close>\<close>

definition paths_deleted :: "string \<Rightarrow> string option" where
  "paths_deleted s =
     Option.bind (take_run is_digit s) (\<lambda>(n, r).
       map_option (\<lambda>_. n) (skip_text ''store paths deleted'' (dropWhile re_space r)))"

definition parseDeletedPaths :: "string \<Rightarrow> int" where
  "parseDeletedPaths output =
     (case Option.bind (find_first paths_deleted output) atoi_digits of Some n \<Rightarrow> n | None \<Rightarrow> 0)"

fun first_count :: "string \<Rightarrow> (string \<Rightarrow> string option) list \<Rightarrow> int option" where
  "first_count output [] = None"
| "first_count output (p # ps) =
     (case Option.bind (find_first p output) atoi_digits of Some n \<Rightarrow> Some n | None \<Rightarrow> first_count output ps)"

definition parseDryRunStorePaths :: "string \<Rightarrow> int" where
  "parseDryRunStorePaths output =
     (case first_count output [would_delete, paths_would_be_deleted] of
        Some n \<Rightarrow> n | None \<Rightarrow> parseDeletedPaths output)"

definition nixDryRunHasNoGCWork :: "string \<Rightarrow> bool" where
  "nixDryRunHasNoGCWork output =
     (trim_space output \<noteq> [] \<and> parseDryRunFreedSpace output = 0 \<and> parseDryRunStorePaths output = 0)"

subsection \<open>A wedged application bundle\<close>

text \<open>
  The path between \<open>chmod "\<close> and \<open>": Operation not permitted\<close>: a store entry, then a directory
  \<open>Applications\<close> somewhere below it, then a name that ends in \<open>.app\<close>.
\<close>

definition below_applications :: "string \<Rightarrow> bool" where
  "below_applications s =
     list_ex (\<lambda>r. (case skip_text ''Applications/'' r of None \<Rightarrow> False | Some app \<Rightarrow> has_suffix app ''.app'')) 
       (s # map tl (filter (\<lambda>r. prefix ''/'' r) (suffixes s)))"

definition wedged_at :: "string \<Rightarrow> string option" where
  "wedged_at s =
     Option.bind (skip_text (''chmod '' @ [char_of (34 :: nat)]) s) (\<lambda>r.
       (let app = takeWhile (\<lambda>c. c \<noteq> char_of (34 :: nat)) r; tail = dropWhile (\<lambda>c. c \<noteq> char_of (34 :: nat)) r
        in case skip_text ''/nix/store/'' app of
             None \<Rightarrow> None
           | Some e \<Rightarrow>
               (let entry = takeWhile (\<lambda>c. c \<noteq> CHR ''/'') e; below = dropWhile (\<lambda>c. c \<noteq> CHR ''/'') e
                in if entry \<noteq> [] \<and> below \<noteq> [] \<and> below_applications (tl below) \<and>
                      prefix (char_of (34 :: nat) # '': Operation not permitted'') tail
                   then Some app else None)))"

definition nixGCWedgedAppBundle :: "string \<Rightarrow> (path \<times> path) option" where
  "nixGCWedgedAppBundle output =
     map_option (\<lambda>app. (''/nix/store/'' @ takeWhile (\<lambda>c. c \<noteq> CHR ''/'') (drop 11 app), app)) (find_first wedged_at output)"

end
