(* ===== verification/Nix_Hook_Pins.thy ===== *)
theory Nix_Hook_Pins
  imports Nix_Cadence "HOL-Library.Char_ord" "HOL-Library.List_Lexorder"
begin

text \<open>
  Hook-path pins, \<open>plugins/nix_hookpins.go\<close>: every store path the hook configuration references
  is rooted by a link, and a link is released only once no live session can still need it.
  The world is the links of the pin directory and the pins of its state file.  What the system
  answers (file reads, path validity, the \<open>nix-store --add-root\<close> command, session start times,
  failing calls) are observations of one refresh.  Go visits the pins of the map in any order; the
  model in the table's.
\<close>

subsection \<open>References in a configuration file\<close>

definition ref_name_char :: "char \<Rightarrow> bool" where
  "ref_name_char c =
     (\<not> (is_space c \<and> of_char c \<noteq> (11 :: int)) \<and> c \<notin> set ''/,;:)]}'' \<and> of_char c \<notin> {34, 39, 92 :: int})"

definition ref_hash_char :: "char \<Rightarrow> bool" where
  "ref_hash_char c = (is_digit c \<or> 97 \<le> (of_char c :: int) \<and> (of_char c :: int) \<le> 122)"

text \<open>A match of the store-path expression at the head of the text.\<close>

definition match_ref :: "string \<Rightarrow> string option" where
  "match_ref s =
     (let r = drop 11 s; name = takeWhile ref_name_char (drop 33 r)
      in if prefix ''/nix/store/'' s \<and> 33 \<le> length r \<and> list_all ref_hash_char (take 32 r) \<and>
            r ! 32 = CHR ''-'' \<and> name \<noteq> []
         then Some (take (44 + length name) s) else None)"

text \<open>\<open>FindAllString\<close>: leftmost matches that do not overlap.\<close>

fun find_refs_from :: "nat \<Rightarrow> string \<Rightarrow> string list" where
  "find_refs_from skip [] = []"
| "find_refs_from (Suc skip) (c # s) = find_refs_from skip s"
| "find_refs_from 0 (c # s) =
     (case match_ref (c # s) of
        None \<Rightarrow> find_refs_from 0 s
      | Some ref \<Rightarrow> ref # find_refs_from (length ref - 1) s)"

subsection \<open>State and observations\<close>

record hook_pin =
  hp_StorePath :: path
  hp_FirstSeen :: instant
  hp_LastReferenced :: instant
  hp_Unreferenced :: "instant option"

datatype config_read = ConfigMissing | ConfigError string | ConfigText string

text \<open>\<open>hw_pins\<close> is what the state file decodes to (\<open>None\<close>: no readable state).\<close>

record hook_world =
  hw_links :: "path \<Rightarrow> path option"
  hw_pins :: "hook_pin table option"

record hook_env =
  he_now :: instant
  he_home :: path
  he_read :: "path \<Rightarrow> config_read"
  he_mkdir :: "string option"
  he_state_unreadable :: bool
  he_valid :: "path \<Rightarrow> bool"
  he_realise :: "path \<Rightarrow> path \<Rightarrow> string option \<times> string \<times> path option"
  he_starts :: "string list \<Rightarrow> string + instant list"
  he_remove :: "path \<Rightarrow> string option"
  he_write :: "string option"

definition nixPathHasComponent :: "path \<Rightarrow> string \<Rightarrow> bool" where
  "nixPathHasComponent p component = (component \<in> set (split_on CHR ''/'' (clean_path p)))"

definition pin_link :: "path \<Rightarrow> path \<Rightarrow> path" where "pin_link dir ref = join_path [dir, path_base ref]"

text \<open>Removing a link: an error leaves it.\<close>

definition remove_link :: "hook_env \<Rightarrow> path \<Rightarrow> (path \<Rightarrow> path option) \<Rightarrow> path \<Rightarrow> path option" where
  "remove_link env link links = (if he_remove env link = None then links(link := None) else links)"

definition nixAddIndirectRoot ::
    "hook_env \<Rightarrow> path \<Rightarrow> path \<Rightarrow> (path \<Rightarrow> path option) \<Rightarrow> string option \<times> (path \<Rightarrow> path option)" where
  "nixAddIndirectRoot env link storePath links =
     (case he_realise env link storePath of (err, out, dest) \<Rightarrow>
        (case err of
           Some e \<Rightarrow> (Some (''nix-store --add-root: '' @ e @ '': '' @ trim_space out), links(link := dest))
         | None \<Rightarrow>
             (if dest \<noteq> Some storePath then Some (''pin '' @ link @ '' does not select '' @ storePath) else None,
              links(link := dest))))"

subsection \<open>The steps of a refresh\<close>

text \<open>The references of the configuration files, or the first read error.\<close>

fun hook_refs :: "hook_env \<Rightarrow> path list \<Rightarrow> string + path list" where
  "hook_refs env [] = Inr []"
| "hook_refs env (file # files) =
     (let p = clean_path (expandHome file (he_home env))
      in case he_read env p of
           ConfigMissing \<Rightarrow> hook_refs env files
         | ConfigError err \<Rightarrow> Inl (''read hook config '' @ p @ '': '' @ err)
         | ConfigText raw \<Rightarrow> map_sum id (\<lambda>refs. find_refs_from 0 raw @ refs) (hook_refs env files))"

definition reference_pin :: "instant \<Rightarrow> path \<Rightarrow> hook_pin table \<Rightarrow> hook_pin table" where
  "reference_pin now ref pins =
     (let pin = (case tbl_get pins ref of
                   None \<Rightarrow> \<lparr>hp_StorePath = ref, hp_FirstSeen = now, hp_LastReferenced = now, hp_Unreferenced = None\<rparr>
                 | Some pin \<Rightarrow> pin)
      in tbl_put ref (pin\<lparr>hp_LastReferenced := now, hp_Unreferenced := None\<rparr>) pins)"

text \<open>One reference: its pin is refreshed and its link made unless it is there or the path is gone.\<close>

definition pin_ref ::
    "hook_env \<Rightarrow> path \<Rightarrow> path \<Rightarrow> (path \<Rightarrow> path option) \<Rightarrow> string option \<times> (path \<Rightarrow> path option)" where
  "pin_ref env dir ref links =
     (let link = pin_link dir ref
      in if links link = Some ref \<or> \<not> he_valid env ref then (None, links)
         else nixAddIndirectRoot env link ref (remove_link env link links))"

fun pin_refs ::
    "hook_env \<Rightarrow> path \<Rightarrow> path list \<Rightarrow> hook_pin table \<Rightarrow> (path \<Rightarrow> path option) \<Rightarrow>
      string option \<times> hook_pin table \<times> (path \<Rightarrow> path option)" where
  "pin_refs env dir [] pins links = (None, pins, links)"
| "pin_refs env dir (ref # refs) pins links =
     (let pins = reference_pin (he_now env) ref pins
      in case pin_ref env dir ref links of
           (Some err, links) \<Rightarrow> (Some (''pin '' @ ref @ '': '' @ err), pins, links)
         | (None, links) \<Rightarrow> pin_refs env dir refs pins links)"

definition unreference :: "instant \<Rightarrow> path list \<Rightarrow> hook_pin table \<Rightarrow> hook_pin table" where
  "unreference now refs pins =
     map (\<lambda>(ref, pin). (ref, if ref \<in> set refs \<or> hp_Unreferenced pin \<noteq> None then pin
                             else pin\<lparr>hp_Unreferenced := Some now\<rparr>)) pins"

definition pin_held :: "instant list \<Rightarrow> hook_pin \<Rightarrow> bool" where
  "pin_held starts pin = (case hp_Unreferenced pin of None \<Rightarrow> True | Some u \<Rightarrow> list_ex (\<lambda>s. s < u) starts)"

text \<open>The release loop over the pins (a snapshot of the table); the error is a failing removal.\<close>

fun release_pins ::
    "hook_env \<Rightarrow> path \<Rightarrow> instant list \<Rightarrow> (path \<times> hook_pin) list \<Rightarrow> hook_pin table \<Rightarrow> (path \<Rightarrow> path option) \<Rightarrow>
      string option \<times> hook_pin table \<times> (path \<Rightarrow> path option)" where
  "release_pins env dir starts [] pins links = (None, pins, links)"
| "release_pins env dir starts ((ref, pin) # rest) pins links =
     (if pin_held starts pin then release_pins env dir starts rest pins links
      else let link = pin_link dir ref
           in if links link = Some ref
              then (case he_remove env link of
                      Some err \<Rightarrow> (Some err, pins, links)
                    | None \<Rightarrow> release_pins env dir starts rest (tbl_del ref pins) (links(link := None)))
              else release_pins env dir starts rest (tbl_del ref pins) links)"

text \<open>The error of a refresh and the world it leaves; a return before the save keeps the state file.\<close>

definition refresh :: "hook_env \<Rightarrow> path \<Rightarrow> nix_config \<Rightarrow> hook_world \<Rightarrow> string option \<times> hook_world" where
  "refresh env dir cfg w =
     (if \<not> nixPathHasComponent dir ''gcroots''
      then (Some (''hook_pin_dir '' @ dir @ '' has no gcroots path component''), w)
      else case hook_refs env (nc_HookPinFiles cfg) of
        Inl err \<Rightarrow> (Some err, w)
      | Inr refs \<Rightarrow>
          (if he_mkdir env \<noteq> None then (he_mkdir env, w)
           else let pins = (if he_state_unreadable env then [] else case hw_pins w of None \<Rightarrow> [] | Some t \<Rightarrow> t)
                in case pin_refs env dir (sort (remdups refs)) pins (hw_links w) of
                     (Some err, pins, links) \<Rightarrow> (Some err, w\<lparr>hw_links := links\<rparr>)
                   | (None, pins, links) \<Rightarrow>
                       (let pins = unreference (he_now env) refs pins
                        in case (case he_starts env (nc_HookPinSessionComms cfg) of
                                   Inl err \<Rightarrow> (None, pins, links)
                                 | Inr starts \<Rightarrow> release_pins env dir starts pins pins links) of
                             (Some err, pins, links) \<Rightarrow> (Some err, w\<lparr>hw_links := links\<rparr>)
                           | (None, pins, links) \<Rightarrow>
                               (case he_write env of
                                  Some err \<Rightarrow> (Some err, w\<lparr>hw_links := links\<rparr>)
                                | None \<Rightarrow> (None, \<lparr>hw_links = links, hw_pins = Some pins\<rparr>)))))"

definition refreshHookPins :: "hook_env \<Rightarrow> nix_config \<Rightarrow> hook_world \<Rightarrow> string option \<times> hook_world" where
  "refreshHookPins env cfg w =
     (if nc_HookPinFiles cfg = [] then (None, w)
      else refresh env (clean_path (expandHome (nc_HookPinDir cfg) (he_home env))) cfg w)"

subsection \<open>Store references and their links\<close>

definition store_ref :: "path \<Rightarrow> bool" where
  "store_ref r = (\<exists>n. r = ''/nix/store/'' @ n \<and> 2 < length n \<and> CHR ''/'' \<notin> set n)"

lemma match_ref_store:
  assumes "match_ref s = Some r"
  shows "store_ref r"
proof -
  define name where "name = takeWhile ref_name_char (drop 33 (drop 11 s))"
  have m: "prefix ''/nix/store/'' s" "33 \<le> length (drop 11 s)" "list_all ref_hash_char (take 32 (drop 11 s))"
    "drop 11 s ! 32 = CHR ''-''" "name \<noteq> []" and r: "r = take (44 + length name) s"
    using assms by (auto simp: match_ref_def Let_def name_def split: if_splits)
  from m(1) obtain t where s: "s = ''/nix/store/'' @ t" by (auto simp: prefix_def)
  have t: "33 \<le> length t" "list_all ref_hash_char (take 32 t)" "t ! 32 = CHR ''-''" using m(2-4) by (simp_all add: s)
  have name: "name = takeWhile ref_name_char (drop 33 t)" by (simp add: name_def s)
  define n where "n = take 32 t @ CHR ''-'' # name"
  have "take (33 + length name) t = take 32 t @ take (1 + length name) (drop 32 t)"
    by (metis add.assoc numeral_plus_one semiring_norm(5) take_add)
  also have "drop 32 t = CHR ''-'' # drop 33 t" using t(1,3) by (simp add: Cons_nth_drop_Suc [symmetric])
  finally have n: "n = take (33 + length name) t" unfolding n_def name by (simp add: takeWhile_eq_take [symmetric])
  have "CHR ''/'' \<notin> set (take 32 t)" using t(2) by (auto simp: list_all_iff ref_hash_char_def is_digit_def)
  moreover have "CHR ''/'' \<notin> set name" unfolding name by (auto dest!: set_takeWhileD simp: ref_name_char_def)
  ultimately have "CHR ''/'' \<notin> set n" by (simp add: n_def)
  moreover have "2 < length n" using t(1) by (simp add: n_def)
  moreover have "r = ''/nix/store/'' @ n"
  proof -
    have cut: "take (length xs + k) (xs @ t) = xs @ take k t" for xs :: string and k by simp
    show ?thesis using cut [of "''/nix/store/''" "33 + length name"] unfolding r s n by (simp del: take_Suc_Cons)
  qed
  ultimately show ?thesis unfolding store_ref_def by blast
qed

lemma find_refs_store: "r \<in> set (find_refs_from k s) \<Longrightarrow> store_ref r"
  by (induction k s rule: find_refs_from.induct) (auto dest: match_ref_store split: option.splits)

lemma hook_refs_store: "hook_refs env files = Inr refs \<Longrightarrow> r \<in> set refs \<Longrightarrow> store_ref r"
proof (induction files arbitrary: refs)
  case (Cons f files)
  then show ?case
    by (cases "hook_refs env files") (auto simp: Let_def dest: find_refs_store split: config_read.splits)
qed simp

lemma store_ref_base:
  assumes "store_ref r"
  shows "proper_element (path_base r) \<and> CHR ''/'' \<notin> set (path_base r) \<and> r = ''/nix/store/'' @ path_base r"
proof -
  from assms obtain n where n: "r = ''/nix/store/'' @ n" "2 < length n" "CHR ''/'' \<notin> set n"
    by (auto simp: store_ref_def)
  have "path_base r = n" unfolding n(1) using n(2,3) by (intro path_base_last) auto
  with n show ?thesis by (auto simp: proper_element_def)
qed

lemma pin_link_inject:
  assumes "store_ref a" "store_ref b" "pin_link dir a = pin_link dir b"
  shows "a = b"
proof -
  have "path_base (pin_link dir r) = path_base r" if "store_ref r" for r
    using path_base_join store_ref_base [OF that] by (simp add: pin_link_def)
  with assms have "path_base a = path_base b" by metis
  with assms(1,2) show ?thesis using store_ref_base by metis
qed

subsection \<open>A pin that a session may need is kept\<close>

text \<open>The pin of \<open>ref\<close> did not stop being referenced before \<open>s\<close>.\<close>

definition pins_after :: "instant \<Rightarrow> path \<Rightarrow> hook_pin table \<Rightarrow> bool" where
  "pins_after s ref pins =
     (\<forall>pin. (ref, pin) \<in> set pins \<longrightarrow> (case hp_Unreferenced pin of None \<Rightarrow> True | Some u \<Rightarrow> s < u))"

definition link_kept :: "path \<Rightarrow> instant \<Rightarrow> path \<Rightarrow> hook_world \<Rightarrow> bool" where
  "link_kept dir s ref w =
     (hw_links w (pin_link dir ref) = Some ref \<and> (case hw_pins w of None \<Rightarrow> True | Some pins \<Rightarrow> pins_after s ref pins))"

lemma tbl_put_entries: "(k, v) \<in> set (tbl_put a b t) \<Longrightarrow> (k, v) \<in> set t \<or> (k = a \<and> v = b)"
  unfolding tbl_put_def by (induction t) (auto split: if_splits)

lemma tbl_del_entries: "e \<in> set (tbl_del a t) \<Longrightarrow> e \<in> set t"
  unfolding tbl_del_def by (auto simp: AList.delete_eq)

lemma reference_pin_after: "pins_after s ref pins \<Longrightarrow> pins_after s ref (reference_pin now r pins)"
  unfolding pins_after_def reference_pin_def Let_def by (auto dest!: tbl_put_entries)

lemma unreference_after: "pins_after s ref pins \<Longrightarrow> s < now \<Longrightarrow> pins_after s ref (unreference now refs pins)"
  unfolding pins_after_def unreference_def by (fastforce split: if_splits option.splits)

lemma pin_ref_kept:
  assumes "store_ref ref" "store_ref r" "links (pin_link dir ref) = Some ref" "pin_ref env dir r links = (err, links')"
  shows "links' (pin_link dir ref) = Some ref"
proof (cases "r = ref")
  case True
  with assms(3,4) show ?thesis by (simp add: pin_ref_def)
next
  case False
  then have "pin_link dir r \<noteq> pin_link dir ref" using pin_link_inject assms(1,2) by metis
  with assms(3,4) show ?thesis
    by (auto simp: pin_ref_def remove_link_def nixAddIndirectRoot_def Let_def split: if_splits prod.splits option.splits)
qed

lemma pin_refs_kept:
  assumes "pin_refs env dir refs pins links = (err, pins', links')" "store_ref ref" "\<forall>r \<in> set refs. store_ref r"
    and "links (pin_link dir ref) = Some ref" "pins_after s ref pins"
  shows "links' (pin_link dir ref) = Some ref \<and> pins_after s ref pins'"
  using assms
proof (induction refs arbitrary: pins links)
  case (Cons r refs)
  obtain e l where p: "pin_ref env dir r links = (e, l)" by fastforce
  from pin_ref_kept [OF Cons.prems(2) _ Cons.prems(4) p] Cons.prems(3) have l: "l (pin_link dir ref) = Some ref" by simp
  have a: "pins_after s ref (reference_pin (he_now env) r pins)" by (rule reference_pin_after [OF Cons.prems(5)])
  show ?case
  proof (cases e)
    case None
    with Cons.prems(1) p have "pin_refs env dir refs (reference_pin (he_now env) r pins) l = (err, pins', links')"
      by (simp add: Let_def)
    from Cons.IH [OF this Cons.prems(2) _ l a] Cons.prems(3) show ?thesis by simp
  qed (use Cons.prems(1) p l a in \<open>simp add: Let_def\<close>)
qed simp

lemma release_kept:
  assumes "release_pins env dir starts todo pins links = (err, pins', links')" "s \<in> set starts"
    and "links (pin_link dir ref) = Some ref" "pins_after s ref pins" "pins_after s ref todo"
  shows "links' (pin_link dir ref) = Some ref \<and> pins_after s ref pins'"
  using assms
proof (induction todo arbitrary: pins links)
  case (Cons e todo)
  obtain r pin where e: "e = (r, pin)" by fastforce
  have todo: "pins_after s ref todo" using Cons.prems(5) by (auto simp: pins_after_def)
  have del: "pins_after s ref (tbl_del r pins)" using Cons.prems(4) by (auto simp: pins_after_def dest: tbl_del_entries)
  show ?case
  proof (cases "pin_held starts pin")
    case True
    with Cons todo show ?thesis by (simp add: e)
  next
    case False
    have "r \<noteq> ref"
      using False Cons.prems(2,5) by (auto simp: e pins_after_def pin_held_def list_ex_iff split: option.splits)
    then have "links (pin_link dir r) = Some r \<Longrightarrow> pin_link dir r \<noteq> pin_link dir ref"
      using Cons.prems(3) by auto
    with Cons todo del False \<open>r \<noteq> ref\<close> show ?thesis
      by (auto simp: e Let_def split: if_splits option.splits)
  qed
qed simp

lemma refresh_kept:
  assumes "store_ref ref" "link_kept dir s ref w" "s < he_now env"
    and "\<And>starts. he_starts env (nc_HookPinSessionComms cfg) = Inr starts \<Longrightarrow> s \<in> set starts"
  shows "link_kept dir s ref (snd (refresh env dir cfg w))"
proof (cases "nixPathHasComponent dir ''gcroots'' \<and> he_mkdir env = None \<and> (\<exists>refs. hook_refs env (nc_HookPinFiles cfg) = Inr refs)")
  case False
  with assms(2) show ?thesis by (cases "hook_refs env (nc_HookPinFiles cfg)") (auto simp: refresh_def)
next
  case True
  then obtain refs where go: "nixPathHasComponent dir ''gcroots''" "he_mkdir env = None"
    "hook_refs env (nc_HookPinFiles cfg) = Inr refs" by auto
  define old where "old = (if he_state_unreadable env then [] else case hw_pins w of None \<Rightarrow> [] | Some t \<Rightarrow> t)"
  obtain e1 p1 l1 where one: "pin_refs env dir (sort (remdups refs)) old (hw_links w) = (e1, p1, l1)" by (metis prod_cases3)
  have start: "hw_links w (pin_link dir ref) = Some ref" "pins_after s ref old"
    "case hw_pins w of None \<Rightarrow> True | Some pins \<Rightarrow> pins_after s ref pins"
    using assms(2) by (auto simp: link_kept_def old_def pins_after_def split: option.splits)
  have stores: "\<forall>r \<in> set (sort (remdups refs)). store_ref r" using hook_refs_store [OF go(3)] by simp
  note k1 = pin_refs_kept [OF one assms(1) stores start(1,2)]
  define p2 where "p2 = unreference (he_now env) refs p1"
  have a2: "pins_after s ref p2" using k1 assms(3) by (simp add: p2_def unreference_after)
  obtain e3 p3 l3 where three: "(case he_starts env (nc_HookPinSessionComms cfg) of Inl err \<Rightarrow> (None, p2, l1)
      | Inr starts \<Rightarrow> release_pins env dir starts p2 p2 l1) = (e3, p3, l3)" by (metis prod_cases3)
  have k3: "l3 (pin_link dir ref) = Some ref \<and> pins_after s ref p3"
  proof (cases "he_starts env (nc_HookPinSessionComms cfg)")
    case (Inr starts)
    with three release_kept [OF _ assms(4) _ a2 a2] k1 show ?thesis by auto
  qed (use three k1 a2 in auto)
  show ?thesis
    unfolding refresh_def Let_def using go start k1 k3 three [unfolded p2_def]
    by (auto simp: one [unfolded old_def] link_kept_def split: option.splits)
qed

subsection \<open>A successful refresh pins every reference\<close>

definition pins_live :: "path \<Rightarrow> hook_pin table \<Rightarrow> bool" where
  "pins_live ref pins = (\<forall>pin. (ref, pin) \<in> set pins \<longrightarrow> hp_Unreferenced pin = None)"

lemma tbl_get_entry: "tbl_get t k = Some v \<Longrightarrow> (k, v) \<in> set t"
  by (simp add: tbl_get_def map_of_SomeD)

lemma reference_pin_live:
  "distinct (map fst pins) \<Longrightarrow> r = ref \<or> pins_live ref pins \<Longrightarrow> pins_live ref (reference_pin now r pins)"
proof (unfold pins_live_def, intro allI impI)
  fix pin
  assume d: "distinct (map fst pins)" and l: "r = ref \<or> (\<forall>pin. (ref, pin) \<in> set pins \<longrightarrow> hp_Unreferenced pin = None)"
    and e: "(ref, pin) \<in> set (reference_pin now r pins)"
  then have "tbl_get (reference_pin now r pins) ref = Some pin"
    by (simp add: tbl_get_def reference_pin_def Let_def tbl_put_distinct)
  then show "hp_Unreferenced pin = None"
    using l by (auto simp: reference_pin_def Let_def dest: tbl_get_entry split: if_splits)
qed

lemma reference_pin_distinct: "distinct (map fst pins) \<Longrightarrow> distinct (map fst (reference_pin now r pins))"
  by (simp add: reference_pin_def Let_def tbl_put_distinct)

lemma add_root_selects:
  "nixAddIndirectRoot env link r links = (None, links') \<Longrightarrow> links' link = Some r"
  by (auto simp: nixAddIndirectRoot_def split: option.splits prod.splits if_splits)

lemma pin_ref_links:
  "pin_ref env dir r links = (None, links') \<Longrightarrow> he_valid env r \<Longrightarrow> links' (pin_link dir r) = Some r"
  by (auto simp: pin_ref_def Let_def add_root_selects split: if_splits)

lemma pin_refs_live:
  assumes "pin_refs env dir refs pins links = (None, pins', links')" "\<forall>r \<in> set refs. store_ref r"
    and "distinct (map fst pins)" "store_ref ref"
    and "ref \<in> set refs \<and> he_valid env ref \<or> links (pin_link dir ref) = Some ref \<and> pins_live ref pins"
  shows "links' (pin_link dir ref) = Some ref \<and> pins_live ref pins'"
  using assms
proof (induction refs arbitrary: pins links)
  case (Cons r refs)
  obtain l where p: "pin_ref env dir r links = (None, l)"
    and go: "pin_refs env dir refs (reference_pin (he_now env) r pins) l = (None, pins', links')"
    using Cons.prems(1) by (auto simp: Let_def split: prod.splits option.splits)
  have "ref \<in> set refs \<and> he_valid env ref \<or>
      l (pin_link dir ref) = Some ref \<and> pins_live ref (reference_pin (he_now env) r pins)"
  proof (cases "links (pin_link dir ref) = Some ref \<and> pins_live ref pins")
    case True
    with Cons.prems(2,3,4) pin_ref_kept [OF Cons.prems(4) _ _ p] show ?thesis by (simp add: reference_pin_live)
  next
    case False
    with Cons.prems pin_ref_links [OF p] show ?thesis by (auto simp: reference_pin_live)
  qed
  from Cons.IH [OF go _ reference_pin_distinct Cons.prems(4) this] Cons.prems(2,3) show ?case by simp
qed simp

lemma release_live:
  assumes "release_pins env dir starts todo pins links = (err, pins', links')"
    and "links (pin_link dir ref) = Some ref" "pins_live ref pins" "pins_live ref todo"
  shows "links' (pin_link dir ref) = Some ref \<and> pins_live ref pins'"
  using assms
proof (induction todo arbitrary: pins links)
  case (Cons e todo)
  obtain r pin where e: "e = (r, pin)" by fastforce
  have todo: "pins_live ref todo" and del: "pins_live ref (tbl_del r pins)"
    using Cons.prems(3,4) by (auto simp: pins_live_def dest: tbl_del_entries)
  show ?case
  proof (cases "pin_held starts pin")
    case False
    have ne: "r \<noteq> ref"
    proof
      assume "r = ref"
      then have "(ref, pin) \<in> set (e # todo)" by (simp add: e)
      then have "hp_Unreferenced pin = None" using Cons.prems(4) unfolding pins_live_def by blast
      with False show False by (simp add: pin_held_def)
    qed
    then have "links (pin_link dir r) = Some r \<Longrightarrow> pin_link dir r \<noteq> pin_link dir ref" using Cons.prems(2) by auto
    with Cons todo del False ne show ?thesis by (auto simp: e Let_def split: if_splits option.splits)
  qed (use Cons todo in \<open>simp add: e\<close>)
qed simp

lemma pin_refs_live_here:
  assumes "pin_refs env dir refs pins links = (None, pins', links')" "distinct (map fst pins)"
    and "ref \<in> set refs \<or> pins_live ref pins"
  shows "pins_live ref pins'"
  using assms
proof (induction refs arbitrary: pins links)
  case (Cons r refs)
  obtain l where "pin_refs env dir refs (reference_pin (he_now env) r pins) l = (None, pins', links')"
    using Cons.prems(1) by (auto simp: Let_def split: prod.splits option.splits)
  from Cons.IH [OF this reference_pin_distinct] Cons.prems(2,3) show ?case by (auto simp: reference_pin_live)
qed simp

lemma live_after: "pins_live ref pins \<Longrightarrow> pins_after s ref pins"
  by (auto simp: pins_live_def pins_after_def)

lemma refresh_pins:
  assumes "fst (refresh env dir cfg w) = None" "hook_refs env (nc_HookPinFiles cfg) = Inr refs" "ref \<in> set refs"
    and "he_valid env ref" "\<And>t. hw_pins w = Some t \<Longrightarrow> distinct (map fst t)"
  shows "link_kept dir s ref (snd (refresh env dir cfg w))"
proof -
  define old where "old = (if he_state_unreadable env then [] else case hw_pins w of None \<Rightarrow> [] | Some t \<Rightarrow> t)"
  have d: "distinct (map fst old)" using assms(5) by (auto simp: old_def split: option.splits)
  have stores: "\<forall>r \<in> set (sort (remdups refs)). store_ref r" "store_ref ref"
    using hook_refs_store [OF assms(2)] assms(3) by simp_all
  have go: "nixPathHasComponent dir ''gcroots''" "he_mkdir env = None"
    using assms(1,2) by (auto simp: refresh_def split: if_splits)
  obtain e1 p1 l1 where one: "pin_refs env dir (sort (remdups refs)) old (hw_links w) = (e1, p1, l1)" by (metis prod_cases3)
  have "e1 = None"
    using assms(1,2) go one by (cases e1) (simp_all add: refresh_def old_def)
  with pin_refs_live [OF one [unfolded this] stores(1) d stores(2)] assms(3,4)
  have k1: "l1 (pin_link dir ref) = Some ref" "pins_live ref p1" and one: "pin_refs env dir (sort (remdups refs)) old (hw_links w) = (None, p1, l1)"
    using one by auto
  define p2 where "p2 = unreference (he_now env) refs p1"
  have a2: "pins_live ref p2"
    using k1(2) assms(3) by (auto simp: p2_def pins_live_def unreference_def)
  obtain e3 p3 l3 where three: "(case he_starts env (nc_HookPinSessionComms cfg) of Inl err \<Rightarrow> (None, p2, l1)
      | Inr starts \<Rightarrow> release_pins env dir starts p2 p2 l1) = (e3, p3, l3)" by (metis prod_cases3)
  have "l3 (pin_link dir ref) = Some ref \<and> pins_live ref p3"
  proof (cases "he_starts env (nc_HookPinSessionComms cfg)")
    case (Inr starts)
    with three have "release_pins env dir starts p2 p2 l1 = (e3, p3, l3)" by simp
    then show ?thesis using k1(1) a2 a2 by (rule release_live)
  qed (use three k1(1) a2 in auto)
  then have k3: "l3 (pin_link dir ref) = Some ref" "pins_after s ref p3" by (auto dest: live_after)
  show ?thesis
    using assms(1,2) go k3 three [unfolded p2_def] unfolding refresh_def Let_def
    by (auto simp: one [unfolded old_def] link_kept_def split: option.splits)
qed

subsection \<open>What a successful refresh tracks\<close>

lemma release_tracks:
  assumes "release_pins env dir starts todo pins links = (None, pins', links')" "distinct (map fst todo)"
  shows "tbl_get pins' k =
    (if \<exists>pin. (k, pin) \<in> set todo \<and> \<not> pin_held starts pin then None else tbl_get pins k)"
  using assms
proof (induction todo arbitrary: pins links)
  case (Cons e todo)
  obtain r pin where e: "e = (r, pin)" by fastforce
  have fresh: "(r, p) \<notin> set todo" for p using Cons.prems(2) by (force simp: e)
  show ?case
  proof (cases "pin_held starts pin")
    case True
    with Cons show ?thesis by (auto simp: e)
  next
    case False
    then obtain l where "release_pins env dir starts todo (tbl_del r pins) l = (None, pins', links')"
      using Cons.prems(1) by (auto simp: e Let_def split: if_splits option.splits)
    from Cons.IH [OF this] Cons.prems(2) False fresh show ?thesis by (auto simp: e)
  qed
qed simp

lemma pin_refs_tracks:
  assumes "pin_refs env dir refs pins links = (None, pins', links')"
  shows "tbl_get pins' k \<noteq> None \<longleftrightarrow> k \<in> set refs \<or> tbl_get pins k \<noteq> None"
    and "k \<notin> set refs \<Longrightarrow> tbl_get pins' k = tbl_get pins k"
    and "distinct (map fst pins) \<Longrightarrow> distinct (map fst pins')"
proof -
  have put: "tbl_get (reference_pin now r t) k = None \<longleftrightarrow> k \<noteq> r \<and> tbl_get t k = None"
    and other: "k \<noteq> r \<Longrightarrow> tbl_get (reference_pin now r t) k = tbl_get t k" for now r t
    by (auto simp: reference_pin_def Let_def)
  have "(tbl_get pins' k \<noteq> None \<longleftrightarrow> k \<in> set refs \<or> tbl_get pins k \<noteq> None) \<and>
      (k \<notin> set refs \<longrightarrow> tbl_get pins' k = tbl_get pins k) \<and> (distinct (map fst pins) \<longrightarrow> distinct (map fst pins'))"
    using assms
  proof (induction refs arbitrary: pins links)
    case (Cons r refs)
    obtain l where "pin_refs env dir refs (reference_pin (he_now env) r pins) l = (None, pins', links')"
      using Cons.prems by (auto simp: Let_def split: prod.splits option.splits)
    from Cons.IH [OF this] show ?case by (auto simp: put other reference_pin_distinct)
  qed simp
  then show "tbl_get pins' k \<noteq> None \<longleftrightarrow> k \<in> set refs \<or> tbl_get pins k \<noteq> None"
    and "k \<notin> set refs \<Longrightarrow> tbl_get pins' k = tbl_get pins k"
    and "distinct (map fst pins) \<Longrightarrow> distinct (map fst pins')" by blast+
qed

lemma unreference_tracks:
  "tbl_get (unreference now refs pins) k = map_option (\<lambda>pin. if k \<in> set refs \<or> hp_Unreferenced pin \<noteq> None then pin
     else pin\<lparr>hp_Unreferenced := Some now\<rparr>) (tbl_get pins k)"
  "map fst (unreference now refs pins) = map fst pins"
  unfolding unreference_def tbl_get_def by (induction pins) auto

text \<open>The time a tracked pin stopped being referenced, as a refresh at \<open>now\<close> that does not see it decides.\<close>

definition unreferenced_at :: "instant \<Rightarrow> hook_pin \<Rightarrow> instant" where
  "unreferenced_at now pin = (case hp_Unreferenced pin of None \<Rightarrow> now | Some u \<Rightarrow> u)"

lemma refresh_tracks:
  assumes ok: "refresh env dir cfg w = (None, w')" and refs: "hook_refs env (nc_HookPinFiles cfg) = Inr refs"
    and starts: "he_starts env (nc_HookPinSessionComms cfg) = Inr starts"
    and t: "hw_pins w = Some t" "distinct (map fst t)" "\<not> he_state_unreadable env"
  shows "\<exists>t'. hw_pins w' = Some t' \<and>
    (tbl_get t' k \<noteq> None \<longleftrightarrow> k \<in> set refs \<or>
       (\<exists>pin s. tbl_get t k = Some pin \<and> s \<in> set starts \<and> s < unreferenced_at (he_now env) pin))"
proof -
  have go: "nixPathHasComponent dir ''gcroots''" "he_mkdir env = None"
    using ok refs by (auto simp: refresh_def split: if_splits)
  obtain e1 p1 l1 where one: "pin_refs env dir (sort (remdups refs)) t (hw_links w) = (e1, p1, l1)" by (metis prod_cases3)
  have "e1 = None" using ok refs go one t by (cases e1) (simp_all add: refresh_def)
  note one = one [unfolded this]
  define p2 where "p2 = unreference (he_now env) refs p1"
  obtain e3 p3 l3 where three: "release_pins env dir starts p2 p2 l1 = (e3, p3, l3)" by (metis prod_cases3)
  have e3: "e3 = None \<and> he_write env = None \<and> hw_pins w' = Some p3"
    using ok refs go one t starts three
    by (auto simp: refresh_def p2_def Let_def split: option.splits)
  have d2: "distinct (map fst p2)" using pin_refs_tracks(3) [OF one t(2)] by (simp add: p2_def unreference_tracks(2))
  have ent: "(k, pin) \<in> set p2 \<longleftrightarrow> tbl_get p2 k = Some pin" for pin
    using d2 by (simp add: tbl_get_def)
  have "tbl_get p3 k \<noteq> None \<longleftrightarrow> (\<exists>pin. tbl_get p2 k = Some pin \<and> pin_held starts pin)"
    using release_tracks [OF three [unfolded e3 [THEN conjunct1]] d2, of k] by (auto simp: ent)
  also have "\<dots> \<longleftrightarrow> k \<in> set refs \<or>
       (\<exists>pin s. tbl_get t k = Some pin \<and> s \<in> set starts \<and> s < unreferenced_at (he_now env) pin)"
  proof (cases "k \<in> set refs")
    case True
    then obtain pin where pin: "tbl_get p1 k = Some pin" using pin_refs_tracks(1) [OF one, of k] by auto
    have "pins_live k p1"
      using pin_refs_live_here [OF one t(2), of k] True by simp
    then have "hp_Unreferenced pin = None" using tbl_get_entry [OF pin] by (simp add: pins_live_def)
    with True pin show ?thesis by (simp add: p2_def unreference_tracks pin_held_def)
  next
    case False
    then have "tbl_get p2 k = map_option (\<lambda>pin. if hp_Unreferenced pin \<noteq> None then pin
        else pin\<lparr>hp_Unreferenced := Some (he_now env)\<rparr>) (tbl_get t k)"
      using pin_refs_tracks(2) [OF one, of k] by (simp add: p2_def unreference_tracks)
    with False show ?thesis by (cases "tbl_get t k") (auto simp: pin_held_def unreferenced_at_def list_ex_iff)
  qed
  finally show ?thesis using e3 by blast
qed

subsection \<open>Properties\<close>

lemma refreshHookPins_kept:
  assumes "store_ref ref" "link_kept dir s ref w" "dir = clean_path (expandHome (nc_HookPinDir cfg) (he_home env))"
    and "s < he_now env" "\<forall>starts. he_starts env (nc_HookPinSessionComms cfg) = Inr starts \<longrightarrow> s \<in> set starts"
  shows "link_kept dir s ref (snd (refreshHookPins env cfg w))"
  using refresh_kept [OF assms(1,2,4), of cfg] assms(2,3,5) by (simp add: refreshHookPins_def)

text \<open>C15: a session never loses a hook path: once a refresh that saw a valid store path in the configuration succeeds, its link keeps selecting the path through any later refreshes (with other configuration contents, unreadable or unwritable state, failing commands) as long as a session that started before each of them is still alive, or sessions cannot be inspected.\<close>

theorem hook_pin_outlives_sessions:
  assumes "fst (refreshHookPins env cfg w) = None" "hook_refs env (nc_HookPinFiles cfg) = Inr refs" "ref \<in> set refs"
    and "he_valid env ref" "case hw_pins w of None \<Rightarrow> True | Some t \<Rightarrow> distinct (map fst t)"
    and "\<forall>e \<in> set later. he_home e = he_home env \<and> s < he_now e \<and>
           (\<forall>starts. he_starts e (nc_HookPinSessionComms cfg) = Inr starts \<longrightarrow> s \<in> set starts)"
  shows "hw_links (foldl (\<lambda>w e. snd (refreshHookPins e cfg w)) (snd (refreshHookPins env cfg w)) later)
           (pin_link (clean_path (expandHome (nc_HookPinDir cfg) (he_home env))) ref) = Some ref"
proof -
  let ?dir = "clean_path (expandHome (nc_HookPinDir cfg) (he_home env))"
  have sr: "store_ref ref" by (rule hook_refs_store [OF assms(2,3)])
  have files: "nc_HookPinFiles cfg \<noteq> []" using assms(2,3) by auto
  with assms(1) have ok: "fst (refresh env ?dir cfg w) = None" by (simp add: refreshHookPins_def)
  have "distinct (map fst t)" if "hw_pins w = Some t" for t using assms(5) that by simp
  from refresh_pins [OF ok assms(2-4) this] have "link_kept ?dir s ref (snd (refresh env ?dir cfg w))" .
  then have "link_kept ?dir s ref (snd (refreshHookPins env cfg w))" using files by (simp add: refreshHookPins_def)
  then have "link_kept ?dir s ref (foldl (\<lambda>w e. snd (refreshHookPins e cfg w)) (snd (refreshHookPins env cfg w)) later)"
    using assms(6)
  proof (induction later rule: rev_induct)
    case (snoc e later)
    then have e: "he_home e = he_home env" "s < he_now e"
      "\<forall>starts. he_starts e (nc_HookPinSessionComms cfg) = Inr starts \<longrightarrow> s \<in> set starts" by auto
    from snoc have "link_kept ?dir s ref (foldl (\<lambda>w e. snd (refreshHookPins e cfg w)) (snd (refreshHookPins env cfg w)) later)"
      by (metis UnCI set_append)
    from refreshHookPins_kept [OF sr this _ e(2,3)] e(1) show ?case unfolding foldl_append by simp
  qed simp
  then show ?thesis by (simp add: link_kept_def)
qed

text \<open>Hook pins are released exactly when they may be: after a successful refresh that could inspect the sessions, a store path is tracked if and only if the configuration references it or a live session started before the path stopped being referenced (now, when this refresh is the first not to see it).\<close>

theorem hook_pin_released_iff:
  assumes "refreshHookPins env cfg w = (None, w')" "nc_HookPinFiles cfg \<noteq> []"
    and "hook_refs env (nc_HookPinFiles cfg) = Inr refs" "he_starts env (nc_HookPinSessionComms cfg) = Inr starts"
    and "hw_pins w = Some t" "distinct (map fst t)" "\<not> he_state_unreadable env"
  shows "\<exists>t'. hw_pins w' = Some t' \<and>
    (tbl_get t' k \<noteq> None \<longleftrightarrow> k \<in> set refs \<or>
       (\<exists>pin s. tbl_get t k = Some pin \<and> s \<in> set starts \<and> s < unreferenced_at (he_now env) pin))"
  using assms(1,2) refresh_tracks [OF _ assms(3-7)] by (simp add: refreshHookPins_def)

definition demo_nix_config :: nix_config where
  "demo_nix_config =
     \<lparr>nc_MinUserGenerations = 2, nc_MinHomeManagerGenerations = 0, nc_MinSystemGenerations = 2, nc_MaxUserGenerations = 3,
      nc_MaxHomeManagerGenerations = 0, nc_HostMeasurePath = [], nc_DeleteGenerationsOlderThan = ''14d'', nc_CriticalDeleteGenerationsOlderThan = ''3d'',
      nc_DeleteHomeManagerGenerations = False, nc_HomeManagerDeleteGenerationsOlderThan = [],
      nc_HomeManagerCriticalDeleteGenerationsOlderThan = [], nc_AllowStoreOptimize = False, nc_SkipWhenDaemonBusy = True,
      nc_DaemonBusyBackoff = ''30m'', nc_MaxBusyDeferrals = 2, nc_MaxBusyDeferralDuration = ''6h'',
      nc_PeriodicGCInterval = ''24h'', nc_MinGCInterval = ''30m'', nc_MaxFreedPerPass = ''50G'', nc_GCStateFile = ''/s/gc.json'',
      nc_HookPinFiles = [''/c/settings.json''], nc_HookPinDir = ''/n/gcroots/pins'', nc_HookPinSessionComms = [''claude''],
      nc_HookPinRequired = True, nc_GCLockFile = [], nc_GCDeferPaths = []\<rparr>"

definition demo_ref :: path where "demo_ref = ''/nix/store/'' @ replicate 32 CHR ''a'' @ ''-hook''"

definition demo_hook_env :: "instant \<Rightarrow> bool \<Rightarrow> instant list \<Rightarrow> hook_env" where
  "demo_hook_env now referenced starts =
     \<lparr>he_now = now, he_home = ''/h'', he_read = (\<lambda>_. if referenced then ConfigText (''run '' @ demo_ref @ '' now'') else ConfigMissing),
      he_mkdir = None, he_state_unreadable = False, he_valid = (\<lambda>_. True),
      he_realise = (\<lambda>link p. (None, [], Some p)), he_starts = (\<lambda>_. Inr starts), he_remove = (\<lambda>_. None), he_write = None\<rparr>"

definition demo_hook_world :: hook_world where "demo_hook_world = \<lparr>hw_links = (\<lambda>_. None), hw_pins = None\<rparr>"

definition demo_tracked :: "hook_pin table" where
  "demo_tracked = [(demo_ref, \<lparr>hp_StorePath = demo_ref, hp_FirstSeen = 100, hp_LastReferenced = 100, hp_Unreferenced = Some 200\<rparr>)]"

theorem hook_pin_outlives_sessions_witness:
  "hw_links (foldl (\<lambda>w e. snd (refreshHookPins e demo_nix_config w))
       (snd (refreshHookPins (demo_hook_env 100 True [50]) demo_nix_config demo_hook_world))
       [demo_hook_env 200 False [50], demo_hook_env 300 False [50]])
     (pin_link (clean_path (expandHome (nc_HookPinDir demo_nix_config) (he_home (demo_hook_env 100 True [50])))) demo_ref) = Some demo_ref"
proof (rule hook_pin_outlives_sessions [where s = 50])
  show "fst (refreshHookPins (demo_hook_env 100 True [50]) demo_nix_config demo_hook_world) = None" by code_simp
  show "hook_refs (demo_hook_env 100 True [50]) (nc_HookPinFiles demo_nix_config) = Inr [demo_ref]" by code_simp
qed (simp_all add: demo_hook_env_def demo_hook_world_def)

theorem hook_pin_released_iff_witness:
  "\<exists>t'. hw_pins (snd (refreshHookPins (demo_hook_env 300 False [250]) demo_nix_config (demo_hook_world\<lparr>hw_pins := Some demo_tracked\<rparr>))) = Some t' \<and>
     tbl_get t' demo_ref = None"
proof -
  let ?w = "demo_hook_world\<lparr>hw_pins := Some demo_tracked\<rparr>" and ?e = "demo_hook_env 300 False [250]"
  have ok: "refreshHookPins ?e demo_nix_config ?w = (None, snd (refreshHookPins ?e demo_nix_config ?w))"
    by (simp add: prod_eq_iff) code_simp
  have refs: "hook_refs ?e (nc_HookPinFiles demo_nix_config) = Inr []" by code_simp
  have "nc_HookPinFiles demo_nix_config \<noteq> []" "he_starts ?e (nc_HookPinSessionComms demo_nix_config) = Inr [250]"
    "hw_pins ?w = Some demo_tracked" "distinct (map fst demo_tracked)" "\<not> he_state_unreadable ?e"
    by (simp_all add: demo_nix_config_def demo_hook_env_def demo_tracked_def)
  from hook_pin_released_iff [OF ok this(1) refs this(2-5), of demo_ref]
  show ?thesis by (auto simp: demo_tracked_def tbl_get_def unreferenced_at_def)
qed

end
