(* ===== verification/Nix_GC.thy ===== *)
theory Nix_GC
  imports Nix_Output Nix_Hook_Pins
begin

text \<open>
  A poll of the Nix plugin, \<open>plugins/nix.go\<close> and \<open>plugins/nix_gclock.go\<close>: the due decision, the
  gates that defer a due pass, and the pass itself.  What the system answers is an observation of
  the poll; the external commands a pass runs are returned in order.  Logging is reduced to
  whether a deferral was reported at ERROR, and the candidate list of stale roots
  (\<open>publishStaleGCRootCandidates\<close>) is not modelled.
\<close>

subsection \<open>Serialization\<close>

datatype lock_error = LockHeld | LockUnusable string
datatype flock_result = FlockTaken | FlockBusy | FlockFails string

record lock_env =
  le_mkdir :: "string option"
  le_open :: "string option"
  le_stat :: "string option"
  le_regular :: bool
  le_owned :: bool
  le_private :: bool
  le_flock :: flock_result

definition nixFlockFile :: "lock_env \<Rightarrow> path \<Rightarrow> lock_error option" where
  "nixFlockFile env p =
     (case le_open env of
        Some e \<Rightarrow> Some (LockUnusable (''open nix GC lock '' @ p @ '': '' @ e))
      | None \<Rightarrow>
          (case le_stat env of
             Some e \<Rightarrow> Some (LockUnusable (''stat nix GC lock '' @ p @ '': '' @ e))
           | None \<Rightarrow>
               (if \<not> le_regular env then Some (LockUnusable (''nix GC lock '' @ p @ '' is not a regular file''))
                else if \<not> le_owned env then Some (LockUnusable (''nix GC lock '' @ p @ '' is not owned by this user''))
                else if \<not> le_private env
                  then Some (LockUnusable (''nix GC lock '' @ p @ '' is readable or writable by others''))
                else case le_flock env of
                       FlockTaken \<Rightarrow> None
                     | FlockBusy \<Rightarrow> Some LockHeld
                     | FlockFails e \<Rightarrow> Some (LockUnusable (''lock nix GC lock '' @ p @ '': '' @ e)))))"

definition nixGCLockPath :: "nix_config \<Rightarrow> path \<Rightarrow> path" where
  "nixGCLockPath cfg home = (if nc_GCLockFile cfg = [] then [] else clean_path (expandHome (nc_GCLockFile cfg) home))"

definition nixAcquireGCLock :: "lock_env \<Rightarrow> nix_config \<Rightarrow> path \<Rightarrow> lock_error option" where
  "nixAcquireGCLock env cfg home =
     (let p = nixGCLockPath cfg home
      in if p = [] then None
         else case le_mkdir env of
                Some e \<Rightarrow> Some (LockUnusable (''nix GC lock directory: '' @ e))
              | None \<Rightarrow> nixFlockFile env p)"

datatype lstat_result = LstatExists | LstatAbsent | LstatFails

fun first_marker :: "(path \<Rightarrow> lstat_result) \<Rightarrow> path \<Rightarrow> path list \<Rightarrow> path option" where
  "first_marker lstat home [] = None"
| "first_marker lstat home (raw # rest) =
     (if raw = [] then first_marker lstat home rest
      else let p = clean_path (expandHome raw home)
           in if lstat p \<noteq> LstatAbsent then Some p else first_marker lstat home rest)"

definition nixGCDeferredBy :: "(path \<Rightarrow> lstat_result) \<Rightarrow> nix_config \<Rightarrow> path \<Rightarrow> path option" where
  "nixGCDeferredBy lstat cfg home = first_marker lstat home (nc_GCDeferPaths cfg)"

subsection \<open>Observations of a pass\<close>

text \<open>
  \<open>ge_run\<close> gives the output and error of a command, \<open>ge_lookPath\<close> whether one is on the path,
  \<open>ge_marker\<close> the serialization markers after the preflight, \<open>ge_free n\<close> the n-th measurement
  of free space.
\<close>

record gc_env =
  ge_now :: instant
  ge_home :: "path option"
  ge_lookPath :: "string \<Rightarrow> bool"
  ge_run :: "string list \<Rightarrow> string \<times> string option"
  ge_parse_local :: "string \<Rightarrow> instant option"
  ge_read_dir :: "path \<Rightarrow> dir_listing"
  ge_readlink :: "path \<Rightarrow> path option"
  ge_modified :: "path \<Rightarrow> string + instant"
  ge_marker :: "path \<Rightarrow> lstat_result"
  ge_exists :: "path \<Rightarrow> bool"
  ge_free :: "nat \<Rightarrow> path \<Rightarrow> u64 option"
  ge_darwin :: bool

definition home_or_empty :: "path option \<Rightarrow> path" where
  "home_or_empty h = (case h of None \<Rightarrow> [] | Some p \<Rightarrow> p)"

definition nix_result :: "cleanup_level \<Rightarrow> cleanup_result" where
  "nix_result level =
     \<lparr>cr_Plugin = ''nix'', cr_Level = level, cr_BytesFreed = 0, cr_EstimatedBytesFreed = 0,
      cr_CommandBytesFreed = 0, cr_HostBytesFreed = 0, cr_ItemsCleaned = 0, cr_Error = None\<rparr>"

subsection \<open>Measuring the host\<close>

definition int64FromUint64 :: "u64 \<Rightarrow> int" where
  "int64FromUint64 value = (if max_i64 < uint value then max_i64 else uint value)"

definition nixHostMeasurePath :: "gc_env \<Rightarrow> nix_config \<Rightarrow> path" where
  "nixHostMeasurePath env cfg =
     (let p = trim_space (nc_HostMeasurePath cfg);
          p = (if p = [] then ''/nix/store'' else p);
          home = home_or_empty (ge_home env);
          p = clean_path (expandHome p home)
      in if ge_exists env p then p
         else if ge_exists env ''/nix'' then ''/nix''
         else if home \<noteq> [] \<and> ge_exists env home then home
         else ''.'')"

definition measureFreeDiskSpace :: "gc_env \<Rightarrow> nat \<Rightarrow> path \<Rightarrow> int option" where
  "measureFreeDiskSpace env n p = map_option int64FromUint64 (ge_free env n p)"

definition measuredHostDelta :: "gc_env \<Rightarrow> nat \<Rightarrow> int \<Rightarrow> path \<Rightarrow> int" where
  "measuredHostDelta env n before p =
     (case measureFreeDiskSpace env n p of
        None \<Rightarrow> 0
      | Some after \<Rightarrow> (if after \<le> before then 0 else after - before))"

text \<open>The host delta around a command: zero when the measurement before it failed.\<close>

definition host_delta :: "gc_env \<Rightarrow> nat \<Rightarrow> nix_config \<Rightarrow> int" where
  "host_delta env n cfg =
     (let p = nixHostMeasurePath env cfg
      in case measureFreeDiskSpace env n p of None \<Rightarrow> 0 | Some before \<Rightarrow> measuredHostDelta env (n + 1) before p)"

subsection \<open>Collecting\<close>

definition collectGarbageDryRun :: "gc_env \<Rightarrow> (string \<times> string option) \<times> string list list" where
  "collectGarbageDryRun env =
     (let c = [''nix-collect-garbage'', ''--dry-run''] in (ge_run env c, [c]))"

definition freed_result :: "gc_env \<Rightarrow> nix_config \<Rightarrow> cleanup_level \<Rightarrow> string \<Rightarrow> cleanup_result" where
  "freed_result env cfg level output =
     (nix_result level)\<lparr>cr_CommandBytesFreed := parseFreedSpace output, cr_BytesFreed := parseFreedSpace output,
        cr_ItemsCleaned := parseDeletedPaths output, cr_HostBytesFreed := host_delta env 0 cfg\<rparr>"

definition collectGarbage ::
    "cleanup_level \<Rightarrow> string list \<Rightarrow> nix_config \<Rightarrow> gc_env \<Rightarrow> cleanup_result \<times> string list list" where
  "collectGarbage level args cfg env =
     (let c = ''nix-collect-garbage'' # args @ nixMaxFreedArgs cfg
      in case ge_run env c of
           (output, Some err) \<Rightarrow>
             (if nixContentionReason output \<noteq> None \<and> nc_SkipWhenDaemonBusy cfg then (nix_result level, [c])
              else if nixGCWedgedAppBundle output \<noteq> None \<and> ge_darwin env then (freed_result env cfg level output, [c])
              else ((nix_result level)\<lparr>cr_Error := Some err\<rparr>, [c]))
         | (output, None) \<Rightarrow> (freed_result env cfg level output, [c]))"

definition collectGarbageCritical :: "nix_config \<Rightarrow> gc_env \<Rightarrow> cleanup_result \<times> string list list" where
  "collectGarbageCritical cfg env =
     (case collectGarbage LevelCritical [] cfg env of (r, cs) \<Rightarrow>
        (if cr_Error r \<noteq> None \<or> \<not> nc_AllowStoreOptimize cfg then (r, cs)
         else let c = [''nix-store'', ''--optimize'']
              in case ge_run env c of
                   (output, Some err) \<Rightarrow> (r, cs @ [c])
                 | (output, None) \<Rightarrow>
                     (r\<lparr>cr_BytesFreed := cr_BytesFreed r + parseOptimizedSpace output,
                        cr_CommandBytesFreed := cr_CommandBytesFreed r + parseOptimizedSpace output,
                        cr_HostBytesFreed := cr_HostBytesFreed r + host_delta env 2 cfg\<rparr>, cs @ [c])))"

subsection \<open>Deleting generations\<close>

text \<open>The deletion command on the collected numbers: the items deleted, or the error.\<close>

definition run_deletion ::
    "string list \<Rightarrow> nix_config \<Rightarrow> gc_env \<Rightarrow> cleanup_level \<Rightarrow> string list \<Rightarrow> cleanup_result \<times> string list list" where
  "run_deletion command cfg env level numbers =
     (if numbers = [] then (nix_result level, [])
      else let c = command @ numbers
           in case ge_run env c of
                (output, Some err) \<Rightarrow>
                  (if nixContentionReason output \<noteq> None \<and> nc_SkipWhenDaemonBusy cfg then (nix_result level, [c])
                   else ((nix_result level)\<lparr>cr_Error := Some (join_strings '' '' c @ '' failed: '' @ err @ '': '' @ trim_space output)\<rparr>, [c]))
              | (output, None) \<Rightarrow> ((nix_result level)\<lparr>cr_ItemsCleaned := int (length numbers)\<rparr>, [c]))"

definition deleteUserGenerationsByPolicy ::
    "cleanup_level \<Rightarrow> nix_config \<Rightarrow> gc_env \<Rightarrow> cleanup_result \<times> string list list" where
  "deleteUserGenerationsByPolicy level cfg env =
     (if \<not> ge_lookPath env ''nix-env'' then (nix_result level, [])
      else case listGenerations (ge_parse_local env) (\<lambda>args. ge_run env (''nix-env'' # args)) ''user'' [] of
        Inl err \<Rightarrow> (nix_result level, [[''nix-env'', ''--list-generations'']])
      | Inr generations \<Rightarrow>
          (let olderThan = parse_nix_policy_duration (nixGenerationPolicyAge level cfg) 0
           in if olderThan \<le> 0 \<and> nc_MaxUserGenerations cfg \<le> 0
              then (nix_result level, [[''nix-env'', ''--list-generations'']])
              else case run_deletion [''nix-env'', ''--delete-generations''] cfg env level
                          (delete_numbers (nixGenerationTargetsWithMax generations (ge_now env) (nc_MinUserGenerations cfg)
                             olderThan (nc_MaxUserGenerations cfg))) of
                     (r, cs) \<Rightarrow> (r, [''nix-env'', ''--list-generations''] # cs)))"

definition deleteHomeManagerGenerationsByPolicy ::
    "cleanup_level \<Rightarrow> nix_config \<Rightarrow> gc_env \<Rightarrow> cleanup_result \<times> string list list" where
  "deleteHomeManagerGenerationsByPolicy level cfg env =
     (if \<not> nc_DeleteHomeManagerGenerations cfg \<or> \<not> ge_lookPath env ''home-manager'' \<or> ge_home env = None
      then (nix_result level, [])
      else case discoverNixProfileLinkGenerations (ge_read_dir env) (ge_readlink env) (ge_modified env)
                  (join_path [home_or_empty (ge_home env), ''.local'', ''state'', ''nix'', ''profiles'']) ''home-manager'' ''home-manager'' of
        Inl err \<Rightarrow> (nix_result level, [])
      | Inr generations \<Rightarrow>
          (let olderThan = parse_nix_policy_duration (nixHomeManagerGenerationPolicyAge level cfg) 0
           in if generations = [] \<or> (olderThan \<le> 0 \<and> nc_MaxHomeManagerGenerations cfg \<le> 0) then (nix_result level, [])
              else run_deletion [''home-manager'', ''remove-generations''] cfg env level
                     (delete_numbers (nixGenerationTargetsWithMax generations (ge_now env) (nixMinHomeManagerGenerations cfg)
                        olderThan (nc_MaxHomeManagerGenerations cfg)))))"

subsection \<open>One pass\<close>

text \<open>The collection after the preflight; the flag says that the pass counts as an attempt.\<close>

definition after_preflight ::
    "cleanup_level \<Rightarrow> nix_config \<Rightarrow> gc_env \<Rightarrow> path \<Rightarrow> int \<Rightarrow> cleanup_result \<Rightarrow> (cleanup_result \<times> bool) \<times> string list list" where
  "after_preflight level cfg env home deleted result =
     (case collectGarbageDryRun env of ((output, err), cs) \<Rightarrow>
        (case err of
           Some e \<Rightarrow>
             (if nixContentionReason output \<noteq> None \<and> nc_SkipWhenDaemonBusy cfg then ((result, True), cs)
              else ((result\<lparr>cr_Error := Some (''nix garbage collection preflight failed: '' @ e)\<rparr>, True), cs))
         | None \<Rightarrow>
             (if nixDryRunHasNoGCWork output \<and> deleted = 0 \<and> \<not> (level = LevelCritical \<and> nc_AllowStoreOptimize cfg)
              then ((result, True), cs)
              else if nixGCDeferredBy (ge_marker env) cfg home \<noteq> None then ((result, True), cs)
              else case (if level = LevelCritical then collectGarbageCritical cfg env
                         else if level = LevelNone then (nix_result level, [])
                         else collectGarbage level [] cfg env) of
                     (g, gcs) \<Rightarrow>
                       ((result\<lparr>cr_BytesFreed := cr_BytesFreed result + cr_BytesFreed g,
                           cr_CommandBytesFreed := cr_CommandBytesFreed result + cr_CommandBytesFreed g,
                           cr_HostBytesFreed := cr_HostBytesFreed result + cr_HostBytesFreed g,
                           cr_ItemsCleaned := cr_ItemsCleaned result + cr_ItemsCleaned g,
                           cr_Error := cr_Error g\<rparr>, True), cs @ gcs))))"

definition runGC ::
    "cleanup_level \<Rightarrow> nix_config \<Rightarrow> gc_env \<Rightarrow> path \<Rightarrow> (cleanup_result \<times> bool) \<times> string list list" where
  "runGC level cfg env home =
     (if \<not> ge_lookPath env ''nix-collect-garbage'' then ((nix_result level, False), [])
      else if level < LevelModerate then after_preflight level cfg env home 0 (nix_result level)
      else case deleteUserGenerationsByPolicy level cfg env of (u, ucs) \<Rightarrow>
        (let result = (nix_result level)\<lparr>cr_ItemsCleaned := cr_ItemsCleaned u\<rparr>
         in if cr_Error u \<noteq> None then ((result\<lparr>cr_Error := cr_Error u\<rparr>, False), ucs)
            else case deleteHomeManagerGenerationsByPolicy level cfg env of (h, hcs) \<Rightarrow>
              (let deleted = cr_ItemsCleaned u + cr_ItemsCleaned h;
                   result = result\<lparr>cr_ItemsCleaned := deleted\<rparr>
               in if cr_Error h \<noteq> None then ((result\<lparr>cr_Error := cr_Error h\<rparr>, False), ucs @ hcs)
                  else case after_preflight level cfg env home deleted result of
                         (r, cs) \<Rightarrow> (r, ucs @ hcs @ cs))))"

subsection \<open>Deferral by active work\<close>

text \<open>The processes found busy, or the error of the inspection.\<close>

definition busyGate ::
    "nix_config \<Rightarrow> string + string list \<Rightarrow> instant \<Rightarrow> nix_gc_state \<Rightarrow> bool \<times> nix_gc_state" where
  "busyGate cfg inspection now st =
     (case inspection of
        Inl err \<Rightarrow>
          (if fst (nixBusyDeferralBound cfg st now) then (True, st)
           else (False, recordDeferral now (''process_inspection_failed: '' @ err) st))
      | Inr busy \<Rightarrow>
          (if busy = [] then (True, st)
           else if fst (nixBusyDeferralBound cfg st now) then (True, st)
           else (False, recordDeferral now (''active_nix_work: '' @ join_strings '', '' busy) st)))"

subsection \<open>One poll\<close>

record nix_plugin =
  np_memState :: nix_gc_state
  np_lastGCAttempt :: instant

record nix_world =
  nw_files :: gc_files
  nw_hooks :: hook_world

text \<open>
  \<open>pe_due_now\<close>, \<open>pe_gate_now\<close> and \<open>pe_end_now\<close> are the clock at the due decision, at a deferral
  and after the pass; \<open>pe_available\<close> and \<open>pe_still_available\<close> the two looks for
  \<open>nix-collect-garbage\<close> before the pass.
\<close>

record poll_env =
  pe_home :: path
  pe_hooks :: hook_env
  pe_read_fails :: bool
  pe_faults :: gc_faults
  pe_due_now :: instant
  pe_gate_now :: instant
  pe_end_now :: instant
  pe_available :: bool
  pe_still_available :: bool
  pe_marker :: "path \<Rightarrow> lstat_result"
  pe_lock :: lock_env
  pe_inspect :: "string + string list"
  pe_gc :: gc_env

text \<open>\<open>Blocked\<close>: deferred by a gate no bound bypasses, and whether that was logged at ERROR;
  \<open>Busy\<close>: deferred by the busy gate; \<open>Ran\<close>: a pass, and whether it counts as an attempt.\<close>

datatype poll_outcome = NotDue string | Blocked string bool | Busy | Ran bool

record nix_poll =
  po_result :: cleanup_result
  po_plugin :: nix_plugin
  po_world :: nix_world
  po_outcome :: poll_outcome
  po_commands :: "string list list"

text \<open>The state a poll decides on.\<close>

definition poll_state :: "nix_config \<Rightarrow> poll_env \<Rightarrow> nix_plugin \<Rightarrow> nix_world \<Rightarrow> nix_gc_state" where
  "poll_state cfg env p w =
     (let statePath = nixGCStatePath cfg (pe_home env);
          st = (if statePath = [] then np_memState p else loadNixGCState (pe_read_fails env) (nw_files w) statePath)
      in if gs_LastGCAttempt st < np_lastGCAttempt p then st\<lparr>gs_LastGCAttempt := np_lastGCAttempt p\<rparr> else st)"

definition save_poll_state ::
    "nix_config \<Rightarrow> poll_env \<Rightarrow> nix_gc_state \<Rightarrow> nix_plugin \<Rightarrow> nix_world \<Rightarrow> nix_plugin \<times> nix_world" where
  "save_poll_state cfg env st p w =
     (p\<lparr>np_memState := st\<rparr>,
      w\<lparr>nw_files := last (nw_files w # fst (saveNixGCState (pe_faults env) (nixGCStatePath cfg (pe_home env)) st (nw_files w)))\<rparr>)"

definition deferUnbypassable ::
    "nix_config \<Rightarrow> poll_env \<Rightarrow> cleanup_level \<Rightarrow> string \<Rightarrow> nix_gc_state \<Rightarrow> nix_plugin \<Rightarrow> nix_world \<Rightarrow> nix_poll" where
  "deferUnbypassable cfg env level reason st p w =
     (let now = pe_gate_now env; st = recordDeferral now reason st; (p, w) = save_poll_state cfg env st p w
      in \<lparr>po_result = nix_result level, po_plugin = p, po_world = w,
          po_outcome = Blocked reason (fst (nixBusyDeferralBound cfg st now)), po_commands = []\<rparr>)"

text \<open>The gates in order: the reason that blocks a due pass.\<close>

definition poll_blocked :: "nix_config \<Rightarrow> poll_env \<Rightarrow> string option \<Rightarrow> string option" where
  "poll_blocked cfg env pinErr =
     (if \<not> pe_available env then Some ''nix_unavailable''
      else if pinErr \<noteq> None \<and> nc_HookPinRequired cfg then Some ''hook_pins_unavailable''
      else case nixGCDeferredBy (pe_marker env) cfg (pe_home env) of
             Some marker \<Rightarrow> Some (''serialized_operation: '' @ marker)
           | None \<Rightarrow>
               (case nixAcquireGCLock (pe_lock env) cfg (pe_home env) of
                  Some LockHeld \<Rightarrow> Some ''gc_lock_held''
                | Some (LockUnusable e) \<Rightarrow> Some ''gc_lock_unusable''
                | None \<Rightarrow> None))"

definition run_pass ::
    "nix_config \<Rightarrow> poll_env \<Rightarrow> cleanup_level \<Rightarrow> cleanup_level \<Rightarrow> nix_gc_state \<Rightarrow> nix_plugin \<Rightarrow> nix_world \<Rightarrow> nix_poll" where
  "run_pass cfg env level gcLevel st p w =
     (case runGC gcLevel cfg (pe_gc env) (pe_home env) of ((r, attempted), cs) \<Rightarrow>
        (let st = recordAttempt (pe_end_now env) st;
             (p, w) = (if attempted
                       then save_poll_state cfg env st (p\<lparr>np_lastGCAttempt := gs_LastGCAttempt st\<rparr>) w else (p, w))
         in \<lparr>po_result = r\<lparr>cr_Level := level\<rparr>, po_plugin = p, po_world = w, po_outcome = Ran attempted, po_commands = cs\<rparr>))"

definition Cleanup :: "cleanup_level \<Rightarrow> nix_config \<Rightarrow> poll_env \<Rightarrow> nix_plugin \<Rightarrow> nix_world \<Rightarrow> nix_poll" where
  "Cleanup level cfg env p w =
     (case refreshHookPins (pe_hooks env) cfg (nw_hooks w) of (pinErr, hooks) \<Rightarrow>
        (let w = w\<lparr>nw_hooks := hooks\<rparr>;
             st = poll_state cfg env p w;
             (gcLevel, why) = nixGCDue level cfg st (pe_due_now env)
         in if gcLevel = LevelNone
            then \<lparr>po_result = nix_result level, po_plugin = p, po_world = w, po_outcome = NotDue why, po_commands = []\<rparr>
            else case poll_blocked cfg env pinErr of
              Some reason \<Rightarrow> deferUnbypassable cfg env level reason st p w
            | None \<Rightarrow>
                (let (proceed, st) = (if nc_SkipWhenDaemonBusy cfg \<and> pe_still_available env
                                      then busyGate cfg (pe_inspect env) (pe_gate_now env) st else (True, st))
                 in if \<not> proceed
                    then (let (p, w) = save_poll_state cfg env st p w
                          in \<lparr>po_result = nix_result level, po_plugin = p, po_world = w, po_outcome = Busy, po_commands = []\<rparr>)
                    else run_pass cfg env level gcLevel st p w)))"

end
