(* ===== verification/Nix_GC_Runs.thy ===== *)
theory Nix_GC_Runs
  imports Nix_GC
begin

text \<open>
  The properties of a poll and of a run of polls of the Nix plugin: passes are spaced, busy work
  defers a bounded number of passes, and what a poll may run.
\<close>

subsection \<open>Passes are spaced\<close>

definition gc_attempt ::
    "nix_config \<Rightarrow> cleanup_level \<times> poll_env \<Rightarrow> nix_plugin \<times> nix_world \<Rightarrow> (instant \<times> instant) option" where
  "gc_attempt cfg i s =
     (case i of (level, env) \<Rightarrow> case s of (p, w) \<Rightarrow>
        (if po_outcome (Cleanup level cfg env p w) = Ran True then Some (pe_due_now env, pe_end_now env) else None))"

definition gc_step :: "nix_config \<Rightarrow> cleanup_level \<times> poll_env \<Rightarrow> nix_plugin \<times> nix_world \<Rightarrow> nix_plugin \<times> nix_world" where
  "gc_step cfg i s =
     (case i of (level, env) \<Rightarrow> case s of (p, w) \<Rightarrow>
        (let r = Cleanup level cfg env p w in (po_plugin r, po_world r)))"

definition gc_gap :: "nix_config \<Rightarrow> duration" where
  "gc_gap cfg = parse_nix_policy_duration (nc_MinGCInterval cfg) nixDefaultMinGCInterval"

definition gc_mark :: "nix_plugin \<times> nix_world \<Rightarrow> instant option" where
  "gc_mark s = (if zero_time < np_lastGCAttempt (fst s) then Some (np_lastGCAttempt (fst s)) else None)"

text \<open>A clock that does not run backwards during a poll and shows a time after year 1.\<close>

definition clock_ok :: "cleanup_level \<times> poll_env \<Rightarrow> bool" where
  "clock_ok i = (pe_due_now (snd i) \<le> pe_end_now (snd i) \<and> zero_time < pe_end_now (snd i))"

lemma save_poll_plugin [simp]: "fst (save_poll_state cfg env st p w) = p\<lparr>np_memState := st\<rparr>"
  by (simp add: save_poll_state_def)

text \<open>The four ways a poll ends.\<close>

lemma Cleanup_cases:
  obtains (not_due) why where "nixGCDue level cfg (poll_state cfg env p w) (pe_due_now env) = (LevelNone, why)"
      "Cleanup level cfg env p w = \<lparr>po_result = nix_result level, po_plugin = p,
         po_world = w\<lparr>nw_hooks := snd (refreshHookPins (pe_hooks env) cfg (nw_hooks w))\<rparr>, po_outcome = NotDue why, po_commands = []\<rparr>"
  | (blocked) l why reason where "nixGCDue level cfg (poll_state cfg env p w) (pe_due_now env) = (l, why)" "l \<noteq> LevelNone"
      "poll_blocked cfg env (fst (refreshHookPins (pe_hooks env) cfg (nw_hooks w))) = Some reason"
      "Cleanup level cfg env p w = deferUnbypassable cfg env level reason (poll_state cfg env p w) p
         (w\<lparr>nw_hooks := snd (refreshHookPins (pe_hooks env) cfg (nw_hooks w))\<rparr>)"
  | (busy) l why st where "nixGCDue level cfg (poll_state cfg env p w) (pe_due_now env) = (l, why)" "l \<noteq> LevelNone"
      "poll_blocked cfg env (fst (refreshHookPins (pe_hooks env) cfg (nw_hooks w))) = None"
      "nc_SkipWhenDaemonBusy cfg"
      "busyGate cfg (pe_inspect env) (pe_gate_now env) (poll_state cfg env p w) = (False, st)"
      "po_outcome (Cleanup level cfg env p w) = Busy" "po_commands (Cleanup level cfg env p w) = []"
      "(po_plugin (Cleanup level cfg env p w), po_world (Cleanup level cfg env p w)) =
         save_poll_state cfg env st p (w\<lparr>nw_hooks := snd (refreshHookPins (pe_hooks env) cfg (nw_hooks w))\<rparr>)"
  | (ran) l why st where "nixGCDue level cfg (poll_state cfg env p w) (pe_due_now env) = (l, why)" "l \<noteq> LevelNone"
      "poll_blocked cfg env (fst (refreshHookPins (pe_hooks env) cfg (nw_hooks w))) = None"
      "st = poll_state cfg env p w"
      "Cleanup level cfg env p w = run_pass cfg env level l st p
         (w\<lparr>nw_hooks := snd (refreshHookPins (pe_hooks env) cfg (nw_hooks w))\<rparr>)"
      "\<not> (nc_SkipWhenDaemonBusy cfg \<and> pe_still_available env) \<or> fst (busyGate cfg (pe_inspect env) (pe_gate_now env) st)"
proof -
  let ?st = "poll_state cfg env p w"
  obtain pinErr hk where hooks: "refreshHookPins (pe_hooks env) cfg (nw_hooks w) = (pinErr, hk)" by fastforce
  have stw: "poll_state cfg env p (w\<lparr>nw_hooks := hk\<rparr>) = ?st" by (simp add: poll_state_def Let_def cong: if_cong)
  obtain l why where due: "nixGCDue level cfg ?st (pe_due_now env) = (l, why)" by fastforce
  note C = Cleanup_def [of level cfg env p w, unfolded hooks prod.case Let_def stw due]
  show thesis
  proof (cases "l = LevelNone")
    case True
    show thesis by (rule not_due [of why]) (use due True hooks in \<open>simp_all add: C\<close>)
  next
    case l: False
    show thesis
    proof (cases "poll_blocked cfg env pinErr")
      case (Some reason)
      show thesis by (rule blocked [of l why reason]) (use due l Some hooks in \<open>simp_all add: C\<close>)
    next
      case None
      obtain proceed st where gate: "(if nc_SkipWhenDaemonBusy cfg \<and> pe_still_available env
          then busyGate cfg (pe_inspect env) (pe_gate_now env) ?st else (True, ?st)) = (proceed, st)" by fastforce
      show thesis
      proof (cases proceed)
        case True
        then have "st = ?st" using gate by (auto simp: busyGate_def split: if_splits sum.splits)
        show thesis
          by (rule ran [of l why st])
            (use due l None hooks gate True \<open>st = ?st\<close> in \<open>auto simp: C split: if_splits\<close>)
      next
        case False
        show thesis
          by (rule busy [of l why st])
            (use due l None hooks gate False in \<open>simp_all add: C split_beta prod_eq_iff split: if_splits\<close>)
      qed
    qed
  qed
qed

lemma poll_state_last: "np_lastGCAttempt p \<le> gs_LastGCAttempt (poll_state cfg env p w)"
  by (auto simp: poll_state_def Let_def not_less)

lemma run_pass_outcome:
  "po_outcome (run_pass cfg env level l st p w) = Ran a \<longleftrightarrow> snd (fst (runGC l cfg (pe_gc env) (pe_home env))) = a"
  by (auto simp: run_pass_def Let_def split: prod.splits)

lemma run_pass_last:
  "np_lastGCAttempt (po_plugin (run_pass cfg env level l st p w)) =
     (if snd (fst (runGC l cfg (pe_gc env) (pe_home env))) then pe_end_now env else np_lastGCAttempt p)"
  by (auto simp: run_pass_def save_poll_state_def Let_def split: prod.splits)

lemma blocked_simps [simp]:
  "po_commands (deferUnbypassable cfg env level reason st p w) = []"
  "po_outcome (deferUnbypassable cfg env level reason st p w) \<noteq> Ran a"
  "po_outcome (deferUnbypassable cfg env level reason st p w) \<noteq> Busy"
  "np_lastGCAttempt (po_plugin (deferUnbypassable cfg env level reason st p w)) = np_lastGCAttempt p"
  by (simp_all add: deferUnbypassable_def save_poll_state_def Let_def)

lemma attempted_pass:
  assumes "po_outcome (Cleanup level cfg env p w) = Ran True"
  obtains l why where "nixGCDue level cfg (poll_state cfg env p w) (pe_due_now env) = (l, why)" "l \<noteq> LevelNone"
    "np_lastGCAttempt (po_plugin (Cleanup level cfg env p w)) = pe_end_now env"
  by (cases rule: Cleanup_cases [of level cfg env p w])
    (use assms that in \<open>auto simp: run_pass_outcome run_pass_last\<close>)

lemma no_attempt:
  assumes "po_outcome (Cleanup level cfg env p w) \<noteq> Ran True"
  shows "np_lastGCAttempt (po_plugin (Cleanup level cfg env p w)) = np_lastGCAttempt p"
proof (cases rule: Cleanup_cases [of level cfg env p w])
  case (busy l why st)
  from arg_cong [OF busy(8), of fst] show ?thesis by simp
next
  case (ran l why st)
  with assms show ?thesis by (simp add: run_pass_outcome run_pass_last)
qed simp_all

interpretation gc_rate: rate_limited "\<lambda>i. clock_ok i \<and> 0 < gc_gap cfg" "gc_gap cfg" gc_mark "gc_attempt cfg" "gc_step cfg"
  for cfg :: nix_config
proof
  fix i :: "cleanup_level \<times> poll_env" and s :: "nix_plugin \<times> nix_world" and b e m
  obtain level env p w where i: "i = (level, env)" and s: "s = (p, w)" by (metis prod.collapse)
  assume ok: "clock_ok i \<and> 0 < gc_gap cfg" and a: "gc_attempt cfg i s = Some (b, e)"
  then have at: "po_outcome (Cleanup level cfg env p w) = Ran True" "b = pe_due_now env" "e = pe_end_now env"
    by (auto simp: gc_attempt_def i s split: if_splits)
  obtain l why where due: "nixGCDue level cfg (poll_state cfg env p w) (pe_due_now env) = (l, why)" "l \<noteq> LevelNone"
    and stamp: "np_lastGCAttempt (po_plugin (Cleanup level cfg env p w)) = pe_end_now env"
    by (rule attempted_pass [OF at(1)])
  show "b \<le> e \<and> gc_mark (gc_step cfg i s) = Some e"
    using ok stamp at(2,3) by (simp add: clock_ok_def gc_mark_def gc_step_def Let_def i s)
  assume "gc_mark s = Some m"
  then have m: "m = np_lastGCAttempt p" "zero_time < m" by (auto simp: gc_mark_def s split: if_splits)
  with poll_state_last [of p cfg env w] have le: "m \<le> gs_LastGCAttempt (poll_state cfg env p w)" by simp
  with m(2) have "gs_LastGCAttempt (poll_state cfg env p w) \<noteq> zero_time" by linarith
  from due_spaced [OF due gc_gap_def [symmetric] _ this] ok le at(2) show "m + gc_gap cfg \<le> b" by simp
next
  fix i :: "cleanup_level \<times> poll_env" and s :: "nix_plugin \<times> nix_world"
  assume "gc_attempt cfg i s = None"
  then show "gc_mark (gc_step cfg i s) = gc_mark s"
    using no_attempt by (auto simp: gc_attempt_def gc_mark_def gc_step_def Let_def split: prod.splits if_splits)
qed

text \<open>C12: two Nix passes are never closer than \<open>min_gc_interval\<close>: over any run of polls, at any level and whatever the state file holds or however its reads and writes fail, a pass that counts starts at least that interval after the end of every earlier one.\<close>

theorem nix_passes_spaced:
  assumes "list_all clock_ok ps" "gc_gap cfg = gap" "0 < gap"
  shows "sorted_wrt (\<lambda>(b, e) (b', e'). e + gap \<le> b') (run_attempts (gc_attempt cfg) (gc_step cfg) ps s)"
  using gc_rate.attempts_spaced [of cfg ps s] assms by (simp add: list_all_iff)

subsection \<open>Busy work defers a bounded number of passes\<close>

fun poll_outcomes :: "nix_config \<Rightarrow> (cleanup_level \<times> poll_env) list \<Rightarrow> nix_plugin \<times> nix_world \<Rightarrow> poll_outcome list" where
  "poll_outcomes cfg [] s = []"
| "poll_outcomes cfg (i # is) s =
     po_outcome (Cleanup (fst i) cfg (snd i) (fst s) (snd s)) # poll_outcomes cfg is (gc_step cfg i s)"

text \<open>The state that survives to the next poll, and polls in which it does.\<close>

definition stored_state :: "nix_config \<Rightarrow> path \<Rightarrow> nix_plugin \<times> nix_world \<Rightarrow> nix_gc_state" where
  "stored_state cfg home s =
     (if nixGCStatePath cfg home = [] then np_memState (fst s)
      else loadNixGCState False (nw_files (snd s)) (nixGCStatePath cfg home))"

definition persistent :: "nix_config \<Rightarrow> path \<Rightarrow> cleanup_level \<times> poll_env \<Rightarrow> bool" where
  "persistent cfg home i =
     (pe_home (snd i) = home \<and>
      (nixGCStatePath cfg home = [] \<or>
       \<not> pe_read_fails (snd i) \<and> gf_mkdir (pe_faults (snd i)) = None \<and> gf_marshal (pe_faults (snd i)) = None \<and>
       gf_write (pe_faults (snd i)) = None \<and> gf_rename (pe_faults (snd i)) = None))"

lemma poll_state_deferred:
  assumes "persistent cfg home (level, env)"
  shows "gs_DeferredPasses (poll_state cfg env p w) = gs_DeferredPasses (stored_state cfg home (p, w))"
  using assms by (auto simp: persistent_def poll_state_def stored_state_def Let_def)

lemma saved_stored:
  assumes "persistent cfg home (level, env)"
  shows "stored_state cfg home (save_poll_state cfg env st p w) = st"
proof (cases "nixGCStatePath cfg home = []")
  case False
  with assms have "snd (saveNixGCState (pe_faults env) (nixGCStatePath cfg home) st (nw_files w)) = None"
    by (simp add: persistent_def saveNixGCState_def first_fault_def Let_def)
  from load_after_save [OF False this] False assms show ?thesis
    by (simp add: stored_state_def save_poll_state_def persistent_def)
qed (simp add: stored_state_def)

lemma stored_other:
  "stored_state cfg home (p, w\<lparr>nw_hooks := h\<rparr>) = stored_state cfg home (p, w)"
  by (simp add: stored_state_def)

text \<open>What one poll does to the count of deferred passes.\<close>

lemma step_deferred:
  assumes "persistent cfg home (level, env)" "0 < nc_MaxBusyDeferrals cfg"
  shows "case po_outcome (Cleanup level cfg env p w) of
      NotDue why \<Rightarrow> gs_DeferredPasses (stored_state cfg home (gc_step cfg (level, env) (p, w))) =
        gs_DeferredPasses (stored_state cfg home (p, w))
    | Blocked reason e \<Rightarrow> gs_DeferredPasses (stored_state cfg home (gc_step cfg (level, env) (p, w))) =
        wrap64 (gs_DeferredPasses (stored_state cfg home (p, w)) + 1)
    | Busy \<Rightarrow> gs_DeferredPasses (stored_state cfg home (p, w)) < nc_MaxBusyDeferrals cfg \<and>
        gs_DeferredPasses (stored_state cfg home (gc_step cfg (level, env) (p, w))) =
        wrap64 (gs_DeferredPasses (stored_state cfg home (p, w)) + 1)
    | Ran attempted \<Rightarrow> \<not> attempted \<longrightarrow> gs_DeferredPasses (stored_state cfg home (gc_step cfg (level, env) (p, w))) =
        gs_DeferredPasses (stored_state cfg home (p, w))"
proof (cases rule: Cleanup_cases [of level cfg env p w])
  case (not_due why)
  then show ?thesis by (simp add: gc_step_def Let_def stored_other)
next
  case (blocked l why reason)
  let ?w = "w\<lparr>nw_hooks := snd (refreshHookPins (pe_hooks env) cfg (nw_hooks w))\<rparr>"
    and ?st = "recordDeferral (pe_gate_now env) reason (poll_state cfg env p w)"
  have "(po_plugin (Cleanup level cfg env p w), po_world (Cleanup level cfg env p w)) = save_poll_state cfg env ?st p ?w"
    "po_outcome (Cleanup level cfg env p w) = Blocked reason (fst (nixBusyDeferralBound cfg ?st (pe_gate_now env)))"
    unfolding blocked(4) by (simp_all add: deferUnbypassable_def Let_def split_beta prod_eq_iff)
  then show ?thesis
    using saved_stored [OF assms(1)] poll_state_deferred [OF assms(1)] by (simp add: gc_step_def Let_def)
next
  case (busy l why st)
  then have "st = recordDeferral (pe_gate_now env) (gs_LastDeferral st) (poll_state cfg env p w) \<and>
      \<not> fst (nixBusyDeferralBound cfg (poll_state cfg env p w) (pe_gate_now env))"
    by (auto simp: busyGate_def recordDeferral_def Let_def split: sum.splits if_splits)
  moreover from this busy_bound_released [OF assms(2)] have "gs_DeferredPasses (poll_state cfg env p w) < nc_MaxBusyDeferrals cfg"
    by (meson not_le)
  ultimately show ?thesis
    using busy(6,8) saved_stored [OF assms(1)] poll_state_deferred [OF assms(1), of p w]
    by (simp add: gc_step_def Let_def) (metis recordDeferral_simps(2))
next
  case (ran l why st)
  then show ?thesis
    by (auto simp: gc_step_def run_pass_def Let_def stored_other split: prod.splits)
qed

definition busy_count :: "poll_outcome list \<Rightarrow> int" where
  "busy_count os = int (length (filter (\<lambda>o1. o1 = Busy) os))"

lemma busy_count_simps [simp]:
  "busy_count [] = 0" "busy_count (x # os) = (if x = Busy then 1 else 0) + busy_count os" "0 \<le> busy_count os"
  by (simp_all add: busy_count_def)

text \<open>C13: no process can hold the store's collection off indefinitely: in any run of polls without an attempted pass, in which the GC state persists from poll to poll, active Nix work or a failing inspection defers at most \<open>max_busy_deferrals\<close> due passes, less the deferrals (of any cause) already counted.\<close>

theorem busy_deferrals_bounded:
  assumes "0 < nc_MaxBusyDeferrals cfg" "list_all (persistent cfg home) ps"
    and "0 \<le> gs_DeferredPasses (stored_state cfg home s)"
    and "gs_DeferredPasses (stored_state cfg home s) + int (length ps) \<le> max_i64"
    and "Ran True \<notin> set (poll_outcomes cfg ps s)"
  shows "busy_count (poll_outcomes cfg ps s) \<le> max 0 (nc_MaxBusyDeferrals cfg - gs_DeferredPasses (stored_state cfg home s))"
  using assms(2-)
proof (induction ps arbitrary: s)
  case (Cons i ps)
  obtain level env p w where i: "i = (level, env)" and s: "s = (p, w)" by (metis prod.collapse)
  let ?d = "gs_DeferredPasses (stored_state cfg home s)" and ?d' = "gs_DeferredPasses (stored_state cfg home (gc_step cfg i s))"
  let ?o = "po_outcome (Cleanup level cfg env p w)"
  have wrap: "wrap64 (?d + 1) = ?d + 1" using Cons.prems(2,3) by (simp add: min_i64_def)
  have ps: "persistent cfg home (level, env)" using Cons.prems(1) i by simp
  have nr: "?o \<noteq> Ran True" "Ran True \<notin> set (poll_outcomes cfg ps (gc_step cfg i s))" using Cons.prems(4) by (auto simp: i s)
  have step: "?d' = ?d \<and> ?o \<noteq> Busy \<or> ?d' = ?d + 1 \<and> (?o = Busy \<longrightarrow> ?d < nc_MaxBusyDeferrals cfg)"
    using step_deferred [OF ps assms(1), of p w] wrap nr(1) by (cases ?o) (auto simp: i s)
  then have "busy_count (poll_outcomes cfg ps (gc_step cfg i s)) \<le> max 0 (nc_MaxBusyDeferrals cfg - ?d')"
    using Cons.prems(1-3) nr(2) by (intro Cons.IH) auto
  with step show ?case by (auto simp: i s)
qed simp

subsection \<open>What a pass may run\<close>

text \<open>The generations the retention policy selects for deletion, of those the pass lists: the output of
  \<open>nix-env --list-generations\<close>, and the Home Manager profile links.\<close>

definition user_selection :: "cleanup_level \<Rightarrow> nix_config \<Rightarrow> gc_env \<Rightarrow> string list option" where
  "user_selection level cfg env =
     (case listGenerations (ge_parse_local env) (\<lambda>args. ge_run env (''nix-env'' # args)) ''user'' [] of
        Inl err \<Rightarrow> None
      | Inr gens \<Rightarrow>
          Some (delete_numbers (nixGenerationTargetsWithMax gens (ge_now env) (nc_MinUserGenerations cfg)
            (parse_nix_policy_duration (nixGenerationPolicyAge level cfg) 0) (nc_MaxUserGenerations cfg))))"

definition home_selection :: "cleanup_level \<Rightarrow> nix_config \<Rightarrow> gc_env \<Rightarrow> string list option" where
  "home_selection level cfg env =
     (case discoverNixProfileLinkGenerations (ge_read_dir env) (ge_readlink env) (ge_modified env)
             (join_path [home_or_empty (ge_home env), ''.local'', ''state'', ''nix'', ''profiles'']) ''home-manager'' ''home-manager'' of
        Inl err \<Rightarrow> None
      | Inr gens \<Rightarrow>
          Some (delete_numbers (nixGenerationTargetsWithMax gens (ge_now env) (nixMinHomeManagerGenerations cfg)
            (parse_nix_policy_duration (nixHomeManagerGenerationPolicyAge level cfg) 0) (nc_MaxHomeManagerGenerations cfg))))"

text \<open>The commands of a pass at a level, from the most to the least destructive.\<close>

definition allowed_command :: "cleanup_level \<Rightarrow> nix_config \<Rightarrow> gc_env \<Rightarrow> path \<Rightarrow> string list \<Rightarrow> bool" where
  "allowed_command level cfg env home c =
     ((\<exists>numbers. c = [''nix-env'', ''--delete-generations''] @ numbers \<and> LevelModerate \<le> level \<and>
         numbers \<noteq> [] \<and> user_selection level cfg env = Some numbers) \<or>
      (\<exists>numbers. c = [''home-manager'', ''remove-generations''] @ numbers \<and> LevelModerate \<le> level \<and>
         nc_DeleteHomeManagerGenerations cfg \<and> numbers \<noteq> [] \<and> home_selection level cfg env = Some numbers) \<or>
      (c = ''nix-collect-garbage'' # nixMaxFreedArgs cfg \<and> nixGCDeferredBy (ge_marker env) cfg home = None) \<or>
      (c = [''nix-store'', ''--optimize''] \<and> level = LevelCritical \<and> nc_AllowStoreOptimize cfg \<and>
         nixGCDeferredBy (ge_marker env) cfg home = None) \<or>
      c = [''nix-env'', ''--list-generations''] \<or>
      c = [''nix-collect-garbage'', ''--dry-run''])"

lemma collect_commands: "snd (collectGarbage level [] cfg env) = [''nix-collect-garbage'' # nixMaxFreedArgs cfg]"
  by (simp add: collectGarbage_def Let_def split: prod.splits option.splits)

lemma critical_commands:
  "c \<in> set (snd (collectGarbageCritical cfg env)) \<Longrightarrow>
    c = ''nix-collect-garbage'' # nixMaxFreedArgs cfg \<or> (c = [''nix-store'', ''--optimize''] \<and> nc_AllowStoreOptimize cfg)"
  using collect_commands [of LevelCritical cfg env]
  by (auto simp: collectGarbageCritical_def Let_def split: prod.splits option.splits if_splits)

lemma preflight_commands:
  assumes "c \<in> set (snd (after_preflight level cfg env home deleted result))"
  shows "allowed_command level cfg env home c"
proof -
  from assms consider "c = [''nix-collect-garbage'', ''--dry-run'']"
    | "nixGCDeferredBy (ge_marker env) cfg home = None"
      "c \<in> set (snd (if level = LevelCritical then collectGarbageCritical cfg env
         else if level = LevelNone then (nix_result level, []) else collectGarbage level [] cfg env))"
    by (auto simp: after_preflight_def collectGarbageDryRun_def Let_def split: prod.splits option.splits if_splits)
  then show ?thesis
  proof cases
    case 2
    then show ?thesis
      using critical_commands [of c cfg env] collect_commands [of level cfg env]
      by (auto simp: allowed_command_def split: if_splits)
  qed (simp add: allowed_command_def)
qed

lemma deletion_commands:
  "c \<in> set (snd (run_deletion command cfg env level numbers)) \<Longrightarrow> c = command @ numbers \<and> numbers \<noteq> []"
  by (auto simp: run_deletion_def Let_def split: prod.splits option.splits if_splits)

lemma user_deletion_commands:
  assumes "c \<in> set (snd (deleteUserGenerationsByPolicy level cfg env))" "LevelModerate \<le> level"
  shows "allowed_command level cfg env home c"
proof -
  from assms(1) consider "c = [''nix-env'', ''--list-generations'']"
    | numbers where "c = [''nix-env'', ''--delete-generations''] @ numbers" "numbers \<noteq> []"
        "user_selection level cfg env = Some numbers"
    by (auto simp: deleteUserGenerationsByPolicy_def user_selection_def Let_def split_beta dest!: deletion_commands
        split: sum.splits if_splits)
  then show ?thesis
    by cases (use assms(2) in \<open>auto simp: allowed_command_def\<close>)
qed

lemma home_deletion_commands:
  assumes "c \<in> set (snd (deleteHomeManagerGenerationsByPolicy level cfg env))" "LevelModerate \<le> level"
  shows "allowed_command level cfg env home c"
proof -
  from assms(1) obtain numbers where "c = [''home-manager'', ''remove-generations''] @ numbers" "numbers \<noteq> []"
    "home_selection level cfg env = Some numbers" "nc_DeleteHomeManagerGenerations cfg"
    by (auto simp: deleteHomeManagerGenerationsByPolicy_def home_selection_def Let_def dest!: deletion_commands
        split: sum.splits if_splits)
  then show ?thesis using assms(2) by (auto simp: allowed_command_def)
qed

lemma pass_commands:
  assumes "c \<in> set (snd (runGC level cfg env home))"
  shows "allowed_command level cfg env home c"
proof (cases "level < LevelModerate")
  case True
  with assms show ?thesis by (auto simp: runGC_def intro: preflight_commands split: if_splits)
next
  case False
  with assms show ?thesis
    using user_deletion_commands [of c level cfg env home] home_deletion_commands [of c level cfg env home] preflight_commands [of c level cfg env home]
    by (auto simp: runGC_def Let_def not_less split_beta split: if_splits)
qed

lemma poll_commands:
  assumes "c \<in> set (po_commands (Cleanup level cfg env p w))"
  obtains l why where "nixGCDue level cfg (poll_state cfg env p w) (pe_due_now env) = (l, why)" "l \<noteq> LevelNone"
    "poll_blocked cfg env (fst (refreshHookPins (pe_hooks env) cfg (nw_hooks w))) = None"
    "allowed_command l cfg (pe_gc env) (pe_home env) c"
proof (cases rule: Cleanup_cases [of level cfg env p w])
  case (ran l why st)
  then have "c \<in> set (snd (runGC l cfg (pe_gc env) (pe_home env)))"
    using assms by (simp add: run_pass_def Let_def split: prod.splits)
  from that [OF ran(1-3) pass_commands [OF this]] show ?thesis .
qed (use assms in simp_all)

lemma unblocked:
  "poll_blocked cfg env pinErr = None \<longleftrightarrow>
     pe_available env \<and> (pinErr \<noteq> None \<longrightarrow> \<not> nc_HookPinRequired cfg) \<and>
     nixGCDeferredBy (pe_marker env) cfg (pe_home env) = None \<and> nixAcquireGCLock (pe_lock env) cfg (pe_home env) = None"
  by (auto simp: poll_blocked_def split: option.splits lock_error.splits)

text \<open>C14: a poll runs a command only behind every gate: the pass is due, \<open>nix-collect-garbage\<close> is there, the hook pins are established where they are required, no serialization marker exists and the lock is held; a collection or store optimization runs only if no marker appeared after the preflight and a collection always carries the configured bound; generations are deleted only from moderate level on, and then exactly those the retention policy selects from the generations this pass lists, with the age limit of its level (Home Manager's only when enabled), and the store is optimized only at critical level when allowed.\<close>

theorem nix_commands_guarded:
  "\<forall>c \<in> set (po_commands (Cleanup level cfg env p w)).
     (let l = fst (nixGCDue level cfg (poll_state cfg env p w) (pe_due_now env))
      in l \<noteq> LevelNone \<and> pe_available env \<and>
         (nc_HookPinRequired cfg \<longrightarrow> fst (refreshHookPins (pe_hooks env) cfg (nw_hooks w)) = None) \<and>
         nixGCDeferredBy (pe_marker env) cfg (pe_home env) = None \<and>
         nixAcquireGCLock (pe_lock env) cfg (pe_home env) = None \<and>
         allowed_command l cfg (pe_gc env) (pe_home env) c)"
proof
  fix c
  assume "c \<in> set (po_commands (Cleanup level cfg env p w))"
  then obtain l why where "nixGCDue level cfg (poll_state cfg env p w) (pe_due_now env) = (l, why)" "l \<noteq> LevelNone"
    "poll_blocked cfg env (fst (refreshHookPins (pe_hooks env) cfg (nw_hooks w))) = None"
    "allowed_command l cfg (pe_gc env) (pe_home env) c" by (rule poll_commands)
  then show "let l = fst (nixGCDue level cfg (poll_state cfg env p w) (pe_due_now env))
      in l \<noteq> LevelNone \<and> pe_available env \<and>
         (nc_HookPinRequired cfg \<longrightarrow> fst (refreshHookPins (pe_hooks env) cfg (nw_hooks w)) = None) \<and>
         nixGCDeferredBy (pe_marker env) cfg (pe_home env) = None \<and>
         nixAcquireGCLock (pe_lock env) cfg (pe_home env) = None \<and>
         allowed_command l cfg (pe_gc env) (pe_home env) c"
    by (auto simp: unblocked Let_def)
qed

subsection \<open>A concrete plugin\<close>

text \<open>A host on which every command succeeds silently, polled at a given time.\<close>

definition demo_gc_env :: gc_env where
  "demo_gc_env =
     \<lparr>ge_now = 1000 * hour, ge_home = Some ''/h'', ge_lookPath = (\<lambda>_. True), ge_run = (\<lambda>_. ([], None)),
      ge_parse_local = (\<lambda>_. None), ge_read_dir = (\<lambda>_. DirMissing), ge_readlink = (\<lambda>_. None),
      ge_modified = (\<lambda>_. Inl ''gone''), ge_marker = (\<lambda>_. LstatAbsent), ge_exists = (\<lambda>_. True),
      ge_free = (\<lambda>n _. Some (if n = 0 then 5 else 9)), ge_darwin = False\<rparr>"

definition demo_poll :: "instant \<Rightarrow> string list \<Rightarrow> string option \<Rightarrow> cleanup_level \<times> poll_env" where
  "demo_poll now busy mkdir =
     (LevelWarning,
      \<lparr>pe_home = ''/h'', pe_hooks = demo_hook_env now False [], pe_read_fails = False,
       pe_faults = \<lparr>gf_mkdir = mkdir, gf_marshal = None, gf_write = None, gf_rename = None, gf_partial = False\<rparr>,
       pe_due_now = now, pe_gate_now = now, pe_end_now = now + second, pe_available = True, pe_still_available = True,
       pe_marker = (\<lambda>_. LstatAbsent),
       pe_lock = \<lparr>le_mkdir = None, le_open = None, le_stat = None, le_regular = True, le_owned = True, le_private = True, le_flock = FlockTaken\<rparr>,
       pe_inspect = Inr busy, pe_gc = demo_gc_env\<rparr>)"

definition demo_start :: "nix_plugin \<times> nix_world" where
  "demo_start =
     (\<lparr>np_memState = zero_gc_state, np_lastGCAttempt = zero_time\<rparr>,
      \<lparr>nw_files = (\<lambda>_. None), nw_hooks = demo_hook_world\<rparr>)"

definition demo_memory_config :: nix_config where
  "demo_memory_config = demo_nix_config\<lparr>nc_HookPinFiles := [], nc_GCStateFile := [], nc_MinGCInterval := [],
     nc_PeriodicGCInterval := [], nc_MaxBusyDeferralDuration := []\<rparr>"

theorem nix_passes_spaced_witness:
  "length (run_attempts (gc_attempt demo_memory_config) (gc_step demo_memory_config)
       [demo_poll 0 [] None, demo_poll (10 * minute) [] None, demo_poll (40 * minute) [] None] demo_start) = 2 \<and>
   sorted_wrt (\<lambda>(b, e) (b', e'). e + 30 * minute \<le> b')
     (run_attempts (gc_attempt demo_memory_config) (gc_step demo_memory_config)
       [demo_poll 0 [] None, demo_poll (10 * minute) [] None, demo_poll (40 * minute) [] None] demo_start)"
proof
  show "length (run_attempts (gc_attempt demo_memory_config) (gc_step demo_memory_config)
       [demo_poll 0 [] None, demo_poll (10 * minute) [] None, demo_poll (40 * minute) [] None] demo_start) = 2"
    by code_simp
  show "sorted_wrt (\<lambda>(b, e) (b', e'). e + 30 * minute \<le> b')
     (run_attempts (gc_attempt demo_memory_config) (gc_step demo_memory_config)
       [demo_poll 0 [] None, demo_poll (10 * minute) [] None, demo_poll (40 * minute) [] None] demo_start)"
  proof (rule nix_passes_spaced)
    show "gc_gap demo_memory_config = 30 * minute" by code_simp
    show "(0 :: int) < 30 * minute" by code_simp
    show "list_all clock_ok [demo_poll 0 [] None, demo_poll (10 * minute) [] None, demo_poll (40 * minute) [] None]" by code_simp
  qed
qed

theorem busy_deferrals_bounded_witness:
  "busy_count (poll_outcomes demo_memory_config
       [demo_poll 0 [''nix build''] None, demo_poll minute [''nix build''] None] demo_start) \<le> 2"
proof -
  have "busy_count (poll_outcomes demo_memory_config
       [demo_poll 0 [''nix build''] None, demo_poll minute [''nix build''] None] demo_start)
    \<le> max 0 (nc_MaxBusyDeferrals demo_memory_config - gs_DeferredPasses (stored_state demo_memory_config ''/h'' demo_start))"
  proof (rule busy_deferrals_bounded)
    show "0 < nc_MaxBusyDeferrals demo_memory_config" by code_simp
    show "list_all (persistent demo_memory_config ''/h'') [demo_poll 0 [''nix build''] None, demo_poll minute [''nix build''] None]"
      by code_simp
    show "0 \<le> gs_DeferredPasses (stored_state demo_memory_config ''/h'' demo_start)" by code_simp
    show "gs_DeferredPasses (stored_state demo_memory_config ''/h'' demo_start) +
        int (length [demo_poll 0 [''nix build''] None, demo_poll minute [''nix build''] None]) \<le> max_i64"
      by code_simp
    show "Ran True \<notin> set (poll_outcomes demo_memory_config
       [demo_poll 0 [''nix build''] None, demo_poll minute [''nix build''] None] demo_start)"
      by code_simp
  qed
  moreover have "nc_MaxBusyDeferrals demo_memory_config = 2" "gs_DeferredPasses (stored_state demo_memory_config ''/h'' demo_start) = 0"
    by code_simp+
  ultimately show ?thesis by simp
qed

theorem nix_commands_guarded_witness:
  "allowed_command LevelWarning demo_memory_config demo_gc_env ''/h'' [''nix-collect-garbage'', ''--max-freed'', ''53687091200'']"
proof -
  let ?e = "snd (demo_poll 0 [] None)"
  have c: "[''nix-collect-garbage'', ''--max-freed'', ''53687091200'']
      \<in> set (po_commands (Cleanup LevelWarning demo_memory_config ?e (fst demo_start) (snd demo_start)))" by code_simp
  have l: "fst (nixGCDue LevelWarning demo_memory_config (poll_state demo_memory_config ?e (fst demo_start) (snd demo_start)) (pe_due_now ?e)) = LevelWarning"
    by code_simp
  have e: "pe_gc ?e = demo_gc_env" "pe_home ?e = ''/h''" by (simp_all add: demo_poll_def)
  from bspec [OF nix_commands_guarded c] show ?thesis by (simp add: l e)
qed

text \<open>A poll that cannot save its state and finds Nix busy, or cannot look.\<close>

definition unsaved_busy :: "path \<Rightarrow> cleanup_level \<times> poll_env \<Rightarrow> bool" where
  "unsaved_busy home i =
     (pe_home (snd i) = home \<and> gf_mkdir (pe_faults (snd i)) \<noteq> None \<and> pe_still_available (snd i) \<and> pe_inspect (snd i) \<noteq> Inr [])"

text \<open>The poll is due, and meets no gate before the busy gate.\<close>

definition due_poll :: "nix_config \<Rightarrow> nix_plugin \<Rightarrow> nix_world \<Rightarrow> cleanup_level \<times> poll_env \<Rightarrow> bool" where
  "due_poll cfg p w i =
     (fst (nixGCDue (fst i) cfg (poll_state cfg (snd i) p w) (pe_due_now (snd i))) \<noteq> LevelNone
      \<and> poll_blocked cfg (snd i) None = None)"

text \<open>Busy, or without the hook pins that the configuration requires.\<close>

definition held_off :: "nix_config \<Rightarrow> poll_outcome \<Rightarrow> bool" where
  "held_off cfg outcome =
     (outcome = Busy \<or> nc_HookPinRequired cfg \<and> (\<exists>logged. outcome = Blocked ''hook_pins_unavailable'' logged))"

lemma unsaved_files:
  assumes "nixGCStatePath cfg (pe_home env) \<noteq> []" "gf_mkdir (pe_faults env) \<noteq> None"
  shows "nw_files (snd (save_poll_state cfg env st p w)) = nw_files w"
  using assms by (auto simp: save_poll_state_def saveNixGCState_def first_fault_def)

lemma poll_state_cong:
  assumes "nixGCStatePath cfg (pe_home env) \<noteq> []" "np_lastGCAttempt p' = np_lastGCAttempt p" "nw_files w' = nw_files w"
  shows "poll_state cfg env p' w' = poll_state cfg env p w"
  using assms by (simp add: poll_state_def Let_def)

lemma poll_state_uncounted:
  assumes "nixGCStatePath cfg (pe_home env) \<noteq> []"
    and "gs_DeferredPasses (loadNixGCState False (nw_files w) (nixGCStatePath cfg (pe_home env))) \<le> 0"
  shows "gs_DeferredPasses (poll_state cfg env p w) \<le> 0"
  using assms by (auto simp: poll_state_def Let_def loadNixGCState_def zero_gc_state_def)

lemma gate_shut:
  assumes "gs_DeferredPasses st \<le> 0" "inspection \<noteq> Inr []"
  shows "\<not> fst (busyGate cfg inspection now st)"
  using assms by (auto simp: busyGate_def nixBusyDeferralBound_def Let_def split: sum.splits)

lemma unsaved_poll:
  assumes "nixGCStatePath cfg home \<noteq> []" "nc_SkipWhenDaemonBusy cfg" "unsaved_busy home (level, env)"
    and "gs_DeferredPasses (loadNixGCState False (nw_files w) (nixGCStatePath cfg home)) \<le> 0"
  shows "po_outcome (Cleanup level cfg env p w) \<noteq> Ran a
    \<and> (due_poll cfg p w (level, env) \<longrightarrow> held_off cfg (po_outcome (Cleanup level cfg env p w)))
    \<and> np_lastGCAttempt (po_plugin (Cleanup level cfg env p w)) = np_lastGCAttempt p
    \<and> nw_files (po_world (Cleanup level cfg env p w)) = nw_files w"
proof -
  have home: "pe_home env = home" and env: "gf_mkdir (pe_faults env) \<noteq> None" "pe_still_available env" "pe_inspect env \<noteq> Inr []"
    using assms(3) by (simp_all add: unsaved_busy_def)
  have shut: "\<not> fst (busyGate cfg (pe_inspect env) (pe_gate_now env) (poll_state cfg env p w))"
    by (rule gate_shut [OF poll_state_uncounted env(3)]) (use assms(1,4) home in simp_all)
  show ?thesis
  proof (cases rule: Cleanup_cases [of level cfg env p w])
    case (not_due why)
    then show ?thesis by (simp add: due_poll_def)
  next
    case (blocked l why reason)
    have "held_off cfg (po_outcome (Cleanup level cfg env p w))" if "due_poll cfg p w (level, env)"
    proof -
      have "poll_blocked cfg env None = None" using that by (simp add: due_poll_def)
      with blocked(3) have "nc_HookPinRequired cfg" "reason = ''hook_pins_unavailable''"
        by (simp_all add: poll_blocked_def split: if_splits)
      then show ?thesis unfolding blocked(4) held_off_def by (simp add: deferUnbypassable_def Let_def split_beta)
    qed
    moreover have "nw_files (po_world (Cleanup level cfg env p w)) = nw_files w"
      unfolding blocked(4) deferUnbypassable_def Let_def split_beta using unsaved_files [of cfg env] assms(1) home env(1) by simp
    ultimately show ?thesis unfolding blocked(4) by simp
  next
    case (busy l why st)
    have "np_lastGCAttempt (po_plugin (Cleanup level cfg env p w)) = np_lastGCAttempt p"
      "nw_files (po_world (Cleanup level cfg env p w)) = nw_files w"
      using arg_cong [OF busy(8), of fst] arg_cong [OF busy(8), of snd] unsaved_files [of cfg env] assms(1) home env(1) by simp_all
    with busy(6) show ?thesis by (simp add: held_off_def)
  next
    case (ran l why st)
    with shut assms(2) env(2) show ?thesis by auto
  qed
qed

text \<open>C22: the bound on busy deferrals depends on a writable state file.  When a state file is configured but its directory cannot be made, and the state on disk counts no deferral yet, each poll starts again from that state.  So no pass ever runs, over any number of polls at any times and levels, as long as polls skip when the daemon is busy, \<open>nix-collect-garbage\<close> is there when the gate looks, and each poll finds Nix busy (or cannot inspect the processes); each poll that is due and meets no other gate is deferred as busy (or for hook pins, where they are required and not established), whatever \<open>max_busy_deferrals\<close> and \<open>max_busy_deferral_duration\<close> say.\<close>

theorem deferrals_lost_without_state_file:
  assumes "nixGCStatePath cfg home \<noteq> []" "nc_SkipWhenDaemonBusy cfg" "list_all (unsaved_busy home) polls"
    and "gs_DeferredPasses (loadNixGCState False (nw_files w) (nixGCStatePath cfg home)) \<le> 0"
  shows "list_all2 (\<lambda>i outcome. (\<forall>attempted. outcome \<noteq> Ran attempted)
      \<and> (due_poll cfg p w i \<longrightarrow> held_off cfg outcome)) polls (poll_outcomes cfg polls (p, w))"
proof -
  have "list_all2 (\<lambda>i outcome. (\<forall>attempted. outcome \<noteq> Ran attempted)
      \<and> (due_poll cfg p w i \<longrightarrow> held_off cfg outcome)) polls (poll_outcomes cfg polls (p', w'))"
    if "np_lastGCAttempt p' = np_lastGCAttempt p" "nw_files w' = nw_files w" for p' w'
    using assms(3) that
  proof (induction polls arbitrary: p' w')
    case (Cons i polls)
    obtain level env where i: "i = (level, env)" by force
    have busy: "unsaved_busy home (level, env)" using Cons.prems(1) i by simp
    note poll = unsaved_poll [OF assms(1,2) busy, of w' p', unfolded Cons.prems(3), OF assms(4)]
    have "due_poll cfg p' w' (level, env) = due_poll cfg p w (level, env)"
      using poll_state_cong [of cfg env p' p w' w] assms(1) busy Cons.prems(2,3) by (simp add: due_poll_def unsaved_busy_def)
    moreover have "list_all2 (\<lambda>i outcome. (\<forall>attempted. outcome \<noteq> Ran attempted)
        \<and> (due_poll cfg p w i \<longrightarrow> held_off cfg outcome)) polls
        (poll_outcomes cfg polls (po_plugin (Cleanup level cfg env p' w'), po_world (Cleanup level cfg env p' w')))"
      by (rule Cons.IH) (use Cons.prems poll in simp_all)
    ultimately show ?case using poll by (simp add: i gc_step_def Let_def)
  qed simp
  then show ?thesis by simp
qed

theorem deferrals_lost_without_state_file_witness:
  "poll_outcomes (demo_memory_config\<lparr>nc_GCStateFile := ''/s/g'', nc_HookPinRequired := False\<rparr>)
     (map (\<lambda>n. demo_poll (int n * hour) [''nix build''] (Some ''read-only file system'')) [0..<1000]) demo_start = replicate 1000 Busy"
proof -
  let ?c = "demo_memory_config\<lparr>nc_GCStateFile := ''/s/g'', nc_HookPinRequired := False\<rparr>"
  let ?poll = "\<lambda>n. demo_poll (int n * hour) [''nix build''] (Some ''read-only file system'')"
  have p: "nixGCStatePath ?c ''/h'' \<noteq> []" by code_simp
  have r: "\<not> nc_HookPinRequired ?c" "nc_SkipWhenDaemonBusy ?c" by code_simp+
  have st: "poll_state ?c (snd (?poll n)) (fst demo_start) (snd demo_start) = zero_gc_state" for n
    using p by (simp add: poll_state_def demo_poll_def demo_start_def loadNixGCState_def Let_def zero_gc_state_def)
  have due: "due_poll ?c (fst demo_start) (snd demo_start) (?poll n)" for n
  proof -
    have "poll_blocked ?c (snd (?poll 0)) None = None" by code_simp
    moreover have "pe_available (snd (?poll n)) = pe_available (snd (?poll 0))" "pe_marker (snd (?poll n)) = pe_marker (snd (?poll 0))"
      "pe_home (snd (?poll n)) = pe_home (snd (?poll 0))" "pe_lock (snd (?poll n)) = pe_lock (snd (?poll 0))"
      by (simp_all add: demo_poll_def)
    then have "poll_blocked ?c (snd (?poll n)) None = poll_blocked ?c (snd (?poll 0)) None"
      by (simp only: poll_blocked_def)
    ultimately have "poll_blocked ?c (snd (?poll n)) None = None" by (rule trans [rotated])
    moreover have "fst (nixGCDue LevelWarning ?c zero_gc_state now) \<noteq> LevelNone" for now
      by (simp add: nixGCDue_def zero_gc_state_def Let_def)
    ultimately show ?thesis unfolding due_poll_def st by (simp add: demo_poll_def)
  qed
  have "list_all2 (\<lambda>i outcome. (\<forall>attempted. outcome \<noteq> Ran attempted)
      \<and> (due_poll ?c (fst demo_start) (snd demo_start) i \<longrightarrow> held_off ?c outcome))
      (map ?poll [0..<1000]) (poll_outcomes ?c (map ?poll [0..<1000]) (fst demo_start, snd demo_start))"
    by (rule deferrals_lost_without_state_file [OF p r(2)])
      (use p in \<open>simp_all add: list_all_iff unsaved_busy_def demo_poll_def demo_start_def loadNixGCState_def zero_gc_state_def\<close>)
  then have all: "\<forall>n<1000. poll_outcomes ?c (map ?poll [0..<1000]) demo_start ! n = Busy"
    and len: "length (poll_outcomes ?c (map ?poll [0..<1000]) demo_start) = 1000"
    using due r(1) by (auto simp: list_all2_conv_all_nth held_off_def)
  show ?thesis by (rule nth_equalityI) (use all len in simp_all)
qed

end
