(* ===== verification/Globs.thy ===== *)
theory Globs
  imports Paths "HOL-Library.Char_ord" "HOL-Library.List_Lexorder"
begin

text \<open>
  The parts of \<open>path/filepath\<close> that match and relate paths: \<open>Match\<close> (byte by byte; the names matched hold
  no separator), \<open>Rel\<close>, the directories above a path, and the lexical containment tests built on them.
\<close>

subsection \<open>\<open>filepath.Match\<close> and \<open>filepath.Rel\<close>\<close>

text \<open>One character of a class, \<open>getEsc\<close>; something must follow it.\<close>

fun get_esc :: "string \<Rightarrow> (char \<times> string) option" where
  "get_esc [] = None"
| "get_esc (c # s) =
     (if c = CHR ''-'' \<or> c = CHR '']'' \<or> s = [] then None
      else if c = CHR 0x5C then (if tl s = [] then None else Some (hd s, tl s))
      else Some (c, s))"

lemma get_esc_length: "get_esc s = Some (c, r) \<Longrightarrow> length r < length s"
  by (cases s) (auto split: if_splits simp: length_tl)

text \<open>The ranges of a class up to its bracket, at least one.\<close>

function class_ranges :: "string \<Rightarrow> (char \<times> char) list \<Rightarrow> ((char \<times> char) list \<times> string) option" where
  "class_ranges s acc =
     (if s \<noteq> [] \<and> hd s = CHR '']'' \<and> acc \<noteq> [] then Some (acc, tl s)
      else (case get_esc s of
              None \<Rightarrow> None
            | Some (lo, r) \<Rightarrow>
                (if hd r = CHR ''-''
                 then (case get_esc (tl r) of None \<Rightarrow> None | Some (hi, r2) \<Rightarrow> class_ranges r2 ((lo, hi) # acc))
                 else class_ranges r ((lo, lo) # acc))))"
  by pat_completeness auto
termination
  by (relation "measure (\<lambda>(s, acc). length s)") (auto dest!: get_esc_length simp: length_tl)

declare class_ranges.simps [simp del]

lemma class_ranges_length: "class_ranges s acc = Some (rs, r) \<Longrightarrow> length r < length s"
proof (induction s acc rule: class_ranges.induct)
  case (1 s acc)
  show ?case
  proof (cases "s \<noteq> [] \<and> hd s = CHR '']'' \<and> acc \<noteq> []")
    case True
    with "1.prems" show ?thesis by (subst (asm) class_ranges.simps) (auto simp: length_tl)
  next
    case False
    with "1.prems" obtain lo r1 where esc: "get_esc s = Some (lo, r1)"
      by (subst (asm) class_ranges.simps) (auto split: option.splits)
    have "length r < length r1"
    proof (cases "hd r1 = CHR ''-''")
      case True
      with "1.prems" False esc obtain hi r2 where "get_esc (tl r1) = Some (hi, r2)" "class_ranges r2 ((lo, hi) # acc) = Some (rs, r)"
        by (subst (asm) class_ranges.simps) (auto split: option.splits)
      with "1.IH"(1) [OF False esc refl True this(1) refl] get_esc_length [OF this(1)] show ?thesis by simp
    next
      case c: False
      with "1.prems" False esc have "class_ranges r1 ((lo, lo) # acc) = Some (rs, r)"
        by (subst (asm) class_ranges.simps) auto
      with "1.IH"(2) [OF False esc refl c] show ?thesis by simp
    qed
    with get_esc_length [OF esc] show ?thesis by simp
  qed
qed

text \<open>A malformed pattern matches nothing.\<close>

function glob_match :: "string \<Rightarrow> string \<Rightarrow> bool" where
  "glob_match [] name = (name = [])"
| "glob_match (c # p) [] = (c = CHR ''*'' \<and> glob_match p [])"
| "glob_match (c # p) (n # name) =
     (if c = CHR ''*'' then glob_match p (n # name) \<or> (if n = CHR ''/'' then False else glob_match (c # p) name)
      else if c = CHR ''?'' then (if n = CHR ''/'' then False else glob_match p name)
      else if c = CHR ''[''
      then (let negated = (p \<noteq> [] \<and> hd p = CHR ''^'')
            in case class_ranges (if negated then tl p else p) [] of
                 None \<Rightarrow> False
               | Some (rs, r) \<Rightarrow>
                   (if list_ex (\<lambda>(lo, hi). lo \<le> n \<and> n \<le> hi) rs = negated then False else glob_match r name))
      else if c = CHR 0x5C
      then (case p of [] \<Rightarrow> False | e # p \<Rightarrow> (if e = n then glob_match p name else False))
      else if c = n then glob_match p name else False)"
  by pat_completeness auto
termination
proof (relation "measure (\<lambda>(p, name). length p + length name)", goal_cases)
  case (6 c p n name negated x rs r)
  then have "length r < length (if negated then tl p else p)" by (auto dest!: class_ranges_length)
  then have "length r < length p" by (auto simp: length_tl split: if_splits)
  then show ?case by simp
qed (auto simp: length_tl)

declare glob_match.simps(2,3) [simp del]

text \<open>\<open>filepath.Rel\<close> between absolute paths.\<close>

fun strip_common :: "string list \<Rightarrow> string list \<Rightarrow> string list \<times> string list" where
  "strip_common (b # bs) (t # ts) = (if b = t then strip_common bs ts else (b # bs, t # ts))"
| "strip_common bs ts = (bs, ts)"

definition path_rel :: "path \<Rightarrow> path \<Rightarrow> path" where
  "path_rel base target =
     (case strip_common (clean_elements base) (clean_elements target) of
        (bs, ts) \<Rightarrow> (let es = replicate (length bs) ''..'' @ ts in if es = [] then ''.'' else join_strings ''/'' es))"

subsection \<open>The directories above a path\<close>

text \<open>\<open>filepath.Dir\<close> again and again: the cleaned path first, the root (or \<open>.\<close>) last.\<close>

definition path_up :: "path \<Rightarrow> nat \<Rightarrow> path" where
  "path_up p n =
     (let es = take n (clean_elements p)
      in if is_abs p then ''/'' @ join_strings ''/'' es else if es = [] then ''.'' else join_strings ''/'' es)"

definition path_ups :: "path \<Rightarrow> path list" where
  "path_ups p = map (path_up p) (rev [0 ..< Suc (length (clean_elements p))])"

text \<open>Lexical containment, for cleaned absolute paths: \<open>bbUnder\<close> of \<open>agentsession.go\<close> and
  \<open>pathInsideRoot\<close> of \<open>bazel.go\<close>.\<close>

definition bbUnder :: "path \<Rightarrow> path \<Rightarrow> bool" where
  "bbUnder p rt = (p = rt \<or> rt = ''/'' \<or> prefix rt p \<and> length rt < length p \<and> p ! length rt = CHR ''/'')"

definition pathInsideRoot :: "path \<Rightarrow> path \<Rightarrow> bool" where
  "pathInsideRoot p rt =
     (let rel = path_rel rt p
      in is_abs p = is_abs rt \<and> (rel = ''.'' \<or> rel \<noteq> ''..'' \<and> \<not> prefix ''../'' rel))"

text \<open>A cleaned absolute path is given by its elements; containment is the prefix order on them.\<close>

definition clean_abs :: "path \<Rightarrow> bool" where "clean_abs p = (is_abs p \<and> clean_path p = p)"

lemma clean_abs_text: "clean_abs p \<Longrightarrow> p = ''/'' @ join_strings ''/'' (clean_elements p)"
  by (metis clean_abs_def clean_path_abs)

lemma clean_abs_plain: "clean_abs p \<Longrightarrow> list_all plain_element (clean_elements p)"
  by (simp add: clean_abs_def clean_elements_plain)

lemma clean_abs_of: "list_all plain_element xs \<Longrightarrow> clean_abs (''/'' @ join_strings ''/'' xs)"
  using clean_path_joined by (simp add: clean_abs_def is_abs_def)

lemma clean_abs_clean: "is_abs p \<Longrightarrow> clean_abs (clean_path p)"
  by (simp add: clean_abs_def is_abs_clean clean_path_idem)

lemma clean_abs_inject: "clean_abs p \<Longrightarrow> clean_abs q \<Longrightarrow> clean_elements p = clean_elements q \<Longrightarrow> p = q"
  using clean_abs_text by metis

lemma path_ups_iff:
  assumes "is_abs p"
  shows "q \<in> set (path_ups p) \<longleftrightarrow> clean_abs q \<and> prefix (clean_elements q) (clean_elements p)"
proof
  assume "q \<in> set (path_ups p)"
  then obtain n where q: "q = ''/'' @ join_strings ''/'' (take n (clean_elements p))"
    using assms that [of "length (clean_elements p)"] by (auto simp: path_ups_def path_up_def)
  have plain: "list_all plain_element (take n (clean_elements p))"
    using clean_elements_plain [OF assms] by (metis append_take_drop_id list_all_append)
  show "clean_abs q \<and> prefix (clean_elements q) (clean_elements p)"
    unfolding q clean_elements_joined [OF plain] using clean_abs_of [OF plain] by (simp add: take_is_prefix)
next
  assume q: "clean_abs q \<and> prefix (clean_elements q) (clean_elements p)"
  then obtain n where n: "clean_elements q = take n (clean_elements p)" "n \<le> length (clean_elements p)"
    by (metis append_eq_conv_conj length_append le_add1 prefix_def)
  then have "q = path_up p n" using q assms clean_abs_text [of q] by (simp add: path_up_def)
  moreover have "n \<in> {0 ..< Suc (length (clean_elements p))}" using n(2) by simp
  ultimately show "q \<in> set (path_ups p)" by (simp only: path_ups_def set_map set_rev set_upt) blast
qed

lemma strip_common_iff: "fst (strip_common bs ts) = [] \<longleftrightarrow> prefix bs ts"
  by (induction bs ts rule: strip_common.induct) auto

lemma strip_common_suffix: "suffix (snd (strip_common bs ts)) ts"
  by (induction bs ts rule: strip_common.induct) (auto intro: suffix_ConsI)

lemma join_first: "join_strings ''/'' (x # xs) = x \<or> prefix (x @ ''/'') (join_strings ''/'' (x # xs))"
  by (cases xs) auto

lemma element_text:
  assumes "plain_element x"
  shows "x \<noteq> ''..''" "\<not> prefix ''../'' x" "\<not> prefix ''../'' (x @ CHR ''/'' # z)"
proof -
  have "CHR ''/'' \<notin> set x" "x \<noteq> ''..''" using assms by (auto simp: plain_element_def proper_element_def)
  then show "x \<noteq> ''..''" "\<not> prefix ''../'' x" "\<not> prefix ''../'' (x @ CHR ''/'' # z)"
    by (auto simp: prefix_def append_eq_Cons_conv)
qed

lemma pathInsideRoot_iff:
  assumes "is_abs p" "is_abs rt"
  shows "pathInsideRoot p rt \<longleftrightarrow> prefix (clean_elements rt) (clean_elements p)"
proof -
  obtain bs ts where st: "strip_common (clean_elements rt) (clean_elements p) = (bs, ts)" by fastforce
  have ts: "list_all plain_element ts"
    using strip_common_suffix [of "clean_elements rt" "clean_elements p"] clean_elements_plain [OF assms(1)] st
    by (auto simp: list_all_iff dest: set_mono_suffix)
  show ?thesis
  proof (cases bs)
    case Nil
    have "rel \<noteq> ''..'' \<and> \<not> prefix ''../'' rel" if rel: "rel = join_strings ''/'' ts" "ts \<noteq> []" for rel
    proof -
      obtain x xs where x: "ts = x # xs" "plain_element x" using rel(2) ts by (cases ts) auto
      then consider "rel = x" | z where "rel = x @ CHR ''/'' # z" using join_first [of x xs] rel(1) by (auto simp: prefix_def)
      then show ?thesis
      proof cases
        case 2
        moreover have "CHR ''/'' \<notin> set ''..''" by simp
        ultimately show ?thesis using element_text(3) [OF x(2)] by (metis in_set_conv_decomp)
      qed (use element_text [OF x(2)] in auto)
    qed
    with Nil st strip_common_iff [of "clean_elements rt" "clean_elements p"] assms show ?thesis
      by (auto simp: pathInsideRoot_def path_rel_def Let_def)
  next
    case (Cons b bs')
    then have up: "path_rel rt p = ''..'' \<or> prefix ''../'' (path_rel rt p)"
      using st join_first [of "''..''" "replicate (length bs') ''..'' @ ts"] by (simp add: path_rel_def Let_def)
    then have "path_rel rt p \<noteq> ''.''" by auto
    with up show ?thesis
      using Cons st strip_common_iff [of "clean_elements rt" "clean_elements p"] by (auto simp: pathInsideRoot_def Let_def)
  qed
qed

lemma join_append:
  "ys \<noteq> [] \<Longrightarrow> zs \<noteq> [] \<Longrightarrow> join_strings sep (ys @ zs) = join_strings sep ys @ sep @ join_strings sep zs"
proof (induction sep ys rule: join_strings.induct)
  case (2 sep x)
  then show ?case by (cases zs) auto
qed auto

lemma bbUnder_iff:
  assumes "clean_abs p" "clean_abs rt"
  shows "bbUnder p rt \<longleftrightarrow> prefix (clean_elements rt) (clean_elements p)"
proof -
  let ?xs = "clean_elements p" and ?ys = "clean_elements rt"
  have px: "list_all plain_element ?xs" and py: "list_all plain_element ?ys" using assms by (simp_all add: clean_abs_plain)
  have shape: "p = ''/'' @ join_strings ''/'' ?xs" "rt = ''/'' @ join_strings ''/'' ?ys" using assms clean_abs_text by auto
  have split: "split_on CHR ''/'' p = [] # (if ?xs = [] then [[]] else ?xs)" "split_on CHR ''/'' rt = [] # (if ?ys = [] then [[]] else ?ys)"
    using split_on_rooted [OF px] split_on_rooted [OF py] shape by metis+
  show ?thesis
  proof
    assume under: "bbUnder p rt"
    show "prefix ?ys ?xs"
    proof (cases "p = rt \<or> rt = ''/''")
      case True
      then show ?thesis using clean_elements_joined [of "[]"] by auto
    next
      case False
      with under have "prefix rt p" "length rt < length p" "p ! length rt = CHR ''/''" by (auto simp: bbUnder_def)
      then obtain r where r: "p = rt @ CHR ''/'' # r"
        by (metis Cons_nth_drop_Suc append_eq_conv_conj prefix_def)
      then have "split_on CHR ''/'' p = split_on CHR ''/'' rt @ split_on CHR ''/'' r" by (simp add: split_on_append)
      moreover have "?ys \<noteq> []" using False shape(2) by auto
      ultimately have "(if ?xs = [] then [[]] else ?xs) = ?ys @ split_on CHR ''/'' r" using split by simp
      then show ?thesis using split_on_nonempty [of "CHR ''/''" r] \<open>?ys \<noteq> []\<close>
        by (cases "?xs = []") (simp add: Cons_eq_append_conv, metis prefix_def)
    qed
  next
    assume "prefix ?ys ?xs"
    then obtain zs where zs: "?xs = ?ys @ zs" by (auto simp: prefix_def)
    show "bbUnder p rt"
    proof (cases "?ys = [] \<or> zs = []")
      case True
      with zs shape show ?thesis by (auto simp: bbUnder_def)
    next
      case False
      with join_append [of ?ys zs "''/''"] zs shape have "p = rt @ ''/'' @ join_strings ''/'' zs" by simp
      then show ?thesis by (simp add: bbUnder_def nth_append)
    qed
  qed
qed

end
