(* ===== verification/GC_Roots.thy ===== *)
theory GC_Roots
  imports Nix_Cadence Globs
begin

text \<open>
  Stale indirect GC roots, \<open>plugins/nix_gcroots.go\<close>: the classification of the auto roots and the
  candidate list the daemon publishes for the root job.  The file system is what \<open>Lstat\<close> answers
  at a path, the same for every call of one collection; \<open>resolve\<close> is \<open>filepath.EvalSymlinks\<close>.
\<close>

subsection \<open>What a path is\<close>

record inode =
  in_symlink :: bool
  in_regular :: bool
  in_uid :: int
  in_mtime :: instant
  in_dest :: path

datatype lookup = Missing | Unreadable string | Found inode

type_synonym filesystem = "path \<Rightarrow> lookup"

definition lstat :: "filesystem \<Rightarrow> path \<Rightarrow> inode option" where
  "lstat fs p = (case fs p of Found i \<Rightarrow> Some i | _ \<Rightarrow> None)"

lemma lstat_iff: "lstat fs p = Some i \<longleftrightarrow> fs p = Found i"
  by (simp add: lstat_def split: lookup.splits)

definition read_link :: "filesystem \<Rightarrow> path \<Rightarrow> path option" where
  "read_link fs p = (case fs p of Found i \<Rightarrow> (if in_symlink i then Some (in_dest i) else None) | _ \<Rightarrow> None)"

subsection \<open>Classes of links\<close>

definition nixDefaultDirenvRootStaleAfter :: duration where "nixDefaultDirenvRootStaleAfter = 7 * 24 * hour"
definition nixDefaultTempGCRootStaleAfter :: duration where "nixDefaultTempGCRootStaleAfter = 72 * hour"

definition path_elements :: "path \<Rightarrow> string list" where "path_elements p = split_on CHR ''/'' p"

definition nixGCRootIsProtected :: "path \<Rightarrow> bool" where
  "nixGCRootIsProtected link =
     (has_suffix link ''/bazel-support/nix-out-link'' \<or>
      list_ex (\<lambda>e. e = ''gcroots'' \<or> e = ''profiles'') (path_elements (path_dir link)))"

definition nixDirenvRootDir :: "path \<Rightarrow> path option" where
  "nixDirenvRootDir link =
     (let parent = path_dir link; base = path_base link
      in if path_base parent = ''.direnv'' \<and> (prefix ''flake-profile-'' base \<or> prefix ''nix-profile-'' base)
         then (if has_suffix base ''.rc'' then None else Some parent)
         else if path_base parent = ''flake-inputs'' \<and> path_base (path_dir parent) = ''.direnv''
         then Some (path_dir parent) else None)"

text \<open>The link as written and through its resolved parent.\<close>

definition link_candidates :: "(path \<Rightarrow> path option) \<Rightarrow> path \<Rightarrow> path list" where
  "link_candidates resolve link =
     link # (case resolve (path_dir link) of None \<Rightarrow> [] | Some d \<Rightarrow> [join_path [d, path_base link]])"

definition nixTempDirOf :: "(path \<Rightarrow> path option) \<Rightarrow> path \<Rightarrow> path list \<Rightarrow> path option" where
  "nixTempDirOf resolve link dirs =
     (case [d. c \<leftarrow> link_candidates resolve link, d \<leftarrow> dirs, prefix (d @ ''/'') c] of [] \<Rightarrow> None | d # _ \<Rightarrow> Some d)"

definition nixStaleGCRootTempDirs :: "(path \<Rightarrow> path option) \<Rightarrow> path \<Rightarrow> path list \<Rightarrow> path list \<Rightarrow> path list" where
  "nixStaleGCRootTempDirs resolve home tempPaths scanPaths =
     (let raw = (if tempPaths = [] then scanPaths else tempPaths);
          add = (\<lambda>p dirs. let p = clean_path p in if p = ''/'' \<or> p = ''.'' \<or> p \<in> set dirs then dirs else dirs @ [p])
      in foldl (\<lambda>dirs p. let p = trim_space p
                         in if p = [] then dirs
                            else let p = expandHome p home
                                 in if \<not> is_abs p then dirs
                                    else let dirs = add p dirs
                                         in case resolve p of None \<Rightarrow> dirs | Some q \<Rightarrow> add q dirs) [] raw)"

subsection \<open>The reaper\<close>

record reaper =
  gr_autoDir :: path
  gr_storeDir :: path
  gr_uid :: int
  gr_agentPrefixes :: "string list"
  gr_agentIdle :: duration
  gr_liveCwds :: "(string + path list) option"
  gr_now :: instant

record stale_root =
  sr_AutoLink :: path
  sr_Link :: path
  sr_StorePath :: path
  sr_Class :: string
  sr_Stale :: bool
  sr_Reason :: string

text \<open>The store path an owned out-link selects, and its modification time.\<close>

definition ownedStoreLink :: "filesystem \<Rightarrow> reaper \<Rightarrow> path \<Rightarrow> (path \<times> instant) option" where
  "ownedStoreLink fs r link =
     (case lstat fs link of
        None \<Rightarrow> None
      | Some i \<Rightarrow>
          (if \<not> in_symlink i \<or> in_uid i \<noteq> gr_uid r then None
           else let dest = clean_path (in_dest i)
                in if path_dir dest \<noteq> clean_path (gr_storeDir r) then None else Some (dest, in_mtime i)))"

definition agentTreeOf :: "(path \<Rightarrow> path option) \<Rightarrow> reaper \<Rightarrow> path \<Rightarrow> path \<Rightarrow> path" where
  "agentTreeOf resolve r link tempDir =
     (case [join_path [tempDir, entry].
              c \<leftarrow> link_candidates resolve link,
              entry \<leftarrow> (let rel = path_rel tempDir c in if prefix ''..'' rel then [] else [hd (split_on CHR ''/'' rel)]),
              pattern \<leftarrow> gr_agentPrefixes r, glob_match pattern entry] of
        [] \<Rightarrow> [] | t # _ \<Rightarrow> t)"

text \<open>Whether a live process works in the tree, and why that is thought.\<close>

definition treeIsLive :: "reaper \<Rightarrow> path \<Rightarrow> bool \<times> string" where
  "treeIsLive r tree =
     (case gr_liveCwds r of
        None \<Rightarrow> (True, ''no process inspection'')
      | Some (Inl err) \<Rightarrow> (True, ''process inspection failed: '' @ err)
      | Some (Inr cwds) \<Rightarrow>
          (case filter (\<lambda>cwd. cwd = tree \<or> prefix (tree @ ''/'') cwd) cwds of
             [] \<Rightarrow> (False, [])
           | cwd # _ \<Rightarrow> (True, ''a live process has its working directory at '' @ cwd)))"

fun vcs_marker :: "filesystem \<Rightarrow> path \<Rightarrow> string list \<Rightarrow> (string + path) option" where
  "vcs_marker fs dir [] = None"
| "vcs_marker fs dir (m # ms) =
     (case fs (join_path [dir, m]) of
        Found i \<Rightarrow> Some (Inr dir)
      | Unreadable err \<Rightarrow> Some (Inl (''cannot check '' @ join_path [dir, m] @ '': '' @ err))
      | Missing \<Rightarrow> vcs_marker fs dir ms)"

fun first_vcs :: "filesystem \<Rightarrow> path list \<Rightarrow> string + path" where
  "first_vcs fs [] = Inr []"
| "first_vcs fs (d # ds) =
     (case vcs_marker fs d [''.git'', ''.jj''] of Some r \<Rightarrow> r | None \<Rightarrow> first_vcs fs ds)"

definition nixFindVCSRoot :: "filesystem \<Rightarrow> path \<Rightarrow> string + path" where
  "nixFindVCSRoot fs dir = first_vcs fs (path_ups dir)"

text \<open>An auto root whose out-link is considered.\<close>

record owned_root =
  or_auto :: path
  or_link :: path
  or_store :: path
  or_mtime :: instant

definition registered_link :: "filesystem \<Rightarrow> path \<Rightarrow> path option" where
  "registered_link fs auto =
     (case read_link fs auto of None \<Rightarrow> None | Some raw \<Rightarrow> if is_abs raw then Some (clean_path raw) else None)"

definition owned_root_at :: "filesystem \<Rightarrow> reaper \<Rightarrow> path \<Rightarrow> path \<Rightarrow> owned_root option" where
  "owned_root_at fs r auto link =
     (case ownedStoreLink fs r link of
        None \<Rightarrow> None
      | Some (store, mtime) \<Rightarrow>
          (if nixGCRootIsProtected link then None
           else Some \<lparr>or_auto = auto, or_link = link, or_store = store, or_mtime = mtime\<rparr>))"

fun owned_roots :: "filesystem \<Rightarrow> reaper \<Rightarrow> string list \<Rightarrow> path list \<Rightarrow> owned_root list" where
  "owned_roots fs r [] seen = []"
| "owned_roots fs r (name # names) seen =
     (let auto = join_path [gr_autoDir r, name]
      in case registered_link fs auto of
           None \<Rightarrow> owned_roots fs r names seen
         | Some link \<Rightarrow>
             (if link \<in> set seen then owned_roots fs r names seen
              else (case owned_root_at fs r auto link of None \<Rightarrow> [] | Some l \<Rightarrow> [l]) @ owned_roots fs r names (link # seen)))"

definition age_text :: "duration \<Rightarrow> string" where "age_text age = show_duration (duration_round age minute)"

definition temporary_root ::
    "(path \<Rightarrow> path option) \<Rightarrow> reaper \<Rightarrow> duration \<Rightarrow> path \<Rightarrow> owned_root \<Rightarrow> stale_root" where
  "temporary_root resolve r tempStaleAfter tempDir l =
     (let age = time_sub (gr_now r) (or_mtime l);
          tree = agentTreeOf resolve r (or_link l) tempDir;
          threshold = (if tree \<noteq> [] \<and> tempStaleAfter < gr_agentIdle r then gr_agentIdle r else tempStaleAfter);
          (stale, reason) =
            (if age < threshold
             then (False, ''temporary out-link changed '' @ age_text age @ '' ago, inside '' @ show_duration threshold)
             else if tree \<noteq> []
             then (case treeIsLive r tree of
                     (True, why) \<Rightarrow> (False, ''agent-session tree '' @ tree @ '' is live: '' @ why)
                   | (False, _) \<Rightarrow> (True, ''agent-session out-link idle for '' @ age_text age @ '' (threshold '' @
                       show_duration threshold @ '') and no live process in '' @ tree))
             else (True, ''temporary out-link unchanged for '' @ age_text age @ '' (threshold '' @ show_duration threshold @ '')''))
      in \<lparr>sr_AutoLink = or_auto l, sr_Link = or_link l, sr_StorePath = or_store l, sr_Class = ''temporary_root'',
          sr_Stale = stale, sr_Reason = reason\<rparr>)"

definition newest_mtime :: "owned_root list \<Rightarrow> instant \<Rightarrow> instant" where
  "newest_mtime links z = fold (\<lambda>l newest. if newest < or_mtime l then or_mtime l else newest) links z"

definition direnv_verdict :: "filesystem \<Rightarrow> reaper \<Rightarrow> duration \<Rightarrow> path \<Rightarrow> owned_root list \<Rightarrow> bool \<times> string" where
  "direnv_verdict fs r direnvStaleAfter direnvDir links =
     (let newest = newest_mtime links zero_time;
          checkout = path_dir direnvDir;
          age = time_sub (gr_now r) newest;
          head = ''nix-direnv roots for '' @ checkout
      in case nixFindVCSRoot fs checkout of
           Inl err \<Rightarrow> (False, head @ '' kept: '' @ err)
         | Inr vcs \<Rightarrow>
             (if age < direnvStaleAfter
              then (False, head @ '' loaded '' @ age_text age @ '' ago, inside '' @ show_duration direnvStaleAfter)
              else (True, head @ (if vcs = [] then '' (no .git or .jj above it)'' else '' (checkout '' @ vcs @ '')'') @
                     '' last loaded '' @ age_text age @ '' ago (threshold '' @ show_duration direnvStaleAfter @ '')'')))"

definition direnv_roots :: "filesystem \<Rightarrow> reaper \<Rightarrow> duration \<Rightarrow> path \<Rightarrow> owned_root list \<Rightarrow> stale_root list" where
  "direnv_roots fs r direnvStaleAfter direnvDir links =
     (let (stale, reason) = direnv_verdict fs r direnvStaleAfter direnvDir links
      in map (\<lambda>l. \<lparr>sr_AutoLink = or_auto l, sr_Link = or_link l, sr_StorePath = or_store l, sr_Class = ''direnv_root'',
                   sr_Stale = stale, sr_Reason = reason\<rparr>) links)"

text \<open>The collection; \<open>entries\<close> is what \<open>os.ReadDir\<close> of the auto directory gives.\<close>

definition collect ::
    "filesystem \<Rightarrow> (path \<Rightarrow> path option) \<Rightarrow> reaper \<Rightarrow> string + string list \<Rightarrow> path list \<Rightarrow> duration \<Rightarrow> duration \<Rightarrow>
      string + stale_root list" where
  "collect fs resolve r entries tempDirs direnvStaleAfter tempStaleAfter =
     (case entries of
        Inl err \<Rightarrow> Inl err
      | Inr names \<Rightarrow>
          (let owned = owned_roots fs r names [];
               direnvs = filter (\<lambda>l. nixDirenvRootDir (or_link l) \<noteq> None) owned;
               others = filter (\<lambda>l. nixDirenvRootDir (or_link l) = None) owned;
               temporary = List.map_filter
                 (\<lambda>l. map_option (\<lambda>d. temporary_root resolve r tempStaleAfter d l) (nixTempDirOf resolve (or_link l) tempDirs)) others;
               dirs = sort (remdups (map (\<lambda>l. the (nixDirenvRootDir (or_link l))) direnvs));
               grouped = concat (map (\<lambda>d. direnv_roots fs r direnvStaleAfter d
                                            (filter (\<lambda>l. nixDirenvRootDir (or_link l) = Some d) owned)) dirs)
           in Inr (sort_key sr_Link (temporary @ grouped))))"

subsection \<open>The candidate list\<close>

definition nixGCRootCandidatesHeader :: string where
  "nixGCRootCandidatesHeader = ''# tinyland-cleanup gc root candidates v1: <auto entry name>'' @ [char_of (9 :: nat)] @ ''<out-link>''"

definition splits_line :: "string \<Rightarrow> bool" where
  "splits_line s = list_ex (\<lambda>c. c = char_of (9 :: nat) \<or> c = char_of (10 :: nat)) s"

definition listed :: "stale_root \<Rightarrow> bool" where
  "listed sr = (sr_Stale sr \<and> \<not> splits_line (path_base (sr_AutoLink sr)) \<and> \<not> splits_line (sr_Link sr))"

definition candidate_line :: "stale_root \<Rightarrow> string" where
  "candidate_line sr = path_base (sr_AutoLink sr) @ [char_of (9 :: nat)] @ sr_Link sr @ [char_of (10 :: nat)]"

definition candidates_text :: "stale_root list \<Rightarrow> string" where
  "candidates_text roots =
     nixGCRootCandidatesHeader @ [char_of (10 :: nat)] @ concat (map candidate_line (filter listed roots))"

text \<open>
  Which call of a publication fails and with what; a failed write leaves \<open>cf_partial\<close>.  \<open>cf_tmp\<close> is
  the name \<open>os.CreateTemp\<close> makes, a file that was not there.
\<close>

record candidate_faults =
  cf_mkdir :: "string option"
  cf_create :: "string option"
  cf_write :: "string option"
  cf_partial :: string
  cf_chmod :: "string option"
  cf_close :: "string option"
  cf_rename :: "string option"
  cf_unlinked :: bool
  cf_tmp :: path

text \<open>The states the file system passes through, oldest first, and the error or the lines written.\<close>

definition writeNixGCRootCandidates ::
    "candidate_faults \<Rightarrow> path \<Rightarrow> stale_root list \<Rightarrow> (path \<Rightarrow> string option) \<Rightarrow>
      (path \<Rightarrow> string option) list \<times> (string + nat)" where
  "writeNixGCRootCandidates f p roots fs =
     (case first_fault [cf_mkdir f, cf_create f] of
        Some e \<Rightarrow> ([], Inl e)
      | None \<Rightarrow>
          (let created = fs(cf_tmp f \<mapsto> []); torn = fs(cf_tmp f \<mapsto> cf_partial f);
               written = fs(cf_tmp f \<mapsto> candidates_text roots);
               removed = (\<lambda>fs. if cf_unlinked f then [fs(cf_tmp f := None)] else [])
           in case cf_write f of
                Some e \<Rightarrow> ([created, torn] @ removed torn, Inl e)
              | None \<Rightarrow>
                  (case first_fault [cf_chmod f, cf_close f, cf_rename f] of
                     Some e \<Rightarrow> ([created, written] @ removed written, Inl e)
                   | None \<Rightarrow> ([created, written, written(cf_tmp f := None, p \<mapsto> candidates_text roots)],
                              Inr (length (filter listed roots))))))"

text \<open>The part of the configuration the reaper reads; \<open>rc_OKComms\<close> is not used here.\<close>

record root_config =
  rc_ReapStaleGCRoots :: bool
  rc_DirenvGCRootStaleAfter :: string
  rc_TempGCRootStaleAfter :: string
  rc_TempGCRootPaths :: "path list"
  rc_TempScanPaths :: "path list"
  rc_GCRootCandidatesFile :: path
  rc_AgentTreePrefixes :: "string list"
  rc_AgentTreeIdleAfter :: string

definition nixGCRootCandidatesPath :: "root_config \<Rightarrow> path \<Rightarrow> path" where
  "nixGCRootCandidatesPath cfg home =
     (let p = trim_space (rc_GCRootCandidatesFile cfg)
      in if p = [] then [] else let p = clean_path (expandHome p home) in if is_abs p then p else [])"

definition nixDirenvGCRootStaleAfter :: "root_config \<Rightarrow> duration" where
  "nixDirenvGCRootStaleAfter cfg = parse_nix_policy_duration (rc_DirenvGCRootStaleAfter cfg) nixDefaultDirenvRootStaleAfter"

definition nixTempGCRootStaleAfter :: "root_config \<Rightarrow> duration" where
  "nixTempGCRootStaleAfter cfg = parse_nix_policy_duration (rc_TempGCRootStaleAfter cfg) nixDefaultTempGCRootStaleAfter"

subsection \<open>Planning and publishing\<close>

text \<open>What the system answers during one collection; empty directories in the plugin mean the defaults.\<close>

record root_env =
  ro_fs :: filesystem
  ro_resolve :: "path \<Rightarrow> path option"
  ro_entries :: "path \<Rightarrow> string + string list"
  ro_uid :: int
  ro_now :: instant
  ro_home :: path
  ro_liveCwds :: "string + path list"
  ro_autoGCRootsDir :: path
  ro_storeDir :: path

definition newNixGCRootReaper :: "int \<Rightarrow> instant \<Rightarrow> reaper" where
  "newNixGCRootReaper uid now =
     \<lparr>gr_autoDir = ''/nix/var/nix/gcroots/auto'', gr_storeDir = ''/nix/store'', gr_uid = uid, gr_agentPrefixes = [],
      gr_agentIdle = 0, gr_liveCwds = None, gr_now = now\<rparr>"

definition gcRootReaper :: "root_env \<Rightarrow> root_config \<Rightarrow> reaper" where
  "gcRootReaper env cfg =
     (let r = newNixGCRootReaper (ro_uid env) (ro_now env)
      in r\<lparr>gr_agentPrefixes := rc_AgentTreePrefixes cfg,
           gr_agentIdle := parse_nix_policy_duration (rc_AgentTreeIdleAfter cfg) (7 * 24 * hour),
           gr_liveCwds := Some (ro_liveCwds env),
           gr_autoDir := (if ro_autoGCRootsDir env \<noteq> [] then ro_autoGCRootsDir env else gr_autoDir r),
           gr_storeDir := (if ro_storeDir env \<noteq> [] then ro_storeDir env else gr_storeDir r)\<rparr>)"

definition collect_for :: "root_env \<Rightarrow> root_config \<Rightarrow> string + stale_root list" where
  "collect_for env cfg =
     (let r = gcRootReaper env cfg
      in collect (ro_fs env) (ro_resolve env) r (ro_entries env (gr_autoDir r))
           (nixStaleGCRootTempDirs (ro_resolve env) (ro_home env) (rc_TempGCRootPaths cfg) (rc_TempScanPaths cfg))
           (nixDirenvGCRootStaleAfter cfg) (nixTempGCRootStaleAfter cfg))"

definition root_target :: "stale_root \<Rightarrow> cleanup_target" where
  "root_target sr =
     annotateCleanupTargetPolicy ''warm'' (if sr_Stale sr then CleanupReclaimDeferred else CleanupReclaimNone)
       \<lparr>ct_Type = ''nix_gc_root'', ct_Tier = [], ct_Name = sr_Class sr @ '' '' @ path_base (sr_Link sr),
        ct_Version = path_base (sr_StorePath sr), ct_Path = sr_Link sr, ct_Bytes = 0, ct_LogicalBytes = 0,
        ct_Reclaim = [], ct_HostReclaimsSpace = None, ct_Active = False, ct_Protected = (\<not> sr_Stale sr),
        ct_Action = (if sr_Stale sr then ''propose_gc_root_unregister'' else ''keep_gc_root''), ct_Reason = sr_Reason sr\<rparr>"

definition nixStaleGCRootTargets :: "stale_root list \<Rightarrow> cleanup_target list" where
  "nixStaleGCRootTargets roots = map root_target roots"

definition planStaleGCRoots :: "root_env \<Rightarrow> root_config \<Rightarrow> cleanup_target list \<times> string table \<times> string list" where
  "planStaleGCRoots env cfg =
     (let flag = [(''stale_gc_root_reaping'', if rc_ReapStaleGCRoots cfg then ''true'' else ''false'')]
      in if \<not> rc_ReapStaleGCRoots cfg then ([], flag, [])
         else case collect_for env cfg of
           Inl err \<Rightarrow> ([], flag, [''could not read indirect Nix GC roots: '' @ err])
         | Inr roots \<Rightarrow>
             (nixStaleGCRootTargets roots,
              tbl_put ''classified_gc_roots'' (show_int (int (length roots)))
                (tbl_put ''gc_root_candidates_file'' (nixGCRootCandidatesPath cfg (ro_home env))
                  (tbl_put ''stale_gc_roots'' (show_int (int (length (filter sr_Stale roots)))) flag)), []))"

text \<open>The states of the candidate file's directory and the number of candidates listed; log lines
  are left out.\<close>

definition publishStaleGCRootCandidates ::
    "root_env \<Rightarrow> candidate_faults \<Rightarrow> root_config \<Rightarrow> (path \<Rightarrow> string option) \<Rightarrow> (path \<Rightarrow> string option) list \<times> nat" where
  "publishStaleGCRootCandidates env f cfg fs =
     (if \<not> rc_ReapStaleGCRoots cfg then ([], 0)
      else case collect_for env cfg of
        Inl err \<Rightarrow> ([], 0)
      | Inr roots \<Rightarrow>
          (let p = nixGCRootCandidatesPath cfg (ro_home env)
           in if p = [] then ([], 0)
              else case writeNixGCRootCandidates f p roots fs of
                     (states, Inl err) \<Rightarrow> (states, 0)
                   | (states, Inr n) \<Rightarrow> (states, n)))"

subsection \<open>What the collection lists\<close>

text \<open>An auto entry of the listing that registers the link, and the link selects a store path.\<close>

definition registers :: "filesystem \<Rightarrow> reaper \<Rightarrow> string list \<Rightarrow> path \<Rightarrow> path \<Rightarrow> bool" where
  "registers fs r names auto link =
     (auto \<in> (\<lambda>name. join_path [gr_autoDir r, name]) ` set names \<and> registered_link fs auto = Some link)"

definition well_owned :: "filesystem \<Rightarrow> reaper \<Rightarrow> string list \<Rightarrow> owned_root \<Rightarrow> bool" where
  "well_owned fs r names l =
     (registers fs r names (or_auto l) (or_link l) \<and> ownedStoreLink fs r (or_link l) = Some (or_store l, or_mtime l) \<and>
      \<not> nixGCRootIsProtected (or_link l))"

lemma owned_root_at_sound:
  "owned_root_at fs r auto link = Some l \<Longrightarrow> registered_link fs auto = Some link \<Longrightarrow>
    auto \<in> (\<lambda>name. join_path [gr_autoDir r, name]) ` set names \<Longrightarrow> well_owned fs r names l \<and> or_link l = link"
  by (auto simp: owned_root_at_def well_owned_def registers_def split: option.splits if_splits)

lemma owned_roots_sound:
  assumes "l \<in> set (owned_roots fs r names seen)"
  shows "well_owned fs r names l \<and> or_link l \<notin> set seen"
  using assms
proof (induction names arbitrary: seen)
  case (Cons name names)
  let ?auto = "join_path [gr_autoDir r, name]"
  have keep: "well_owned fs r names l \<Longrightarrow> well_owned fs r (name # names) l"
    by (auto simp: well_owned_def registers_def)
  have rest: "l \<in> set (owned_roots fs r names (xs @ seen)) \<Longrightarrow> ?case" for xs
    using Cons.IH [of "xs @ seen"] keep by auto
  show ?case
  proof (cases "registered_link fs ?auto")
    case None
    with Cons.prems rest [of "[]"] show ?thesis by (simp add: Let_def)
  next
    case (Some link)
    show ?thesis
    proof (cases "link \<in> set seen")
      case True
      with Cons.prems Some rest [of "[]"] show ?thesis by (simp add: Let_def)
    next
      case False
      with Cons.prems Some consider "owned_root_at fs r ?auto link = Some l" | "l \<in> set (owned_roots fs r names ([link] @ seen))"
        by (auto simp: Let_def split: option.splits)
      then show ?thesis
        using rest [of "[link]"] owned_root_at_sound [OF _ Some, of r l "name # names"] False by cases auto
    qed
  qed
qed simp

lemma owned_roots_distinct: "distinct (map or_link (owned_roots fs r names seen))"
proof (induction names arbitrary: seen)
  case (Cons name names)
  let ?auto = "join_path [gr_autoDir r, name]"
  have "or_link l \<notin> or_link ` set (owned_roots fs r names (link # seen))"
    if "owned_root_at fs r ?auto link = Some l" "registered_link fs ?auto = Some link" for l link
    using owned_root_at_sound [OF that, of "[name]"] owned_roots_sound [of _ fs r names "link # seen"] by force
  with Cons show ?case by (auto simp: Let_def split: option.splits)
qed simp

text \<open>The age of an out-link.\<close>

definition link_age :: "filesystem \<Rightarrow> reaper \<Rightarrow> path \<Rightarrow> duration" where
  "link_age fs r link = (case lstat fs link of None \<Rightarrow> 0 | Some i \<Rightarrow> time_sub (gr_now r) (in_mtime i))"

lemma owned_age: "well_owned fs r names l \<Longrightarrow> link_age fs r (or_link l) = time_sub (gr_now r) (or_mtime l)"
  by (auto simp: well_owned_def ownedStoreLink_def link_age_def Let_def split: option.splits if_splits)

text \<open>The verdict on a temporary root.\<close>

lemma temporary_root_fields [simp]:
  "sr_AutoLink (temporary_root resolve r after d l) = or_auto l" "sr_Link (temporary_root resolve r after d l) = or_link l"
  "sr_StorePath (temporary_root resolve r after d l) = or_store l"
  by (simp_all add: temporary_root_def Let_def split: prod.splits)

definition agent_threshold :: "reaper \<Rightarrow> duration \<Rightarrow> path \<Rightarrow> duration" where
  "agent_threshold r after tree = (if tree = [] then after else max after (gr_agentIdle r))"

lemma temporary_root_stale:
  "sr_Stale (temporary_root resolve r after d l) \<longleftrightarrow>
     (let tree = agentTreeOf resolve r (or_link l) d
      in agent_threshold r after tree \<le> time_sub (gr_now r) (or_mtime l) \<and> (tree = [] \<or> \<not> fst (treeIsLive r tree)))"
  by (auto simp: temporary_root_def agent_threshold_def Let_def max_def split: prod.splits bool.splits)

text \<open>The verdict on the roots of one \<open>.direnv\<close>: its newest link decides for all.\<close>

lemma newest_mtime_simps [simp]:
  "newest_mtime [] z = z" "newest_mtime (l # ls) z = newest_mtime ls (max z (or_mtime l))"
  by (simp_all add: newest_mtime_def max_def not_less order_le_less)

lemma newest_mtime_Max: "newest_mtime links z = Max (insert z (or_mtime ` set links))"
proof (induction links arbitrary: z)
  case (Cons l ls)
  then show ?case
    by (cases "ls = []") (simp_all add: Max_insert max.assoc max.left_commute)
qed simp

lemma time_sub_antimono: "m \<le> m' \<Longrightarrow> time_sub t m' \<le> time_sub t m"
  by (simp add: time_sub_def)

lemma direnv_verdict_stale:
  assumes "fst (direnv_verdict fs r after d links)" "l \<in> set links"
  shows "nixFindVCSRoot fs (path_dir d) \<noteq> Inl e \<and> after \<le> time_sub (gr_now r) (or_mtime l)"
proof -
  have "or_mtime l \<le> newest_mtime links zero_time"
    unfolding newest_mtime_Max using assms(2) by (intro Max_ge) auto
  from time_sub_antimono [OF this, of "gr_now r"] assms(1) show ?thesis
    by (auto simp: direnv_verdict_def Let_def split: sum.splits if_splits)
qed

subsection \<open>The candidate file is replaced atomically\<close>

lemma write_candidates_states:
  assumes "p \<noteq> cf_tmp f" "fs' \<in> set (fst (writeNixGCRootCandidates f p roots fs))"
  shows "fs' p = fs p \<or> fs' p = Some (candidates_text roots)"
  using assms by (auto simp: writeNixGCRootCandidates_def Let_def split: option.splits if_splits)

lemma write_candidates_final:
  assumes "p \<noteq> cf_tmp f"
  shows "last (fs # fst (writeNixGCRootCandidates f p roots fs)) p =
    (case snd (writeNixGCRootCandidates f p roots fs) of Inl e \<Rightarrow> fs p | Inr n \<Rightarrow> Some (candidates_text roots))"
  using assms by (auto simp: writeNixGCRootCandidates_def Let_def split: option.splits)

interpretation candidate_document: atomic_document
    "\<lambda>f fs. p \<noteq> cf_tmp f" "\<lambda>f roots fs. fst (writeNixGCRootCandidates f p roots fs)"
    "\<lambda>f roots fs. \<exists>n. snd (writeNixGCRootCandidates f p roots fs) = Inr n" "\<lambda>fs. fs p" candidates_text
  for p :: path
proof (unfold_locales, goal_cases)
  case (1 f fs fs' roots)
  then show ?case by (rule write_candidates_states)
next
  case (2 f fs roots)
  then show ?case using write_candidates_final [of p f fs roots] by auto
next
  case (3 f fs roots)
  then show ?case using write_candidates_final [of p f fs roots]
    by (cases "snd (writeNixGCRootCandidates f p roots fs)") auto
qed

subsection \<open>Stale roots are justified\<close>

text \<open>Where a classified root comes from.\<close>

lemma collect_cases:
  assumes "collect fs resolve r (Inr names) tempDirs direnvAfter tempAfter = Inr roots" "sr \<in> set roots"
  obtains (temporary) l d where "well_owned fs r names l" "nixDirenvRootDir (or_link l) = None"
      "nixTempDirOf resolve (or_link l) tempDirs = Some d" "sr = temporary_root resolve r tempAfter d l"
    | (direnv) l d where "well_owned fs r names l" "nixDirenvRootDir (or_link l) = Some d"
      "l \<in> set (filter (\<lambda>l. nixDirenvRootDir (or_link l) = Some d) (owned_roots fs r names []))"
      "sr = \<lparr>sr_AutoLink = or_auto l, sr_Link = or_link l, sr_StorePath = or_store l, sr_Class = ''direnv_root'',
             sr_Stale = fst (direnv_verdict fs r direnvAfter d
                              (filter (\<lambda>l. nixDirenvRootDir (or_link l) = Some d) (owned_roots fs r names []))),
             sr_Reason = snd (direnv_verdict fs r direnvAfter d
                              (filter (\<lambda>l. nixDirenvRootDir (or_link l) = Some d) (owned_roots fs r names [])))\<rparr>"
proof -
  let ?owned = "owned_roots fs r names []"
  have owned: "l \<in> set ?owned \<Longrightarrow> well_owned fs r names l" for l using owned_roots_sound by blast
  from assms consider
      (t) l d where "l \<in> set ?owned" "nixDirenvRootDir (or_link l) = None" "nixTempDirOf resolve (or_link l) tempDirs = Some d"
        "sr = temporary_root resolve r tempAfter d l"
    | (d) d where "sr \<in> set (direnv_roots fs r direnvAfter d (filter (\<lambda>l. nixDirenvRootDir (or_link l) = Some d) ?owned))"
    by (auto simp: collect_def Let_def map_filter_def)
  then show thesis
  proof cases
    case t
    with owned temporary show thesis by blast
  next
    case d
    with owned direnv show thesis by (auto simp: direnv_roots_def case_prod_unfold Let_def)
  qed
qed

text \<open>Each out-link is classified once, and a stale one has reached the smaller threshold.\<close>

lemma distinct_concat_groups:
  assumes "distinct ds" "distinct (map f xs)"
  shows "distinct (concat (map (\<lambda>d. map f (filter (\<lambda>x. g x = Some d) xs)) ds))"
  using assms(1)
proof (induction ds)
  case (Cons d ds)
  have inj: "inj_on f (set xs)" using assms(2) by (simp add: distinct_map)
  have "f ` {x \<in> set xs. g x = Some d} \<inter> (\<Union>e \<in> set ds. f ` {x \<in> set xs. g x = Some e}) = {}"
    using Cons.prems by (auto dest!: inj_onD [OF inj])
  with Cons assms(2) show ?case by (simp add: distinct_map_filter)
qed simp

lemma direnv_roots_links: "map sr_Link (direnv_roots fs r after d links) = map or_link links"
  by (simp add: direnv_roots_def case_prod_unfold Let_def)

lemma collect_distinct:
  assumes "collect fs resolve r (Inr names) tempDirs direnvAfter tempAfter = Inr roots"
  shows "distinct (map sr_Link roots)"
proof -
  let ?owned = "owned_roots fs r names []"
  let ?temp = "\<lambda>l. map_option (\<lambda>d. temporary_root resolve r tempAfter d l) (nixTempDirOf resolve (or_link l) tempDirs)"
  define others where "others = filter (\<lambda>l. nixDirenvRootDir (or_link l) = None) ?owned"
  define dirs where "dirs = sort (remdups (map (\<lambda>l. the (nixDirenvRootDir (or_link l))) (filter (\<lambda>l. nixDirenvRootDir (or_link l) \<noteq> None) ?owned)))"
  define grouped where "grouped = concat (map (\<lambda>d. direnv_roots fs r direnvAfter d
      (filter (\<lambda>l. nixDirenvRootDir (or_link l) = Some d) ?owned)) dirs)"
  have links: "distinct (map or_link ?owned)" by (rule owned_roots_distinct)
  have roots: "roots = sort_key sr_Link (List.map_filter ?temp others @ grouped)"
    using assms by (simp add: collect_def Let_def others_def dirs_def grouped_def)
  have temporary: "map sr_Link (List.map_filter ?temp others) = map or_link (filter (\<lambda>l. ?temp l \<noteq> None) others)"
    by (auto simp: map_filter_def)
  have groups: "map sr_Link grouped = concat (map (\<lambda>d. map or_link (filter (\<lambda>l. nixDirenvRootDir (or_link l) = Some d) ?owned)) dirs)"
    by (simp add: grouped_def map_concat comp_def direnv_roots_links)
  have "distinct (map sr_Link (List.map_filter ?temp others))"
    unfolding temporary by (simp add: others_def distinct_map_filter links)
  moreover have "distinct (map sr_Link grouped)"
    unfolding groups by (intro distinct_concat_groups links) (simp add: dirs_def)
  moreover have "set (map sr_Link (List.map_filter ?temp others)) \<inter> set (map sr_Link grouped) = {}"
    unfolding temporary groups by (auto simp: others_def)
  ultimately have "distinct (map sr_Link (List.map_filter ?temp others @ grouped))" by (simp only: map_append distinct_append)
  then show ?thesis unfolding roots by (simp only: distinct_map distinct_sort set_sort)
qed

lemma stale_root_age:
  assumes "collect fs resolve r (Inr names) tempDirs direnvAfter tempAfter = Inr roots" "sr \<in> set roots"
  obtains m where "registers fs r names (sr_AutoLink sr) (sr_Link sr)"
    and "ownedStoreLink fs r (sr_Link sr) = Some (sr_StorePath sr, m)" "\<not> nixGCRootIsProtected (sr_Link sr)"
    and "sr_Stale sr \<Longrightarrow> min direnvAfter tempAfter \<le> time_sub (gr_now r) m"
  using assms
proof (cases rule: collect_cases)
  case (temporary l d)
  then show thesis
    by (intro that [of "or_mtime l"]) (auto simp: well_owned_def temporary_root_stale agent_threshold_def Let_def split: if_splits)
next
  case (direnv l d)
  let ?links = "filter (\<lambda>l. nixDirenvRootDir (or_link l) = Some d) (owned_roots fs r names [])"
  have "min direnvAfter tempAfter \<le> time_sub (gr_now r) (or_mtime l)" if "sr_Stale sr"
    using direnv_verdict_stale [of fs r direnvAfter d ?links l] direnv that by (simp add: min.coboundedI1)
  with direnv show thesis by (intro that [of "or_mtime l"]) (auto simp: well_owned_def)
qed

text \<open>C25:
  Whatever the reaper classifies is registered by an auto entry of the listing, is a link of the
  daemon's own user that selects a store path, and lies under no \<open>gcroots\<close> or \<open>profiles\<close> directory.
  A temporary root is stale exactly when it is old enough, where a link inside an agent-session
  tree must also reach the agent idle age and no live process may work in the tree.  A stale
  nix-direnv root has a whole stale \<open>.direnv\<close>: every root of that directory is stale and
  old enough, and the search for its checkout met no error.
\<close>

theorem stale_root_justified:
  assumes "collect fs resolve r (Inr names) tempDirs direnvAfter tempAfter = Inr roots" "sr \<in> set roots"
  shows "registers fs r names (sr_AutoLink sr) (sr_Link sr) \<and>
    (\<exists>m. ownedStoreLink fs r (sr_Link sr) = Some (sr_StorePath sr, m)) \<and>
    list_all (\<lambda>e. e \<noteq> ''gcroots'' \<and> e \<noteq> ''profiles'') (path_elements (path_dir (sr_Link sr))) \<and>
    (case nixDirenvRootDir (sr_Link sr) of
       None \<Rightarrow>
         (\<exists>tempDir. nixTempDirOf resolve (sr_Link sr) tempDirs = Some tempDir \<and>
           (sr_Stale sr \<longleftrightarrow>
             (let tree = agentTreeOf resolve r (sr_Link sr) tempDir
              in agent_threshold r tempAfter tree \<le> link_age fs r (sr_Link sr) \<and> (tree = [] \<or> \<not> fst (treeIsLive r tree)))))
     | Some d \<Rightarrow>
         sr_Stale sr \<longrightarrow>
         (\<exists>vcs. nixFindVCSRoot fs (path_dir d) = Inr vcs) \<and>
         list_all (\<lambda>x. nixDirenvRootDir (sr_Link x) = Some d \<longrightarrow> sr_Stale x \<and> direnvAfter \<le> link_age fs r (sr_Link x)) roots)"
proof -
  have facts: "registers fs r names (or_auto l) (or_link l) \<and> (\<exists>m. ownedStoreLink fs r (or_link l) = Some (or_store l, m)) \<and>
      list_all (\<lambda>e. e \<noteq> ''gcroots'' \<and> e \<noteq> ''profiles'') (path_elements (path_dir (or_link l)))"
    if "well_owned fs r names l" for l
    using that by (auto simp: well_owned_def nixGCRootIsProtected_def list_all_iff list_ex_iff)
  from assms show ?thesis
  proof (cases rule: collect_cases)
    case (temporary l d)
    with facts owned_age [OF temporary(1)] show ?thesis by (simp add: temporary_root_stale)
  next
    case (direnv l d)
    let ?links = "filter (\<lambda>l. nixDirenvRootDir (or_link l) = Some d) (owned_roots fs r names [])"
    have "sr_Stale x \<and> direnvAfter \<le> link_age fs r (sr_Link x)"
      if stale: "fst (direnv_verdict fs r direnvAfter d ?links)" and x: "x \<in> set roots" "nixDirenvRootDir (sr_Link x) = Some d" for x
      using assms(1) x(1)
    proof (cases rule: collect_cases)
      case (temporary k e)
      with x(2) show ?thesis by simp
    next
      case (direnv k e)
      with x(2) have "e = d" by simp
      with direnv stale direnv_verdict_stale [OF stale, of k] owned_age [OF direnv(1)] show ?thesis by simp
    qed
    moreover have "\<exists>vcs. nixFindVCSRoot fs (path_dir d) = Inr vcs" if "fst (direnv_verdict fs r direnvAfter d ?links)"
      using direnv_verdict_stale [OF that direnv(3)] by (cases "nixFindVCSRoot fs (path_dir d)") auto
    ultimately show ?thesis using direnv facts [OF direnv(1)] by (simp add: list_all_iff)
  qed
qed

subsection \<open>A concrete host\<close>

definition symlink_inode :: "int \<Rightarrow> instant \<Rightarrow> path \<Rightarrow> lookup" where
  "symlink_inode uid mtime dest =
     Found \<lparr>in_symlink = True, in_regular = False, in_uid = uid, in_mtime = mtime, in_dest = dest\<rparr>"

definition demo_fs :: filesystem where
  "demo_fs p =
     (let auto = ''/nix/var/nix/gcroots/auto/''; direnv = ''/home/u/p/.direnv/''
      in if p = auto @ ''q1'' then symlink_inode 0 0 ''/tmp/claude-7/result''
         else if p = auto @ ''q2'' then symlink_inode 0 0 (direnv @ ''flake-profile-a'')
         else if p = auto @ ''q3'' then symlink_inode 0 0 (direnv @ ''flake-inputs/b'')
         else if p = auto @ ''q4'' then symlink_inode 0 0 ''/home/u/gcroots/keep/out''
         else if p = ''/tmp/claude-7/result'' then symlink_inode 1000 (5 * hour) ''/nix/store/aa-x''
         else if p = direnv @ ''flake-profile-a'' then symlink_inode 1000 (4 * hour) ''/nix/store/bb-y''
         else if p = direnv @ ''flake-inputs/b'' then symlink_inode 1000 (3 * hour) ''/nix/store/cc-z''
         else if p = ''/home/u/gcroots/keep/out'' then symlink_inode 1000 hour ''/nix/store/dd-w''
         else Missing)"

definition demo_names :: "string list" where "demo_names = [''q1'', ''q2'', ''q3'', ''q4'']"

definition demo_reaper :: reaper where
  "demo_reaper =
     \<lparr>gr_autoDir = ''/nix/var/nix/gcroots/auto'', gr_storeDir = ''/nix/store'', gr_uid = 1000,
      gr_agentPrefixes = [''claude-*''], gr_agentIdle = 7 * 24 * hour, gr_liveCwds = Some (Inr [''/home/u'']),
      gr_now = 300 * hour\<rparr>"

lemma demo_collect:
  "map_sum id (map (\<lambda>sr. (path_base (sr_AutoLink sr), sr_Stale sr)))
     (collect demo_fs (\<lambda>p. None) demo_reaper (Inr demo_names) [''/tmp''] (168 * hour) (72 * hour)) =
   Inr [(''q3'', True), (''q2'', True), (''q1'', True)]"
  by code_simp

theorem stale_root_justified_witness:
  "\<exists>roots. collect demo_fs (\<lambda>p. None) demo_reaper (Inr demo_names) [''/tmp''] (168 * hour) (72 * hour) = Inr roots \<and>
     length roots = 3 \<and> list_all sr_Stale roots \<and>
     list_all (\<lambda>sr. registers demo_fs demo_reaper demo_names (sr_AutoLink sr) (sr_Link sr)) roots"
proof -
  let ?c = "collect demo_fs (\<lambda>p. None) demo_reaper (Inr demo_names) [''/tmp''] (168 * hour) (72 * hour)"
  obtain roots where roots: "?c = Inr roots" "map (\<lambda>sr. (path_base (sr_AutoLink sr), sr_Stale sr)) roots =
      [(''q3'', True), (''q2'', True), (''q1'', True)]"
    using demo_collect by (cases ?c) auto
  from arg_cong [OF roots(2), of length] have "length roots = 3" by simp
  moreover from arg_cong [OF roots(2), of "list_all snd"] have "list_all sr_Stale roots" by (simp add: list_all_iff)
  moreover have "list_all (\<lambda>sr. registers demo_fs demo_reaper demo_names (sr_AutoLink sr) (sr_Link sr)) roots"
    using stale_root_justified [OF roots(1)] by (simp add: list_all_iff)
  ultimately show ?thesis using roots(1) by blast
qed

end
