(* ===== verification/Root_Jobs.thy ===== *)
theory Root_Jobs
  imports GC_Roots
begin

text \<open>
  The privileged job that unregisters GC roots, \<open>rootjobs/gcroot_unregister.go\<close>: it reads the
  candidate lists the daemon publishes, checks every line anew and removes only auto entries.  The
  state of a run is the file system of links, the receipts written and the counts.  The user
  database, the opened lists, the clock and failing removals are observations of the run.
\<close>

subsection \<open>Options and observations\<close>

record list_spec =
  ls_User :: string
  ls_File :: path

record unregister_options =
  uo_AutoDir :: path
  uo_Receipts :: path
  uo_MaxReceiptsBytes :: int
  uo_ReportOnly :: bool
  uo_MaxListAge :: duration
  uo_MinLinkAge :: duration
  uo_MaxLines :: int
  uo_Lists :: "list_spec list"

record unregister_summary =
  us_Removed :: int
  us_Would :: int
  us_Refused :: int

text \<open>
  Opening a list: it is not there, it cannot be opened (a symlink among others), or it is open; then
  \<open>Stat\<close> may fail, and a read error may cut the content off.
\<close>

datatype opened_list = ListAbsent | ListUnopened | ListOpen "inode option" string bool

record job_env =
  je_user :: "string \<Rightarrow> string option"
  je_open :: "path \<Rightarrow> opened_list"
  je_now :: instant
  je_remove_fails :: "path \<Rightarrow> bool"

record job_run =
  jr_fs :: filesystem
  jr_receipts :: "string list"
  jr_sum :: unregister_summary

subsection \<open>Reading a list\<close>

definition tab :: char where "tab = char_of (9 :: nat)"
definition line_feed :: char where "line_feed = char_of (10 :: nat)"
definition carriage_return :: char where "carriage_return = char_of (13 :: nat)"

definition drop_cr :: "string \<Rightarrow> string" where
  "drop_cr s = (if s \<noteq> [] \<and> last s = carriage_return then butlast s else s)"

text \<open>The scanner's buffer: a longer token stops the scan with an error.\<close>

definition max_token :: int where "max_token = 65535"

definition scan_lines :: "string \<Rightarrow> string list \<times> bool" where
  "scan_lines content =
     (let parts = split_on line_feed content; parts = (if last parts = [] then butlast parts else parts);
          fits = (\<lambda>s. int (length s) \<le> max_token)
      in (map drop_cr (takeWhile fits parts), \<not> list_all fits parts))"

fun cut :: "char \<Rightarrow> string \<Rightarrow> (string \<times> string) option" where
  "cut c [] = None"
| "cut c (d # s) = (if d = c then Some ([], s) else map_option (\<lambda>(a, b). (d # a, b)) (cut c s))"

datatype entry_line = SkipLine | NoTab | Entry string path

definition parse_entry :: "string \<Rightarrow> entry_line" where
  "parse_entry line =
     (if line = [] \<or> prefix ''#'' line then SkipLine
      else case cut tab line of None \<Rightarrow> NoTab | Some (name, link) \<Rightarrow> Entry name link)"

subsection \<open>The checks of an entry\<close>

definition name_char :: "char \<Rightarrow> bool" where
  "name_char c = (let n = of_char c :: nat
                  in 65 \<le> n \<and> n \<le> 90 \<or> 97 \<le> n \<and> n \<le> 122 \<or> 48 \<le> n \<and> n \<le> 57 \<or> c \<in> set ''._+-'')"

definition autoEntryNameRe :: "string \<Rightarrow> bool" where
  "autoEntryNameRe s = (s \<noteq> [] \<and> list_all name_char s)"

definition storeTargetRe :: "string \<Rightarrow> bool" where
  "storeTargetRe s = (let n = drop 11 s in prefix ''/nix/store/'' s \<and> n \<noteq> [] \<and> CHR ''/'' \<notin> set n)"

text \<open>The refusal reason, empty when every check holds.\<close>

definition check_link :: "unregister_options \<Rightarrow> instant \<Rightarrow> int \<Rightarrow> path \<Rightarrow> inode \<Rightarrow> string" where
  "check_link opts now uid link i =
     (if in_uid i \<noteq> uid
      then ''out-link is owned by uid '' @ show_int (in_uid i) @ '', not the list owner '' @ show_int uid
      else let age = time_sub now (in_mtime i)
           in if 0 < uo_MinLinkAge opts \<and> age < uo_MinLinkAge opts
              then ''out-link changed '' @ show_duration (duration_round age second) @ '' ago, inside '' @
                   show_duration (uo_MinLinkAge opts)
              else if \<not> storeTargetRe (in_dest i) then ''out-link does not point straight into /nix/store''
              else if list_ex (\<lambda>e. e = ''gcroots'' \<or> e = ''profiles'') (path_elements (path_dir link))
              then ''out-link is under gcroots/ or profiles/'' else [])"

definition checkEntry :: "unregister_options \<Rightarrow> instant \<Rightarrow> filesystem \<Rightarrow> int \<Rightarrow> instant \<Rightarrow> string \<Rightarrow> path \<Rightarrow> string" where
  "checkEntry opts now fs uid listTime name link =
     (if \<not> autoEntryNameRe name \<or> name = ''.'' \<or> name = ''..'' then ''not an auto entry name''
      else if \<not> is_abs link \<or> clean_path link \<noteq> link then ''out-link is not a clean absolute path''
      else case lstat fs (join_path [uo_AutoDir opts, name]) of
        None \<Rightarrow> ''auto entry is not a symlink''
      | Some entry \<Rightarrow>
          (if \<not> in_symlink entry then ''auto entry is not a symlink''
           else if listTime < in_mtime entry then ''auto entry is newer than the list''
           else if in_dest entry \<noteq> link then ''auto entry does not resolve to the listed out-link''
           else case lstat fs link of
             None \<Rightarrow> ''out-link is not a symlink''
           | Some i \<Rightarrow> (if \<not> in_symlink i then ''out-link is not a symlink'' else check_link opts now uid link i)))"

subsection \<open>A run\<close>

definition list_head :: "list_spec \<Rightarrow> string" where
  "list_head spec = ''user='' @ ls_User spec @ '' list='' @ ls_File spec @ '' ''"

definition write_receipt :: "string \<Rightarrow> job_run \<Rightarrow> job_run" where
  "write_receipt msg run = run\<lparr>jr_receipts := jr_receipts run @ [msg]\<rparr>"

definition refuse :: "list_spec \<Rightarrow> string \<Rightarrow> job_run \<Rightarrow> job_run" where
  "refuse spec why run =
     (let run = write_receipt (''refused '' @ list_head spec @ why) run; s = jr_sum run
      in run\<lparr>jr_sum := s\<lparr>us_Refused := us_Refused s + 1\<rparr>\<rparr>)"

definition entry_text :: "list_spec \<Rightarrow> path \<Rightarrow> path \<Rightarrow> path \<Rightarrow> string" where
  "entry_text spec entry link dest =
     ''user='' @ ls_User spec @ '' auto='' @ entry @ '' link='' @ link @ '' store='' @ dest"

definition process_entry ::
    "unregister_options \<Rightarrow> job_env \<Rightarrow> list_spec \<Rightarrow> int \<Rightarrow> instant \<Rightarrow> int \<Rightarrow> string \<Rightarrow> path \<Rightarrow> job_run \<Rightarrow> job_run" where
  "process_entry opts env spec uid listTime n name link run =
     (let reason = checkEntry opts (je_now env) (jr_fs run) uid listTime name link
      in if reason \<noteq> [] then refuse spec (''line='' @ show_int n @ '' reason='' @ reason) run
         else let dest = (case read_link (jr_fs run) link of None \<Rightarrow> [] | Some d \<Rightarrow> d);
                  entry = join_path [uo_AutoDir opts, name]; s = jr_sum run
              in if uo_ReportOnly opts
                 then write_receipt (''would-unregister '' @ entry_text spec entry link dest) run
                        \<lparr>jr_sum := s\<lparr>us_Would := us_Would s + 1\<rparr>\<rparr>
                 else if je_remove_fails env entry
                 then refuse spec (''line='' @ show_int n @ '' reason=could not remove the auto entry'') run
                 else write_receipt (''unregistered '' @ entry_text spec entry link dest) run
                        \<lparr>jr_fs := (jr_fs run)(entry := Missing), jr_sum := s\<lparr>us_Removed := us_Removed s + 1\<rparr>\<rparr>)"

definition process_line ::
    "unregister_options \<Rightarrow> job_env \<Rightarrow> list_spec \<Rightarrow> int \<Rightarrow> instant \<Rightarrow> int \<Rightarrow> string \<Rightarrow> job_run \<Rightarrow> job_run" where
  "process_line opts env spec uid listTime n line run =
     (case parse_entry line of
        SkipLine \<Rightarrow> run
      | NoTab \<Rightarrow> refuse spec (''line='' @ show_int n @ '' reason=no tab separator'') run
      | Entry name link \<Rightarrow> process_entry opts env spec uid listTime n name link run)"

text \<open>The lines from number \<open>n + 1\<close> on; the flag says that there were too many.\<close>

fun process_lines ::
    "unregister_options \<Rightarrow> job_env \<Rightarrow> list_spec \<Rightarrow> int \<Rightarrow> instant \<Rightarrow> int \<Rightarrow> string list \<Rightarrow> job_run \<Rightarrow> job_run \<times> bool" where
  "process_lines opts env spec uid listTime n [] run = (run, False)"
| "process_lines opts env spec uid listTime n (line # lines) run =
     (if uo_MaxLines opts < n + 1
      then (refuse spec (''reason=more than '' @ show_int (uo_MaxLines opts) @ '' lines'') run, True)
      else process_lines opts env spec uid listTime (n + 1) lines (process_line opts env spec uid listTime (n + 1) line run))"

text \<open>A list that may be read: the owner's user id and the list's time and content.\<close>

definition list_uid :: "job_env \<Rightarrow> list_spec \<Rightarrow> string + int" where
  "list_uid env spec =
     (case je_user env (ls_User spec) of
        None \<Rightarrow> Inl ''reason=unknown user''
      | Some text \<Rightarrow> (case parse_int64 text of
                       (uid, ok) \<Rightarrow> if \<not> ok \<or> uid = 0 then Inl ''reason=root or malformed uid'' else Inr uid))"

definition check_list :: "unregister_options \<Rightarrow> instant \<Rightarrow> int \<Rightarrow> inode option \<Rightarrow> string + instant" where
  "check_list opts now uid info =
     (case info of
        None \<Rightarrow> Inl ''reason=list is not a regular file''
      | Some i \<Rightarrow>
          (if \<not> in_regular i then Inl ''reason=list is not a regular file''
           else if in_uid i \<noteq> uid then Inl (''reason=list is not owned by uid '' @ show_int uid)
           else let age = time_sub now (in_mtime i)
                in if 0 < uo_MaxListAge opts \<and> uo_MaxListAge opts < age
                   then Inl (''reason=list is '' @ show_duration (duration_round age second) @ '' old, older than '' @
                             show_duration (uo_MaxListAge opts))
                   else Inr (in_mtime i)))"

definition processList :: "unregister_options \<Rightarrow> job_env \<Rightarrow> list_spec \<Rightarrow> job_run \<Rightarrow> job_run" where
  "processList opts env spec run =
     (case list_uid env spec of
        Inl why \<Rightarrow> refuse spec why run
      | Inr uid \<Rightarrow>
          (case je_open env (ls_File spec) of
             ListAbsent \<Rightarrow> run
           | ListUnopened \<Rightarrow> refuse spec ''reason=list unreadable or a symlink'' run
           | ListOpen info content failed \<Rightarrow>
               (case check_list opts (je_now env) uid info of
                  Inl why \<Rightarrow> refuse spec why run
                | Inr listTime \<Rightarrow>
                    (case scan_lines content of (lines, tooLong) \<Rightarrow>
                       (case process_lines opts env spec uid listTime 0 lines run of (run, stopped) \<Rightarrow>
                          (if \<not> stopped \<and> (tooLong \<or> failed) then refuse spec ''reason=list read error'' run else run))))))"

definition GCRootUnregister :: "unregister_options \<Rightarrow> job_env \<Rightarrow> filesystem \<Rightarrow> job_run" where
  "GCRootUnregister opts env fs =
     (let opts = (if uo_MaxLines opts \<le> 0 then opts\<lparr>uo_MaxLines := 20000\<rparr> else opts);
          run = fold (processList opts env) (uo_Lists opts)
                  \<lparr>jr_fs = fs, jr_receipts = [], jr_sum = \<lparr>us_Removed = 0, us_Would = 0, us_Refused = 0\<rparr>\<rparr>;
          s = jr_sum run
      in write_receipt (''summary mode='' @ (if uo_ReportOnly opts then ''report-only'' else ''armed'') @ '' removed='' @
           show_int (us_Removed s) @ '' would='' @ show_int (us_Would s) @ '' refused='' @ show_int (us_Refused s)) run)"

subsection \<open>The command line\<close>

text \<open>The pairs after the flags; \<open>None\<close> is a usage error.\<close>

fun parse_lists :: "string list \<Rightarrow> list_spec list option" where
  "parse_lists [] = Some []"
| "parse_lists (pair # pairs) =
     (case cut CHR ''='' pair of
        None \<Rightarrow> None
      | Some (user, file) \<Rightarrow>
          (if user = [] \<or> \<not> is_abs file then None
           else map_option (\<lambda>ls. \<lparr>ls_User = user, ls_File = clean_path file\<rparr> # ls) (parse_lists pairs)))"

text \<open>The exit code and the run; \<open>flags\<close> is what parsing the flags gives.\<close>

definition RunGCRootUnregister ::
    "(unregister_options \<times> string list) option \<Rightarrow> job_env \<Rightarrow> filesystem \<Rightarrow> int \<times> job_run option" where
  "RunGCRootUnregister flags env fs =
     (case flags of
        None \<Rightarrow> (2, None)
      | Some (opts, args) \<Rightarrow>
          (case parse_lists args of
             None \<Rightarrow> (2, None)
           | Some specs \<Rightarrow>
               (if specs = [] then (2, None) else (0, Some (GCRootUnregister (opts\<lparr>uo_Lists := specs\<rparr>) env fs)))))"

subsection \<open>The receipts file\<close>

text \<open>What fails while a receipt is written; \<open>rf_written\<close> bytes of the line reach the file.\<close>

record receipt_faults =
  rf_stat_fails :: bool
  rf_rename_fails :: bool
  rf_open_fails :: bool
  rf_written :: nat

definition append_receipt ::
    "receipt_faults \<Rightarrow> path \<Rightarrow> int \<Rightarrow> instant \<Rightarrow> string \<Rightarrow> (path \<Rightarrow> string option) \<Rightarrow> (path \<Rightarrow> string option)" where
  "append_receipt f p limit now msg fs =
     (let line = show_instant now @ '' '' @ msg @ [line_feed]
      in if p = [] then fs
         else let fs = (case fs p of
                          None \<Rightarrow> fs
                        | Some old \<Rightarrow>
                            (if 0 < limit \<and> \<not> rf_stat_fails f \<and> limit < int (length old) + int (length line) \<and> \<not> rf_rename_fails f
                             then fs(p := None, p @ ''.1'' \<mapsto> old) else fs))
              in if rf_open_fails f then fs
                 else fs(p \<mapsto> (case fs p of None \<Rightarrow> [] | Some old \<Rightarrow> old) @ take (rf_written f) line))"

lemma append_receipt_size:
  assumes "0 < limit" "\<not> rf_stat_fails f" "\<not> rf_rename_fails f" "fs p = None \<or> int (length (the (fs p))) \<le> limit"
    and "int (length (show_instant now @ '' '' @ msg @ [line_feed])) \<le> limit"
  shows "append_receipt f p limit now msg fs p = None \<or> int (length (the (append_receipt f p limit now msg fs p))) \<le> limit"
proof -
  have "p \<noteq> p @ ''.1''" by simp
  with assms show ?thesis
    by (cases "fs p") (auto simp: append_receipt_def Let_def min_def)
qed

end
