(* ===== verification/Root_Job_Runs.thy ===== *)
theory Root_Job_Runs
  imports Root_Jobs
begin

text \<open>
  What the unregister job may change, that it reads the daemon's candidate list exactly, and that
  it carries out what the daemon proposes: the facts of \<open>Root_Jobs\<close> and \<open>GC_Roots\<close> together.
\<close>

subsection \<open>A passed check\<close>

text \<open>Nothing but removals.\<close>

definition only_removed :: "filesystem \<Rightarrow> filesystem \<Rightarrow> bool" where
  "only_removed fs fs' = (\<forall>p. fs' p = fs p \<or> fs' p = Missing)"

lemma only_removed_lstat: "only_removed fs fs' \<Longrightarrow> lstat fs' p = Some i \<Longrightarrow> lstat fs p = Some i"
  unfolding only_removed_def lstat_iff by (metis lookup.distinct(3))

lemma checkEntry_iff:
  "checkEntry opts now fs uid listTime name link = [] \<longleftrightarrow>
     autoEntryNameRe name \<and> name \<noteq> ''.'' \<and> name \<noteq> ''..'' \<and> is_abs link \<and> clean_path link = link \<and>
     (\<exists>entry i. lstat fs (join_path [uo_AutoDir opts, name]) = Some entry \<and> in_symlink entry \<and>
        in_mtime entry \<le> listTime \<and> in_dest entry = link \<and>
        lstat fs link = Some i \<and> in_symlink i \<and> in_uid i = uid \<and>
        (0 < uo_MinLinkAge opts \<longrightarrow> uo_MinLinkAge opts \<le> time_sub now (in_mtime i)) \<and>
        storeTargetRe (in_dest i) \<and>
        list_all (\<lambda>e. e \<noteq> ''gcroots'' \<and> e \<noteq> ''profiles'') (path_elements (path_dir link)))"
  by (auto simp: checkEntry_def check_link_def Let_def not_less list_all_iff list_ex_iff split: option.splits)

lemma checkEntry_only_removed:
  assumes "only_removed fs fs'" "checkEntry opts now fs' uid listTime name link = []"
  shows "checkEntry opts now fs uid listTime name link = []"
  using assms(2) only_removed_lstat [OF assms(1)] unfolding checkEntry_iff by blast

lemma checkEntry_same:
  assumes "fs' (join_path [uo_AutoDir opts, name]) = fs (join_path [uo_AutoDir opts, name])" "fs' link = fs link"
  shows "checkEntry opts now fs' uid listTime name link = checkEntry opts now fs uid listTime name link"
proof -
  have "lstat fs' (join_path [uo_AutoDir opts, name]) = lstat fs (join_path [uo_AutoDir opts, name])" "lstat fs' link = lstat fs link"
    using assms by (simp_all add: lstat_def)
  then show ?thesis by (simp only: checkEntry_def)
qed

subsection \<open>What a run changes\<close>

text \<open>An auto entry a line of one of the lists may remove.\<close>

definition unregisterable :: "unregister_options \<Rightarrow> job_env \<Rightarrow> filesystem \<Rightarrow> list_spec \<Rightarrow> path \<Rightarrow> bool" where
  "unregisterable opts env fs spec p =
     (\<exists>uid info content failed listTime name link.
        list_uid env spec = Inr uid \<and> je_open env (ls_File spec) = ListOpen info content failed \<and>
        check_list opts (je_now env) uid info = Inr listTime \<and>
        Entry name link \<in> parse_entry ` set (fst (scan_lines content)) \<and> p = join_path [uo_AutoDir opts, name] \<and>
        checkEntry opts (je_now env) fs uid listTime name link = [])"

text \<open>The account of a run: the changed paths are the removals, all permitted; nothing in report-only mode.\<close>

definition accounted :: "unregister_options \<Rightarrow> job_env \<Rightarrow> (path \<Rightarrow> bool) \<Rightarrow> filesystem \<Rightarrow> job_run \<Rightarrow> bool" where
  "accounted opts env permitted fs run =
     (only_removed fs (jr_fs run) \<and> finite {p. jr_fs run p \<noteq> fs p} \<and>
      us_Removed (jr_sum run) = int (card {p. jr_fs run p \<noteq> fs p}) \<and>
      (\<forall>p. jr_fs run p \<noteq> fs p \<longrightarrow> \<not> uo_ReportOnly opts \<and> permitted p))"

lemma refuse_simps [simp]:
  "jr_fs (refuse spec why run) = jr_fs run" "us_Removed (jr_sum (refuse spec why run)) = us_Removed (jr_sum run)"
  by (simp_all add: refuse_def write_receipt_def Let_def)

lemma write_receipt_simps [simp]:
  "jr_fs (write_receipt msg run) = jr_fs run" "jr_sum (write_receipt msg run) = jr_sum run"
  by (simp_all add: write_receipt_def)

lemma accounted_refuse [simp]: "accounted opts env permitted fs (refuse spec why run) = accounted opts env permitted fs run"
  by (simp add: accounted_def)

lemma accounted_entry:
  assumes "accounted opts env permitted fs run"
    and "checkEntry opts (je_now env) fs uid listTime name link = [] \<Longrightarrow> permitted (join_path [uo_AutoDir opts, name])"
  shows "accounted opts env permitted fs (process_entry opts env spec uid listTime n name link run)"
proof (cases "checkEntry opts (je_now env) (jr_fs run) uid listTime name link = [] \<and> \<not> uo_ReportOnly opts \<and>
    \<not> je_remove_fails env (join_path [uo_AutoDir opts, name])")
  case False
  with assms(1) show ?thesis by (auto simp: process_entry_def Let_def accounted_def)
next
  case True
  let ?p = "join_path [uo_AutoDir opts, name]"
  have removed: "only_removed fs (jr_fs run)" using assms(1) by (simp add: accounted_def)
  from True obtain i where "lstat (jr_fs run) ?p = Some i" unfolding checkEntry_iff by blast
  then have i: "jr_fs run ?p = Found i" by (simp add: lstat_iff)
  then have "fs ?p = Found i" using only_removed_lstat [OF removed] by (simp add: lstat_iff)
  define fs' where "fs' = (jr_fs run)(?p := Missing)"
  have new: "{p. fs' p \<noteq> fs p} = insert ?p {p. jr_fs run p \<noteq> fs p}" "?p \<notin> {p. jr_fs run p \<noteq> fs p}"
    using i \<open>fs ?p = Found i\<close> by (auto simp: fs'_def)
  have "only_removed fs fs'" using removed by (auto simp: fs'_def only_removed_def)
  have "permitted ?p" using assms(2) checkEntry_only_removed [OF removed] True by blast
  have old: "finite {p. jr_fs run p \<noteq> fs p}" "us_Removed (jr_sum run) = int (card {p. jr_fs run p \<noteq> fs p})"
      "\<forall>p \<in> {p. jr_fs run p \<noteq> fs p}. permitted p"
    using assms(1) by (simp_all add: accounted_def)
  have "\<forall>p \<in> {p. fs' p \<noteq> fs p}. permitted p" unfolding new(1) using \<open>permitted ?p\<close> old(3) by blast
  moreover have "finite {p. fs' p \<noteq> fs p} \<and> us_Removed (jr_sum run) + 1 = int (card {p. fs' p \<noteq> fs p})"
    unfolding new(1) using new(2) old(1,2) by simp
  ultimately have ok: "only_removed fs fs' \<and> finite {p. fs' p \<noteq> fs p} \<and>
      us_Removed (jr_sum run) + 1 = int (card {p. fs' p \<noteq> fs p}) \<and> (\<forall>p. fs' p \<noteq> fs p \<longrightarrow> permitted p)"
    using \<open>only_removed fs fs'\<close> by simp
  from True show ?thesis
    using ok by (simp add: process_entry_def Let_def accounted_def fs'_def [symmetric])
qed

lemma accounted_line:
  assumes "accounted opts env permitted fs run"
    and "\<And>name link. parse_entry line = Entry name link \<Longrightarrow>
      checkEntry opts (je_now env) fs uid listTime name link = [] \<Longrightarrow> permitted (join_path [uo_AutoDir opts, name])"
  shows "accounted opts env permitted fs (process_line opts env spec uid listTime n line run)"
  using assms accounted_entry [OF assms(1)] by (simp add: process_line_def split: entry_line.splits)

lemma accounted_lines:
  assumes "accounted opts env permitted fs run"
    and "\<And>name link. Entry name link \<in> parse_entry ` set lines \<Longrightarrow>
      checkEntry opts (je_now env) fs uid listTime name link = [] \<Longrightarrow> permitted (join_path [uo_AutoDir opts, name])"
  shows "accounted opts env permitted fs (fst (process_lines opts env spec uid listTime n lines run))"
  using assms
proof (induction lines arbitrary: n run)
  case (Cons line lines)
  have "accounted opts env permitted fs (process_line opts env spec uid listTime (n + 1) line run)"
    using Cons.prems(2) by (intro accounted_line [OF Cons.prems(1)]) force
  moreover have "\<And>name link. Entry name link \<in> parse_entry ` set lines \<Longrightarrow>
      checkEntry opts (je_now env) fs uid listTime name link = [] \<Longrightarrow> permitted (join_path [uo_AutoDir opts, name])"
    by (rule Cons.prems(2)) auto
  ultimately show ?case using Cons.IH Cons.prems(1) by simp
qed simp

lemma accounted_list:
  assumes "accounted opts env permitted fs run" "\<And>p. unregisterable opts env fs spec p \<Longrightarrow> permitted p"
  shows "accounted opts env permitted fs (processList opts env spec run)"
proof -
  have "accounted opts env permitted fs (fst (process_lines opts env spec uid listTime 0 (fst (scan_lines content)) run))"
    if "list_uid env spec = Inr uid" "je_open env (ls_File spec) = ListOpen info content failed"
      "check_list opts (je_now env) uid info = Inr listTime" for uid info content failed listTime
    using that assms by (intro accounted_lines) (auto simp: unregisterable_def)
  with assms(1) show ?thesis
    by (auto simp: processList_def split: sum.splits opened_list.splits prod.splits)
      (metis fst_conv)+
qed

lemma accounted_fold:
  assumes "accounted opts env permitted fs run"
    and "\<And>spec p. spec \<in> set specs \<Longrightarrow> unregisterable opts env fs spec p \<Longrightarrow> permitted p"
  shows "accounted opts env permitted fs (fold (processList opts env) specs run)"
  using assms
proof (induction specs arbitrary: run)
  case (Cons spec specs)
  have "accounted opts env permitted fs (processList opts env spec run)"
    using Cons.prems(2) [of spec] by (intro accounted_list [OF Cons.prems(1)]) simp
  then show ?case using Cons.IH Cons.prems(2) by (metis fold_simps(2) list.set_intros(2))
qed simp

lemma max_lines_irrelevant [simp]:
  "check_list (opts\<lparr>uo_MaxLines := m\<rparr>) now uid info = check_list opts now uid info"
  "check_link (opts\<lparr>uo_MaxLines := m\<rparr>) now uid link i = check_link opts now uid link i"
  by (simp_all add: check_list_def check_link_def Let_def split: option.split)

lemma unregisterable_max_lines [simp]:
  "checkEntry (opts\<lparr>uo_MaxLines := m\<rparr>) now fs uid listTime name link = checkEntry opts now fs uid listTime name link"
  "unregisterable (opts\<lparr>uo_MaxLines := m\<rparr>) env fs spec p = unregisterable opts env fs spec p"
  by (simp_all add: unregisterable_def checkEntry_def split: option.split)

lemma run_accounted:
  "accounted opts env (\<lambda>p. \<exists>spec \<in> set (uo_Lists opts). unregisterable opts env fs spec p) fs (GCRootUnregister opts env fs)"
proof -
  define opts' where "opts' = (if uo_MaxLines opts \<le> 0 then opts\<lparr>uo_MaxLines := 20000\<rparr> else opts)"
  have same: "uo_Lists opts' = uo_Lists opts" "uo_ReportOnly opts' = uo_ReportOnly opts"
      "unregisterable opts' env fs spec p = unregisterable opts env fs spec p" for spec p
    by (simp_all add: opts'_def)
  have "accounted opts' env (\<lambda>p. \<exists>spec \<in> set (uo_Lists opts). unregisterable opts env fs spec p) fs
      (fold (processList opts' env) (uo_Lists opts)
        \<lparr>jr_fs = fs, jr_receipts = [], jr_sum = \<lparr>us_Removed = 0, us_Would = 0, us_Refused = 0\<rparr>\<rparr>)"
    by (rule accounted_fold) (auto simp: accounted_def only_removed_def same)
  then show ?thesis
    by (simp add: GCRootUnregister_def Let_def opts'_def [symmetric] accounted_def same)
qed

lemma auto_name_plain: "autoEntryNameRe name \<Longrightarrow> name \<noteq> ''.'' \<Longrightarrow> name \<noteq> ''..'' \<Longrightarrow> plain_element name"
  by (auto simp: autoEntryNameRe_def plain_element_def proper_element_def list_all_iff name_char_def Let_def)

lemma list_uid_nonzero: "list_uid env spec = Inr uid \<Longrightarrow> uid \<noteq> 0"
  by (auto simp: list_uid_def split: option.splits prod.splits if_splits)

lemma check_list_iff:
  "check_list opts now uid info = Inr listTime \<longleftrightarrow>
     (\<exists>i. info = Some i \<and> in_regular i \<and> in_uid i = uid \<and> in_mtime i = listTime \<and>
        (0 < uo_MaxListAge opts \<longrightarrow> time_sub now (in_mtime i) \<le> uo_MaxListAge opts))"
  by (auto simp: check_list_def Let_def not_less split: option.splits)

text \<open>C24:
  Every path the unregister job changes is an auto entry it removed: not in report-only mode,
  directly in the auto directory, named by a line of a declared list that is a fresh regular file of
  a declared user other than root, a link no newer than the list that selects an old enough
  out-link of the same user, which selects a store path and lies under no \<open>gcroots\<close> or \<open>profiles\<close>
  directory.  The count of removals is the number of entries gone.
\<close>

theorem unregister_only_checked:
  assumes "jr_fs (GCRootUnregister opts env fs) p \<noteq> fs p"
  shows "jr_fs (GCRootUnregister opts env fs) p = Missing \<and> \<not> uo_ReportOnly opts \<and>
    (is_abs (uo_AutoDir opts) \<longrightarrow> path_dir p = clean_path (uo_AutoDir opts)) \<and>
    us_Removed (jr_sum (GCRootUnregister opts env fs)) = int (card {q. jr_fs (GCRootUnregister opts env fs) q \<noteq> fs q}) \<and>
    (\<exists>spec \<in> set (uo_Lists opts). \<exists>uid list content failed name entry out.
       list_uid env spec = Inr uid \<and> uid \<noteq> 0 \<and> je_open env (ls_File spec) = ListOpen (Some list) content failed \<and>
       in_regular list \<and> in_uid list = uid \<and>
       (0 < uo_MaxListAge opts \<longrightarrow> time_sub (je_now env) (in_mtime list) \<le> uo_MaxListAge opts) \<and>
       Entry name (in_dest entry) \<in> parse_entry ` set (fst (scan_lines content)) \<and>
       p = join_path [uo_AutoDir opts, name] \<and> fs p = Found entry \<and> in_symlink entry \<and> in_mtime entry \<le> in_mtime list \<and>
       fs (in_dest entry) = Found out \<and> in_symlink out \<and> in_uid out = uid \<and>
       (0 < uo_MinLinkAge opts \<longrightarrow> uo_MinLinkAge opts \<le> time_sub (je_now env) (in_mtime out)) \<and>
       storeTargetRe (in_dest out) \<and>
       list_all (\<lambda>e. e \<noteq> ''gcroots'' \<and> e \<noteq> ''profiles'') (path_elements (path_dir (in_dest entry))))"
    (is "?gone \<and> _ \<and> ?dir \<and> ?count \<and> ?checked")
proof -
  note acc = run_accounted [of opts env fs, unfolded accounted_def only_removed_def]
  from acc assms have gone: ?gone "\<not> uo_ReportOnly opts" ?count by auto
  from acc assms obtain spec where "spec \<in> set (uo_Lists opts)" "unregisterable opts env fs spec p" by blast
  then have u: ?checked
    unfolding unregisterable_def checkEntry_iff check_list_iff lstat_iff
    by (elim exE conjE) (use list_uid_nonzero in \<open>blast\<close>)
  moreover have ?dir
    using \<open>unregisterable opts env fs spec p\<close> auto_name_plain path_dir_join
    unfolding unregisterable_def checkEntry_iff by blast
  ultimately show ?thesis using gone by blast
qed

subsection \<open>What the daemon lists is what the job reads\<close>

lemma line_chars: "tab \<noteq> line_feed" "tab = char_of (9 :: nat)" "line_feed = char_of (10 :: nat)" "carriage_return \<noteq> line_feed" "tab \<noteq> carriage_return"
  by (simp_all add: tab_def line_feed_def carriage_return_def)

lemma splits_line_iff: "splits_line s \<longleftrightarrow> tab \<in> set s \<or> line_feed \<in> set s"
  unfolding splits_line_def list_ex_iff tab_def line_feed_def by blast

lemma split_on_lines:
  "list_all (\<lambda>l. c \<notin> set l) ls \<Longrightarrow> split_on c (concat (map (\<lambda>l. l @ [c]) ls)) = ls @ [[]]"
proof (induction ls)
  case (Cons l ls)
  then show ?case using split_on_append [of c l "concat (map (\<lambda>l. l @ [c]) ls)"] by (simp add: split_on_single)
qed simp

lemma scan_lines_whole:
  assumes "list_all (\<lambda>l. line_feed \<notin> set l \<and> int (length l) \<le> max_token \<and> (l = [] \<or> last l \<noteq> carriage_return)) ls"
  shows "scan_lines (concat (map (\<lambda>l. l @ [line_feed]) ls)) = (ls, False)"
proof -
  have split: "split_on line_feed (concat (map (\<lambda>l. l @ [line_feed]) ls)) = ls @ [[]]"
    using assms by (intro split_on_lines) (auto simp: list_all_iff)
  have fits: "list_all (\<lambda>s. int (length s) \<le> max_token) ls" and whole: "map drop_cr ls = ls"
    using assms by (auto simp: list_all_iff drop_cr_def intro!: map_idI)
  then have all: "takeWhile (\<lambda>s. int (length s) \<le> max_token) ls = ls" by (simp add: takeWhile_eq_all_conv list_all_iff)
  show ?thesis by (simp add: scan_lines_def Let_def split fits whole all)
qed

lemma cut_append: "c \<notin> set a \<Longrightarrow> cut c (a @ c # b) = Some (a, b)"
  by (induction a) auto

definition root_line :: "stale_root \<Rightarrow> string" where
  "root_line sr = path_base (sr_AutoLink sr) @ [tab] @ sr_Link sr"

lemma candidates_text_lines:
  "candidates_text roots = concat (map (\<lambda>l. l @ [line_feed]) (nixGCRootCandidatesHeader # map root_line (filter listed roots)))"
proof -
  have "map candidate_line rs = map (\<lambda>l. l @ [line_feed]) (map root_line rs)" for rs
    by (simp add: candidate_line_def root_line_def tab_def line_feed_def)
  then show ?thesis by (simp only: candidates_text_def) (simp add: line_feed_def)
qed

text \<open>A root whose line the job's scanner gives back whole.\<close>

definition readable_root :: "stale_root \<Rightarrow> bool" where
  "readable_root sr =
     (path_base (sr_AutoLink sr) \<noteq> [] \<and> hd (path_base (sr_AutoLink sr)) \<noteq> CHR ''#'' \<and>
      (sr_Link sr = [] \<or> last (sr_Link sr) \<noteq> carriage_return) \<and> int (length (root_line sr)) \<le> max_token)"

lemma header_line:
  "line_feed \<notin> set nixGCRootCandidatesHeader \<and> int (length nixGCRootCandidatesHeader) \<le> max_token \<and>
   last nixGCRootCandidatesHeader \<noteq> carriage_return \<and> parse_entry nixGCRootCandidatesHeader = SkipLine"
proof -
  have chars: "char_of (9 :: nat) = CHR 0x09" "char_of (10 :: nat) = CHR 0x0A" "char_of (13 :: nat) = CHR 0x0D"
    by code_simp+
  show ?thesis
    by (simp add: nixGCRootCandidatesHeader_def line_feed_def carriage_return_def max_token_def parse_entry_def chars)
qed

lemma parse_root_line:
  assumes "listed sr" "readable_root sr"
  shows "parse_entry (root_line sr) = Entry (path_base (sr_AutoLink sr)) (sr_Link sr)"
  using assms cut_append [of tab "path_base (sr_AutoLink sr)" "sr_Link sr"]
  by (cases "path_base (sr_AutoLink sr)") (auto simp: parse_entry_def root_line_def readable_root_def listed_def splits_line_iff)

lemma scan_candidates:
  assumes "list_all readable_root (filter listed roots)"
  shows "scan_lines (candidates_text roots) = (nixGCRootCandidatesHeader # map root_line (filter listed roots), False)"
  unfolding candidates_text_lines
proof (rule scan_lines_whole)
  have "line_feed \<notin> set (root_line sr) \<and> int (length (root_line sr)) \<le> max_token \<and> last (root_line sr) \<noteq> carriage_return"
    if "listed sr" "readable_root sr" for sr
    using that line_chars by (auto simp: root_line_def readable_root_def listed_def splits_line_iff)
  with assms header_line show "list_all (\<lambda>l. line_feed \<notin> set l \<and> int (length l) \<le> max_token \<and> (l = [] \<or> last l \<noteq> carriage_return))
      (nixGCRootCandidatesHeader # map root_line (filter listed roots))"
    by (auto simp: list_all_iff)
qed

text \<open>C26:
  The candidate file is read back exactly.  Suppose that of each listed root the name of the auto entry is
  non-empty and does not begin with \<open>#\<close>, the out-link does not end in a carriage return, and the line fits the
  scanner's buffer.  Then the root job's scanner reads the header as a comment and then one entry per listed root,
  the name of its auto entry and its out-link, in the same order, and reports no error.
\<close>

theorem candidates_roundtrip:
  assumes "list_all readable_root (filter listed roots)"
  shows "map parse_entry (fst (scan_lines (candidates_text roots))) =
      SkipLine # map (\<lambda>sr. Entry (path_base (sr_AutoLink sr)) (sr_Link sr)) (filter listed roots) \<and>
    \<not> snd (scan_lines (candidates_text roots))"
  using assms scan_candidates [OF assms] header_line parse_root_line by (simp add: list_all_iff)

subsection \<open>The job accepts what the daemon proposes\<close>

lemma rooted_last:
  assumes "is_abs d" "clean_path d = d" "d \<noteq> ''/''"
  obtains ys e where "list_all plain_element ys" "plain_element e" "d = ''/'' @ join_strings ''/'' (ys @ [e])"
    "path_dir d = ''/'' @ join_strings ''/'' ys"
proof -
  have xs: "d = ''/'' @ join_strings ''/'' (clean_elements d)" "list_all plain_element (clean_elements d)"
    using assms clean_path_abs clean_elements_plain by simp_all
  with assms(3) obtain ys e where ye: "clean_elements d = ys @ [e]" by (cases "clean_elements d" rule: rev_cases) auto
  then have plain: "list_all plain_element ys" "plain_element e" using xs(2) by auto
  let ?dir = "''/'' @ join_strings ''/'' ys"
  have dir: "is_abs ?dir" "clean_elements ?dir = ys" using clean_elements_joined [OF plain(1)] by (simp_all add: is_abs_def)
  have "join_path [?dir, e] = ''/'' @ join_strings ''/'' (ys @ [e])" using join_path_snoc [OF dir(1) plain(2)] by (simp only: dir(2))
  also have "\<dots> = d" by (simp only: ye [symmetric] xs(1) [symmetric])
  finally have "path_dir d = ?dir"
    using path_dir_join [OF dir(1) plain(2)] clean_path_joined [OF plain(1)] by simp
  with plain xs(1) ye show thesis by (intro that [of ys e]) simp_all
qed

lemma store_target:
  assumes "is_abs d" "clean_path d = d" "path_dir d = ''/nix/store''"
  shows "storeTargetRe d"
proof -
  have "path_dir ''/'' \<noteq> ''/nix/store''" by code_simp
  then have "d \<noteq> ''/''" using assms(3) by auto
  with rooted_last [OF assms(1,2)] obtain ys e where ye: "list_all plain_element ys" "plain_element e"
      "d = ''/'' @ join_strings ''/'' (ys @ [e])" "path_dir d = ''/'' @ join_strings ''/'' ys" .
  have "ys = clean_elements ''/nix/store''" using clean_elements_joined [OF ye(1)] ye(4) assms(3) by simp
  also have "\<dots> = [''nix'', ''store'']" by code_simp
  finally have "d = ''/nix/store/'' @ e" using ye(3) by simp
  with ye(2) show ?thesis by (simp add: storeTargetRe_def plain_element_def proper_element_def)
qed

text \<open>The link texts of a registered root as Nix writes them, and an entry no newer than the list.\<close>

definition canonical_root :: "filesystem \<Rightarrow> instant \<Rightarrow> stale_root \<Rightarrow> bool" where
  "canonical_root fs listTime sr =
     (case (fs (sr_AutoLink sr), fs (sr_Link sr)) of
        (Found a, Found i) \<Rightarrow>
          in_dest a = sr_Link sr \<and> in_mtime a \<le> listTime \<and> is_abs (in_dest i) \<and> clean_path (in_dest i) = in_dest i
      | _ \<Rightarrow> False)"

definition auto_name :: "string \<Rightarrow> bool" where
  "auto_name n = (autoEntryNameRe n \<and> n \<noteq> ''.'' \<and> n \<noteq> ''..'')"

lemma time_sub_mono: "t \<le> t' \<Longrightarrow> time_sub t m \<le> time_sub t' m"
  by (simp add: time_sub_def)

lemma proposal_accepted:
  assumes "collect fs resolve r (Inr names) tempDirs direnvAfter tempAfter = Inr roots" "sr \<in> set roots" "sr_Stale sr"
    and "gr_storeDir r = ''/nix/store''" "uo_AutoDir opts = gr_autoDir r" "list_all auto_name names"
    and "uo_MinLinkAge opts \<le> min direnvAfter tempAfter" "gr_now r \<le> now" "canonical_root fs listTime sr"
  shows "checkEntry opts now fs (gr_uid r) listTime (path_base (sr_AutoLink sr)) (sr_Link sr) = [] \<and>
    join_path [uo_AutoDir opts, path_base (sr_AutoLink sr)] = sr_AutoLink sr \<and> auto_name (path_base (sr_AutoLink sr))"
proof -
  obtain m where reg: "registers fs r names (sr_AutoLink sr) (sr_Link sr)"
      and owned: "ownedStoreLink fs r (sr_Link sr) = Some (sr_StorePath sr, m)" "\<not> nixGCRootIsProtected (sr_Link sr)"
      and age: "min direnvAfter tempAfter \<le> time_sub (gr_now r) m"
    using stale_root_age [OF assms(1,2)] assms(3) by blast
  obtain name where name: "name \<in> set names" "sr_AutoLink sr = join_path [gr_autoDir r, name]"
    using reg by (auto simp: registers_def)
  then have "auto_name name" using assms(6) by (simp add: list_all_iff)
  then have base: "path_base (sr_AutoLink sr) = name"
    using auto_name_plain [of name] by (simp add: name(2) auto_name_def plain_element_def path_base_join)
  obtain raw where raw: "is_abs raw" "clean_path raw = sr_Link sr" "read_link fs (sr_AutoLink sr) = Some raw"
    using reg by (auto simp: registers_def registered_link_def split: option.splits if_splits)
  obtain a where a: "fs (sr_AutoLink sr) = Found a" "in_symlink a" "in_dest a = raw"
    using raw(3) by (auto simp: read_link_def split: lookup.splits if_splits)
  obtain i where i: "fs (sr_Link sr) = Found i" "in_symlink i" "in_uid i = gr_uid r" "in_mtime i = m"
      "path_dir (clean_path (in_dest i)) = clean_path (gr_storeDir r)"
    using owned(1) by (auto simp: ownedStoreLink_def lstat_iff Let_def split: option.splits if_splits)
  have canon: "in_dest a = sr_Link sr" "in_mtime a \<le> listTime" "is_abs (in_dest i)" "clean_path (in_dest i) = in_dest i"
    using assms(9) by (simp_all add: canonical_root_def a(1) i(1))
  have "clean_path ''/nix/store'' = ''/nix/store''" by code_simp
  then have "storeTargetRe (in_dest i)" using store_target canon(3,4) i(5) assms(4) by simp
  moreover have "uo_MinLinkAge opts \<le> time_sub now m"
    using age assms(7) time_sub_mono [OF assms(8), of m] by linarith
  moreover have "is_abs (sr_Link sr)" "clean_path (sr_Link sr) = sr_Link sr"
    using raw clean_path_idem is_abs_clean by metis+
  moreover have "list_all (\<lambda>e. e \<noteq> ''gcroots'' \<and> e \<noteq> ''profiles'') (path_elements (path_dir (sr_Link sr)))"
    using owned(2) by (auto simp: nixGCRootIsProtected_def list_all_iff list_ex_iff)
  ultimately show ?thesis
    using a i canon \<open>auto_name name\<close> name(2) base assms(5) by (simp add: checkEntry_iff lstat_iff auto_name_def)
qed

text \<open>A run over accepted lines removes exactly their entries.\<close>

definition fs_without :: "path set \<Rightarrow> filesystem \<Rightarrow> filesystem" where
  "fs_without S fs p = (if p \<in> S then Missing else fs p)"

lemma process_roots:
  assumes "list_all (\<lambda>sr. checkEntry opts (je_now env) fs uid listTime (path_base (sr_AutoLink sr)) (sr_Link sr) = [] \<and>
      join_path [uo_AutoDir opts, path_base (sr_AutoLink sr)] = sr_AutoLink sr \<and>
      parse_entry (root_line sr) = Entry (path_base (sr_AutoLink sr)) (sr_Link sr) \<and>
      \<not> je_remove_fails env (sr_AutoLink sr)) rs"
    and "distinct (map sr_AutoLink rs)" "sr_AutoLink ` set rs \<inter> S = {}" "sr_Link ` set rs \<inter> (S \<union> sr_AutoLink ` set rs) = {}"
    and "\<not> uo_ReportOnly opts" "n + int (length rs) \<le> uo_MaxLines opts" "jr_fs run = fs_without S fs"
    and "process_lines opts env spec uid listTime n (map root_line rs) run = (run', stopped)"
  shows "\<not> stopped \<and> jr_fs run' = fs_without (S \<union> sr_AutoLink ` set rs) fs \<and>
    us_Removed (jr_sum run') = us_Removed (jr_sum run) + int (length rs) \<and>
    us_Refused (jr_sum run') = us_Refused (jr_sum run) \<and> us_Would (jr_sum run') = us_Would (jr_sum run)"
  using assms
proof (induction rs arbitrary: S n run)
  case (Cons sr rs)
  let ?run = "process_line opts env spec uid listTime (n + 1) (root_line sr) run"
  have "checkEntry opts (je_now env) (jr_fs run) uid listTime (path_base (sr_AutoLink sr)) (sr_Link sr) = []"
    using Cons.prems(1,3,4,7) by (subst checkEntry_same [of _ _ _ fs]) (auto simp: fs_without_def)
  with Cons.prems(1,5) have run: "jr_fs ?run = (jr_fs run)(sr_AutoLink sr := Missing)"
      "us_Removed (jr_sum ?run) = us_Removed (jr_sum run) + 1" "us_Refused (jr_sum ?run) = us_Refused (jr_sum run)"
      "us_Would (jr_sum ?run) = us_Would (jr_sum run)"
    by (simp_all add: process_line_def process_entry_def Let_def)
  have fs: "jr_fs ?run = fs_without (insert (sr_AutoLink sr) S) fs"
    unfolding run(1) Cons.prems(7) by (auto simp: fs_without_def)
  have rest: "process_lines opts env spec uid listTime (n + 1) (map root_line rs) ?run = (run', stopped)"
    using Cons.prems(6,8) by simp
  have "\<not> stopped \<and> jr_fs run' = fs_without (insert (sr_AutoLink sr) S \<union> sr_AutoLink ` set rs) fs \<and>
      us_Removed (jr_sum run') = us_Removed (jr_sum ?run) + int (length rs) \<and>
      us_Refused (jr_sum run') = us_Refused (jr_sum ?run) \<and> us_Would (jr_sum run') = us_Would (jr_sum ?run)"
  proof (rule Cons.IH [OF _ _ _ _ Cons.prems(5) _ fs rest])
    show "distinct (map sr_AutoLink rs)" "n + 1 + int (length rs) \<le> uo_MaxLines opts" using Cons.prems(2,6) by simp_all
    show "sr_AutoLink ` set rs \<inter> insert (sr_AutoLink sr) S = {}" using Cons.prems(2,3) by auto
    show "sr_Link ` set rs \<inter> (insert (sr_AutoLink sr) S \<union> sr_AutoLink ` set rs) = {}" using Cons.prems(4) by auto
  qed (use Cons.prems(1) in simp)
  then show ?case using run by (simp add: insert_commute)
qed simp

text \<open>Out-links are not auto entries: no listed out-link lies under \<open>gcroots\<close>, every auto entry does.\<close>

lemma auto_entry_under_gcroots:
  assumes "is_abs d" "''gcroots'' \<in> set (clean_elements d)" "auto_name name"
  shows "\<not> list_all (\<lambda>e. e \<noteq> ''gcroots'' \<and> e \<noteq> ''profiles'') (path_elements (path_dir (join_path [d, name])))"
proof -
  have "path_dir (join_path [d, name]) = clean_path d"
    using assms auto_name_plain by (intro path_dir_join) (auto simp: auto_name_def)
  moreover have "''gcroots'' \<in> set (path_elements (clean_path d))"
    using path_elements_clean [OF assms(1)] assms(2) by (auto simp: path_elements_def)
  ultimately show ?thesis by (auto simp: list_all_iff)
qed

text \<open>C23:
  The daemon's proposals are carried out, end to end: if the reaper's stale roots are published and
  the job, configured for the same auto directory with no longer link age, reads that file as a
  list of the daemon's user, then on an unchanged file system with canonical link texts it removes
  exactly the auto entries of the listed roots, as many as the daemon counted, and refuses none; no
  out-link and no other path changes.
\<close>

theorem proposals_unregistered:
  assumes "collect fs resolve r (Inr names) tempDirs direnvAfter tempAfter = Inr roots"
    and "writeNixGCRootCandidates f p roots files = (states, Inr n)" "p \<noteq> cf_tmp f" "last states p = Some content"
    and "uo_Lists opts = [spec]" "je_open env (ls_File spec) = ListOpen (Some list) content False"
    and "list_uid env spec = Inr (gr_uid r)" "check_list opts (je_now env) (gr_uid r) (Some list) = Inr listTime"
    and "uo_AutoDir opts = gr_autoDir r" "is_abs (gr_autoDir r)" "''gcroots'' \<in> set (clean_elements (gr_autoDir r))"
    and "gr_storeDir r = ''/nix/store''" "list_all auto_name names" "gr_now r \<le> je_now env"
    and "uo_MinLinkAge opts \<le> min direnvAfter tempAfter" "int n < uo_MaxLines opts" "\<not> uo_ReportOnly opts"
    and "list_all (\<lambda>sr. canonical_root fs listTime sr \<and> readable_root sr \<and> \<not> je_remove_fails env (sr_AutoLink sr)) (filter listed roots)"
  shows "jr_fs (GCRootUnregister opts env fs) = fs_without (sr_AutoLink ` set (filter listed roots)) fs \<and>
    us_Removed (jr_sum (GCRootUnregister opts env fs)) = int n \<and> us_Refused (jr_sum (GCRootUnregister opts env fs)) = 0"
proof -
  let ?rs = "filter listed roots"
  let ?run0 = "\<lparr>jr_fs = fs, jr_receipts = [], jr_sum = \<lparr>us_Removed = 0, us_Would = 0, us_Refused = 0\<rparr>\<rparr>"
  have n: "n = length ?rs" and content: "content = candidates_text roots"
    using assms(2-4) by (auto simp: writeNixGCRootCandidates_def Let_def split: option.splits)
  have scanned: "scan_lines content = (nixGCRootCandidatesHeader # map root_line ?rs, False)"
    unfolding content using assms(18) by (intro scan_candidates) (auto simp: list_all_iff)
  have accepted: "checkEntry opts (je_now env) fs (gr_uid r) listTime (path_base (sr_AutoLink sr)) (sr_Link sr) = [] \<and>
      join_path [uo_AutoDir opts, path_base (sr_AutoLink sr)] = sr_AutoLink sr \<and> auto_name (path_base (sr_AutoLink sr))"
    if "sr \<in> set ?rs" for sr
    using that assms(18) by (intro proposal_accepted [OF assms(1) _ _ assms(12,9,13,15,14)]) (auto simp: listed_def list_all_iff)
  have lines: "list_all (\<lambda>sr. checkEntry opts (je_now env) fs (gr_uid r) listTime (path_base (sr_AutoLink sr)) (sr_Link sr) = [] \<and>
      join_path [uo_AutoDir opts, path_base (sr_AutoLink sr)] = sr_AutoLink sr \<and>
      parse_entry (root_line sr) = Entry (path_base (sr_AutoLink sr)) (sr_Link sr) \<and> \<not> je_remove_fails env (sr_AutoLink sr)) ?rs"
    using accepted assms(18) parse_root_line by (simp add: list_all_iff)
  have "inj_on sr_AutoLink (set ?rs)"
  proof (rule inj_onI)
    fix x y assume xy: "x \<in> set ?rs" "y \<in> set ?rs" "sr_AutoLink x = sr_AutoLink y"
    have "registers fs r names (sr_AutoLink z) (sr_Link z)" if "z \<in> set ?rs" for z
    proof -
      from that have "z \<in> set roots" by simp
      then show ?thesis by (rule stale_root_age [OF assms(1)])
    qed
    from this [OF xy(1)] this [OF xy(2)] have "sr_Link x = sr_Link y" unfolding registers_def xy(3) by simp
    with xy collect_distinct [OF assms(1)] show "x = y" by (auto simp: distinct_map dest: inj_onD)
  qed
  moreover have "distinct roots" using collect_distinct [OF assms(1)] by (simp add: distinct_map)
  ultimately have autos: "distinct (map sr_AutoLink ?rs)" by (simp add: distinct_map)
  have "sr_Link x \<noteq> sr_AutoLink y" if "x \<in> set ?rs" "y \<in> set ?rs" for x y
  proof
    assume eq: "sr_Link x = sr_AutoLink y"
    have "list_all (\<lambda>e. e \<noteq> ''gcroots'' \<and> e \<noteq> ''profiles'') (path_elements (path_dir (sr_Link x)))"
      using accepted [OF that(1)] unfolding checkEntry_iff by blast
    moreover have "join_path [gr_autoDir r, path_base (sr_AutoLink y)] = sr_AutoLink y" "auto_name (path_base (sr_AutoLink y))"
      using accepted [OF that(2)] unfolding assms(9) by blast+
    ultimately show False using auto_entry_under_gcroots [OF assms(10,11), of "path_base (sr_AutoLink y)"] unfolding eq by simp
  qed
  then have apart: "sr_Link ` set ?rs \<inter> ({} \<union> sr_AutoLink ` set ?rs) = {}" by auto
  obtain run stopped where run: "process_lines opts env spec (gr_uid r) listTime 1 (map root_line ?rs) ?run0 = (run, stopped)"
    by fastforce
  have "\<not> stopped \<and> jr_fs run = fs_without ({} \<union> sr_AutoLink ` set ?rs) fs \<and>
      us_Removed (jr_sum run) = us_Removed (jr_sum ?run0) + int (length ?rs) \<and>
      us_Refused (jr_sum run) = us_Refused (jr_sum ?run0) \<and> us_Would (jr_sum run) = us_Would (jr_sum ?run0)"
    using assms(16) n by (intro process_roots [OF lines autos _ apart assms(17) _ _ run]) (simp_all add: fs_without_def fun_eq_iff)
  moreover have "process_lines opts env spec (gr_uid r) listTime 0 (nixGCRootCandidatesHeader # map root_line ?rs) ?run0 = (run, stopped)"
    using run header_line assms(16) by (simp add: process_line_def)
  ultimately have "processList opts env spec ?run0 = run"
    using scanned assms(6-8) by (simp add: processList_def)
  with \<open>\<not> stopped \<and> _\<close> show ?thesis
    using assms(5,16) n by (simp add: GCRootUnregister_def Let_def)
qed

subsection \<open>A concrete run\<close>

definition demo_roots :: "stale_root list" where
  "demo_roots =
     (case collect demo_fs (\<lambda>p. None) demo_reaper (Inr demo_names) [''/tmp''] (168 * hour) (72 * hour) of
        Inl e \<Rightarrow> [] | Inr roots \<Rightarrow> roots)"

definition demo_options :: unregister_options where
  "demo_options =
     \<lparr>uo_AutoDir = ''/nix/var/nix/gcroots/auto'', uo_Receipts = [], uo_MaxReceiptsBytes = 0, uo_ReportOnly = False,
      uo_MaxListAge = hour, uo_MinLinkAge = 72 * hour, uo_MaxLines = 20000,
      uo_Lists = [\<lparr>ls_User = ''u'', ls_File = ''/home/u/list''\<rparr>]\<rparr>"

definition demo_job :: job_env where
  "demo_job =
     \<lparr>je_user = (\<lambda>u. Some ''1000''),
      je_open = (\<lambda>p. ListOpen (Some \<lparr>in_symlink = False, in_regular = True, in_uid = 1000, in_mtime = 300 * hour, in_dest = []\<rparr>)
                       (candidates_text demo_roots) False),
      je_now = 300 * hour + minute, je_remove_fails = (\<lambda>p. False)\<rparr>"

definition no_candidate_faults :: "path \<Rightarrow> candidate_faults" where
  "no_candidate_faults tmp =
     \<lparr>cf_mkdir = None, cf_create = None, cf_write = None, cf_partial = [], cf_chmod = None, cf_close = None,
      cf_rename = None, cf_unlinked = True, cf_tmp = tmp\<rparr>"

lemma demo_roots_listed:
  "map (\<lambda>sr. (sr_AutoLink sr, sr_Link sr)) (filter listed demo_roots) =
     [(''/nix/var/nix/gcroots/auto/q3'', ''/home/u/p/.direnv/flake-inputs/b''),
      (''/nix/var/nix/gcroots/auto/q2'', ''/home/u/p/.direnv/flake-profile-a''),
      (''/nix/var/nix/gcroots/auto/q1'', ''/tmp/claude-7/result'')]"
  "list_all (\<lambda>sr. canonical_root demo_fs (300 * hour) sr \<and> readable_root sr) (filter listed demo_roots)"
  by code_simp+

lemma demo_roots_readable: "list_all readable_root (filter listed demo_roots)"
  using demo_roots_listed(2) by (simp add: list_all_iff)

lemma demo_roots_collected:
  "collect demo_fs (\<lambda>p. None) demo_reaper (Inr demo_names) [''/tmp''] (168 * hour) (72 * hour) = Inr demo_roots"
  using demo_collect by (auto simp: demo_roots_def split: sum.splits)

lemma demo_lists:
  "list_uid demo_job \<lparr>ls_User = ''u'', ls_File = ''/home/u/list''\<rparr> = Inr (gr_uid demo_reaper)"
  "check_list demo_options (je_now demo_job) (gr_uid demo_reaper)
     (Some \<lparr>in_symlink = False, in_regular = True, in_uid = 1000, in_mtime = 300 * hour, in_dest = []\<rparr>) = Inr (300 * hour)"
  "list_all auto_name demo_names" "is_abs (gr_autoDir demo_reaper)"
  "''gcroots'' \<in> set (clean_elements (gr_autoDir demo_reaper))"
  by code_simp+

theorem candidates_roundtrip_witness:
  "map parse_entry (fst (scan_lines (candidates_text demo_roots))) =
     [SkipLine, Entry ''q3'' ''/home/u/p/.direnv/flake-inputs/b'', Entry ''q2'' ''/home/u/p/.direnv/flake-profile-a'',
      Entry ''q1'' ''/tmp/claude-7/result'']"
proof -
  have base: "path_base (''/nix/var/nix/gcroots/auto/q'' @ [c]) = ''q'' @ [c]" if "c \<in> {CHR ''1'', CHR ''2'', CHR ''3''}" for c
    using that by (elim insertE emptyE) (simp only:, code_simp)+
  have "map (\<lambda>sr. Entry (path_base (sr_AutoLink sr)) (sr_Link sr)) (filter listed demo_roots) =
      map (\<lambda>(a, l). Entry (path_base a) l) (map (\<lambda>sr. (sr_AutoLink sr, sr_Link sr)) (filter listed demo_roots))"
    by simp
  also have "\<dots> = [Entry ''q3'' ''/home/u/p/.direnv/flake-inputs/b'', Entry ''q2'' ''/home/u/p/.direnv/flake-profile-a'',
      Entry ''q1'' ''/tmp/claude-7/result'']"
    unfolding demo_roots_listed(1) using base [of "CHR ''1''"] base [of "CHR ''2''"] base [of "CHR ''3''"] by simp
  finally show ?thesis using candidates_roundtrip [OF demo_roots_readable] by simp
qed

theorem proposals_unregistered_witness:
  "us_Removed (jr_sum (GCRootUnregister demo_options demo_job demo_fs)) = 3 \<and>
   jr_fs (GCRootUnregister demo_options demo_job demo_fs) ''/nix/var/nix/gcroots/auto/q1'' = Missing \<and>
   jr_fs (GCRootUnregister demo_options demo_job demo_fs) ''/tmp/claude-7/result'' = demo_fs ''/tmp/claude-7/result''"
proof -
  let ?f = "no_candidate_faults ''/home/u/.tmp''"
  have len: "length (filter listed demo_roots) = 3"
    using arg_cong [OF demo_roots_listed(1), of length] by simp
  have autos: "sr_AutoLink ` set (filter listed demo_roots) = fst ` set (map (\<lambda>sr. (sr_AutoLink sr, sr_Link sr)) (filter listed demo_roots))"
    by (simp add: image_image)
  obtain states where states: "writeNixGCRootCandidates ?f ''/home/u/list'' demo_roots (\<lambda>p. None) = (states, Inr 3)"
      "last states ''/home/u/list'' = Some (candidates_text demo_roots)"
    using that by (simp add: writeNixGCRootCandidates_def no_candidate_faults_def first_fault_def Let_def len)
  have removable: "list_all (\<lambda>sr. canonical_root demo_fs (300 * hour) sr \<and> readable_root sr \<and>
      \<not> je_remove_fails demo_job (sr_AutoLink sr)) (filter listed demo_roots)"
    using demo_roots_listed(2) by (simp add: demo_job_def list_all_iff)
  have "jr_fs (GCRootUnregister demo_options demo_job demo_fs) = fs_without (sr_AutoLink ` set (filter listed demo_roots)) demo_fs \<and>
      us_Removed (jr_sum (GCRootUnregister demo_options demo_job demo_fs)) = int 3 \<and>
      us_Refused (jr_sum (GCRootUnregister demo_options demo_job demo_fs)) = 0"
    by (rule proposals_unregistered [OF demo_roots_collected states(1) _ states(2) _ _ demo_lists(1,2) _ demo_lists(4,5)
          _ demo_lists(3) _ _ _ _ removable])
      (simp_all add: no_candidate_faults_def demo_options_def demo_job_def demo_reaper_def duration_units)
  moreover have "''/nix/var/nix/gcroots/auto/q1'' \<in> sr_AutoLink ` set (filter listed demo_roots)"
      "''/tmp/claude-7/result'' \<notin> sr_AutoLink ` set (filter listed demo_roots)"
    unfolding autos demo_roots_listed(1) by simp_all
  ultimately show ?thesis by (simp add: fs_without_def)
qed

definition small_job :: job_env where
  "small_job = demo_job\<lparr>je_open :=
     (\<lambda>p. ListOpen (Some \<lparr>in_symlink = False, in_regular = True, in_uid = 1000, in_mtime = 300 * hour, in_dest = []\<rparr>)
            (''q1'' @ [tab] @ ''/tmp/claude-7/result'' @ [line_feed]) False)\<rparr>"

lemma small_run:
  "jr_fs (GCRootUnregister demo_options small_job demo_fs) ''/nix/var/nix/gcroots/auto/q1'' = Missing"
  "demo_fs ''/nix/var/nix/gcroots/auto/q1'' \<noteq> Missing"
  by code_simp+

theorem unregister_only_checked_witness:
  "us_Removed (jr_sum (GCRootUnregister demo_options small_job demo_fs)) =
     int (card {q. jr_fs (GCRootUnregister demo_options small_job demo_fs) q \<noteq> demo_fs q}) \<and>
   is_abs (uo_AutoDir demo_options) \<and>
   path_dir ''/nix/var/nix/gcroots/auto/q1'' = clean_path (uo_AutoDir demo_options)"
proof -
  have "jr_fs (GCRootUnregister demo_options small_job demo_fs) ''/nix/var/nix/gcroots/auto/q1'' \<noteq>
      demo_fs ''/nix/var/nix/gcroots/auto/q1''"
    using small_run by simp
  from unregister_only_checked [OF this] show ?thesis by (simp add: demo_options_def is_abs_def)
qed

end
