(* ===== verification/Profile_Prune.thy ===== *)
theory Profile_Prune
  imports GC_Roots
begin

text \<open>
  The privileged job that prunes profile generations, \<open>rootjobs/profile_prune.go\<close>.  The file system is
  a state that \<open>nix-env\<close> changes: \<open>pe_command\<close> is what running an argument vector does to it, with the
  error it ends in; \<open>pe_resolve\<close> is \<open>filepath.EvalSymlinks\<close>.  A run records every command together
  with the file system it was started on.
\<close>

record prune_options =
  po_KeepPrevious :: int
  po_Users :: "string list"
  po_NixEnv :: path
  po_Runuser :: path
  po_RootProfile :: path
  po_ReportOnly :: bool

record prune_env =
  pe_home :: "string \<Rightarrow> string + path"
  pe_resolve :: "filesystem \<Rightarrow> path \<Rightarrow> string + path"
  pe_command :: "string list \<Rightarrow> filesystem \<Rightarrow> string option \<times> filesystem"

record prune_run =
  pr_fs :: filesystem
  pr_trace :: "(string list \<times> filesystem) list"
  pr_out :: "string list"

definition say :: "string \<Rightarrow> prune_run \<Rightarrow> prune_run" where
  "say msg run = run\<lparr>pr_out := pr_out run @ [''profile-prune: '' @ msg]\<rparr>"

text \<open>The link text of a numbered generation of a profile.\<close>

definition numbered_link :: "string \<Rightarrow> string \<Rightarrow> bool" where
  "numbered_link name link =
     (let r = drop (length name + 1) link
      in prefix (name @ ''-'') link \<and> takeWhile is_digit r \<noteq> [] \<and> dropWhile is_digit r = ''-link'')"

text \<open>The text of a symlink, or the error of reading it.\<close>

definition readlink_text :: "filesystem \<Rightarrow> path \<Rightarrow> string + path" where
  "readlink_text fs p =
     (case fs p of
        Missing \<Rightarrow> Inl ''no such file or directory''
      | Unreadable e \<Rightarrow> Inl e
      | Found i \<Rightarrow> (if in_symlink i then Inr (in_dest i) else Inl ''invalid argument''))"

definition homeManagerRootsAgree :: "prune_env \<Rightarrow> filesystem \<Rightarrow> path \<Rightarrow> path \<Rightarrow> string option" where
  "homeManagerRootsAgree env fs profile currentHome =
     (case readlink_text fs profile of
        Inl e \<Rightarrow> Some (''Home Manager profile cannot be read: '' @ e)
      | Inr link \<Rightarrow>
          (if \<not> numbered_link ''home-manager'' link
           then Some (''Home Manager profile does not select a numbered generation: '' @ link)
           else case pe_resolve env fs profile of
             Inl e \<Rightarrow> Some (''Home Manager profile target is missing: '' @ e)
           | Inr a \<Rightarrow>
               (case pe_resolve env fs currentHome of
                  Inl e \<Rightarrow> Some (''Home Manager current-home root is missing: '' @ e)
                | Inr b \<Rightarrow>
                    (if a \<noteq> b then Some (''Home Manager roots disagree: profile='' @ a @ '' current-home='' @ b) else None))))"

text \<open>The store path the profile selects through a numbered generation, empty when there is none.\<close>

definition generationTarget :: "prune_env \<Rightarrow> filesystem \<Rightarrow> path \<Rightarrow> string + path" where
  "generationTarget env fs profile =
     (case fs profile of
        Missing \<Rightarrow> Inr []
      | Unreadable e \<Rightarrow> Inl e
      | Found i \<Rightarrow>
          (if \<not> in_symlink i then Inl (''profile is not a symlink: '' @ profile)
           else if \<not> numbered_link (path_base profile) (in_dest i) then Inr []
           else pe_resolve env fs profile))"

definition prune_argv :: "prune_options \<Rightarrow> path \<Rightarrow> string \<Rightarrow> string list \<Rightarrow> string list" where
  "prune_argv opts profile selector pre = pre @ [po_NixEnv opts, ''--profile'', profile, ''--delete-generations'', selector]"

definition pruneProfile ::
    "prune_options \<Rightarrow> prune_env \<Rightarrow> path \<Rightarrow> string \<Rightarrow> string list \<Rightarrow> prune_run \<Rightarrow> string option \<times> prune_run" where
  "pruneProfile opts env profile selector pre run =
     (case generationTarget env (pr_fs run) profile of
        Inl e \<Rightarrow> (Some e, run)
      | Inr before \<Rightarrow>
          (if before = [] then (None, say (''no numbered generations to prune: '' @ profile) run)
           else if po_ReportOnly opts
           then (None, say (''would run nix-env --profile '' @ profile @ '' --delete-generations '' @ selector) run)
           else let argv = prune_argv opts profile selector pre;
                    (err, fs) = pe_command env argv (pr_fs run);
                    run = run\<lparr>pr_fs := fs, pr_trace := pr_trace run @ [(argv, pr_fs run)]\<rparr>
                in case err of
                     Some e \<Rightarrow> (Some (''nix-env --profile '' @ profile @ '' --delete-generations '' @ selector @ '': '' @ e), run)
                   | None \<Rightarrow>
                       (case generationTarget env fs profile of
                          Inl e \<Rightarrow> (Some e, run)
                        | Inr after \<Rightarrow>
                            (if after \<noteq> before
                             then (Some (''profile current generation changed during prune: '' @ profile), run)
                             else (None, say (''pruned '' @ profile @ '' with '' @ selector) run)))))"

definition hm_profile :: "path \<Rightarrow> path" where
  "hm_profile home = join_path [home, ''.local/state/nix/profiles/home-manager'']"

definition current_home :: "path \<Rightarrow> path" where
  "current_home home = join_path [home, ''.local/state/home-manager/gcroots/current-home'']"

definition user_profile :: "path \<Rightarrow> path" where
  "user_profile home = join_path [home, ''.local/state/nix/profiles/profile'']"

definition as_user :: "prune_options \<Rightarrow> string \<Rightarrow> string list" where
  "as_user opts name = [po_Runuser opts, ''--user'', name, ''--'']"

definition pruneHomeManager ::
    "prune_options \<Rightarrow> prune_env \<Rightarrow> string \<Rightarrow> path \<Rightarrow> string \<Rightarrow> prune_run \<Rightarrow> string option \<times> prune_run" where
  "pruneHomeManager opts env name home selector run =
     (case homeManagerRootsAgree env (pr_fs run) (hm_profile home) (current_home home) of
        Some e \<Rightarrow> (Some e, run)
      | None \<Rightarrow>
          (case pruneProfile opts env (hm_profile home) selector (as_user opts name) run of
             (Some e, run) \<Rightarrow> (Some e, run)
           | (None, run) \<Rightarrow> (homeManagerRootsAgree env (pr_fs run) (hm_profile home) (current_home home), run)))"

definition pruneUser :: "prune_options \<Rightarrow> prune_env \<Rightarrow> string \<Rightarrow> string \<Rightarrow> prune_run \<Rightarrow> string option \<times> prune_run" where
  "pruneUser opts env name selector run =
     (case pe_home env name of
        Inl e \<Rightarrow> (Some e, run)
      | Inr home \<Rightarrow>
          (case (if lstat (pr_fs run) (hm_profile home) = None then (None, run)
                 else pruneHomeManager opts env name home selector run) of
             (Some e, run) \<Rightarrow> (Some e, run)
           | (None, run) \<Rightarrow> pruneProfile opts env (user_profile home) selector (as_user opts name) run))"

text \<open>Every user is tried; the failed ones are collected.\<close>

fun prune_users ::
    "prune_options \<Rightarrow> prune_env \<Rightarrow> string \<Rightarrow> string list \<Rightarrow> prune_run \<Rightarrow> string list \<times> prune_run" where
  "prune_users opts env selector [] run = ([], run)"
| "prune_users opts env selector (name # names) run =
     (case pruneUser opts env name selector run of
        (None, run) \<Rightarrow> prune_users opts env selector names run
      | (Some e, run) \<Rightarrow>
          (case prune_users opts env selector names (say (''user '' @ name @ '': '' @ e) run) of
             (failed, run) \<Rightarrow> (name # failed, run)))"

definition prune_selector :: "prune_options \<Rightarrow> string" where
  "prune_selector opts = (if po_KeepPrevious opts = 1 then ''+2'' else ''old'')"

definition ProfilePrune :: "prune_options \<Rightarrow> prune_env \<Rightarrow> filesystem \<Rightarrow> string option \<times> prune_run" where
  "ProfilePrune opts env fs =
     (let selector = prune_selector opts;
          (failed, run) = prune_users opts env selector (po_Users opts) \<lparr>pr_fs = fs, pr_trace = [], pr_out = []\<rparr>;
          (failed, run) =
            (if po_RootProfile opts = [] then (failed, run)
             else case pruneProfile opts env (po_RootProfile opts) selector [] run of
               (None, run) \<Rightarrow> (failed, run)
             | (Some e, run) \<Rightarrow> (failed @ [''root''], say (''root profile: '' @ e) run))
      in (if failed = [] then None else Some (''failed for '' @ join_strings '', '' failed), run))"

text \<open>The exit code and the run; \<open>flags\<close> is what parsing the flags gives.\<close>

definition RunProfilePrune :: "(prune_options \<times> string list) option \<Rightarrow> prune_env \<Rightarrow> filesystem \<Rightarrow> int \<times> prune_run option" where
  "RunProfilePrune flags env fs =
     (case flags of
        None \<Rightarrow> (2, None)
      | Some (opts, args) \<Rightarrow>
          (if po_KeepPrevious opts \<noteq> 0 \<and> po_KeepPrevious opts \<noteq> 1 then (2, None)
           else if args = [] then (2, None)
           else case ProfilePrune (opts\<lparr>po_Users := args\<rparr>) env fs of
             (None, run) \<Rightarrow> (0, Some run)
           | (Some e, run) \<Rightarrow> (1, Some (say e run))))"

subsection \<open>What a run may execute\<close>

text \<open>
  A command the job may start on a file system: it deletes old generations of one profile, with the
  configured selector, and that profile selects a numbered generation there.  In a successful run
  the command succeeded and the profile still selects the same generation.
\<close>

definition prunes :: "prune_options \<Rightarrow> prune_env \<Rightarrow> bool \<Rightarrow> path \<Rightarrow> string list \<Rightarrow> string list \<times> filesystem \<Rightarrow> bool" where
  "prunes opts env ok profile pre c =
     (case c of (argv, fs) \<Rightarrow>
        argv = prune_argv opts profile (prune_selector opts) pre \<and>
        (case generationTarget env fs profile of Inl e \<Rightarrow> False | Inr t \<Rightarrow> t \<noteq> []) \<and>
        (\<not> ok \<or> fst (pe_command env argv fs) = None \<and>
           generationTarget env (snd (pe_command env argv fs)) profile = generationTarget env fs profile))"

text \<open>The Home Manager profile of a user does not stand in the way of pruning.\<close>

definition settled :: "prune_env \<Rightarrow> path \<Rightarrow> filesystem \<Rightarrow> bool" where
  "settled env home fs =
     (lstat fs (hm_profile home) = None \<or> homeManagerRootsAgree env fs (hm_profile home) (current_home home) = None)"

definition user_command :: "prune_options \<Rightarrow> prune_env \<Rightarrow> bool \<Rightarrow> string \<Rightarrow> string list \<times> filesystem \<Rightarrow> bool" where
  "user_command opts env ok name c =
     (case pe_home env name of
        Inl e \<Rightarrow> False
      | Inr home \<Rightarrow>
          settled env home (snd c) \<and>
          (prunes opts env ok (user_profile home) (as_user opts name) c \<or> prunes opts env ok (hm_profile home) (as_user opts name) c))"

definition job_command :: "prune_options \<Rightarrow> prune_env \<Rightarrow> bool \<Rightarrow> string list \<times> filesystem \<Rightarrow> bool" where
  "job_command opts env ok c =
     (list_ex (\<lambda>name. user_command opts env ok name c) (po_Users opts) \<or>
      po_RootProfile opts \<noteq> [] \<and> prunes opts env ok (po_RootProfile opts) [] c)"

text \<open>What a step of the run adds to the trace; without commands it leaves the file system alone.\<close>

definition extends :: "bool \<Rightarrow> (string list \<times> filesystem \<Rightarrow> bool) \<Rightarrow> prune_run \<Rightarrow> prune_run \<Rightarrow> bool" where
  "extends armed permitted run run' =
     (\<exists>cs. pr_trace run' = pr_trace run @ cs \<and> list_all permitted cs \<and> (cs = [] \<longrightarrow> pr_fs run' = pr_fs run) \<and>
       (\<not> armed \<longrightarrow> cs = []))"

lemma say_simps [simp]: "pr_fs (say msg run) = pr_fs run" "pr_trace (say msg run) = pr_trace run"
  by (simp_all add: say_def)

lemma extends_refl [simp, intro]: "extends a P run run"
  by (simp add: extends_def)

lemma extends_say [simp]: "extends a P run (say msg run') = extends a P run run'"
  "extends a P (say msg run) run' = extends a P run run'"
  by (simp_all add: extends_def)

lemma extends_trans: "extends a P run run' \<Longrightarrow> extends a P run' run'' \<Longrightarrow> extends a P run run''"
  unfolding extends_def by (elim exE conjE) (rule_tac x = "cs @ csa" in exI, auto)

lemma extends_mono: "extends a P run run' \<Longrightarrow> (\<And>c. P c \<Longrightarrow> Q c) \<Longrightarrow> extends a Q run run'"
  unfolding extends_def list_all_iff by blast

lemma prunes_mono: "prunes opts env ok profile pre c \<Longrightarrow> (ok' \<Longrightarrow> ok) \<Longrightarrow> prunes opts env ok' profile pre c"
  by (auto simp: prunes_def)

lemma user_command_mono: "user_command opts env ok name c \<Longrightarrow> (ok' \<Longrightarrow> ok) \<Longrightarrow> user_command opts env ok' name c"
  by (cases c) (auto simp: user_command_def prunes_def split: sum.splits)

lemma extends_profile:
  assumes "pruneProfile opts env profile (prune_selector opts) pre run = (err, run')"
  shows "extends (\<not> po_ReportOnly opts) (\<lambda>c. prunes opts env (err = None) profile pre c \<and> snd c = pr_fs run) run run'"
proof (cases "\<exists>t. generationTarget env (pr_fs run) profile = Inr t \<and> t \<noteq> [] \<and> \<not> po_ReportOnly opts")
  case False
  with assms show ?thesis by (auto simp: pruneProfile_def split: sum.splits if_splits)
next
  case True
  let ?argv = "prune_argv opts profile (prune_selector opts) pre"
  obtain e fs where c: "pe_command env ?argv (pr_fs run) = (e, fs)" by fastforce
  with True assms have "prunes opts env (err = None) profile pre (?argv, pr_fs run)"
      "pr_trace run' = pr_trace run @ [(?argv, pr_fs run)]"
    by (auto simp: prunes_def pruneProfile_def Let_def split: option.splits sum.splits if_splits)
  with True show ?thesis unfolding extends_def by (intro exI [of _ "[(?argv, pr_fs run)]"]) auto
qed

lemma extends_user:
  assumes "pruneUser opts env name (prune_selector opts) run = (err, run')"
  shows "extends (\<not> po_ReportOnly opts) (user_command opts env (err = None) name) run run'"
proof (cases "pe_home env name")
  case (Inl e)
  with assms show ?thesis by (simp add: pruneUser_def)
next
  case (Inr home)
  let ?hm = "hm_profile home" and ?sel = "prune_selector opts" and ?as = "as_user opts name"
  let ?first = "if lstat (pr_fs run) ?hm = None then (None, run) else pruneHomeManager opts env name home ?sel run"
  have permitted: "extends (\<not> po_ReportOnly opts) (user_command opts env ok name) run1 run2"
    if "pruneProfile opts env profile ?sel ?as run1 = (e, run2)" "profile \<in> {user_profile home, ?hm}"
      "settled env home (pr_fs run1)" "ok \<Longrightarrow> e = None" for profile run1 run2 e ok
    using that prunes_mono [of opts env "e = None" profile ?as _ ok]
    by (intro extends_mono [OF extends_profile [OF that(1)]]) (auto simp: user_command_def Inr)
  obtain e1 run1 where first: "?first = (e1, run1)" by fastforce
  have step: "extends (\<not> po_ReportOnly opts) (user_command opts env (err = None) name) run run1 \<and>
      (e1 = None \<longrightarrow> settled env home (pr_fs run1))"
  proof (cases "lstat (pr_fs run) ?hm = None \<or> homeManagerRootsAgree env (pr_fs run) ?hm (current_home home) \<noteq> None")
    case True
    with first show ?thesis by (auto simp: pruneHomeManager_def settled_def split: if_splits)
  next
    case False
    obtain e0 run0 where hm: "pruneProfile opts env ?hm ?sel ?as run = (e0, run0)" by fastforce
    have "settled env home (pr_fs run)" using False by (simp add: settled_def)
    from permitted [OF hm _ this, of "err = None"] first hm False assms Inr show ?thesis
      by (auto simp: pruneHomeManager_def pruneUser_def settled_def split: option.splits)
  qed
  show ?thesis
  proof (cases e1)
    case None
    with assms Inr first have second: "pruneProfile opts env (user_profile home) ?sel ?as run1 = (err, run')"
      by (simp add: pruneUser_def)
    from step None permitted [OF second] show ?thesis by (blast intro: extends_trans)
  next
    case (Some e)
    with assms Inr first step show ?thesis by (simp add: pruneUser_def)
  qed
qed

lemma extends_users:
  assumes "prune_users opts env (prune_selector opts) names run = (failed, run')"
  shows "extends (\<not> po_ReportOnly opts) (\<lambda>c. list_ex (\<lambda>name. user_command opts env (failed = []) name c) names) run run'"
  using assms
proof (induction names arbitrary: run failed)
  case (Cons name names)
  obtain e run1 where user: "pruneUser opts env name (prune_selector opts) run = (e, run1)" by fastforce
  let ?run1 = "case e of None \<Rightarrow> run1 | Some err \<Rightarrow> say (''user '' @ name @ '': '' @ err) run1"
  obtain more where rest: "prune_users opts env (prune_selector opts) names ?run1 = (more, run')"
      and failed: "failed = (if e = None then more else name # more)"
    using Cons.prems user by (cases e) (auto split: prod.splits)
  have "extends (\<not> po_ReportOnly opts) (\<lambda>c. list_ex (\<lambda>name. user_command opts env (failed = []) name c) (name # names)) run run1"
    using user_command_mono by (intro extends_mono [OF extends_user [OF user]]) (auto simp: failed)
  moreover have "extends (\<not> po_ReportOnly opts) (\<lambda>c. list_ex (\<lambda>name. user_command opts env (failed = []) name c) (name # names)) ?run1 run'"
    using user_command_mono
    by (intro extends_mono [OF Cons.IH [OF rest]]) (fastforce simp: failed list_ex_iff split: if_splits)
  ultimately show ?case
    by (cases e) (auto intro: extends_trans)
qed simp

text \<open>C27:
  The prune job runs nothing but deletions of old generations, and only on declared profiles: every
  command is \<open>nix-env --delete-generations\<close> with the configured selector on a declared user's own or
  Home Manager profile, as that user, or on root's profile; the profile selects a numbered
  generation when it starts, and for a user the Home Manager roots agree at that moment.  In
  report-only mode there is no command, and without commands the file system stays as it was.  When
  the job reports success every command succeeded and left its profile's current generation as it was.
\<close>

theorem prune_guarded:
  assumes "ProfilePrune opts env fs = (err, run)"
  shows "list_all (job_command opts env (err = None)) (pr_trace run) \<and>
    (po_ReportOnly opts \<longrightarrow> pr_trace run = []) \<and> (pr_trace run = [] \<longrightarrow> pr_fs run = fs)"
proof -
  let ?run0 = "\<lparr>pr_fs = fs, pr_trace = [], pr_out = []\<rparr>"
  let ?P = "job_command opts env (err = None)"
  obtain failed run1 where users: "prune_users opts env (prune_selector opts) (po_Users opts) ?run0 = (failed, run1)" by fastforce
  obtain e run2 where rest: "pruneProfile opts env (po_RootProfile opts) (prune_selector opts) [] run1 = (e, run2)" by fastforce
  have fails: "err = None \<Longrightarrow> failed = []" "err = None \<Longrightarrow> po_RootProfile opts \<noteq> [] \<Longrightarrow> e = None"
    using assms users rest by (auto simp: ProfilePrune_def Let_def split: option.splits if_splits)
  have "extends (\<not> po_ReportOnly opts) ?P ?run0 run1"
    using user_command_mono fails(1)
    by (intro extends_mono [OF extends_users [OF users]]) (fastforce simp: job_command_def list_ex_iff)
  moreover have "extends (\<not> po_ReportOnly opts) ?P run1 run2" if "po_RootProfile opts \<noteq> []"
    using prunes_mono fails(2) that by (intro extends_mono [OF extends_profile [OF rest]]) (auto simp: job_command_def)
  ultimately have "extends (\<not> po_ReportOnly opts) ?P ?run0 run"
    using assms users rest
    by (auto simp: ProfilePrune_def Let_def intro: extends_trans split: option.splits if_splits)
  then show ?thesis by (auto simp: extends_def)
qed

definition prune_demo_options :: prune_options where
  "prune_demo_options =
     \<lparr>po_KeepPrevious = 1, po_Users = [''u''], po_NixEnv = ''nix-env'', po_Runuser = ''runuser'', po_RootProfile = [],
      po_ReportOnly = False\<rparr>"

definition prune_demo_env :: prune_env where
  "prune_demo_env =
     \<lparr>pe_home = (\<lambda>u. Inr ''/h''),
      pe_resolve = (\<lambda>fs p. if p = user_profile ''/h'' then Inr ''/nix/store/p'' else Inr ''/nix/store/h''),
      pe_command = (\<lambda>argv fs. (None, fs))\<rparr>"

definition prune_demo_fs :: filesystem where
  "prune_demo_fs p =
     (if p = user_profile ''/h'' then symlink_inode 0 0 ''profile-3-link''
      else if p = hm_profile ''/h'' then symlink_inode 0 0 ''home-manager-7-link'' else Missing)"

lemma prune_demo_run:
  "fst (ProfilePrune prune_demo_options prune_demo_env prune_demo_fs) = None"
  "map fst (pr_trace (snd (ProfilePrune prune_demo_options prune_demo_env prune_demo_fs))) =
     [[''runuser'', ''--user'', ''u'', ''--'', ''nix-env'', ''--profile'', ''/h/.local/state/nix/profiles/home-manager'',
       ''--delete-generations'', ''+2''],
      [''runuser'', ''--user'', ''u'', ''--'', ''nix-env'', ''--profile'', ''/h/.local/state/nix/profiles/profile'',
       ''--delete-generations'', ''+2'']]"
  by code_simp+

theorem prune_guarded_witness:
  "length (pr_trace (snd (ProfilePrune prune_demo_options prune_demo_env prune_demo_fs))) = 2 \<and>
   list_all (job_command prune_demo_options prune_demo_env True)
     (pr_trace (snd (ProfilePrune prune_demo_options prune_demo_env prune_demo_fs)))"
proof -
  let ?r = "ProfilePrune prune_demo_options prune_demo_env prune_demo_fs"
  have "?r = (None, snd ?r)" using prune_demo_run(1) by (cases ?r) simp
  from prune_guarded [OF this] show ?thesis
    using arg_cong [OF prune_demo_run(2), of length] by simp
qed

end
