(* ===== verification/File_Tree.thy ===== *)
theory File_Tree
  imports Globs
begin

text \<open>
  What the plugins see of a file system: \<open>Lstat\<close> at a path, the names \<open>filepath.EvalSymlinks\<close> and
  \<open>filepath.Glob\<close> give, and the entries a walk visits.  All are observations, the same for every
  question of one evaluation.  The times that ages are measured from are those of \<open>plugins/fs.go\<close>.
\<close>

datatype file_kind = Directory | Regular | Symlink | Special

record file_stat =
  st_kind :: file_kind
  st_dev :: int
  st_ino :: int
  st_uid :: int
  st_blocks :: int
  st_size :: int
  st_mtime :: instant
  st_ctime :: instant

text \<open>An error of \<open>Lstat\<close> is \<open>None\<close>.\<close>

type_synonym file_tree = "path \<Rightarrow> file_stat option"

datatype resolution = Resolved path | NotThere | Unresolved string

type_synonym resolver = "path \<Rightarrow> resolution"

text \<open>\<open>filepath.WalkDir\<close> calls its function once per event, in this order, until it returns an error.
  \<open>we_info\<close> is what \<open>Info\<close> of the entry gives; \<open>we_done\<close> says that the context has ended by then.\<close>

record walk_event =
  we_path :: path
  we_error :: "string option"
  we_kind :: file_kind
  we_info :: "string + file_stat"
  we_done :: bool

definition bbIsRealDir :: "file_tree \<Rightarrow> path \<Rightarrow> bool" where
  "bbIsRealDir t p = (case t p of None \<Rightarrow> False | Some s \<Rightarrow> st_kind s = Directory)"

definition bbIsRegular :: "file_tree \<Rightarrow> path \<Rightarrow> bool" where
  "bbIsRegular t p = (case t p of None \<Rightarrow> False | Some s \<Rightarrow> st_kind s = Regular)"

definition bbExistsLstat :: "file_tree \<Rightarrow> path \<Rightarrow> bool" where
  "bbExistsLstat t p = (t p \<noteq> None)"

subsection \<open>\<open>filepath.Glob\<close>\<close>

text \<open>Whether \<open>Match\<close> finds a pattern well-formed.\<close>

function glob_wf :: "string \<Rightarrow> bool" where
  "glob_wf p =
     (case p of
        [] \<Rightarrow> True
      | c # r \<Rightarrow>
          if c = CHR ''[''
          then (case class_ranges (if r \<noteq> [] \<and> hd r = CHR ''^'' then tl r else r) [] of
                  None \<Rightarrow> False
                | Some (_, rest) \<Rightarrow> glob_wf rest)
          else if c = CHR 0x5C then r \<noteq> [] \<and> glob_wf (tl r) else glob_wf r)"
  by pat_completeness auto
termination
proof (relation "measure length", goal_cases)
  case (2 p c r x rs rest)
  then show ?case by (auto dest!: class_ranges_length split: if_splits simp: length_tl)
qed (auto simp: length_tl)

declare glob_wf.simps [simp del]

definition glob_meta :: "string \<Rightarrow> bool" where
  "glob_meta s = list_ex (\<lambda>c. c = CHR ''*'' \<or> c = CHR ''?'' \<or> c = CHR ''['' \<or> c = CHR 0x5C) s"

text \<open>The matches of the first \<open>n\<close> elements of a cleaned pattern.  \<open>names\<close> gives the sorted entries of a
  directory, none for what is not one or cannot be read.\<close>

fun glob_elements :: "file_tree \<Rightarrow> (path \<Rightarrow> string list) \<Rightarrow> path \<Rightarrow> nat \<Rightarrow> string + path list" where
  "glob_elements t names p 0 = Inr (if bbExistsLstat t (path_up p 0) then [path_up p 0] else [])"
| "glob_elements t names p (Suc n) =
     (let pattern = path_up p (Suc n); dir = path_up p n; file = clean_elements p ! n
      in if \<not> glob_wf pattern then Inl ''syntax error in pattern''
         else if \<not> glob_meta pattern then Inr (if bbExistsLstat t pattern then [pattern] else [])
         else case (if glob_meta dir then glob_elements t names p n else Inr [dir]) of
                Inl e \<Rightarrow> Inl e
              | Inr ds \<Rightarrow> Inr (concat (map (\<lambda>d. map (\<lambda>m. join_path [d, m]) (filter (glob_match file) (names d))) ds)))"

definition Glob :: "file_tree \<Rightarrow> (path \<Rightarrow> string list) \<Rightarrow> path \<Rightarrow> string + path list" where
  "Glob t names p = glob_elements t names p (length (clean_elements p))"

subsection \<open>Resolved paths\<close>

text \<open>The path with its symlinks resolved; where it does not exist, with those of its nearest ancestor
  that does.\<close>

fun resolve_above :: "resolver \<Rightarrow> path \<Rightarrow> nat \<Rightarrow> path option" where
  "resolve_above resolve p 0 = None"
| "resolve_above resolve p (Suc n) =
     (case resolve (path_up p n) of
        Resolved phys \<Rightarrow> Some (join_path [phys, join_strings ''/'' (drop n (clean_elements p))])
      | _ \<Rightarrow> resolve_above resolve p n)"

definition resolvedOrSelf :: "resolver \<Rightarrow> path \<Rightarrow> path" where
  "resolvedOrSelf resolve path =
     (let p = clean_path path
      in case resolve p of
           Resolved phys \<Rightarrow> phys
         | _ \<Rightarrow> (case resolve_above resolve p (length (clean_elements p)) of None \<Rightarrow> p | Some q \<Rightarrow> q))"

definition uniquePaths :: "path list \<Rightarrow> path list" where
  "uniquePaths paths = fold (\<lambda>p out. if p \<in> set out then out else out @ [p]) paths []"

lemma uniquePaths_set [simp]: "set (uniquePaths paths) = set paths"
proof -
  have "set (fold (\<lambda>p out. if p \<in> set out then out else out @ [p]) ps acc) = set acc \<union> set ps" for ps acc
    by (induction ps arbitrary: acc) auto
  from this [of paths "[]"] show ?thesis by (simp add: uniquePaths_def)
qed

subsection \<open>Ages\<close>

definition futureMtimeTolerance :: duration where "futureMtimeTolerance = 5 * minute"

definition effectiveModTime :: "file_stat \<Rightarrow> instant \<Rightarrow> instant" where
  "effectiveModTime s now =
     (if \<not> now + futureMtimeTolerance < st_mtime s then st_mtime s
      else if \<not> now + futureMtimeTolerance < st_ctime s then st_ctime s else now)"

text \<open>No entry is too far in the future to age.\<close>

lemma effectiveModTime_bound: "effectiveModTime s now \<le> now + futureMtimeTolerance"
  by (simp add: effectiveModTime_def futureMtimeTolerance_def duration_units)

subsection \<open>Top-level entries, oldest first\<close>

record temp_root =
  tr_name :: string
  tr_path :: path
  tr_info :: file_stat

text \<open>The entries of \<open>os.ReadDir\<close> whose \<open>Info\<close> succeeds, by effective time and then by name.\<close>

definition tempScanRootsOldestFirst ::
    "instant \<Rightarrow> path \<Rightarrow> string + (string \<times> file_stat option) list \<Rightarrow> string + temp_root list" where
  "tempScanRootsOldestFirst now scanPath entries =
     map_sum id (\<lambda>es. sort_key (\<lambda>r. effectiveModTime (tr_info r) now)
       (sort_key tr_name (concat (map (\<lambda>(name, info).
          case info of None \<Rightarrow> [] | Some s \<Rightarrow> [\<lparr>tr_name = name, tr_path = join_path [scanPath, name], tr_info = s\<rparr>]) es)))) entries"

lemma oldest_first:
  assumes "tempScanRootsOldestFirst now scanPath (Inr es) = Inr roots"
  shows "sorted (map (\<lambda>r. effectiveModTime (tr_info r) now) roots)"
  using assms by (auto simp: tempScanRootsOldestFirst_def)

subsection \<open>Allocated sizes\<close>

text \<open>Blocks where the file system counts them, else the apparent size.\<close>

definition getFileAllocatedBytes :: "file_tree \<Rightarrow> path \<Rightarrow> int option" where
  "getFileAllocatedBytes t p =
     map_option (\<lambda>s. if st_blocks s \<le> 0 then st_size s else st_blocks s * 512) (t p)"

fun allocated_walk :: "file_tree \<Rightarrow> int \<Rightarrow> walk_event list \<Rightarrow> int \<times> string option" where
  "allocated_walk t bytes [] = (bytes, None)"
| "allocated_walk t bytes (e # es) =
     (if we_done e then (bytes, Some ''context canceled'')
      else if we_error e \<noteq> None \<or> we_kind e = Directory then allocated_walk t bytes es
      else allocated_walk t (bytes + (case getFileAllocatedBytes t (we_path e) of
             Some b \<Rightarrow> b | None \<Rightarrow> (case we_info e of Inr s \<Rightarrow> st_size s | Inl _ \<Rightarrow> 0))) es)"

text \<open>The flag says whether the context has ended when the walk is over.\<close>

definition getDirAllocatedBytesContext :: "file_tree \<Rightarrow> walk_event list \<times> bool \<Rightarrow> int \<times> string option" where
  "getDirAllocatedBytesContext t walk =
     (case allocated_walk t 0 (fst walk) of
        (bytes, Some e) \<Rightarrow> (bytes, Some e)
      | (bytes, None) \<Rightarrow> (bytes, if snd walk then Some ''context canceled'' else None))"

end
