(* ===== verification/Agent_Session.thy ===== *)
theory Agent_Session
  imports File_Tree
begin

text \<open>
  The agent-session deny set of \<open>plugins/agentsession.go\<close>: the compiled-in stores, the snapshot a cycle
  takes of them with its indexes, the rule for per-repository session directories and its two
  exceptions, and the questions a removal asks.  Compiled-in stores stay denied whatever the
  configuration says, and the indexed test answers as a scan of all patterns would.
\<close>

subsection \<open>The compiled-in set\<close>

definition agentSessionHomeRelative :: "path list" where
  "agentSessionHomeRelative =
     [''.claude'', ''.codex'', ''.gstack'', ''.pi'', ''.kimi*'', ''.junie'', ''.opencode'',
      ''.crush'', ''.fuzzybot'', ''.cmux*'', ''.tmux*'',
      ''.config/claude'', ''.config/codex'', ''.config/opencode'', ''.config/junie'',
      ''.config/pi'', ''.config/kimi*'', ''.config/cmux*'', ''.config/tmux'', ''.config/crush'',
      ''.local/share/claude'', ''.local/share/codex'', ''.local/share/junie'',
      ''.local/share/opencode'', ''.local/share/pi'', ''.local/share/kimi*'',
      ''.local/share/cmux*'', ''.local/share/tmux'', ''.local/share/crush'',
      ''.local/state/claude'', ''.local/state/codex'', ''.local/state/junie'',
      ''.local/state/opencode'', ''.local/state/pi'', ''.local/state/kimi*'',
      ''.local/state/cmux*'', ''.local/state/tmux'',
      ''.cache/claude*'', ''.cache/codex*'', ''.cache/opencode'', ''.cache/pi'',
      ''.cache/kimi*'', ''.cache/junie'', ''.cache/crush'',
      ''Library/Application Support/Claude'', ''Library/Application Support/Codex'',
      ''Library/Application Support/cmux'', ''Library/Application Support/com.cmuxterm.*'',
      ''Library/Caches/kimi-code'', ''Library/Caches/com.cmuxterm.*'']"

definition agentSessionDirNames :: "string list" where
  "agentSessionDirNames =
     [''.claude'', ''.codex'', ''.crush'', ''.fuzzybot'', ''.gstack'', ''.pi'', ''.kimi*'',
      ''.junie'', ''.opencode'', ''.cmux*'', ''.tmux*'']"

text \<open>The uid patterns, with the uid written in.\<close>

definition agentSessionUIDPatterns :: "int \<Rightarrow> path list" where
  "agentSessionUIDPatterns uid =
     map (\<lambda>p. p (show_int uid))
       [\<lambda>u. ''/tmp/tmux-'' @ u, \<lambda>u. ''/private/tmp/tmux-'' @ u,
        \<lambda>u. ''/run/user/'' @ u @ ''/tmux-'' @ u,
        \<lambda>u. ''/tmp/claude-'' @ u, \<lambda>u. ''/private/tmp/claude-'' @ u,
        \<lambda>u. ''/srv/fast-local/tmp-agents/claude-'' @ u]"

definition agentSessionAbsolute :: "path list" where
  "agentSessionAbsolute = [''/srv/fast-local/tmp-agents/codex*'']"

definition agentSessionTempNames :: "string list" where
  "agentSessionTempNames = [''claude-*'', ''codex*'', ''.tmp*'', ''pi-*'']"

definition agentSessionTempRoots :: "path list" where
  "agentSessionTempRoots = [''/tmp'', ''/private/tmp'', ''/var/tmp'', ''/private/var/tmp'']"

text \<open>What the deny set sees of the host: \<open>Lstat\<close>, directory entries, walks and resolved symlinks.\<close>

record session_env =
  se_tree :: file_tree
  se_names :: "path \<Rightarrow> string list"
  se_walk :: "path \<Rightarrow> walk_event list"
  se_resolve :: resolver

definition agentSessionTempProtectPrefixes :: "session_env \<Rightarrow> path list \<Rightarrow> path list" where
  "agentSessionTempProtectPrefixes env rts =
     uniquePaths (concat (map (\<lambda>r.
       concat (map (\<lambda>q. map (\<lambda>name. q @ ''/'' @ (if has_suffix name ''*'' then butlast name else name)) agentSessionTempNames)
         (uniquePaths [clean_path r, resolvedOrSelf (se_resolve env) r]))) (filter (\<lambda>r. r \<noteq> []) rts)))"

subsection \<open>The snapshot of a cycle\<close>

record deny_set =
  ad_patterns :: "path list"
  ad_roots :: "path list"
  ad_carveouts :: "path list"
  ad_resolveErrors :: "string list"
  ad_patternsByDir :: "path list table"
  ad_slowPatterns :: "path list"

definition expandAgentSessionHome :: "path \<Rightarrow> path \<Rightarrow> path" where
  "expandAgentSessionHome p home =
     (if home \<noteq> [] \<and> (p = ''~'' \<or> prefix ''~/'' p) then join_path [home, trim_prefix p ''~''] else p)"

text \<open>The patterns in the order they are added; configured ones must be absolute.\<close>

definition session_stores :: "path \<Rightarrow> int \<Rightarrow> path \<Rightarrow> path list \<Rightarrow> path list" where
  "session_stores home uid tmpdir extra =
     (if home \<noteq> [] then map (\<lambda>r. join_path [home, r]) agentSessionHomeRelative else [])
     @ agentSessionUIDPatterns uid
     @ (if tmpdir \<noteq> []
        then [join_path [tmpdir, ''tmux-'' @ show_int uid], join_path [tmpdir, ''claude-'' @ show_int uid]] else [])
     @ concat (map (\<lambda>r. map (\<lambda>name. join_path [r, name]) agentSessionTempNames)
         (agentSessionTempRoots @ (if tmpdir \<noteq> [] then [tmpdir] else [])))
     @ agentSessionAbsolute
     @ filter is_abs (map (\<lambda>p. expandAgentSessionHome p home) extra)"

definition session_patterns :: "path \<Rightarrow> int \<Rightarrow> path \<Rightarrow> path list \<Rightarrow> path list" where
  "session_patterns home uid tmpdir extra =
     map clean_path (filter (\<lambda>p. p \<noteq> []) (session_stores home uid tmpdir extra))"

definition add_path :: "path \<Rightarrow> path list \<Rightarrow> path list" where
  "add_path p ps = (if clean_path p \<in> set ps then ps else ps @ [clean_path p])"

text \<open>A match and what it resolves to; a match gone since the glob is no error.\<close>

definition add_match :: "session_env \<Rightarrow> path \<Rightarrow> path list \<times> string list \<Rightarrow> path list \<times> string list" where
  "add_match env m acc =
     (case acc of (rs, errs) \<Rightarrow>
        (case se_resolve env m of
           Resolved phys \<Rightarrow> (add_path phys (add_path m rs), errs)
         | NotThere \<Rightarrow> (add_path m rs, errs)
         | Unresolved e \<Rightarrow> (add_path m rs, errs @ [m @ '': '' @ e])))"

definition add_pattern :: "session_env \<Rightarrow> path \<Rightarrow> path list \<times> string list \<Rightarrow> path list \<times> string list" where
  "add_pattern env pat acc =
     (case Glob (se_tree env) (se_names env) pat of
        Inl e \<Rightarrow> (fst acc, snd acc @ [pat @ '': '' @ e])
      | Inr ms \<Rightarrow> fold (add_match env) ms acc)"

definition carveout_paths :: "session_env \<Rightarrow> path \<Rightarrow> path list \<Rightarrow> path list" where
  "carveout_paths env home carveouts =
     fold add_path
       (concat (map (\<lambda>pat. case Glob (se_tree env) (se_names env) (clean_path pat) of
            Inl _ \<Rightarrow> []
          | Inr ms \<Rightarrow> concat (map (\<lambda>m. [m, resolvedOrSelf (se_resolve env) m]) ms))
        (filter is_abs (map (\<lambda>p. expandAgentSessionHome p home) carveouts)))) []"

definition has_meta :: "string \<Rightarrow> bool" where
  "has_meta s = list_ex (\<lambda>c. c = CHR ''*'' \<or> c = CHR ''?'' \<or> c = CHR ''['') s"

definition index_pattern :: "path \<Rightarrow> path list table \<times> path list \<Rightarrow> path list table \<times> path list" where
  "index_pattern pat ix =
     (if has_meta (path_dir pat) then (fst ix, snd ix @ [pat])
      else (tbl_put (path_dir pat) (tbl_zero [] (fst ix) (path_dir pat) @ [pat]) (fst ix), snd ix))"

definition index_patterns :: "path list \<Rightarrow> path list table \<times> path list" where
  "index_patterns pats = fold index_pattern pats ([], [])"

definition newAgentSessionDeny :: "session_env \<Rightarrow> path \<Rightarrow> int \<Rightarrow> path \<Rightarrow> path list \<Rightarrow> path list \<Rightarrow> deny_set" where
  "newAgentSessionDeny env home uid tmpdir extra carveouts =
     (let pats = session_patterns home uid tmpdir extra;
          (rs, errs) = fold (add_pattern env) pats ([], []);
          (byDir, slow) = index_patterns pats
      in \<lparr>ad_patterns = pats, ad_roots = rs, ad_carveouts = carveout_paths env home carveouts,
          ad_resolveErrors = errs, ad_patternsByDir = byDir, ad_slowPatterns = slow\<rparr>)"

subsection \<open>Per-repository session directories\<close>

definition agentSessionStrongSignatures :: "string list" where
  "agentSessionStrongSignatures =
     [''worktrees'', ''projects'', ''sessions'', ''file-history'', ''todos'',
      ''plans'', ''shell-snapshots'', ''qa-reports'', ''memory'', ''resurrect'']"

definition agentSessionConfigSignatures :: "string list" where
  "agentSessionConfigSignatures = [''settings.local.json'', ''agents'', ''commands'']"

definition agentSessionSignatureGlobs :: "string list" where
  "agentSessionSignatureGlobs = [''*.jsonl'', ''*.sqlite'', ''*.sqlite3'', ''*.sqlite-*'', ''*.db'']"

definition agentSessionSignatureScanLimit :: int where "agentSessionSignatureScanLimit = 10000"

definition signature_name :: "bool \<Rightarrow> string \<Rightarrow> bool" where
  "signature_name config name =
     (name \<in> set agentSessionStrongSignatures \<or> config \<and> name \<in> set agentSessionConfigSignatures
      \<or> list_ex (\<lambda>g. glob_match g name) agentSessionSignatureGlobs)"

text \<open>The function given to \<open>WalkDir\<close>, over the events it would see; \<open>n\<close> counts the entries read.\<close>

fun signature_walk :: "bool \<Rightarrow> path \<Rightarrow> int \<Rightarrow> walk_event list \<Rightarrow> bool" where
  "signature_walk config p n [] = False"
| "signature_walk config p n (e # es) =
     (if we_error e \<noteq> None then True
      else if we_path e = p then signature_walk config p n es
      else if agentSessionSignatureScanLimit < n + 1 \<or> signature_name config (path_base (we_path e)) then True
      else signature_walk config p (n + 1) es)"

definition agentSessionHasSignature :: "session_env \<Rightarrow> path \<Rightarrow> bool \<Rightarrow> bool" where
  "agentSessionHasSignature env p config =
     (if \<not> bbIsRealDir (se_tree env) p then True else signature_walk config p 0 (se_walk env p))"

definition agentSessionPackageCopy :: "session_env \<Rightarrow> path \<Rightarrow> bool" where
  "agentSessionPackageCopy env p =
     (let pkg = path_dir p; name = path_base pkg
      in if name = [] \<or> prefix ''.'' name \<or> prefix ''@'' name then False
         else let up = path_dir pkg; scope = path_base up;
                  parent = (if prefix ''@'' scope \<and> 1 < length scope then path_dir up else up)
              in if path_base parent \<noteq> ''node_modules'' then False
                 else bbIsRealDir (se_tree env) pkg
                      \<and> bbIsRegular (se_tree env) (join_path [pkg, ''package.json''])
                      \<and> \<not> bbExistsLstat (se_tree env) (join_path [pkg, ''.git'']))"

definition bbIsGeneratedOutputBase :: "session_env \<Rightarrow> path \<Rightarrow> bool" where
  "bbIsGeneratedOutputBase env dir =
     (if \<not> list_all (\<lambda>d. bbIsRealDir (se_tree env) (join_path [dir, d])) [''execroot'', ''external'', ''server''] then False
      else if \<not> bbIsRegular (se_tree env) (join_path [dir, ''lock'']) then False
      else bbIsRegular (se_tree env) (join_path [dir, ''DO_NOT_BUILD_HERE''])
           \<or> bbIsRegular (se_tree env) (join_path [dir, ''javalog.properties'']))"

definition agentSessionExternalCopy :: "session_env \<Rightarrow> path \<Rightarrow> bool" where
  "agentSessionExternalCopy env p =
     (let repo = path_dir p; external = path_dir repo
      in if path_base external \<noteq> ''external'' \<or> prefix ''.'' (path_base repo) then False
         else if list_ex (\<lambda>d. \<not> bbIsRealDir (se_tree env) d \<or> bbExistsLstat (se_tree env) (join_path [d, ''.git''])) [repo, external]
         then False
         else bbIsGeneratedOutputBase env (path_dir external))"

definition agentSessionGeneratedCopy :: "session_env \<Rightarrow> path \<Rightarrow> bool" where
  "agentSessionGeneratedCopy env path =
     (let p = clean_path path
      in if agentSessionPackageCopy env p then \<not> agentSessionHasSignature env p False
         else if path_base p = ''.claude'' \<and> agentSessionExternalCopy env p then \<not> agentSessionHasSignature env p True
         else False)"

definition isAgentSessionDirName :: "string \<Rightarrow> bool" where
  "isAgentSessionDirName name = list_ex (\<lambda>g. glob_match g name) agentSessionDirNames"

definition isAgentSessionDir :: "session_env \<Rightarrow> path \<Rightarrow> bool" where
  "isAgentSessionDir env p = (isAgentSessionDirName (path_base p) \<and> \<not> agentSessionGeneratedCopy env p)"

subsection \<open>The questions\<close>

text \<open>What one directory of the way up says; the reason, or \<open>None\<close>.\<close>

definition denied_step :: "session_env \<Rightarrow> deny_set \<Rightarrow> path \<Rightarrow> string option" where
  "denied_step env d q =
     (case find (\<lambda>pat. glob_match pat q) (tbl_zero [] (ad_patternsByDir d) (path_dir q)) of
        Some pat \<Rightarrow> Some (''agent-session store '' @ pat @ '' (TIN-5268)'')
      | None \<Rightarrow>
          (case find (\<lambda>pat. glob_match pat q) (ad_slowPatterns d) of
             Some pat \<Rightarrow> Some (''agent-session store '' @ pat @ '' (TIN-5268)'')
           | None \<Rightarrow>
               if isAgentSessionDir env q then Some (''agent-session directory '' @ q @ '' (TIN-5268)'')
               else if q \<in> set (ad_roots d) then Some (''inside agent-session store '' @ q @ '' (TIN-5268)'')
               else None))"

text \<open>The first hit of a list.\<close>

fun first_some :: "('a \<Rightarrow> 'b option) \<Rightarrow> 'a list \<Rightarrow> 'b option" where
  "first_some f [] = None"
| "first_some f (x # xs) = (case f x of None \<Rightarrow> first_some f xs | Some y \<Rightarrow> Some y)"

lemma first_some_None [simp]: "first_some f xs = None \<longleftrightarrow> (\<forall>x\<in>set xs. f x = None)"
  by (induction xs) (auto split: option.splits)

text \<open>The directories of the way up that lie strictly below the boundary.\<close>

definition below_boundary :: "path \<Rightarrow> path \<Rightarrow> path list" where
  "below_boundary p boundary = takeWhile (\<lambda>q. \<not> (boundary \<noteq> [] \<and> (q = boundary \<or> \<not> bbUnder q boundary))) (path_ups p)"

definition deniedPath :: "session_env \<Rightarrow> deny_set \<Rightarrow> path \<Rightarrow> path \<Rightarrow> string option" where
  "deniedPath env d p boundary = first_some (denied_step env d) (below_boundary (clean_path p) boundary)"

definition physical_names :: "session_env \<Rightarrow> path \<Rightarrow> path list" where
  "physical_names env path = uniquePaths [clean_path path, resolvedOrSelf (se_resolve env) path]"

definition deniedBelow :: "session_env \<Rightarrow> deny_set \<Rightarrow> path \<Rightarrow> path \<Rightarrow> string option" where
  "deniedBelow env d path boundary =
     first_some (\<lambda>p.
        if boundary \<noteq> [] \<and> \<not> pathInsideRoot p boundary
        then (let rb = resolvedOrSelf (se_resolve env) boundary
              in if pathInsideRoot p rb then deniedPath env d p rb else None)
        else deniedPath env d p boundary) (physical_names env path)"

definition denied :: "session_env \<Rightarrow> deny_set \<Rightarrow> path \<Rightarrow> string option" where
  "denied env d path = deniedBelow env d path []"

definition containsDenied :: "session_env \<Rightarrow> deny_set \<Rightarrow> path \<Rightarrow> string option" where
  "containsDenied env d path =
     first_some (\<lambda>p. map_option (\<lambda>r. ''contains agent-session store '' @ r @ '' (TIN-5268)'')
        (find (\<lambda>r. pathInsideRoot r p) (ad_roots d))) (physical_names env path)"

definition carveoutFor :: "session_env \<Rightarrow> deny_set \<Rightarrow> path \<Rightarrow> path" where
  "carveoutFor env d path =
     (case first_some (\<lambda>p. find (\<lambda>c. pathInsideRoot p c) (ad_carveouts d)) (physical_names env path) of
        None \<Rightarrow> [] | Some c \<Rightarrow> c)"

definition carveoutForLiteral :: "deny_set \<Rightarrow> path \<Rightarrow> path" where
  "carveoutForLiteral d p =
     (case find (\<lambda>q. q \<in> set (ad_carveouts d)) (path_ups (clean_path p)) of None \<Rightarrow> [] | Some q \<Rightarrow> q)"

definition leadsToCarveout :: "session_env \<Rightarrow> deny_set \<Rightarrow> path \<Rightarrow> bool" where
  "leadsToCarveout env d path =
     list_ex (\<lambda>p. list_ex (\<lambda>c. pathInsideRoot c p \<and> clean_path c \<noteq> p) (ad_carveouts d)) (physical_names env path)"

definition leadsToCarveoutLiteral :: "deny_set \<Rightarrow> path \<Rightarrow> bool" where
  "leadsToCarveoutLiteral d p = list_ex (\<lambda>c. c \<noteq> clean_path p \<and> bbUnder c (clean_path p)) (ad_carveouts d)"

subsection \<open>The indexes answer as a scan\<close>

lemma index_patterns_lookup:
  "tbl_zero [] (fst (index_patterns pats)) dir = filter (\<lambda>pat. \<not> has_meta (path_dir pat) \<and> path_dir pat = dir) pats"
  "snd (index_patterns pats) = filter (\<lambda>pat. has_meta (path_dir pat)) pats"
proof -
  have "tbl_zero [] (fst (fold index_pattern pats ix)) dir
          = tbl_zero [] (fst ix) dir @ filter (\<lambda>pat. \<not> has_meta (path_dir pat) \<and> path_dir pat = dir) pats
        \<and> snd (fold index_pattern pats ix) = snd ix @ filter (\<lambda>pat. has_meta (path_dir pat)) pats" for ix
    by (induction pats arbitrary: ix) (auto simp: index_pattern_def)
  from this [of "([], [])"] show "tbl_zero [] (fst (index_patterns pats)) dir
      = filter (\<lambda>pat. \<not> has_meta (path_dir pat) \<and> path_dir pat = dir) pats"
    "snd (index_patterns pats) = filter (\<lambda>pat. has_meta (path_dir pat)) pats"
    by (simp_all add: index_patterns_def tbl_zero_def)
qed

lemma new_deny_fields [simp]:
  "ad_patterns (newAgentSessionDeny env home uid tmpdir extra carveouts) = session_patterns home uid tmpdir extra"
  "ad_carveouts (newAgentSessionDeny env home uid tmpdir extra carveouts) = carveout_paths env home carveouts"
  "ad_roots (newAgentSessionDeny env home uid tmpdir extra carveouts)
     = fst (fold (add_pattern env) (session_patterns home uid tmpdir extra) ([], []))"
  "ad_patternsByDir (newAgentSessionDeny env home uid tmpdir extra carveouts)
     = fst (index_patterns (session_patterns home uid tmpdir extra))"
  "ad_slowPatterns (newAgentSessionDeny env home uid tmpdir extra carveouts)
     = snd (index_patterns (session_patterns home uid tmpdir extra))"
  by (simp_all add: newAgentSessionDeny_def Let_def split: prod.splits)

text \<open>What the indexes find at one directory.\<close>

definition indexed_hit :: "path list \<Rightarrow> path \<Rightarrow> bool" where
  "indexed_hit pats q = (\<exists>pat\<in>set pats. (has_meta (path_dir pat) \<or> path_dir pat = path_dir q) \<and> glob_match pat q)"

lemma denied_step_iff:
  assumes "d = newAgentSessionDeny env home uid tmpdir extra carveouts"
  shows "denied_step env d q \<noteq> None \<longleftrightarrow>
    indexed_hit (ad_patterns d) q \<or> isAgentSessionDir env q \<or> q \<in> set (ad_roots d)"
proof -
  have "(find (\<lambda>pat. glob_match pat q) (tbl_zero [] (ad_patternsByDir d) (path_dir q)) = None
         \<and> find (\<lambda>pat. glob_match pat q) (ad_slowPatterns d) = None) \<longleftrightarrow> \<not> indexed_hit (ad_patterns d) q"
    unfolding indexed_hit_def assms new_deny_fields index_patterns_lookup by (auto simp: find_None_iff)
  then show ?thesis by (auto simp: denied_step_def split: option.splits)
qed

lemma deniedPath_iff:
  assumes "d = newAgentSessionDeny env home uid tmpdir extra carveouts"
  shows "deniedPath env d p b \<noteq> None \<longleftrightarrow>
    (\<exists>q\<in>set (below_boundary (clean_path p) b).
       indexed_hit (ad_patterns d) q \<or> isAgentSessionDir env q \<or> q \<in> set (ad_roots d))"
  using denied_step_iff [OF assms] by (auto simp: deniedPath_def)

text \<open>A pattern without classes and escapes keeps to its directory.\<close>

definition plain_glob :: "string \<Rightarrow> bool" where
  "plain_glob p = list_all (\<lambda>c. c \<noteq> CHR ''['' \<and> c \<noteq> CHR 0x5C) p"

lemma plain_glob_iff: "plain_glob s \<longleftrightarrow> CHR ''['' \<notin> set s \<and> CHR 0x5C \<notin> set s"
  by (auto simp: plain_glob_def list_all_iff)

lemma glob_meta_iff: "glob_meta s \<longleftrightarrow> CHR ''*'' \<in> set s \<or> CHR ''?'' \<in> set s \<or> CHR ''['' \<in> set s \<or> CHR 0x5C \<in> set s"
  by (auto simp: glob_meta_def list_ex_iff)

lemma has_meta_iff: "has_meta s \<longleftrightarrow> CHR ''*'' \<in> set s \<or> CHR ''?'' \<in> set s \<or> CHR ''['' \<in> set s"
  by (auto simp: has_meta_def list_ex_iff)

lemma plain_glob_simps [simp]:
  "plain_glob []" "plain_glob (c # s) \<longleftrightarrow> c \<noteq> CHR ''['' \<and> c \<noteq> CHR 0x5C \<and> plain_glob s"
  "plain_glob (s @ t) \<longleftrightarrow> plain_glob s \<and> plain_glob t"
  by (auto simp: plain_glob_def)

lemma glob_literal:
  assumes "\<not> glob_meta a" "glob_match (a @ p) q"
  obtains c where "q = a @ c" "glob_match p c"
proof -
  have "\<exists>c. q = a @ c \<and> glob_match p c" using assms
  proof (induction a arbitrary: q)
    case (Cons x a)
    then show ?case by (cases q) (auto simp: glob_match.simps(2,3) glob_meta_def split: if_splits)
  qed simp
  with that show thesis by blast
qed

lemma glob_one_element:
  "glob_match p name \<Longrightarrow> plain_glob p \<Longrightarrow> CHR ''/'' \<notin> set p \<Longrightarrow> CHR ''/'' \<notin> set name"
proof (induction p name rule: glob_match.induct)
  case (3 c p n name)
  then show ?case by (auto simp: glob_match.simps(3) split: if_splits)
qed (auto simp: glob_match.simps(2))

lemma clean_abs_last:
  assumes "clean_abs p"
  obtains a e where "p = a @ CHR ''/'' # e" "CHR ''/'' \<notin> set e" "set a \<subseteq> set (path_dir p)"
proof (cases "clean_elements p" rule: rev_cases)
  case Nil
  then show ?thesis using that [of "[]" "[]"] clean_abs_text [OF assms] by simp
next
  case (snoc xs e)
  then have plain: "list_all plain_element xs" "plain_element e" using clean_abs_plain [OF assms] by simp_all
  define a where "a = (if xs = [] then [] else ''/'' @ join_strings ''/'' xs)"
  have p: "p = a @ CHR ''/'' # e" using clean_abs_text [OF assms] snoc by (simp add: a_def join_strings_snoc)
  have e: "CHR ''/'' \<notin> set e" using plain(2) by (simp add: plain_element_def)
  have "set a \<subseteq> set (path_dir p)"
    using p dir_part_snoc [OF e, of a] clean_path_slash [OF plain(1)] by (auto simp: path_dir_def a_def)
  with p e that show ?thesis by blast
qed

lemma plain_glob_same_dir:
  assumes "clean_abs pat" "plain_glob pat" "glob_match pat q" "\<not> has_meta (path_dir pat)"
  shows "path_dir pat = path_dir q"
proof -
  obtain a e where pat: "pat = a @ CHR ''/'' # e" "CHR ''/'' \<notin> set e" "set a \<subseteq> set (path_dir pat)"
    using clean_abs_last [OF assms(1)] by blast
  have "\<not> glob_meta (a @ ''/'')"
    using assms(2,4) pat(1,3) by (auto simp: glob_meta_iff has_meta_iff plain_glob_iff)
  then obtain c where q: "q = a @ CHR ''/'' # c" "glob_match e c"
    using glob_literal [of "a @ ''/''" e q] assms(3) pat(1) by auto
  with glob_one_element [OF q(2)] assms(2) pat have "CHR ''/'' \<notin> set c" by simp
  with q pat show ?thesis by (simp add: path_dir_def dir_part_snoc)
qed

lemma is_abs_join:
  assumes "is_abs d"
  shows "is_abs (join_path (d # ps))"
proof -
  obtain r where d: "d = CHR ''/'' # r" using assms by (auto simp: is_abs_def prefix_def)
  have "is_abs (join_strings ''/'' (d # filter (\<lambda>p. p \<noteq> []) ps))"
    unfolding d by (cases "filter (\<lambda>p. p \<noteq> []) ps") (simp_all add: is_abs_def)
  with is_abs_clean show ?thesis by (simp add: join_path_def d)
qed

lemma session_patterns_clean:
  assumes "home = [] \<or> is_abs home" "tmpdir = [] \<or> is_abs tmpdir" "pat \<in> set (session_patterns home uid tmpdir extra)"
  shows "clean_abs pat"
proof -
  have fixed: "list_all is_abs (agentSessionUIDPatterns uid)" "list_all is_abs agentSessionTempRoots" "list_all is_abs agentSessionAbsolute"
    by (simp_all add: agentSessionUIDPatterns_def agentSessionTempRoots_def agentSessionAbsolute_def is_abs_def)
  obtain p where p: "pat = clean_path p" "p \<in> set (session_stores home uid tmpdir extra)"
    using assms(3) by (auto simp: session_patterns_def)
  have "list_all is_abs (session_stores home uid tmpdir extra)"
    unfolding session_stores_def list_all_append
    using assms(1,2) fixed by (intro conjI) (auto simp: list_all_iff intro: is_abs_join)
  with p(2) have "is_abs p" by (simp add: list_all_iff)
  with p(1) show ?thesis by (simp add: clean_abs_clean)
qed

text \<open>What each part of the configuration contributes.\<close>

lemma session_patterns_mono: "set (session_patterns home uid tmpdir []) \<subseteq> set (session_patterns home uid tmpdir extra)"
proof -
  have "set (session_stores home uid tmpdir []) \<subseteq> set (session_stores home uid tmpdir extra)"
    unfolding session_stores_def set_append by (intro Un_mono subset_refl) simp
  then show ?thesis unfolding session_patterns_def set_map set_filter by blast
qed

lemma set_add_path [simp]: "set (add_path p ps) = insert (clean_path p) (set ps)"
  by (auto simp: add_path_def)

definition pattern_roots :: "session_env \<Rightarrow> path \<Rightarrow> path set" where
  "pattern_roots env pat =
     (case Glob (se_tree env) (se_names env) pat of
        Inl _ \<Rightarrow> {}
      | Inr ms \<Rightarrow> (\<Union>m\<in>set ms. insert (clean_path m) (case se_resolve env m of Resolved r \<Rightarrow> {clean_path r} | _ \<Rightarrow> {})))"

lemma add_pattern_roots: "set (fst (add_pattern env pat acc)) = set (fst acc) \<union> pattern_roots env pat"
proof -
  have "set (fst (fold (add_match env) ms acc))
        = set (fst acc) \<union> (\<Union>m\<in>set ms. insert (clean_path m) (case se_resolve env m of Resolved r \<Rightarrow> {clean_path r} | _ \<Rightarrow> {}))" for ms
    by (induction ms arbitrary: acc) (auto simp: add_match_def split: prod.splits resolution.splits)
  then show ?thesis by (simp add: add_pattern_def pattern_roots_def split: sum.split)
qed

lemma new_deny_roots:
  "set (ad_roots (newAgentSessionDeny env home uid tmpdir extra carveouts))
     = (\<Union>pat\<in>set (session_patterns home uid tmpdir extra). pattern_roots env pat)"
proof -
  have "set (fst (fold (add_pattern env) pats acc)) = set (fst acc) \<union> (\<Union>pat\<in>set pats. pattern_roots env pat)" for pats acc
    by (induction pats arbitrary: acc) (auto simp: add_pattern_roots)
  then show ?thesis by simp
qed

lemma new_deny_roots_mono:
  "set (ad_roots (newAgentSessionDeny env home uid tmpdir [] carveouts))
     \<subseteq> set (ad_roots (newAgentSessionDeny env home uid tmpdir extra carveouts'))"
  unfolding new_deny_roots using session_patterns_mono by (rule UN_mono) simp

lemma deniedPath_mono:
  assumes "deniedPath env (newAgentSessionDeny env home uid tmpdir [] []) p b \<noteq> None"
  shows "deniedPath env (newAgentSessionDeny env home uid tmpdir extra carveouts) p b \<noteq> None"
proof -
  define d0 where "d0 = newAgentSessionDeny env home uid tmpdir [] []"
  define d where "d = newAgentSessionDeny env home uid tmpdir extra carveouts"
  have "set (ad_roots d0) \<subseteq> set (ad_roots d)"
    unfolding d0_def d_def by (rule new_deny_roots_mono)
  moreover have "set (ad_patterns d0) \<subseteq> set (ad_patterns d)"
    unfolding d0_def d_def new_deny_fields by (rule session_patterns_mono)
  then have "indexed_hit (ad_patterns d0) q \<Longrightarrow> indexed_hit (ad_patterns d) q" for q
    unfolding indexed_hit_def by blast
  ultimately show ?thesis
    using assms deniedPath_iff [OF d0_def, of p b] deniedPath_iff [OF d_def, of p b] unfolding d0_def [symmetric] d_def [symmetric]
    by blast
qed

lemma first_some_mono:
  "first_some f xs \<noteq> None \<Longrightarrow> (\<And>x. f x \<noteq> None \<Longrightarrow> g x \<noteq> None) \<Longrightarrow> first_some g xs \<noteq> None"
  unfolding first_some_None by blast

text \<open>Whatever \<open>agent_session.extra_paths\<close> and the carve-outs say, a path that the compiled-in set
  denies stays denied, and a directory refused because it holds a compiled-in store stays refused: the
  configuration can only add.\<close>

theorem config_only_adds:
  fixes env home uid tmpdir extra carveouts
  defines "d0 \<equiv> newAgentSessionDeny env home uid tmpdir [] []"
    and "d \<equiv> newAgentSessionDeny env home uid tmpdir extra carveouts"
  shows "(deniedBelow env d0 path boundary \<noteq> None \<longrightarrow> deniedBelow env d path boundary \<noteq> None)
    \<and> (containsDenied env d0 path \<noteq> None \<longrightarrow> containsDenied env d path \<noteq> None)"
proof
  show "deniedBelow env d0 path boundary \<noteq> None \<longrightarrow> deniedBelow env d path boundary \<noteq> None"
    unfolding deniedBelow_def d0_def d_def
    by (intro impI, erule first_some_mono) 
      (simp_all only: Let_def simp_thms if_True if_False deniedPath_mono split: if_split_asm)
  have roots: "set (ad_roots d0) \<subseteq> set (ad_roots d)"
    unfolding d0_def d_def by (rule new_deny_roots_mono)
  have found: "find P xs \<noteq> None \<longleftrightarrow> (\<exists>x\<in>set xs. P x)" for P and xs :: "path list" by (simp add: find_None_iff) blast
  show "containsDenied env d0 path \<noteq> None \<longrightarrow> containsDenied env d path \<noteq> None"
    unfolding containsDenied_def by (rule impI, erule first_some_mono) (use roots in \<open>unfold option.map_disc_iff found, blast\<close>)
qed

definition linked_store :: session_env where
  "linked_store =
     \<lparr>se_tree = (\<lambda>p. if p = ''/h/.claude''
                     then Some \<lparr>st_kind = Symlink, st_dev = 1, st_ino = 2, st_uid = 0, st_blocks = 8, st_size = 1, st_mtime = 0, st_ctime = 0\<rparr>
                     else None),
      se_names = (\<lambda>d. if d = ''/h'' then [''.claude''] else []), se_walk = (\<lambda>p. []),
      se_resolve = (\<lambda>p. if p = ''/h/.claude'' then Resolved ''/s/claude'' else if p = ''/s'' \<or> p = ''/'' then Resolved p else NotThere)\<rparr>"

lemma linked_store_denied:
  "''/s/claude'' \<in> set (ad_roots (newAgentSessionDeny linked_store ''/h'' 7 [] extra carveouts))"
proof -
  have "Glob (se_tree linked_store) (se_names linked_store) ''/h/.claude'' = Inr [''/h/.claude'']"
    "clean_path ''/s/claude'' = ''/s/claude''" by code_simp+
  then have "''/s/claude'' \<in> pattern_roots linked_store ''/h/.claude''"
    by (simp add: pattern_roots_def) (simp add: linked_store_def)
  moreover have "clean_path (join_path [''/h'', ''.claude'']) = ''/h/.claude''" "join_path [''/h'', ''.claude''] \<noteq> []" by code_simp+
  then have "''/h/.claude'' \<in> set (session_patterns ''/h'' 7 [] extra)"
    unfolding session_patterns_def session_stores_def agentSessionHomeRelative_def by simp
  ultimately show ?thesis unfolding new_deny_roots by blast
qed

lemma config_only_adds_witness:
  "deniedBelow linked_store (newAgentSessionDeny linked_store ''/h'' 7 [] [''~/notes''] [''~/.claude/c'']) ''/s/claude/x'' [] \<noteq> None
   \<and> containsDenied linked_store (newAgentSessionDeny linked_store ''/h'' 7 [] [''~/notes''] [''~/.claude/c'']) ''/s'' \<noteq> None"
proof -
  let ?d = "newAgentSessionDeny linked_store ''/h'' 7 [] [] []"
  have names: "physical_names linked_store ''/s/claude/x'' = [''/s/claude/x'']" "physical_names linked_store ''/s'' = [''/s'']"
    "''/s/claude'' \<in> set (below_boundary (clean_path ''/s/claude/x'') [])" "pathInsideRoot ''/s/claude'' ''/s''"
    by code_simp+
  have "deniedPath linked_store ?d ''/s/claude/x'' [] \<noteq> None"
    unfolding deniedPath_iff [OF refl] using linked_store_denied names(3) by blast
  then have "deniedBelow linked_store ?d ''/s/claude/x'' [] \<noteq> None" by (auto simp: deniedBelow_def names(1))
  moreover have "containsDenied linked_store ?d ''/s'' \<noteq> None"
    unfolding containsDenied_def names(2) first_some_None option.map_disc_iff find_None_iff
    using linked_store_denied names(4) by simp blast
  ultimately show ?thesis
    using config_only_adds [of linked_store "''/h''" 7 "[]" "''/s/claude/x''" "[]" "[''~/notes'']" "[''~/.claude/c'']"]
      config_only_adds [of linked_store "''/h''" 7 "[]" "''/s''" "[]" "[''~/notes'']" "[''~/.claude/c'']"]
    by blast
qed

text \<open>The patterns hold no class or escape that the directories and the configuration do not bring in.\<close>

lemma plain_glob_subset: "plain_glob s \<Longrightarrow> set t \<subseteq> set s \<union> {CHR ''/'', CHR ''.''} \<Longrightarrow> plain_glob t"
  by (auto simp: plain_glob_iff)

lemma set_join_strings: "set (join_strings sep xs) \<subseteq> set sep \<union> (\<Union>x\<in>set xs. set x)"
  by (induction sep xs rule: join_strings.induct) auto

lemma set_split_on: "p \<in> set (split_on c s) \<Longrightarrow> set p \<subseteq> set s"
proof (induction s arbitrary: p)
  case (Cons d s)
  obtain a l where al: "split_on c s = a # l" using split_on_nonempty [of c s] by (cases "split_on c s") auto
  with Cons.IH have "set a \<subseteq> set s" "q \<in> set l \<Longrightarrow> set q \<subseteq> set s" for q by auto
  with Cons.prems al show ?case by (auto split: if_splits)
qed simp

lemma set_clean_path: "set (clean_path p) \<subseteq> set p \<union> {CHR ''/'', CHR ''.''}"
proof -
  have "set (clean_elements p) \<subseteq> set (split_on CHR ''/'' p)"
    using foldl_clean_set [of "is_abs p" "[]" "split_on CHR ''/'' p"] by (simp add: clean_elements_def)
  then have "(\<Union>x\<in>set (clean_elements p). set x) \<subseteq> set p" using set_split_on [of _ "CHR ''/''" p] by blast
  with set_join_strings [of "''/''" "clean_elements p"] show ?thesis by (auto simp: clean_path_def)
qed

lemma plain_glob_clean: "plain_glob p \<Longrightarrow> plain_glob (clean_path p)"
  by (rule plain_glob_subset [OF _ set_clean_path])

lemma plain_glob_join: "list_all plain_glob ps \<Longrightarrow> plain_glob (join_path ps)"
proof -
  assume "list_all plain_glob ps"
  then have "plain_glob (join_strings ''/'' (filter (\<lambda>p. p \<noteq> []) ps))"
    using set_join_strings [of "''/''" "filter (\<lambda>p. p \<noteq> []) ps"] by (auto simp: plain_glob_iff list_all_iff)
  then show ?thesis by (simp add: join_path_def Let_def plain_glob_clean)
qed

lemma plain_glob_show_int: "plain_glob (show_int n)"
proof -
  have d: "digit d \<noteq> CHR ''['' \<and> digit d \<noteq> CHR 0x5C" if "0 \<le> d" "d < 10" for d
  proof -
    have "(of_char (digit d) :: int) = 48 + d" using that by (simp add: digit_def of_char_of)
    moreover have "(of_char CHR ''['' :: int) = 91" "(of_char CHR 0x5C :: int) = 92" by simp_all
    ultimately show ?thesis using that by auto
  qed
  have "0 \<le> m \<Longrightarrow> plain_glob (show_nat m)" for m
  proof (induction m rule: show_nat.induct)
    case (1 m)
    then show ?case by (subst show_nat.simps) (simp add: d)
  qed
  then show ?thesis by (simp add: show_int_def)
qed

lemma session_patterns_plain:
  assumes "plain_glob home" "plain_glob tmpdir" "list_all plain_glob extra"
  shows "list_all plain_glob (session_patterns home uid tmpdir extra)"
proof -
  have fixed: "list_all plain_glob agentSessionHomeRelative" "list_all plain_glob agentSessionTempRoots"
    "list_all plain_glob agentSessionAbsolute" "list_all plain_glob agentSessionTempNames"
    by (simp_all add: agentSessionHomeRelative_def agentSessionTempRoots_def agentSessionAbsolute_def agentSessionTempNames_def)
  have uid: "list_all plain_glob (agentSessionUIDPatterns uid)"
    using plain_glob_show_int [of uid] by (simp add: agentSessionUIDPatterns_def)
  have drop: "plain_glob (drop n p)" if "plain_glob p" for n p
    using that by (rule plain_glob_subset) (auto dest: in_set_dropD)
  have ext: "plain_glob (expandAgentSessionHome p home)" if "plain_glob p" for p
    using that assms(1) by (simp add: expandAgentSessionHome_def trim_prefix_def plain_glob_join drop)
  have "list_all plain_glob (session_stores home uid tmpdir extra)"
    unfolding session_stores_def list_all_append
  proof (intro conjI)
    show "list_all plain_glob (filter is_abs (map (\<lambda>p. expandAgentSessionHome p home) extra))"
      using ext assms(3) by (auto simp: list_all_iff)
    show "list_all plain_glob (if home \<noteq> [] then map (\<lambda>r. join_path [home, r]) agentSessionHomeRelative else [])"
      using assms(1) fixed(1) by (auto simp: list_all_iff plain_glob_join)
    show "list_all plain_glob (concat (map (\<lambda>r. map (\<lambda>name. join_path [r, name]) agentSessionTempNames)
         (agentSessionTempRoots @ (if tmpdir \<noteq> [] then [tmpdir] else []))))"
      using assms(2) fixed(2,4) by (auto simp: list_all_iff plain_glob_join)
    show "list_all plain_glob (if tmpdir \<noteq> []
        then [join_path [tmpdir, ''tmux-'' @ show_int uid], join_path [tmpdir, ''claude-'' @ show_int uid]] else [])"
      using assms(2) plain_glob_show_int [of uid] by (simp add: plain_glob_join)
  qed (rule uid fixed)+
  then show ?thesis by (auto simp: session_patterns_def list_all_iff plain_glob_clean)
qed

text \<open>C38: the indexes lose nothing.  When the home, the temporary directory and the configured paths hold
  no class or escape, a path is denied exactly when some directory on its way up, strictly below the
  boundary, matches a pattern of the set, is a session directory, or is a resolved store.\<close>

theorem denied_index_exact:
  assumes "home = [] \<or> is_abs home" "tmpdir = [] \<or> is_abs tmpdir"
    and "plain_glob home" "plain_glob tmpdir" "list_all plain_glob extra"
    and "d = newAgentSessionDeny env home uid tmpdir extra carveouts"
  shows "deniedPath env d p b \<noteq> None \<longleftrightarrow>
    (\<exists>q\<in>set (below_boundary (clean_path p) b).
       (\<exists>pat\<in>set (ad_patterns d). glob_match pat q) \<or> isAgentSessionDir env q \<or> q \<in> set (ad_roots d))"
proof -
  have "plain_glob pat" if "pat \<in> set (ad_patterns d)" for pat
    using session_patterns_plain [OF assms(3-5), of uid] that unfolding assms(6) new_deny_fields by (simp add: list_all_iff)
  moreover have "clean_abs pat" if "pat \<in> set (ad_patterns d)" for pat
    using session_patterns_clean [OF assms(1,2)] that unfolding assms(6) new_deny_fields by blast
  ultimately have "indexed_hit (ad_patterns d) q \<longleftrightarrow> (\<exists>pat\<in>set (ad_patterns d). glob_match pat q)" for q
    unfolding indexed_hit_def using plain_glob_same_dir by blast
  with deniedPath_iff [OF assms(6)] show ?thesis by simp
qed

lemma denied_index_exact_witness:
  "deniedPath linked_store (newAgentSessionDeny linked_store ''/h'' 7 [] [''~/notes''] []) ''/s/claude/x'' [] \<noteq> None"
proof -
  have "''/s/claude'' \<in> set (below_boundary (clean_path ''/s/claude/x'') [])" by code_simp
  then show ?thesis
    using linked_store_denied [of "[''~/notes'']" "[]"]
    by (subst denied_index_exact [OF _ _ _ _ _ refl]) (simp add: is_abs_def, simp, simp, simp, simp, blast)
qed

end
