(* ===== verification/Activity.thy ===== *)
theory Activity
  imports Agent_Session Nix_Generations
begin

text \<open>
  The inventory of live processes that \<open>bazel_bases\<close>, \<open>retention\<close> and \<open>shm_scratch\<close> take before a
  removal (\<open>plugins/bazel_bases.go\<close>, \<open>bazel_bases_linux.go\<close>, \<open>bazel_bases_unix.go\<close>, \<open>proc_stat.go\<close>):
  the index of held paths, the questions asked of it, and the scan of \<open>/proc\<close> and of \<open>lsof\<close> that fills
  it.  What the kernel shows of a process is an observation.
\<close>

subsection \<open>Text of command lines\<close>

definition trim_suffix :: "string \<Rightarrow> string \<Rightarrow> string" where
  "trim_suffix s t = (if suffix t s then take (length s - length t) s else s)"

text \<open>\<open>strings.Fields\<close> on ASCII.\<close>

definition text_fields :: "string \<Rightarrow> string list" where
  "text_fields s = filter (\<lambda>f. f \<noteq> []) (split_on CHR '' '' (map (\<lambda>c. if is_space c then CHR '' '' else c) s))"

text \<open>\<open>strings.Index\<close>.\<close>

fun str_index :: "string \<Rightarrow> string \<Rightarrow> nat option" where
  "str_index [] t = (if t = [] then Some 0 else None)"
| "str_index (c # s) t = (if prefix t (c # s) then Some 0 else map_option Suc (str_index s t))"

text \<open>\<open>strings.SplitN\<close> at one byte, at most \<open>n\<close> parts.\<close>

fun split_n :: "char \<Rightarrow> nat \<Rightarrow> string \<Rightarrow> string list" where
  "split_n c 0 s = []"
| "split_n c (Suc 0) s = [s]"
| "split_n c (Suc (Suc n)) s =
     (case dropWhile (\<lambda>x. x \<noteq> c) s of
        [] \<Rightarrow> [s]
      | _ # r \<Rightarrow> takeWhile (\<lambda>x. x \<noteq> c) s # split_n c (Suc n) r)"

text \<open>\<open>strings.Trim(s, "\"'")\<close>.\<close>

definition trim_quotes :: "string \<Rightarrow> string" where
  "trim_quotes s =
     (let q = (\<lambda>c. c = CHR 0x22 \<or> c = CHR 0x27) in rev (dropWhile q (rev (dropWhile q s))))"

subsection \<open>The inventory\<close>

record bb_proc =
  pr_pid :: int
  pr_cmdline :: string

record activity =
  ac_held :: "string table"
  ac_procs :: "bb_proc list"
  ac_incomplete :: "string list"
  ac_lsofError :: string

definition newBBActivity :: activity where
  "newBBActivity = \<lparr>ac_held = [], ac_procs = [], ac_incomplete = [], ac_lsofError = []\<rparr>"

text \<open>The directories from a path up, until one that is held already: those above it are held too.\<close>

fun hold_up :: "string \<Rightarrow> path list \<Rightarrow> string table \<Rightarrow> string table" where
  "hold_up why [] held = held"
| "hold_up why (p # ps) held =
     (case tbl_get held p of Some _ \<Rightarrow> held | None \<Rightarrow> hold_up why ps (tbl_put p why held))"

definition hold_ref :: "path list \<Rightarrow> path \<Rightarrow> string \<Rightarrow> string table \<Rightarrow> string table" where
  "hold_ref inside path why held =
     (let p = clean_path (trim_suffix path '' (deleted)'')
      in if \<not> is_abs p then held
         else if inside \<noteq> [] \<and> \<not> list_ex (\<lambda>w. bbUnder p w) inside then held
         else hold_up why (takeWhile (\<lambda>q. q \<noteq> ''/'' \<and> q \<noteq> ''.'') (path_ups p)) held)"

definition index_ref :: "path \<Rightarrow> string \<Rightarrow> path list \<Rightarrow> activity \<Rightarrow> activity" where
  "index_ref path why inside a = a\<lparr>ac_held := hold_ref inside path why (ac_held a)\<rparr>"

subsection \<open>The questions\<close>

definition name_ends :: "char list" where
  "name_ends = [CHR '' '', CHR ''/'', CHR 0x22, CHR 0x27, CHR '','', CHR '':'', CHR ''='', CHR 0x00]"

text \<open>An occurrence of the path that ends there, looked for after the end of the last one.\<close>

function cmdline_names :: "string \<Rightarrow> path \<Rightarrow> bool" where
  "cmdline_names cmdline path =
     (case (if path = [] then None else str_index cmdline path) of
        None \<Rightarrow> False
      | Some i \<Rightarrow>
          let rest = drop (i + length path) cmdline
          in if rest = [] then True
             else if hd rest \<in> set name_ends then True
             else cmdline_names rest path)"
  by pat_completeness auto

lemma str_index_bound: "str_index s t = Some i \<Longrightarrow> i + length t \<le> length s"
proof (induction s arbitrary: i)
  case (Cons c s)
  then show ?case by (auto split: if_splits dest: prefix_length_le)
qed (auto split: if_splits)

termination cmdline_names
proof (relation "measure (\<lambda>(cmdline, path). length cmdline)", goal_cases)
  case (2 cmdline path i rest)
  then have "i + length path \<le> length cmdline" "0 < length path" by (auto dest: str_index_bound split: if_splits)
  then have "length cmdline - (i + length path) < length cmdline" by linarith
  with 2 show ?case by simp
qed simp

declare cmdline_names.simps [simp del]

definition bbCmdlineNames :: "string \<Rightarrow> path \<Rightarrow> bool" where
  "bbCmdlineNames cmdline path = (if cmdline = [] \<or> path = [] then False else cmdline_names cmdline path)"

fun output_bases :: "string list \<Rightarrow> path list" where
  "output_bases [] = []"
| "output_bases (f # fs) =
     (if prefix ''--output_base='' f then [trim_quotes (trim_prefix f ''--output_base='')]
      else if f = ''--output_base'' \<and> fs \<noteq> [] then [trim_quotes (hd fs)] else []) @ output_bases fs"

definition bbCmdlineOutputBases :: "string \<Rightarrow> path list" where
  "bbCmdlineOutputBases cmdline = output_bases (text_fields cmdline)"

definition proc_blocker :: "resolver \<Rightarrow> path \<Rightarrow> bb_proc \<Rightarrow> string option" where
  "proc_blocker resolve target p =
     (let phys = resolvedOrSelf resolve target
      in if bbCmdlineNames (pr_cmdline p) target \<or> bbCmdlineNames (pr_cmdline p) phys
         then Some (''pid '' @ show_int (pr_pid p) @ '' names it on its command line'')
         else if list_ex (\<lambda>ob. let r = resolvedOrSelf resolve ob in r = phys \<or> bbUnder r phys) (bbCmdlineOutputBases (pr_cmdline p))
         then Some (''pid '' @ show_int (pr_pid p) @ '' names it as --output_base through another path'')
         else None)"

definition blockers :: "resolver \<Rightarrow> activity \<Rightarrow> path \<Rightarrow> string list" where
  "blockers resolve a target =
     List.map_filter (tbl_get (ac_held a)) (uniquePaths [clean_path target, resolvedOrSelf resolve target])
     @ (case first_some (proc_blocker resolve target) (ac_procs a) of None \<Rightarrow> [] | Some why \<Rightarrow> [why])"

definition find_proc :: "activity \<Rightarrow> int \<Rightarrow> bb_proc option" where
  "find_proc a pid = find (\<lambda>p. pr_pid p = pid) (ac_procs a)"

text \<open>Why the inventory may be missing something; empty when it is complete.\<close>

definition complete :: "activity \<Rightarrow> string" where
  "complete a =
     (if ac_incomplete a \<noteq> []
      then ''activity inventory incomplete: '' @ join_strings ''; '' (take 3 (ac_incomplete a))
      else if ac_lsofError a \<noteq> [] then ''activity inventory incomplete: '' @ ac_lsofError a else [])"

subsection \<open>Reading \<open>/proc\<close>\<close>

text \<open>An error of a read, with its text; \<open>os.IsNotExist\<close> tells the first kind.\<close>

datatype io_error = Missing string | Failing string

fun io_text :: "io_error \<Rightarrow> string" where "io_text (Missing e) = e" | "io_text (Failing e) = e"

text \<open>One entry of \<open>/proc\<close> as the scan would read it: the raw command line (empty when unreadable), the
  links, the descriptors' targets, the owner, the \<open>stat\<close> line, the environment and the lines of \<open>maps\<close>.\<close>

record proc_view =
  pv_name :: string
  pv_cmdline :: string
  pv_cwd :: "path option"
  pv_root :: "path option"
  pv_fds :: "io_error + path option list"
  pv_owner :: "int option"
  pv_stat :: "string option"
  pv_environ :: "io_error + string"
  pv_maps :: "string list"

definition str_last_index :: "string \<Rightarrow> char \<Rightarrow> nat option" where
  "str_last_index s c =
     (if c \<in> set s then Some (length s - 1 - length (takeWhile (\<lambda>x. x \<noteq> c) (rev s))) else None)"

definition procCommState :: "proc_view \<Rightarrow> string \<times> string" where
  "procCommState v =
     (case pv_stat v of
        None \<Rightarrow> ([], [])
      | Some s \<Rightarrow>
          (case (str_index s ''('', str_last_index s CHR '')'') of
             (Some po, Some pc) \<Rightarrow>
               if pc < po then ([], [])
               else (take (pc - (po + 1)) (drop (po + 1) s),
                     (case text_fields (drop (pc + 1) s) of [] \<Rightarrow> [] | f # _ \<Rightarrow> f))
           | _ \<Rightarrow> ([], [])))"

text \<open>What a scan is asked to do.\<close>

record activity_options =
  ao_lsof :: path
  ao_useLsof :: bool
  ao_okComms :: "string list"
  ao_within :: "path list"
  ao_envVars :: "string list"

definition uninspectable :: "activity_options \<Rightarrow> int \<Rightarrow> proc_view \<Rightarrow> bool" where
  "uninspectable opts uid v =
     (pv_owner v = Some uid
      \<and> (case procCommState v of (comm, state) \<Rightarrow> state \<noteq> ''Z'' \<and> (comm = [] \<or> comm \<notin> set (ao_okComms opts))))"

definition note_unreadable :: "string \<Rightarrow> activity_options \<Rightarrow> int \<Rightarrow> proc_view \<Rightarrow> int \<Rightarrow> io_error \<Rightarrow> activity \<Rightarrow> activity" where
  "note_unreadable what opts uid v pid e a =
     (if uninspectable opts uid v
      then a\<lparr>ac_incomplete := ac_incomplete a
        @ [''pid '' @ show_int pid @ '' ('' @ fst (procCommState v) @ '') '' @ what @ '' unreadable: '' @ io_text e]\<rparr>
      else a)"

definition cut_at_equals :: "string \<Rightarrow> (string \<times> string) option" where
  "cut_at_equals kv =
     (case dropWhile (\<lambda>c. c \<noteq> CHR ''='') kv of [] \<Rightarrow> None | _ # v \<Rightarrow> Some (takeWhile (\<lambda>c. c \<noteq> CHR ''='') kv, v))"

definition index_variable :: "activity_options \<Rightarrow> int \<Rightarrow> string \<Rightarrow> activity \<Rightarrow> activity" where
  "index_variable opts pid kv a =
     (case cut_at_equals kv of
        None \<Rightarrow> a
      | Some (name, value) \<Rightarrow>
          if prefix ''/'' value \<and> name \<in> set (ao_envVars opts)
          then index_ref value (''pid '' @ show_int pid @ '' has '' @ name @ ''='' @ value) (ao_within opts) a
          else a)"

definition bbIndexEnviron :: "activity_options \<Rightarrow> int \<Rightarrow> string list \<Rightarrow> activity \<Rightarrow> activity" where
  "bbIndexEnviron opts pid env a = fold (index_variable opts pid) env a"

definition bbIndexProcEnviron :: "activity_options \<Rightarrow> int \<Rightarrow> proc_view \<Rightarrow> int \<Rightarrow> activity \<Rightarrow> activity" where
  "bbIndexProcEnviron opts uid v pid a =
     (case pv_environ v of
        Inl (Missing e) \<Rightarrow> a
      | Inl (Failing e) \<Rightarrow> note_unreadable ''environment'' opts uid v pid (Failing e) a
      | Inr raw \<Rightarrow> bbIndexEnviron opts pid (split_on CHR 0x00 raw) a)"

definition index_link :: "activity_options \<Rightarrow> int \<Rightarrow> string \<Rightarrow> path option \<Rightarrow> activity \<Rightarrow> activity" where
  "index_link opts pid link t a =
     (case t of
        None \<Rightarrow> a
      | Some p \<Rightarrow> if p = ''/'' then a
                  else index_ref p (''pid '' @ show_int pid @ '' '' @ link @ '' is '' @ p) (ao_within opts) a)"

definition index_fd :: "activity_options \<Rightarrow> int \<Rightarrow> path option \<Rightarrow> activity \<Rightarrow> activity" where
  "index_fd opts pid t a =
     (case t of
        None \<Rightarrow> a
      | Some p \<Rightarrow> if prefix ''/'' p then index_ref p (''pid '' @ show_int pid @ '' holds '' @ p) (ao_within opts) a else a)"

definition index_map :: "activity_options \<Rightarrow> int \<Rightarrow> string \<Rightarrow> activity \<Rightarrow> activity" where
  "index_map opts pid line a =
     (let fs = split_n CHR '' '' 6 line
      in if length fs = 6
         then (let p = trim_space (fs ! 5)
               in if prefix ''/'' p then index_ref p (''pid '' @ show_int pid @ '' maps '' @ p) (ao_within opts) a else a)
         else a)"

definition scan_process :: "activity_options \<Rightarrow> int \<Rightarrow> proc_view \<Rightarrow> int \<Rightarrow> activity \<Rightarrow> activity" where
  "scan_process opts uid v pid a =
     (let a1 = a\<lparr>ac_procs := ac_procs a
                @ [\<lparr>pr_pid = pid, pr_cmdline = trim_space (map (\<lambda>c. if c = CHR 0x00 then CHR '' '' else c) (pv_cmdline v))\<rparr>]\<rparr>;
          a2 = index_link opts pid ''root'' (pv_root v) (index_link opts pid ''cwd'' (pv_cwd v) a1)
      in case pv_fds v of
           Inl (Missing e) \<Rightarrow> a2
         | Inl (Failing e) \<Rightarrow> note_unreadable ''fd'' opts uid v pid (Failing e) a2
         | Inr fds \<Rightarrow>
             (let a3 = fold (index_fd opts pid) fds a2;
                  a4 = (if ao_envVars opts \<noteq> [] then bbIndexProcEnviron opts uid v pid a3 else a3)
              in fold (index_map opts pid) (pv_maps v) a4))"

text \<open>The loop over the entries; \<open>cancelled\<close> says before which entry the context is found done.\<close>

fun scan_entries :: "activity_options \<Rightarrow> int \<Rightarrow> int \<Rightarrow> (proc_view \<times> bool) list \<Rightarrow> activity \<Rightarrow> activity \<times> bool" where
  "scan_entries opts self uid [] a = (a, False)"
| "scan_entries opts self uid ((v, cancelled) # vs) a =
     (if cancelled then (a\<lparr>ac_incomplete := ac_incomplete a @ [''process scan interrupted'']\<rparr>, True)
      else case parse_int64 (pv_name v) of
             (pid, ok) \<Rightarrow>
               if \<not> ok \<or> pid = self then scan_entries opts self uid vs a
               else scan_entries opts self uid vs (scan_process opts uid v pid a))"

text \<open>The answer of one \<open>lsof -w -nP -Fpn\<close>: its output, its error if any, and whether its time ran out.\<close>

fun lsof_lines :: "activity_options \<Rightarrow> string \<Rightarrow> bool \<Rightarrow> string list \<Rightarrow> activity \<Rightarrow> activity" where
  "lsof_lines opts self skip [] a = a"
| "lsof_lines opts self skip (line # ls) a =
     (if prefix ''p'' line then lsof_lines opts self (line = self) ls a
      else if skip \<or> \<not> prefix ''n/'' line then lsof_lines opts self skip ls a
      else lsof_lines opts self skip ls (index_ref (tl line) (''lsof lists '' @ tl line) (ao_within opts) a))"

definition bbLsofIndex :: "activity_options \<Rightarrow> int \<Rightarrow> string \<times> string option \<times> bool \<Rightarrow> activity \<Rightarrow> activity" where
  "bbLsofIndex opts self answer a =
     (case answer of (out, err, timedOut) \<Rightarrow>
        if err \<noteq> None \<and> out = [] then a\<lparr>ac_lsofError := ''lsof listing failed: '' @ the err\<rparr>
        else if timedOut then a\<lparr>ac_lsofError := ''lsof listing timed out''\<rparr>
        else lsof_lines opts (''p'' @ show_int self) False (split_on CHR 0x0A out) a)"

definition bbScanProc ::
    "activity_options \<Rightarrow> int \<Rightarrow> int \<Rightarrow> path \<Rightarrow> string + (proc_view \<times> bool) list \<Rightarrow> string \<times> string option \<times> bool \<Rightarrow> activity" where
  "bbScanProc opts self uid procRoot entries answer =
     (case entries of
        Inl e \<Rightarrow> newBBActivity\<lparr>ac_incomplete := [''cannot list '' @ procRoot @ '': '' @ e]\<rparr>
      | Inr vs \<Rightarrow>
          (case scan_entries opts self uid vs newBBActivity of
             (a, stopped) \<Rightarrow>
               if stopped then a
               else if ao_useLsof opts \<and> ao_lsof opts \<noteq> [] then bbLsofIndex opts self answer a else a))"

subsection \<open>The index is the linear scan of the references\<close>

lemma clean_elements_path_up:
  assumes "is_abs p"
  shows "clean_elements (path_up p n) = take n (clean_elements p)"
proof -
  have "list_all plain_element (take n (clean_elements p))"
    using clean_elements_plain [OF assms] by (auto simp: list_all_iff dest: in_set_takeD)
  from clean_elements_joined [OF this] show ?thesis using assms by (simp add: path_up_def)
qed

lemma takeWhile_ups:
  assumes "is_abs p"
  shows "takeWhile (\<lambda>q. q \<noteq> ''/'' \<and> q \<noteq> ''.'') (path_ups p)
    = map (path_up p) (rev [1 ..< Suc (length (clean_elements p))])"
proof -
  let ?n = "length (clean_elements p)"
  have "[0 ..< Suc ?n] = 0 # [1 ..< Suc ?n]" by (simp add: upt_rec)
  then have ups: "path_ups p = map (path_up p) (rev [1 ..< Suc ?n]) @ [path_up p 0]" by (simp add: path_ups_def del: upt_Suc)
  have top: "path_up p 0 = ''/''" using assms by (simp add: path_up_def)
  have "path_up p i \<noteq> ''/'' \<and> path_up p i \<noteq> ''.''" if "i \<in> {1 ..< Suc ?n}" for i
  proof -
    have "take i (clean_elements p) \<noteq> []" using that by auto
    then show ?thesis
      using clean_elements_path_up [OF assms, of i] clean_elements_joined [of "[]"] assms by (auto simp: path_up_def)
  qed
  then have "list_all (\<lambda>q. q \<noteq> ''/'' \<and> q \<noteq> ''.'') (map (path_up p) (rev [1 ..< Suc ?n]))"
    by (auto simp: list_all_iff simp del: upt_Suc)
  then show ?thesis unfolding ups top by (subst takeWhile_append2) (auto simp: list_all_iff)
qed

text \<open>The reference \<open>p\<close> counts, and it lies at or below \<open>t\<close>.\<close>

definition ref_path :: "path \<Rightarrow> path" where "ref_path path = clean_path (trim_suffix path '' (deleted)'')"

definition covers :: "path list \<Rightarrow> path \<Rightarrow> path \<Rightarrow> bool" where
  "covers inside path t =
     (is_abs (ref_path path) \<and> (inside = [] \<or> list_ex (\<lambda>w. bbUnder (ref_path path) w) inside) \<and> bbUnder (ref_path path) t)"

definition index_all :: "path list \<Rightarrow> (path \<times> string) list \<Rightarrow> string table \<Rightarrow> string table" where
  "index_all inside refs held = fold (\<lambda>(p, why). hold_ref inside p why) refs held"

text \<open>A table is closed upwards when every directory above a held one is held.\<close>

definition up_closed :: "string table \<Rightarrow> bool" where
  "up_closed held = (\<forall>q r. tbl_get held q \<noteq> None \<longrightarrow> clean_abs q \<and> (clean_abs r \<and> r \<noteq> ''/'' \<and> bbUnder q r \<longrightarrow> tbl_get held r \<noteq> None))"

lemma hold_up_get:
  assumes "\<And>xs x ys. ps = xs @ x # ys \<Longrightarrow> tbl_get held x \<noteq> None \<Longrightarrow> list_all (\<lambda>y. tbl_get held y \<noteq> None) ys" "distinct ps"
  shows "tbl_get (hold_up why ps held) t
    = (case tbl_get held t of Some w \<Rightarrow> Some w | None \<Rightarrow> if t \<in> set ps then Some why else None)"
  using assms
proof (induction ps arbitrary: held)
  case (Cons p ps)
  show ?case
  proof (cases "tbl_get held p")
    case None
    have "list_all (\<lambda>y. tbl_get (tbl_put p why held) y \<noteq> None) ys"
      if "ps = xs @ x # ys" "tbl_get (tbl_put p why held) x \<noteq> None" for xs x ys
    proof -
      have "x \<noteq> p" using that(1) Cons.prems(2) by auto
      with that have "tbl_get held x \<noteq> None" by simp
      with Cons.prems(1) [of "p # xs" x ys] that(1) show ?thesis by (auto simp: list_all_iff)
    qed
    from Cons.IH [OF this] None Cons.prems(2) show ?thesis by (auto split: option.splits)
  next
    case (Some w)
    with Cons.prems(1) [of "[]" p ps] have "list_all (\<lambda>y. tbl_get held y \<noteq> None) ps" by simp
    with Some show ?thesis by (auto simp: list_all_iff split: option.splits)
  qed
qed (auto split: option.splits)

lemma bbUnder_trans: "clean_abs p \<Longrightarrow> clean_abs q \<Longrightarrow> clean_abs r \<Longrightarrow> bbUnder p q \<Longrightarrow> bbUnder q r \<Longrightarrow> bbUnder p r"
  using bbUnder_iff prefix_order.trans by metis

lemma held_ups:
  assumes "is_abs p" "clean_path p = p"
  shows "t \<in> set (takeWhile (\<lambda>q. q \<noteq> ''/'' \<and> q \<noteq> ''.'') (path_ups p)) \<longleftrightarrow> clean_abs t \<and> t \<noteq> ''/'' \<and> bbUnder p t"
proof -
  let ?n = "length (clean_elements p)"
  have p: "clean_abs p" using assms by (simp add: clean_abs_def)
  have slash: "clean_abs ''/''" "clean_elements ''/'' = []" using clean_abs_of [of "[]"] clean_elements_joined [of "[]"] by simp_all
  have "set (path_ups p) = insert ''/'' (set (map (path_up p) (rev [1 ..< Suc ?n])))"
  proof -
    have "[0 ..< Suc ?n] = 0 # [1 ..< Suc ?n]" by (simp add: upt_rec)
    then have "path_ups p = map (path_up p) (rev [1 ..< Suc ?n]) @ [path_up p 0]" by (simp add: path_ups_def del: upt_Suc)
    then show ?thesis using assms(1) by (simp add: path_up_def del: upt_Suc)
  qed
  moreover have "''/'' \<notin> set (map (path_up p) (rev [1 ..< Suc ?n]))"
    unfolding takeWhile_ups [OF assms(1), symmetric] by (auto dest: set_takeWhileD)
  ultimately show ?thesis
    unfolding takeWhile_ups [OF assms(1)] using path_ups_iff [OF assms(1), of t] bbUnder_iff [OF p, of t] by blast
qed

lemma ups_above:
  assumes "is_abs p" "map (path_up p) (rev [1 ..< Suc n]) = xs @ x # ys" "n \<le> length (clean_elements p)" "y \<in> set ys"
  shows "prefix (clean_elements y) (clean_elements x)"
proof -
  let ?l = "map (path_up p) (rev [1 ..< Suc n])"
  obtain j where j: "j < length ys" "y = ys ! j" using assms(4) by (auto simp: in_set_conv_nth)
  have len: "length xs + Suc (length ys) = n" using arg_cong [OF assms(2), of length] by (simp del: upt_Suc)
  have nth: "?l ! i = path_up p (n - i)" if "i < n" for i
    using that by (simp add: rev_nth Suc_diff_Suc del: upt_Suc)
  have "x = ?l ! length xs" "y = ?l ! (Suc (length xs + j))" using assms(2) j by (simp_all add: nth_append)
  with nth [of "length xs"] nth [of "Suc (length xs + j)"] len j
  have "x = path_up p (n - length xs)" "y = path_up p (n - Suc (length xs + j))" by simp_all
  moreover have "take (n - Suc (length xs + j)) es = take (n - Suc (length xs + j)) (take (n - length xs) es)" for es :: "string list"
    by (simp add: min_def)
  ultimately show ?thesis
    using clean_elements_path_up [OF assms(1)] by (metis take_is_prefix)
qed

lemma is_abs_clean_iff: "is_abs (clean_path s) = is_abs s"
proof (cases "is_abs s")
  case False
  have sub: "set (clean_elements s) \<subseteq> set (split_on CHR ''/'' s)"
    using foldl_clean_set [of "is_abs s" "[]" "split_on CHR ''/'' s"] by (simp add: clean_elements_def)
  have step: "[] \<notin> set (clean_step r acc part)" if "[] \<notin> set acc" for r acc part
    using that clean_step_set [of r acc part] by (cases "part = []") auto
  have "[] \<notin> set (foldl (clean_step r) acc parts)" if "[] \<notin> set acc" for r acc parts
    using that by (induction parts arbitrary: acc) (simp_all add: step)
  then have ne: "[] \<notin> set (clean_elements s)" by (simp add: clean_elements_def)
  have "\<not> is_abs (clean_path s)"
  proof (cases "clean_elements s")
    case (Cons e es)
    with sub ne have "e \<noteq> []" "CHR ''/'' \<notin> set e" using split_on_elements [of e "CHR ''/''" s] by auto
    then have "\<not> is_abs (join_strings ''/'' (e # es))" by (cases es; cases e) (auto simp: is_abs_def)
    with Cons False show ?thesis by (auto simp: clean_path_def is_abs_def)
  qed (use False in \<open>auto simp: clean_path_def is_abs_def\<close>)
  with False show ?thesis by simp
qed (simp add: is_abs_clean)

lemma hold_ref_get:
  assumes "up_closed held"
  shows "tbl_get (hold_ref inside path why held) t
    = (case tbl_get held t of Some w \<Rightarrow> Some w
       | None \<Rightarrow> if covers inside path t \<and> clean_abs t \<and> t \<noteq> ''/'' then Some why else None)"
proof -
  let ?p = "ref_path path" and ?ups = "takeWhile (\<lambda>q. q \<noteq> ''/'' \<and> q \<noteq> ''.'') (path_ups (ref_path path))"
  show ?thesis
  proof (cases "is_abs ?p \<and> (inside = [] \<or> list_ex (\<lambda>w. bbUnder ?p w) inside)")
    case False
    then have "hold_ref inside path why held = held" "\<not> covers inside path t"
      by (auto simp: hold_ref_def covers_def ref_path_def Let_def)
    then show ?thesis by (simp split: option.splits)
  next
    case True
    then have abs: "is_abs ?p" "clean_path ?p = ?p"
      using clean_path_idem by (auto simp: ref_path_def is_abs_clean_iff)
    have above: "list_all (\<lambda>y. tbl_get held y \<noteq> None) ys" if "?ups = xs @ x # ys" "tbl_get held x \<noteq> None" for xs x ys
    proof -
      have cx: "clean_abs x" and cy: "y \<in> set ys \<Longrightarrow> clean_abs y \<and> y \<noteq> ''/''" for y
        using held_ups [OF abs] that(1) by auto
      have "tbl_get held y \<noteq> None" if y: "y \<in> set ys" for y
      proof -
        have "prefix (clean_elements y) (clean_elements x)"
          using ups_above [OF abs(1), of "length (clean_elements ?p)" xs x ys y] \<open>?ups = xs @ x # ys\<close> y
          unfolding takeWhile_ups [OF abs(1)] by blast
        then have "bbUnder x y" using bbUnder_iff [OF cx, of y] cy [OF y] by simp
        with cy [OF y] \<open>tbl_get held x \<noteq> None\<close> assms show ?thesis unfolding up_closed_def by blast
      qed
      then show ?thesis by (simp add: list_all_iff)
    qed
    have "inj_on (path_up ?p) {1 ..< Suc (length (clean_elements ?p))}"
    proof (rule inj_onI)
      fix i j assume ij: "i \<in> {1 ..< Suc (length (clean_elements ?p))}" "j \<in> {1 ..< Suc (length (clean_elements ?p))}"
        and "path_up ?p i = path_up ?p j"
      then have "length (take i (clean_elements ?p)) = length (take j (clean_elements ?p))"
        using clean_elements_path_up [OF abs(1)] by metis
      with ij show "i = j" by simp
    qed
    then have d: "distinct ?ups" unfolding takeWhile_ups [OF abs(1)] by (simp add: distinct_map del: upt_Suc)
    have "tbl_get (hold_up why ?ups held) t
        = (case tbl_get held t of Some w \<Rightarrow> Some w | None \<Rightarrow> if t \<in> set ?ups then Some why else None)"
      using above d by (rule hold_up_get)
    moreover have "hold_ref inside path why held = hold_up why ?ups held"
      using True by (auto simp: hold_ref_def ref_path_def Let_def)
    moreover have "t \<in> set ?ups \<longleftrightarrow> covers inside path t \<and> clean_abs t \<and> t \<noteq> ''/''"
      using True held_ups [OF abs, of t] by (auto simp: covers_def)
    ultimately show ?thesis by (simp only:)
  qed
qed

lemma clean_abs_ref: "covers inside path t \<Longrightarrow> clean_abs (ref_path path)"
  by (auto simp: covers_def ref_path_def is_abs_clean_iff intro!: clean_abs_clean)

lemma hold_ref_closed:
  assumes "up_closed held"
  shows "up_closed (hold_ref inside path why held)"
  unfolding up_closed_def
proof (intro allI impI conjI)
  fix q r assume q: "tbl_get (hold_ref inside path why held) q \<noteq> None"
  show cq: "clean_abs q"
    using q assms unfolding hold_ref_get [OF assms] up_closed_def by (auto split: option.splits if_splits)
  assume r: "clean_abs r \<and> r \<noteq> ''/'' \<and> bbUnder q r"
  show "tbl_get (hold_ref inside path why held) r \<noteq> None"
  proof (cases "tbl_get held q")
    case Some
    with assms r have "tbl_get held r \<noteq> None" unfolding up_closed_def by (metis option.distinct(1))
    then show ?thesis unfolding hold_ref_get [OF assms] by (auto split: option.splits)
  next
    case None
    with q have c: "covers inside path q" unfolding hold_ref_get [OF assms] by (auto split: if_splits)
    with r cq have "covers inside path r"
      using bbUnder_trans [OF clean_abs_ref [OF c] cq] by (auto simp: covers_def)
    with r show ?thesis unfolding hold_ref_get [OF assms] by (auto split: option.splits)
  qed
qed

lemma index_all_get:
  assumes "up_closed held" "clean_abs t" "t \<noteq> ''/''"
  shows "tbl_get (index_all inside refs held) t
    = (case tbl_get held t of Some w \<Rightarrow> Some w | None \<Rightarrow> map_option snd (find (\<lambda>(p, why). covers inside p t) refs))"
  using assms(1)
proof (induction refs arbitrary: held)
  case (Cons r refs)
  obtain p why where r: "r = (p, why)" by fastforce
  have "tbl_get (index_all inside (r # refs) held) t = tbl_get (index_all inside refs (hold_ref inside p why held)) t"
    by (simp add: index_all_def r)
  with Cons.IH [OF hold_ref_closed [OF Cons.prems, of inside p why]] assms(2,3) show ?case
    unfolding hold_ref_get [OF Cons.prems] by (auto simp: r split: option.splits)
qed (simp add: index_all_def split: option.splits)

lemma up_closed_Nil [simp]: "up_closed []"
  by (simp add: up_closed_def)

text \<open>C37: the index of held paths refines the list of references it was built from.  Though \<open>index\<close> stops
  climbing at the first directory already held, what it holds at a directory is the reason of the first
  reference that counts and lies at or below it.\<close>

theorem held_refines_references:
  assumes "clean_abs t" "t \<noteq> ''/''"
  shows "tbl_get (ac_held (fold (\<lambda>(p, why). index_ref p why inside) refs newBBActivity)) t
    = map_option snd (find (\<lambda>(p, why). covers inside p t) refs)"
proof -
  have "ac_held (fold (\<lambda>(p, why). index_ref p why inside) refs a) = index_all inside refs (ac_held a)" for a
    by (induction refs arbitrary: a) (auto simp: index_all_def index_ref_def split: prod.splits)
  then show ?thesis using index_all_get [OF up_closed_Nil assms] by (simp add: newBBActivity_def)
qed

lemma held_refines_references_witness:
  "tbl_get (ac_held (fold (\<lambda>(p, why). index_ref p why [])
      [(''/s/a'', ''one''), (''/s/a/b (deleted)'', ''two''), (''/s/c'', ''three'')] newBBActivity)) ''/s/a/b'' = Some ''two''"
proof -
  have t: "clean_abs ''/s/a/b''" "''/s/a/b'' \<noteq> ''/''" by code_simp+
  have c: "find (\<lambda>(p, why). covers [] p ''/s/a/b'')
      [(''/s/a'', ''one''), (''/s/a/b (deleted)'', ''two''), (''/s/c'', ''three'')] = Some (''/s/a/b (deleted)'', ''two'')"
    by code_simp
  show ?thesis unfolding held_refines_references [OF t] c by simp
qed

subsection \<open>What a scan records\<close>

definition ref_if_abs :: "path option \<Rightarrow> (path \<Rightarrow> string) \<Rightarrow> (path \<times> string) list" where
  "ref_if_abs t why = (case t of None \<Rightarrow> [] | Some p \<Rightarrow> if prefix ''/'' p then [(p, why p)] else [])"

text \<open>The references of one process, with their reasons: links, descriptors, variables, mappings.\<close>

definition link_refs :: "int \<Rightarrow> string \<Rightarrow> path option \<Rightarrow> (path \<times> string) list" where
  "link_refs pid link t =
     (case t of None \<Rightarrow> [] | Some p \<Rightarrow> if p = ''/'' then [] else [(p, ''pid '' @ show_int pid @ '' '' @ link @ '' is '' @ p)])"

definition variable_refs :: "activity_options \<Rightarrow> int \<Rightarrow> string \<Rightarrow> (path \<times> string) list" where
  "variable_refs opts pid kv =
     (case cut_at_equals kv of
        None \<Rightarrow> []
      | Some (name, value) \<Rightarrow>
          if prefix ''/'' value \<and> name \<in> set (ao_envVars opts)
          then [(value, ''pid '' @ show_int pid @ '' has '' @ name @ ''='' @ value)] else [])"

definition map_refs :: "int \<Rightarrow> string \<Rightarrow> (path \<times> string) list" where
  "map_refs pid line =
     (let fs = split_n CHR '' '' 6 line
      in if length fs = 6 then ref_if_abs (Some (trim_space (fs ! 5))) (\<lambda>p. ''pid '' @ show_int pid @ '' maps '' @ p) else [])"

definition process_refs :: "activity_options \<Rightarrow> int \<Rightarrow> proc_view \<Rightarrow> (path \<times> string) list" where
  "process_refs opts pid v =
     link_refs pid ''cwd'' (pv_cwd v) @ link_refs pid ''root'' (pv_root v)
     @ (case pv_fds v of
          Inl _ \<Rightarrow> []
        | Inr fds \<Rightarrow>
            concat (map (\<lambda>t. ref_if_abs t (\<lambda>p. ''pid '' @ show_int pid @ '' holds '' @ p)) fds)
            @ (if ao_envVars opts = [] then []
               else case pv_environ v of Inl _ \<Rightarrow> [] | Inr raw \<Rightarrow> concat (map (variable_refs opts pid) (split_on CHR 0x00 raw)))
            @ concat (map (map_refs pid) (pv_maps v)))"

lemma index_all_append [simp]: "index_all inside (r @ s) held = index_all inside s (index_all inside r held)"
  by (simp add: index_all_def)

lemma index_all_simps [simp]:
  "index_all inside [] held = held" "index_all inside [(p, why)] held = hold_ref inside p why held"
  by (simp_all add: index_all_def)

lemma held_note [simp]: "ac_held (note_unreadable what opts uid v pid e a) = ac_held a"
  by (simp add: note_unreadable_def)

lemma held_folds:
  "ac_held (fold (index_fd opts pid) fds a)
     = index_all (ao_within opts) (concat (map (\<lambda>t. ref_if_abs t (\<lambda>p. ''pid '' @ show_int pid @ '' holds '' @ p)) fds)) (ac_held a)"
  "ac_held (fold (index_variable opts pid) kvs a)
     = index_all (ao_within opts) (concat (map (variable_refs opts pid) kvs)) (ac_held a)"
  "ac_held (fold (index_map opts pid) ls a)
     = index_all (ao_within opts) (concat (map (map_refs pid) ls)) (ac_held a)"
proof -
  show "ac_held (fold (index_fd opts pid) fds a)
     = index_all (ao_within opts) (concat (map (\<lambda>t. ref_if_abs t (\<lambda>p. ''pid '' @ show_int pid @ '' holds '' @ p)) fds)) (ac_held a)"
    by (induction fds arbitrary: a) (auto simp: index_fd_def ref_if_abs_def index_ref_def split: option.splits)
  show "ac_held (fold (index_variable opts pid) kvs a)
     = index_all (ao_within opts) (concat (map (variable_refs opts pid) kvs)) (ac_held a)"
    by (induction kvs arbitrary: a) (auto simp: index_variable_def variable_refs_def index_ref_def split: option.splits)
  show "ac_held (fold (index_map opts pid) ls a)
     = index_all (ao_within opts) (concat (map (map_refs pid) ls)) (ac_held a)"
    by (induction ls arbitrary: a) (auto simp: index_map_def map_refs_def ref_if_abs_def index_ref_def Let_def)
qed

lemma held_scan_process:
  "ac_held (scan_process opts uid v pid a) = index_all (ao_within opts) (process_refs opts pid v) (ac_held a)"
proof -
  have link: "ac_held (index_link opts pid link t a) = index_all (ao_within opts) (link_refs pid link t) (ac_held a)" for link t a
    by (auto simp: index_link_def link_refs_def index_ref_def split: option.splits)
  have env: "ac_held (bbIndexProcEnviron opts uid v pid a)
      = index_all (ao_within opts) (case pv_environ v of Inl _ \<Rightarrow> [] | Inr raw \<Rightarrow> concat (map (variable_refs opts pid) (split_on CHR 0x00 raw))) (ac_held a)" for a
    by (simp add: bbIndexProcEnviron_def bbIndexEnviron_def held_folds split: sum.split io_error.split)
  show ?thesis
    by (simp add: scan_process_def process_refs_def link env held_folds Let_def split: sum.split io_error.split)
qed

definition entry_refs :: "activity_options \<Rightarrow> int \<Rightarrow> proc_view \<times> bool \<Rightarrow> (path \<times> string) list" where
  "entry_refs opts self e =
     (case parse_int64 (pv_name (fst e)) of (pid, ok) \<Rightarrow> if \<not> ok \<or> pid = self then [] else process_refs opts pid (fst e))"

lemma held_scan_entries:
  "scan_entries opts self uid vs a = (b, stopped) \<Longrightarrow>
     (stopped \<longrightarrow> ac_incomplete b \<noteq> [])
     \<and> (\<not> stopped \<longrightarrow> ac_held b = index_all (ao_within opts) (concat (map (entry_refs opts self) vs)) (ac_held a))"
proof (induction opts self uid vs a rule: scan_entries.induct)
  case (2 opts self uid v cancelled vs a)
  then show ?case
    by (cases cancelled; cases "parse_int64 (pv_name v)")
      (auto simp: entry_refs_def held_scan_process split: if_splits)
qed simp

lemma lsof_index_frame:
  "ac_incomplete (bbLsofIndex opts self answer a) = ac_incomplete a"
  "up_closed (ac_held a) \<Longrightarrow> tbl_get (ac_held a) t \<noteq> None \<Longrightarrow> tbl_get (ac_held (bbLsofIndex opts self answer a)) t \<noteq> None"
proof -
  have *: "ac_incomplete (lsof_lines opts s skip ls b) = ac_incomplete b
    \<and> (up_closed (ac_held b) \<longrightarrow> tbl_get (ac_held b) t \<noteq> None \<longrightarrow> tbl_get (ac_held (lsof_lines opts s skip ls b)) t \<noteq> None)" for s skip ls b
  proof (induction opts s skip ls b rule: lsof_lines.induct)
    case (2 opts s skip line ls b)
    then show ?case
      using hold_ref_closed [of "ac_held b"] hold_ref_get [of "ac_held b" "ao_within opts" "tl line" "''lsof lists '' @ tl line" t]
      by (auto simp: index_ref_def split: option.splits if_splits)
  qed simp
  show "ac_incomplete (bbLsofIndex opts self answer a) = ac_incomplete a"
    "up_closed (ac_held a) \<Longrightarrow> tbl_get (ac_held a) t \<noteq> None \<Longrightarrow> tbl_get (ac_held (bbLsofIndex opts self answer a)) t \<noteq> None"
    using * by (auto simp: bbLsofIndex_def split: prod.splits)
qed

lemma index_all_closed: "up_closed held \<Longrightarrow> up_closed (index_all inside refs held)"
  by (induction refs arbitrary: held) (auto simp: index_all_def hold_ref_closed split: prod.splits)

lemma scan_entries_incomplete:
  "ac_incomplete a \<noteq> [] \<Longrightarrow> ac_incomplete (fst (scan_entries opts self uid vs a)) \<noteq> []"
  "(v, c) \<in> set vs \<Longrightarrow> parse_int64 (pv_name v) = (pid, True) \<Longrightarrow> pid \<noteq> self \<Longrightarrow> uninspectable opts uid v \<Longrightarrow>
     pv_fds v = Inl (Failing e) \<Longrightarrow> ac_incomplete (fst (scan_entries opts self uid vs a)) \<noteq> []"
proof -
  have link: "ac_incomplete (index_link opts pid link t b) = ac_incomplete b" for pid link t b
    by (simp add: index_link_def index_ref_def split: option.split)
  have fds: "ac_incomplete (fold (index_fd opts pid) fds b) = ac_incomplete b" for pid fds b
    by (induction fds arbitrary: b) (simp_all add: index_fd_def index_ref_def split: option.split)
  have vars: "ac_incomplete (fold (index_variable opts pid) kvs b) = ac_incomplete b" for pid kvs b
    by (induction kvs arbitrary: b) (simp_all add: index_variable_def index_ref_def split: option.split prod.split)
  have maps: "ac_incomplete (fold (index_map opts pid) ls b) = ac_incomplete b" for pid ls b
    by (induction ls arbitrary: b) (simp_all add: index_map_def index_ref_def Let_def)
  note keep = link fds vars maps
  have more: "ac_incomplete (note_unreadable what opts uid v pid err b) \<noteq> []" if "ac_incomplete b \<noteq> []" for what v pid err b
    using that by (simp add: note_unreadable_def)
  have process: "ac_incomplete (scan_process opts uid v pid b) \<noteq> []" if "ac_incomplete b \<noteq> []" for v pid b
    using that more by (auto simp: scan_process_def bbIndexProcEnviron_def bbIndexEnviron_def keep Let_def split: sum.split io_error.split)
  have grow: "ac_incomplete (fst (scan_entries opts self uid vs a)) \<noteq> []" if "ac_incomplete a \<noteq> []" for vs a
    using that
  proof (induction vs arbitrary: a)
    case (Cons x vs)
    then show ?case using process by (cases x) (simp split: prod.split)
  qed simp
  show "ac_incomplete a \<noteq> [] \<Longrightarrow> ac_incomplete (fst (scan_entries opts self uid vs a)) \<noteq> []" by (rule grow)
  show "ac_incomplete (fst (scan_entries opts self uid vs a)) \<noteq> []"
    if "(v, c) \<in> set vs" "parse_int64 (pv_name v) = (pid, True)" "pid \<noteq> self" "uninspectable opts uid v" "pv_fds v = Inl (Failing e)"
    using that(1)
  proof (induction vs arbitrary: a)
    case (Cons x vs)
    have "ac_incomplete (scan_process opts uid v pid a) \<noteq> []"
      using that(4,5) by (simp add: scan_process_def note_unreadable_def Let_def)
    with Cons grow that(2,3) show ?case by (cases x) (auto split: prod.splits)
  qed simp
qed

text \<open>C36: no process is overlooked.  When the inventory is complete, a path that some other process
  refers to (working directory, root, descriptor, mapping or listed variable) blocks every directory at
  or above it in the watched trees, and no process of this user had an unreadable descriptor table
  unless its name is excused.\<close>

theorem live_reference_blocks:
  assumes "complete (bbScanProc opts self uid procRoot (Inr vs) answer) = []"
    and "(v, cancelled) \<in> set vs" "parse_int64 (pv_name v) = (pid, True)" "pid \<noteq> self"
    and "(p, why) \<in> set (process_refs opts pid v)"
    and "t \<in> {clean_path target, resolvedOrSelf resolve target}" "clean_abs t" "t \<noteq> ''/''" "bbUnder (ref_path p) t"
    and "ao_within opts = [] \<or> (\<exists>w\<in>set (ao_within opts). clean_abs w \<and> bbUnder t w)"
  shows "blockers resolve (bbScanProc opts self uid procRoot (Inr vs) answer) target \<noteq> []
    \<and> (\<forall>e. pv_fds v = Inl (Failing e) \<longrightarrow> \<not> uninspectable opts uid v)"
proof
  let ?a = "bbScanProc opts self uid procRoot (Inr vs) answer"
  obtain b stopped where b: "scan_entries opts self uid vs newBBActivity = (b, stopped)" by fastforce
  have inc: "ac_incomplete ?a = []" using assms(1) by (auto simp: complete_def split: if_splits)
  have a: "?a = (if stopped then b else if ao_useLsof opts \<and> ao_lsof opts \<noteq> [] then bbLsofIndex opts self answer b else b)"
    by (simp add: bbScanProc_def b)
  have incb: "ac_incomplete b = []" using inc unfolding a by (simp add: lsof_index_frame(1) split: if_split_asm)
  with held_scan_entries [OF b] have held: "\<not> stopped" "ac_held b = index_all (ao_within opts) (concat (map (entry_refs opts self) vs)) []"
    by (auto simp: newBBActivity_def)
  have abs: "is_abs (ref_path p)"
    using assms(7-9) by (auto simp: bbUnder_def clean_abs_def is_abs_def prefix_def)
  then have cp: "clean_abs (ref_path p)" by (simp add: ref_path_def is_abs_clean_iff clean_abs_clean)
  have "covers (ao_within opts) p t"
    using assms(9,10) abs bbUnder_trans [OF cp assms(7) _ assms(9)] by (auto simp: covers_def list_ex_iff)
  moreover have "(p, why) \<in> set (concat (map (entry_refs opts self) vs))"
    unfolding set_concat set_map
    by (rule UnionI, rule imageI, rule imageI, rule assms(2)) (use assms(3-5) in \<open>simp add: entry_refs_def\<close>)
  ultimately have "tbl_get (ac_held b) t \<noteq> None"
    unfolding held(2) index_all_get [OF up_closed_Nil assms(7,8)] by (auto simp: find_None_iff)
  then have "tbl_get (ac_held ?a) t \<noteq> None"
    unfolding a using lsof_index_frame(2) [of b t opts self answer] held index_all_closed [OF up_closed_Nil]
    by (simp split: if_split)
  then have "List.map_filter (tbl_get (ac_held ?a)) (uniquePaths [clean_path target, resolvedOrSelf resolve target]) \<noteq> []"
    using assms(6) uniquePaths_set [of "[clean_path target, resolvedOrSelf resolve target]"]
    by (auto simp: List.map_filter_def filter_empty_conv)
  then show "blockers resolve ?a target \<noteq> []" by (simp add: blockers_def)
  show "\<forall>e. pv_fds v = Inl (Failing e) \<longrightarrow> \<not> uninspectable opts uid v"
    using scan_entries_incomplete(2) [OF assms(2-4), of opts uid] incb b by (metis fst_conv)
qed

definition nix_shell_view :: proc_view where
  "nix_shell_view =
     \<lparr>pv_name = ''41'', pv_cmdline = ''bash'', pv_cwd = Some ''/home/a'', pv_root = Some ''/'', pv_fds = Inr [Some ''/dev/pts/1''],
      pv_owner = Some 7, pv_stat = Some ''41 (bash) S 1'', pv_environ = Inr ''TMPDIR=/srv/t/nix-shell.x'', pv_maps = []\<rparr>"

lemma live_reference_blocks_witness:
  "blockers (\<lambda>p. Resolved p)
     (bbScanProc \<lparr>ao_lsof = [], ao_useLsof = False, ao_okComms = [], ao_within = [''/srv/t''], ao_envVars = [''TMPDIR'']\<rparr>
        9 7 ''/proc'' (Inr [(nix_shell_view, False)]) ([], None, False)) ''/srv/t/nix-shell.x'' \<noteq> []"
proof -
  let ?opts = "\<lparr>ao_lsof = [], ao_useLsof = False, ao_okComms = [], ao_within = [''/srv/t''], ao_envVars = [''TMPDIR'']\<rparr>"
  have "complete (bbScanProc ?opts 9 7 ''/proc'' (Inr [(nix_shell_view, False)]) ([], None, False)) = []"
    "parse_int64 (pv_name nix_shell_view) = (41, True)"
    "(''/srv/t/nix-shell.x'', ''pid 41 has TMPDIR=/srv/t/nix-shell.x'') \<in> set (process_refs ?opts 41 nix_shell_view)"
    "''/srv/t/nix-shell.x'' \<in> {clean_path ''/srv/t/nix-shell.x'', resolvedOrSelf (\<lambda>p. Resolved p) ''/srv/t/nix-shell.x''}"
    "clean_abs ''/srv/t/nix-shell.x''" "bbUnder (ref_path ''/srv/t/nix-shell.x'') ''/srv/t/nix-shell.x''"
    "ao_within ?opts = [] \<or> (\<exists>w\<in>set (ao_within ?opts). clean_abs w \<and> bbUnder ''/srv/t/nix-shell.x'' w)"
    by code_simp+
  note facts = this
  have "(nix_shell_view, False) \<in> set [(nix_shell_view, False)]" by simp
  from live_reference_blocks [OF facts(1) this facts(2) _ facts(3-5) _ facts(6,7)] show ?thesis by simp
qed

end
