(* ===== verification/Shm_Scratch.thy ===== *)
theory Shm_Scratch
  imports Activity
begin

text \<open>
  The reaper of RAM-backed scratch, \<open>plugins/shm_scratch.go\<close> with its section of \<open>config/config.go\<close>: the
  policy and its floor, the structural rules of a tree, the plan, and the removal with every check run
  again at the last moment.  The host is an observation per moment: one for the plan and one for each
  removal.
\<close>

subsection \<open>The policy\<close>

definition ShmScratchModeReport :: string where "ShmScratchModeReport = ''report''"
definition ShmScratchModeApply :: string where "ShmScratchModeApply = ''apply''"
definition ShmScratchMinIdleAfter :: duration where "ShmScratchMinIdleAfter = 24 * hour"

record shm_config =
  sc_Mode :: string
  sc_Roots :: "path list"
  sc_IdleAfter :: string
  sc_MaxRootsPerCycle :: int
  sc_OKComms :: "string list"

datatype shm_error =
    BadMode string
  | NoRoots
  | BadRoot path
  | BadIdle string
  | IdleBelowFloor duration
  | NegativeBound

definition validate_shm :: "shm_config \<Rightarrow> shm_error option" where
  "validate_shm c =
     (if sc_Mode c \<noteq> ShmScratchModeReport \<and> sc_Mode c \<noteq> ShmScratchModeApply then Some (BadMode (sc_Mode c))
      else if sc_Roots c = [] then Some NoRoots
      else case find (\<lambda>r. \<not> is_abs r \<or> clean_path r = ''/'') (sc_Roots c) of
             Some r \<Rightarrow> Some (BadRoot r)
           | None \<Rightarrow>
               (case config_parse_duration (sc_IdleAfter c) of
                  None \<Rightarrow> Some (BadIdle (sc_IdleAfter c))
                | Some idle \<Rightarrow>
                    if idle < ShmScratchMinIdleAfter then Some (IdleBelowFloor idle)
                    else if sc_MaxRootsPerCycle c < 0 then Some NegativeBound
                    else None))"

text \<open>The duration read when the error is ignored: the zero value.\<close>

definition idle_after :: "shm_config \<Rightarrow> duration" where
  "idle_after c = (case config_parse_duration (sc_IdleAfter c) of None \<Rightarrow> 0 | Some d \<Rightarrow> d)"

text \<open>The text of the error, \<open>%q\<close> being plain quotes around a printable name.\<close>

fun shm_error_text :: "shm_error \<Rightarrow> string" where
  "shm_error_text (BadMode m) = ''shm_scratch.mode must be \"report\" or \"apply\", got '' @ m"
| "shm_error_text NoRoots = ''shm_scratch.roots must name at least one root''"
| "shm_error_text (BadRoot r) = ''shm_scratch root '' @ r @ '' must be an absolute directory other than /''"
| "shm_error_text (BadIdle s) = ''shm_scratch.idle_after: invalid duration '' @ s"
| "shm_error_text (IdleBelowFloor d) =
     ''shm_scratch.idle_after '' @ show_duration d @ '' is below the R-C856 floor '' @ show_duration ShmScratchMinIdleAfter"
| "shm_error_text NegativeBound = ''shm_scratch.max_roots_per_cycle must not be negative''"

subsection \<open>The host at one moment\<close>

record shm_plugin =
  sp_uid :: int
  sp_home :: path
  sp_tmpdir :: path

text \<open>\<open>sv_clock\<close> gives the two readings of \<open>keepReason\<close> for a tree, \<open>sv_proc\<close> the entries of \<open>/proc\<close> (with
  this process and user), \<open>sv_done\<close> the entries before which the context is found done, and \<open>sv_sized\<close> the
  walk that measures a tree.\<close>

record shm_view =
  sv_session :: session_env
  sv_clock :: "path \<Rightarrow> instant \<times> instant"
  sv_tmpfs :: "path \<Rightarrow> string + bool"
  sv_entries :: "path \<Rightarrow> string + string list"
  sv_proc :: "string + (proc_view \<times> bool) list"
  sv_self :: int
  sv_ruid :: int
  sv_done :: "path \<Rightarrow> bool"
  sv_sized :: "path \<Rightarrow> walk_event list \<times> bool"

definition shm_scan :: "shm_config \<Rightarrow> shm_view \<Rightarrow> path list \<Rightarrow> activity" where
  "shm_scan cfg v rts =
     bbScanProc \<lparr>ao_lsof = [], ao_useLsof = False, ao_okComms = sc_OKComms cfg, ao_within = rts, ao_envVars = []\<rparr>
       (sv_self v) (sv_ruid v) ''/proc'' (sv_proc v) ([], None, False)"

subsection \<open>The structural rules\<close>

definition shmScratchWalkLimit :: int where "shmScratchWalkLimit = 200000"

text \<open>The function given to \<open>WalkDir\<close>: an error keeps the tree, else the newest time seen.\<close>

fun keep_walk :: "session_env \<Rightarrow> int \<Rightarrow> path \<Rightarrow> int \<Rightarrow> instant \<Rightarrow> int \<Rightarrow> instant \<Rightarrow> walk_event list \<Rightarrow> string + instant" where
  "keep_walk env uid path dev now seen newest [] = Inr newest"
| "keep_walk env uid path dev now seen newest (e # es) =
     (case we_error e of
        Some err \<Rightarrow> Inl err
      | None \<Rightarrow>
          if we_done e then Inl ''context canceled''
          else if shmScratchWalkLimit < seen + 1 then Inl ''walk bound exceeded''
          else if path_base (we_path e) = ''.git'' then Inl ''contains .git: Git-owner custody''
          else if we_path e \<noteq> path \<and> we_kind e = Directory \<and> isAgentSessionDir env (we_path e)
          then Inl (''contains agent-session directory '' @ path_base (we_path e) @ '' (TIN-5268)'')
          else case we_info e of
                 Inl err \<Rightarrow> Inl err
               | Inr s \<Rightarrow>
                   if st_dev s \<noteq> dev \<or> st_uid s \<noteq> uid then Inl ''foreign owner, mount or unknown identity inside''
                   else keep_walk env uid path dev now (seen + 1)
                          (if newest < effectiveModTime s now then effectiveModTime s now else newest) es)"

definition keepReason :: "shm_plugin \<Rightarrow> shm_view \<Rightarrow> deny_set \<Rightarrow> path \<Rightarrow> file_stat \<Rightarrow> duration \<Rightarrow> string" where
  "keepReason p v deny path info idle =
     (let env = sv_session v
      in if list_ex (\<lambda>g. glob_match g (path_base path)) agentSessionTempNames then ''agent-session data (TIN-5268)''
         else case denied env deny path of
                Some why \<Rightarrow> why
              | None \<Rightarrow>
                  (case containsDenied env deny path of
                     Some why \<Rightarrow> why
                   | None \<Rightarrow>
                       if st_uid info \<noteq> sp_uid p then ''directory belongs to another or unknown user''
                       else (let cutoff = fst (sv_clock v path) - idle; now = snd (sv_clock v path)
                             in case keep_walk env (sp_uid p) path (st_dev info) now 0 (effectiveModTime info now) (se_walk env path) of
                                  Inl err \<Rightarrow> ''kept: '' @ err
                                | Inr newest \<Rightarrow>
                                    if cutoff < newest
                                    then ''recent activity: newest change '' @ show_instant newest @ '' is within '' @ show_duration idle
                                    else [])))"

definition shm_deny :: "shm_plugin \<Rightarrow> shm_view \<Rightarrow> path list \<Rightarrow> deny_set" where
  "shm_deny p v extra = newAgentSessionDeny (sv_session v) (sp_home p) (sp_uid p) (sp_tmpdir p) extra []"

subsection \<open>The plan\<close>

record shm_candidate =
  sh_target :: cleanup_target
  sh_info :: file_stat
  sh_root :: path

fun usable_roots :: "shm_view \<Rightarrow> path list \<Rightarrow> path list \<times> string list" where
  "usable_roots v [] = ([], [])"
| "usable_roots v (r # rs) =
     (let rt = clean_path r; (rts, ws) = usable_roots v rs
      in case sv_tmpfs v rt of
           Inl err \<Rightarrow> (rts, (''root '' @ rt @ '' skipped: '' @ err) # ws)
         | Inr False \<Rightarrow> (rts, (''root '' @ rt @ '' skipped: not a tmpfs (R-C856 covers RAM-backed scratch only)'') # ws)
         | Inr True \<Rightarrow> (rt # rts, ws))"

definition shm_target :: "string \<Rightarrow> path \<Rightarrow> cleanup_target" where
  "shm_target name path =
     \<lparr>ct_Type = ''shm-scratch-dir'', ct_Tier = [], ct_Name = name, ct_Version = [], ct_Path = path, ct_Bytes = 0,
      ct_LogicalBytes = 0, ct_Reclaim = [], ct_HostReclaimsSpace = None, ct_Active = False, ct_Protected = True,
      ct_Action = ''protect'', ct_Reason = []\<rparr>"

definition CleanupTierDestructive :: string where "CleanupTierDestructive = ''destructive''"

definition judge :: "shm_config \<Rightarrow> shm_plugin \<Rightarrow> shm_view \<Rightarrow> deny_set \<Rightarrow> activity \<Rightarrow> bool \<Rightarrow> path \<Rightarrow> string \<Rightarrow> path \<Rightarrow> file_stat \<Rightarrow> shm_candidate" where
  "judge cfg p v deny a apply_mode rt name path info =
     (let structural = keepReason p v deny path info (idle_after cfg);
          incomplete = (if structural = [] then complete a else structural);
          held = (if incomplete = [] then blockers (se_resolve (sv_session v)) a path else []);
          reason1 = (if held \<noteq> [] then ''held: '' @ hd held else incomplete);
          sized = getDirAllocatedBytesContext (se_tree (sv_session v)) (sv_sized v path);
          reason2 = (if reason1 = [] \<and> snd sized \<noteq> None then ''size could not be verified'' else reason1);
          t = (shm_target name path)
                \<lparr>ct_Active := held \<noteq> [],
                 ct_Bytes := (if reason1 = [] \<and> snd sized = None then fst sized else 0)\<rparr>;
          t = (if reason2 \<noteq> [] then t\<lparr>ct_Reason := reason2\<rparr>
               else t\<lparr>ct_Protected := False, ct_Action := (if apply_mode then ''delete'' else ''report''),
                      ct_Reason := ''idle past '' @ sc_IdleAfter cfg @ '' with no live holder (R-C856)''\<rparr>)
      in \<lparr>sh_target = annotateCleanupTargetPolicy CleanupTierDestructive (hostReclaimForAction (ct_Action t)) t,
          sh_info = info, sh_root = rt\<rparr>)"

text \<open>The entries of one root; the flag says that the cycle was interrupted.\<close>

fun plan_entries ::
    "shm_config \<Rightarrow> shm_plugin \<Rightarrow> shm_view \<Rightarrow> deny_set \<Rightarrow> activity \<Rightarrow> bool \<Rightarrow> path \<Rightarrow> int \<Rightarrow> string list
      \<Rightarrow> shm_candidate list \<times> string list \<times> bool" where
  "plan_entries cfg p v deny a apply_mode rt inspected [] = ([], [], False)"
| "plan_entries cfg p v deny a apply_mode rt inspected (name # names) =
     (let path = join_path [rt, name]
      in if sv_done v path then ([], [''cycle interrupted''], True)
         else case se_tree (sv_session v) path of
                None \<Rightarrow> plan_entries cfg p v deny a apply_mode rt inspected names
              | Some info \<Rightarrow>
                  if st_kind info \<noteq> Directory then plan_entries cfg p v deny a apply_mode rt inspected names
                  else if 0 < sc_MaxRootsPerCycle cfg \<and> sc_MaxRootsPerCycle cfg \<le> inspected
                  then ([], [''root '' @ rt @ '': max_roots_per_cycle '' @ show_int (sc_MaxRootsPerCycle cfg)
                             @ '' reached; the rest wait for the next cycle''], False)
                  else case plan_entries cfg p v deny a apply_mode rt (inspected + 1) names of
                         (cs, ws, stopped) \<Rightarrow> (judge cfg p v deny a apply_mode rt name path info # cs, ws, stopped))"

fun plan_roots ::
    "shm_config \<Rightarrow> shm_plugin \<Rightarrow> shm_view \<Rightarrow> deny_set \<Rightarrow> activity \<Rightarrow> bool \<Rightarrow> path list \<Rightarrow> shm_candidate list \<times> string list" where
  "plan_roots cfg p v deny a apply_mode [] = ([], [])"
| "plan_roots cfg p v deny a apply_mode (rt # rts) =
     (case sv_entries v rt of
        Inl err \<Rightarrow> (case plan_roots cfg p v deny a apply_mode rts of
                      (cs, ws) \<Rightarrow> (cs, (''root '' @ rt @ '' unreadable: '' @ err) # ws))
      | Inr names \<Rightarrow>
          (case plan_entries cfg p v deny a apply_mode rt 0 (sort names) of
             (cs, ws, True) \<Rightarrow> (cs, ws)
           | (cs, ws, False) \<Rightarrow>
               (case plan_roots cfg p v deny a apply_mode rts of (cs2, ws2) \<Rightarrow> (cs @ cs2, ws @ ws2))))"

definition shm_plan :: "shm_config \<Rightarrow> path list \<Rightarrow> shm_plugin \<Rightarrow> shm_view \<Rightarrow> bool \<Rightarrow> shm_candidate list \<times> string list" where
  "shm_plan cfg extra p v apply_mode =
     (case usable_roots v (sc_Roots cfg) of
        (rts, ws) \<Rightarrow>
          if rts = [] then ([], ws)
          else case plan_roots cfg p v (shm_deny p v extra) (shm_scan cfg v rts) apply_mode rts of
                 (cs, ws2) \<Rightarrow> (cs, ws @ ws2))"

text \<open>\<open>%v\<close> of a list of strings.\<close>

definition show_list :: "string list \<Rightarrow> string" where "show_list xs = ''['' @ join_strings '' '' xs @ '']''"

definition shm_planned_bytes :: "shm_candidate list \<Rightarrow> int" where
  "shm_planned_bytes cs =
     sum_list (map (\<lambda>c. if \<not> ct_Protected (sh_target c) \<and> ct_Action (sh_target c) = ''delete'' then ct_Bytes (sh_target c) else 0) cs)"

definition PlanCleanup_shm :: "shm_config \<Rightarrow> path list \<Rightarrow> shm_plugin \<Rightarrow> shm_view \<Rightarrow> cleanup_level \<Rightarrow> cleanup_plan" where
  "PlanCleanup_shm cfg extra p v level =
     (let plan = \<lparr>cp_Plugin = ''shm_scratch'', cp_Level = level_string level, cp_Summary = [], cp_WouldRun = False,
                  cp_SkipReason = [], cp_EstimatedBytesFreed = 0, cp_RequiredFreeBytes = 0, cp_Steps = [],
                  cp_Targets = [], cp_Warnings = [], cp_Metadata = []\<rparr>
      in case validate_shm cfg of
           Some err \<Rightarrow> plan\<lparr>cp_SkipReason := ''invalid shm_scratch policy: '' @ shm_error_text err\<rparr>
         | None \<Rightarrow>
             (let apply_mode = (sc_Mode cfg = ShmScratchModeApply);
                  (cs, ws) = shm_plan cfg extra p v apply_mode
              in annotateCleanupPlanTargetAccounting
                   (plan\<lparr>cp_Warnings := ws, cp_Targets := map sh_target cs,
                         cp_EstimatedBytesFreed := shm_planned_bytes cs, cp_WouldRun := apply_mode,
                         cp_SkipReason := (if apply_mode then [] else ''shm_scratch.mode is report''),
                         cp_Summary := show_int (int (length cs)) @ '' top-level director(ies) inspected under '' @ show_list (sc_Roots cfg),
                         cp_Metadata := [(''mode'', sc_Mode cfg), (''idle_after'', sc_IdleAfter cfg)]\<rparr>)))"

subsection \<open>The removal\<close>

definition same_file :: "file_stat \<Rightarrow> file_stat \<Rightarrow> bool" where
  "same_file s t = (st_dev s = st_dev t \<and> st_ino s = st_ino t)"

definition recheck_shm :: "shm_config \<Rightarrow> path list \<Rightarrow> shm_plugin \<Rightarrow> shm_view \<Rightarrow> shm_candidate \<Rightarrow> string" where
  "recheck_shm cfg extra p v c =
     (let path = ct_Path (sh_target c)
      in case se_tree (sv_session v) path of
           None \<Rightarrow> ''directory identity changed''
         | Some current \<Rightarrow>
             if \<not> same_file (sh_info c) current then ''directory identity changed''
             else if sv_tmpfs v (sh_root c) \<noteq> Inr True then ''root is no longer a tmpfs''
             else let why = keepReason p v (shm_deny p v extra) path current (idle_after cfg)
                  in if why \<noteq> [] then why
                     else let a = shm_scan cfg v [sh_root c]
                          in if complete a \<noteq> [] then complete a
                             else case blockers (se_resolve (sv_session v)) a path of
                                    [] \<Rightarrow> [] | live # _ \<Rightarrow> ''held: '' @ live)"

text \<open>Removing: the view of the host when the \<open>n\<close>-th candidate's turn comes, and the error of \<open>RemoveAll\<close>.
  The removals tried are listed with the view each was decided on.\<close>

definition count_removed :: "cleanup_target \<Rightarrow> string option \<Rightarrow> cleanup_result \<Rightarrow> cleanup_result" where
  "count_removed t err r =
     (if err \<noteq> None then r
      else r\<lparr>cr_BytesFreed := cr_BytesFreed r + ct_Bytes t,
             cr_EstimatedBytesFreed := cr_EstimatedBytesFreed r + ct_Bytes t,
             cr_ItemsCleaned := cr_ItemsCleaned r + 1\<rparr>)"

fun remove_candidates ::
    "shm_config \<Rightarrow> path list \<Rightarrow> shm_plugin \<Rightarrow> (nat \<Rightarrow> shm_view) \<Rightarrow> (path \<Rightarrow> string option) \<Rightarrow> nat \<Rightarrow> shm_candidate list
      \<Rightarrow> cleanup_result \<Rightarrow> cleanup_result \<times> (path \<times> shm_view) list" where
  "remove_candidates cfg extra p views rm n [] r = (r, [])"
| "remove_candidates cfg extra p views rm n (c # cs) r =
     (let t = sh_target c
      in if ct_Protected t then remove_candidates cfg extra p views rm (Suc n) cs r
         else if sc_Mode cfg \<noteq> ShmScratchModeApply then remove_candidates cfg extra p views rm (Suc n) cs r
         else if recheck_shm cfg extra p (views n) c \<noteq> [] then remove_candidates cfg extra p views rm (Suc n) cs r
         else apsnd (\<lambda>tried. (ct_Path t, views n) # tried)
                (remove_candidates cfg extra p views rm (Suc n) cs (count_removed t (rm (ct_Path t)) r)))"

definition Cleanup_shm ::
    "shm_config \<Rightarrow> path list \<Rightarrow> shm_plugin \<Rightarrow> shm_view \<Rightarrow> (nat \<Rightarrow> shm_view) \<Rightarrow> (path \<Rightarrow> string option) \<Rightarrow> cleanup_level
      \<Rightarrow> cleanup_result \<times> (path \<times> shm_view) list" where
  "Cleanup_shm cfg extra p v views rm level =
     (let r = \<lparr>cr_Plugin = ''shm_scratch'', cr_Level = level, cr_BytesFreed = 0, cr_EstimatedBytesFreed = 0,
               cr_CommandBytesFreed = 0, cr_HostBytesFreed = 0, cr_ItemsCleaned = 0, cr_Error = None\<rparr>
      in case validate_shm cfg of
           Some err \<Rightarrow> (r\<lparr>cr_Error := Some (shm_error_text err)\<rparr>, [])
         | None \<Rightarrow> remove_candidates cfg extra p views rm 0 (fst (shm_plan cfg extra p v (sc_Mode cfg = ShmScratchModeApply))) r)"

subsection \<open>What the walk establishes\<close>

text \<open>An entry that lets its tree go: readable, of this user and device, no repository and no session
  directory, and unchanged since \<open>cutoff\<close>.\<close>

definition entry_at_rest :: "session_env \<Rightarrow> int \<Rightarrow> path \<Rightarrow> int \<Rightarrow> instant \<Rightarrow> instant \<Rightarrow> walk_event \<Rightarrow> bool" where
  "entry_at_rest env uid path dev now cutoff e =
     (we_error e = None \<and> \<not> we_done e \<and> path_base (we_path e) \<noteq> ''.git''
      \<and> \<not> (we_path e \<noteq> path \<and> we_kind e = Directory \<and> isAgentSessionDir env (we_path e))
      \<and> (case we_info e of Inl _ \<Rightarrow> False | Inr s \<Rightarrow> st_dev s = dev \<and> st_uid s = uid \<and> effectiveModTime s now \<le> cutoff))"

lemma keep_walk_newest: "keep_walk env uid path dev now seen newest es = Inr r \<Longrightarrow> newest \<le> r"
  by (induction env uid path dev now seen newest es rule: keep_walk.induct)
    (auto split: option.splits sum.splits if_splits)

lemma keep_walk_iff:
  "(\<exists>r. keep_walk env uid path dev now seen newest es = Inr r \<and> r \<le> cutoff) \<longleftrightarrow>
     newest \<le> cutoff \<and> list_all (entry_at_rest env uid path dev now cutoff) es
     \<and> (es = [] \<or> seen + int (length es) \<le> shmScratchWalkLimit)"
proof (induction es arbitrary: seen newest)
  case (Cons e es)
  show ?case
  proof (cases "entry_at_rest env uid path dev now cutoff e \<and> seen + 1 \<le> shmScratchWalkLimit")
    case True
    then obtain s where "we_info e = Inr s" by (auto simp: entry_at_rest_def split: sum.splits)
    with True Cons [of "seen + 1" "if newest < effectiveModTime s now then effectiveModTime s now else newest"]
    show ?thesis by (auto simp: entry_at_rest_def split: if_splits)
  next
    case False
    have "\<not> (keep_walk env uid path dev now seen newest (e # es) = Inr r \<and> r \<le> cutoff)" for r
    proof
      assume r: "keep_walk env uid path dev now seen newest (e # es) = Inr r \<and> r \<le> cutoff"
      then obtain s where s: "we_info e = Inr s" "seen + 1 \<le> shmScratchWalkLimit" "we_error e = None" "\<not> we_done e"
          "path_base (we_path e) \<noteq> ''.git''" "\<not> (we_path e \<noteq> path \<and> we_kind e = Directory \<and> isAgentSessionDir env (we_path e))"
          "st_dev s = dev" "st_uid s = uid"
          "keep_walk env uid path dev now (seen + 1) (if newest < effectiveModTime s now then effectiveModTime s now else newest) es = Inr r"
        by (auto split: option.splits sum.splits if_splits)
      with keep_walk_newest [OF s(9)] r have "effectiveModTime s now \<le> cutoff" by (auto split: if_splits)
      with s False show False by (simp add: entry_at_rest_def)
    qed
    with False show ?thesis by auto
  qed
qed simp

definition structurally_free :: "shm_plugin \<Rightarrow> shm_view \<Rightarrow> deny_set \<Rightarrow> path \<Rightarrow> file_stat \<Rightarrow> duration \<Rightarrow> bool" where
  "structurally_free p v deny path info idle =
     (let env = sv_session v; cutoff = fst (sv_clock v path) - idle; now = snd (sv_clock v path); es = se_walk env path
      in \<not> list_ex (\<lambda>g. glob_match g (path_base path)) agentSessionTempNames
         \<and> denied env deny path = None \<and> containsDenied env deny path = None
         \<and> st_uid info = sp_uid p \<and> effectiveModTime info now \<le> cutoff
         \<and> list_all (entry_at_rest env (sp_uid p) path (st_dev info) now cutoff) es
         \<and> int (length es) \<le> shmScratchWalkLimit)"

lemma denied_nonempty: "denied env d path = Some why \<Longrightarrow> why \<noteq> []"
proof -
  have step: "denied_step env d q = Some why \<Longrightarrow> why \<noteq> []" for q
    by (auto simp: denied_step_def split: option.splits if_splits)
  have some: "first_some f xs = Some y \<Longrightarrow> \<exists>x. f x = Some y" for f :: "path \<Rightarrow> string option" and xs y
    by (induction xs) (auto split: option.splits)
  have "deniedPath env d q b = Some why \<Longrightarrow> why \<noteq> []" for q b
    using some step unfolding deniedPath_def by blast
  then show "denied env d path = Some why \<Longrightarrow> why \<noteq> []"
    unfolding denied_def deniedBelow_def by (auto dest!: some)
qed

lemma containsDenied_nonempty: "containsDenied env d path = Some why \<Longrightarrow> why \<noteq> []"
proof -
  have some: "first_some f xs = Some y \<Longrightarrow> \<exists>x. f x = Some y" for f :: "path \<Rightarrow> string option" and xs y
    by (induction xs) (auto split: option.splits)
  show "containsDenied env d path = Some why \<Longrightarrow> why \<noteq> []"
    unfolding containsDenied_def by (auto dest!: some)
qed

lemma keepReason_iff: "keepReason p v deny path info idle = [] \<longleftrightarrow> structurally_free p v deny path info idle"
proof -
  let ?cutoff = "fst (sv_clock v path) - idle" and ?now = "snd (sv_clock v path)" and ?es = "se_walk (sv_session v) path"
  let ?walk = "keep_walk (sv_session v) (sp_uid p) path (st_dev info) ?now 0 (effectiveModTime info ?now) ?es"
  have "(case ?walk of Inl err \<Rightarrow> ''kept: '' @ err
         | Inr newest \<Rightarrow> if ?cutoff < newest
             then ''recent activity: newest change '' @ show_instant newest @ '' is within '' @ show_duration idle else []) = []
        \<longleftrightarrow> (\<exists>r. ?walk = Inr r \<and> r \<le> ?cutoff)"
    by (auto split: sum.splits)
  also have "\<dots> \<longleftrightarrow> effectiveModTime info ?now \<le> ?cutoff
      \<and> list_all (entry_at_rest (sv_session v) (sp_uid p) path (st_dev info) ?now ?cutoff) ?es
      \<and> int (length ?es) \<le> shmScratchWalkLimit"
    unfolding keep_walk_iff by (auto simp: shmScratchWalkLimit_def)
  finally show ?thesis
    using denied_nonempty [of "sv_session v" deny path] containsDenied_nonempty [of "sv_session v" deny path]
    by (auto simp: keepReason_def structurally_free_def Let_def split: option.splits if_splits)
qed

subsection \<open>Removals\<close>

lemma judge_fields:
  "ct_Path (sh_target (judge cfg p v deny a apply_mode rt name path info)) = path"
  "sh_root (judge cfg p v deny a apply_mode rt name path info) = rt"
  "sh_info (judge cfg p v deny a apply_mode rt name path info) = info"
  by (simp_all add: judge_def Let_def annotateCleanupTargetPolicy_def shm_target_def)

text \<open>A candidate is a real directory right below a usable root.\<close>

definition candidate_of :: "shm_view \<Rightarrow> path list \<Rightarrow> shm_candidate \<Rightarrow> bool" where
  "candidate_of v rts c =
     (sh_root c \<in> set rts
      \<and> (\<exists>names. sv_entries v (sh_root c) = Inr names \<and> (\<exists>name\<in>set names. ct_Path (sh_target c) = join_path [sh_root c, name]))
      \<and> se_tree (sv_session v) (ct_Path (sh_target c)) = Some (sh_info c) \<and> st_kind (sh_info c) = Directory)"

lemma plan_entries_candidates:
  "plan_entries cfg p v deny a apply_mode rt n names = (cs, ws, stopped) \<Longrightarrow> rt \<in> set rts
     \<Longrightarrow> sv_entries v rt = Inr listed \<Longrightarrow> set names \<subseteq> set listed \<Longrightarrow> list_all (candidate_of v rts) cs"
proof (induction cfg p v deny a apply_mode rt n names arbitrary: cs ws stopped rule: plan_entries.induct)
  case (2 cfg p v deny a apply_mode rt n name names)
  then show ?case
    by (auto simp: Let_def candidate_of_def judge_fields split: if_splits option.splits prod.splits)
qed simp

lemma plan_roots_candidates:
  "plan_roots cfg p v deny a apply_mode rts = (cs, ws) \<Longrightarrow> set rts \<subseteq> set all \<Longrightarrow> list_all (candidate_of v all) cs"
proof (induction cfg p v deny a apply_mode rts arbitrary: cs ws rule: plan_roots.induct)
  case (2 cfg p v deny a apply_mode rt rts)
  then show ?case
    using plan_entries_candidates [where rt = rt and rts = all and v = v]
    by (auto split: sum.splits prod.splits bool.splits)
qed simp

lemma usable_roots_subset: "usable_roots v rs = (rts, ws) \<Longrightarrow> set rts \<subseteq> clean_path ` set rs"
proof (induction rs arbitrary: rts ws)
  case (Cons r rs)
  obtain rts' ws' where "usable_roots v rs = (rts', ws')" by fastforce
  with Cons show ?case by (auto simp: Let_def split: sum.splits bool.splits)
qed simp

lemma shm_plan_candidates: "list_all (candidate_of v (map clean_path (sc_Roots cfg))) (fst (shm_plan cfg extra p v m))"
proof -
  obtain rts ws where u: "usable_roots v (sc_Roots cfg) = (rts, ws)" by fastforce
  obtain cs ws2 where r: "plan_roots cfg p v (shm_deny p v extra) (shm_scan cfg v rts) m rts = (cs, ws2)" by fastforce
  with plan_roots_candidates [OF r, of "map clean_path (sc_Roots cfg)"] usable_roots_subset [OF u]
  show ?thesis by (simp add: shm_plan_def u)
qed

lemma removed_was_rechecked:
  "(path, w) \<in> set (snd (remove_candidates cfg extra p views rm n cs r)) \<Longrightarrow>
     sc_Mode cfg = ShmScratchModeApply
     \<and> (\<exists>c\<in>set cs. ct_Path (sh_target c) = path \<and> recheck_shm cfg extra p w c = [])"
proof (induction cs arbitrary: n r)
  case (Cons c cs)
  show ?case
  proof (cases "ct_Protected (sh_target c) \<or> sc_Mode cfg \<noteq> ShmScratchModeApply \<or> recheck_shm cfg extra p (views n) c \<noteq> []")
    case True
    then have "remove_candidates cfg extra p views rm n (c # cs) r = remove_candidates cfg extra p views rm (Suc n) cs r"
      by (auto simp: Let_def)
    with Cons.prems Cons.IH [of "Suc n" r] show ?thesis by auto
  next
    case False
    with Cons.prems consider "path = ct_Path (sh_target c)" "w = views n"
      | "(path, w) \<in> set (snd (remove_candidates cfg extra p views rm (Suc n) cs
            (count_removed (sh_target c) (rm (ct_Path (sh_target c))) r)))"
      by (auto simp: Let_def)
    then show ?thesis
    proof cases
      case 1
      with False show ?thesis by auto
    next
      case 2
      from Cons.IH [OF this] show ?thesis by auto
    qed
  qed
qed simp

text \<open>What a recheck without objection establishes of the tree at that moment.\<close>

definition safe_to_remove :: "shm_config \<Rightarrow> path list \<Rightarrow> shm_plugin \<Rightarrow> shm_view \<Rightarrow> path \<Rightarrow> path \<Rightarrow> file_stat \<Rightarrow> bool" where
  "safe_to_remove cfg extra p w rt path info =
     (\<exists>current. se_tree (sv_session w) path = Some current \<and> same_file info current
        \<and> sv_tmpfs w rt = Inr True
        \<and> structurally_free p w (shm_deny p w extra) path current (idle_after cfg)
        \<and> complete (shm_scan cfg w [rt]) = []
        \<and> blockers (se_resolve (sv_session w)) (shm_scan cfg w [rt]) path = [])"

lemma recheck_iff:
  "recheck_shm cfg extra p w c = [] \<longleftrightarrow> safe_to_remove cfg extra p w (sh_root c) (ct_Path (sh_target c)) (sh_info c)"
  by (auto simp: recheck_shm_def safe_to_remove_def keepReason_iff Let_def split: option.splits list.splits)

text \<open>C30: \<open>shm_scratch\<close> removes only what it may.  It removes in apply mode under a valid policy, whose idle
  time is a day at least; every tree it removes is an entry that the plan listed right below a configured root and
  saw to be a directory.  At the moment of its removal the path is still that same file (device and inode) that
  the plan saw, on a \<open>tmpfs\<close>, of this user, not agent-session data and holding none, at rest in every entry, and, by
  a complete inventory, held by no process.\<close>

theorem shm_removal_guarded:
  assumes "(path, w) \<in> set (snd (Cleanup_shm cfg extra p v views rm level))"
  shows "sc_Mode cfg = ShmScratchModeApply \<and> 24 * hour \<le> idle_after cfg
    \<and> (\<exists>rt names name seen. rt \<in> clean_path ` set (sc_Roots cfg) \<and> sv_entries v rt = Inr names \<and> name \<in> set names
         \<and> path = join_path [rt, name]
         \<and> se_tree (sv_session v) path = Some seen \<and> st_kind seen = Directory
         \<and> safe_to_remove cfg extra p w rt path seen)"
proof -
  have valid: "validate_shm cfg = None" using assms by (auto simp: Cleanup_shm_def Let_def split: option.splits)
  then have idle: "24 * hour \<le> idle_after cfg"
    by (auto simp: validate_shm_def idle_after_def ShmScratchMinIdleAfter_def split: if_splits option.splits)
  let ?cs = "fst (shm_plan cfg extra p v (sc_Mode cfg = ShmScratchModeApply))"
  obtain r where "(path, w) \<in> set (snd (remove_candidates cfg extra p views rm 0 ?cs r))"
    using assms valid by (auto simp: Cleanup_shm_def Let_def)
  from removed_was_rechecked [OF this] obtain c where c: "sc_Mode cfg = ShmScratchModeApply" "c \<in> set ?cs"
    "ct_Path (sh_target c) = path" "recheck_shm cfg extra p w c = []" by blast
  then have "candidate_of v (map clean_path (sc_Roots cfg)) c" using shm_plan_candidates by (auto simp: list_all_iff)
  then obtain names name where k: "sh_root c \<in> clean_path ` set (sc_Roots cfg)"
      "sv_entries v (sh_root c) = Inr names" "name \<in> set names" "path = join_path [sh_root c, name]"
      "se_tree (sv_session v) path = Some (sh_info c)" "st_kind (sh_info c) = Directory"
    using c(3) unfolding candidate_of_def by auto
  moreover have "safe_to_remove cfg extra p w (sh_root c) path (sh_info c)" using c(3,4) unfolding recheck_iff by simp
  ultimately show ?thesis using c(1) idle by blast
qed

definition demo_stat :: "file_kind \<Rightarrow> int \<Rightarrow> file_stat" where
  "demo_stat k ino = \<lparr>st_kind = k, st_dev = 24, st_ino = ino, st_uid = 7, st_blocks = 8, st_size = 4096, st_mtime = 0, st_ctime = 0\<rparr>"

definition demo_entry :: "path \<Rightarrow> file_kind \<Rightarrow> int \<Rightarrow> walk_event" where
  "demo_entry p k ino = \<lparr>we_path = p, we_error = None, we_kind = k, we_info = Inr (demo_stat k ino), we_done = False\<rparr>"

definition demo_session :: session_env where
  "demo_session =
     \<lparr>se_tree = (\<lambda>p. if p = ''/dev/shm/job'' then Some (demo_stat Directory 5) else None), se_names = (\<lambda>d. []),
      se_walk = (\<lambda>p. [demo_entry ''/dev/shm/job'' Directory 5, demo_entry ''/dev/shm/job/a'' Regular 6]),
      se_resolve = (\<lambda>p. Resolved p)\<rparr>"

definition demo_shm :: shm_view where
  "demo_shm =
     \<lparr>sv_session = demo_session, sv_clock = (\<lambda>p. (200 * hour, 200 * hour)), sv_tmpfs = (\<lambda>p. Inr True),
      sv_entries = (\<lambda>p. Inr [''job'']), sv_proc = Inr [], sv_self = 9, sv_ruid = 7, sv_done = (\<lambda>p. False),
      sv_sized = (\<lambda>p. ([demo_entry ''/dev/shm/job/a'' Regular 6], False))\<rparr>"

definition demo_shm_config :: shm_config where
  "demo_shm_config =
     \<lparr>sc_Mode = ''apply'', sc_Roots = [''/dev/shm''], sc_IdleAfter = ''24h'', sc_MaxRootsPerCycle = 256, sc_OKComms = []\<rparr>"

definition demo_shm_plugin :: shm_plugin where
  "demo_shm_plugin = \<lparr>sp_uid = 7, sp_home = [], sp_tmpdir = []\<rparr>"

lemma demo_kept_by_nothing:
  "keepReason demo_shm_plugin demo_shm (shm_deny demo_shm_plugin demo_shm []) ''/dev/shm/job'' (demo_stat Directory 5) (24 * hour) = []"
  by code_simp

lemma demo_facts:
  "validate_shm demo_shm_config = None" "idle_after demo_shm_config = 24 * hour"
  "usable_roots demo_shm [''/dev/shm''] = ([''/dev/shm''], [])"
  "join_path [''/dev/shm'', ''job''] = ''/dev/shm/job''"
  "complete (shm_scan demo_shm_config demo_shm [''/dev/shm'']) = []"
  "blockers (se_resolve (sv_session demo_shm)) (shm_scan demo_shm_config demo_shm [''/dev/shm'']) ''/dev/shm/job'' = []"
  "snd (getDirAllocatedBytesContext (se_tree (sv_session demo_shm)) (sv_sized demo_shm ''/dev/shm/job'')) = None"
  "se_tree (sv_session demo_shm) ''/dev/shm/job'' = Some (demo_stat Directory 5)"
  "sv_tmpfs demo_shm ''/dev/shm'' = Inr True" "sv_entries demo_shm ''/dev/shm'' = Inr [''job'']" "sv_done demo_shm p = False"
  "st_kind (demo_stat Directory 5) = Directory" "same_file (demo_stat Directory 5) (demo_stat Directory 5)"
  "sc_Mode demo_shm_config = ShmScratchModeApply" "sc_Roots demo_shm_config = [''/dev/shm'']" "sc_MaxRootsPerCycle demo_shm_config = 256"
proof -
  show "validate_shm demo_shm_config = None" by code_simp
  show "idle_after demo_shm_config = 24 * hour" by code_simp
  show "usable_roots demo_shm [''/dev/shm''] = ([''/dev/shm''], [])" by code_simp
  show "join_path [''/dev/shm'', ''job''] = ''/dev/shm/job''" by code_simp
  show "complete (shm_scan demo_shm_config demo_shm [''/dev/shm'']) = []" by code_simp
  show "blockers (se_resolve (sv_session demo_shm)) (shm_scan demo_shm_config demo_shm [''/dev/shm'']) ''/dev/shm/job'' = []" by code_simp
  show "snd (getDirAllocatedBytesContext (se_tree (sv_session demo_shm)) (sv_sized demo_shm ''/dev/shm/job'')) = None" by code_simp
  show "se_tree (sv_session demo_shm) ''/dev/shm/job'' = Some (demo_stat Directory 5)" by code_simp
  show "sv_tmpfs demo_shm ''/dev/shm'' = Inr True" by code_simp
  show "sv_entries demo_shm ''/dev/shm'' = Inr [''job'']" by code_simp
  show "sv_done demo_shm p = False" by code_simp
  show "st_kind (demo_stat Directory 5) = Directory" by code_simp
  show "same_file (demo_stat Directory 5) (demo_stat Directory 5)" by code_simp
  show "sc_Mode demo_shm_config = ShmScratchModeApply" by code_simp
  show "sc_Roots demo_shm_config = [''/dev/shm'']" by code_simp
  show "sc_MaxRootsPerCycle demo_shm_config = 256" by code_simp
qed

lemma demo_removed:
  "map fst (snd (Cleanup_shm demo_shm_config [] demo_shm_plugin demo_shm (\<lambda>n. demo_shm) (\<lambda>p. None) LevelNone)) = [''/dev/shm/job'']"
  by (simp add: Cleanup_shm_def shm_plan_def demo_facts judge_def demo_kept_by_nothing Let_def shm_target_def
      annotateCleanupTargetPolicy_def recheck_shm_def del: usable_roots.simps)

theorem shm_removal_guarded_witness:
  "\<exists>w rt. safe_to_remove demo_shm_config [] demo_shm_plugin w rt ''/dev/shm/job'' (demo_stat Directory 5)"
proof -
  obtain xs where xs: "xs = snd (Cleanup_shm demo_shm_config [] demo_shm_plugin demo_shm (\<lambda>n. demo_shm) (\<lambda>p. None) LevelNone)" by blast
  then have "map fst xs = [''/dev/shm/job'']" using demo_removed by simp
  then obtain w where "(''/dev/shm/job'', w) \<in> set xs" by (cases xs) auto
  from shm_removal_guarded [OF this [unfolded xs]] show ?thesis by (auto simp: demo_facts)
qed

end
