(* ===== verification/Git_Custody.thy ===== *)
theory Git_Custody
  imports Activity Interfaces
begin

text \<open>
  The Git custody checks of \<open>plugins/devartifacts.go\<close>: the tracker that finds the repository of a path and
  tells whether it tracks files there, with its memo of repository roots and its bounded cache of file
  lists, and the reasons to keep a work tree.  What \<open>git\<close> answers is an observation; an error is \<open>None\<close>.
\<close>

record git_view =
  gv_available :: bool
  gv_stat :: "path \<Rightarrow> file_kind option"
  gv_lsFiles :: "path \<Rightarrow> string option"
  gv_insideWorkTree :: "path \<Rightarrow> string option"
  gv_status :: "path \<Rightarrow> string option"
  gv_upstream :: "path \<Rightarrow> string option"
  gv_ahead :: "path \<Rightarrow> string option"

record git_tracker =
  gt_gitPath :: bool
  gt_repoRootByDir :: "path table"
  gt_trackedFilesByRoot :: "string list table"
  gt_trackedOrder :: "path list"

definition newDevArtifactGitTracker :: "git_view \<Rightarrow> git_tracker" where
  "newDevArtifactGitTracker v =
     \<lparr>gt_gitPath = gv_available v, gt_repoRootByDir = [], gt_trackedFilesByRoot = [], gt_trackedOrder = []\<rparr>"

subsection \<open>The repository of a path\<close>

definition memo_all :: "path list \<Rightarrow> path \<Rightarrow> path table \<Rightarrow> path table" where
  "memo_all visited rt memo = fold (\<lambda>d m. tbl_put d rt m) visited memo"

text \<open>The loop over the directories above; the root found is empty when there is none.\<close>

fun root_lookup :: "git_view \<Rightarrow> path table \<Rightarrow> path list \<Rightarrow> path list \<Rightarrow> path \<times> path table" where
  "root_lookup v memo visited [] = ([], memo_all visited [] memo)"
| "root_lookup v memo visited (dir # dirs) =
     (case tbl_get memo dir of
        Some rt \<Rightarrow> (rt, memo_all visited rt memo)
      | None \<Rightarrow>
          if gv_stat v (join_path [dir, ''.git'']) \<noteq> None then (dir, memo_all (visited @ [dir]) dir memo)
          else root_lookup v memo (visited @ [dir]) dirs)"

text \<open>The paths asked about are absolute and clean.\<close>

definition search_start :: "git_view \<Rightarrow> path \<Rightarrow> path" where
  "search_start v path =
     (case gv_stat v path of Some k \<Rightarrow> (if k \<noteq> Directory then path_dir path else path) | None \<Rightarrow> path)"

definition repoRootForPath :: "git_view \<Rightarrow> path \<Rightarrow> git_tracker \<Rightarrow> path \<times> git_tracker" where
  "repoRootForPath v path t =
     (case root_lookup v (gt_repoRootByDir t) [] (path_ups (search_start v path)) of
        (rt, memo) \<Rightarrow> (rt, t\<lparr>gt_repoRootByDir := memo\<rparr>))"

subsection \<open>The tracked files\<close>

definition devArtifactGitTrackerRepos :: nat where "devArtifactGitTrackerRepos = 8"

definition readNULRecords :: "string \<Rightarrow> string list" where
  "readNULRecords raw = filter (\<lambda>r. r \<noteq> []) (split_on CHR 0x00 raw)"

text \<open>The loop that drops the oldest lists over the limit.\<close>

fun forget_oldest :: "path list \<Rightarrow> string list table \<Rightarrow> path list \<times> string list table" where
  "forget_oldest [] files = ([], files)"
| "forget_oldest (r # rs) files =
     (if devArtifactGitTrackerRepos < length (r # rs) then forget_oldest rs (tbl_del r files) else (r # rs, files))"

definition remember :: "path \<Rightarrow> string list \<Rightarrow> git_tracker \<Rightarrow> git_tracker" where
  "remember rt files t =
     (let order = (if tbl_get (gt_trackedFilesByRoot t) rt = None then gt_trackedOrder t @ [rt] else gt_trackedOrder t);
          (order', byRoot) = forget_oldest order (tbl_put rt files (gt_trackedFilesByRoot t))
      in t\<lparr>gt_trackedOrder := order', gt_trackedFilesByRoot := byRoot\<rparr>)"

definition trackedFiles :: "git_view \<Rightarrow> path \<Rightarrow> git_tracker \<Rightarrow> string list \<times> git_tracker" where
  "trackedFiles v rt t =
     (case tbl_get (gt_trackedFilesByRoot t) rt of
        Some files \<Rightarrow> (files, t)
      | None \<Rightarrow>
          (case gv_lsFiles v rt of
             None \<Rightarrow> ([], remember rt [] t)
           | Some raw \<Rightarrow> (let files = sort (readNULRecords raw) in (files, remember rt files t))))"

text \<open>\<open>sort.Search\<close>: the least index of \<open>[i, j)\<close> at which the predicate holds, else \<open>j\<close>.\<close>

function search_index :: "(nat \<Rightarrow> bool) \<Rightarrow> nat \<Rightarrow> nat \<Rightarrow> nat" where
  "search_index f i j =
     (if i < j then (let h = (i + j) div 2 in if f h then search_index f i h else search_index f (h + 1) j) else i)"
  by pat_completeness auto
termination by (relation "measure (\<lambda>(f, i, j). j - i)") auto

declare search_index.simps [simp del]

definition devArtifactTrackedFilesContain :: "string list \<Rightarrow> path \<Rightarrow> bool" where
  "devArtifactTrackedFilesContain files rel =
     (if rel = ''.'' then files \<noteq> []
      else let idx = search_index (\<lambda>i. rel \<le> files ! i) 0 (length files)
           in if idx < length files \<and> files ! idx = rel then True
              else let under = rel @ ''/'';
                       idx = search_index (\<lambda>i. under \<le> files ! i) 0 (length files)
                   in idx < length files \<and> prefix under (files ! idx))"

definition ContainsTrackedFiles :: "git_view \<Rightarrow> path \<Rightarrow> git_tracker \<Rightarrow> bool \<times> git_tracker" where
  "ContainsTrackedFiles v path t =
     (if \<not> gt_gitPath t then (False, t)
      else let abs = clean_path path;
               (rt, t1) = repoRootForPath v abs t
           in if rt = [] then (False, t1)
              else let (files, t2) = trackedFiles v rt t1
                   in if files = [] then (False, t2)
                      else (devArtifactTrackedFilesContain files (clean_path (path_rel rt abs)), t2))"

subsection \<open>Work trees\<close>

text \<open>\<open>strconv.Atoi\<close>.\<close>

definition atoi :: "string \<Rightarrow> int option" where
  "atoi s = (case parse_int64 s of (n, ok) \<Rightarrow> if ok then Some n else None)"

definition gitWorktreeProtectReason :: "git_view \<Rightarrow> path \<Rightarrow> string" where
  "gitWorktreeProtectReason v path =
     (if \<not> gv_available v
      then (if gv_stat v (join_path [path, ''.git'']) \<noteq> None
            then ''git worktree cannot be verified because git is unavailable'' else [])
      else if (case gv_insideWorkTree v path of None \<Rightarrow> True | Some out \<Rightarrow> trim_space out \<noteq> ''true'') then []
      else (case gv_status v path of
              None \<Rightarrow> ''git worktree status could not be verified''
            | Some status \<Rightarrow>
                if trim_space status \<noteq> [] then ''git worktree has uncommitted changes''
                else if (case gv_upstream v path of None \<Rightarrow> True | Some up \<Rightarrow> trim_space up = [])
                then ''git worktree has no upstream branch''
                else (case gv_ahead v path of
                        None \<Rightarrow> ''git worktree upstream comparison could not be verified''
                      | Some out \<Rightarrow>
                          (case atoi (trim_space out) of
                             None \<Rightarrow> ''git worktree upstream comparison could not be parsed''
                           | Some n \<Rightarrow> if 0 < n then ''git worktree has unpushed commits'' else []))))"

subsection \<open>Binary search on the sorted list is membership\<close>

lemma search_index_least:
  assumes "i \<le> j" "\<And>a b. i \<le> a \<Longrightarrow> a \<le> b \<Longrightarrow> b < j \<Longrightarrow> f a \<Longrightarrow> f b"
  shows "i \<le> search_index f i j \<and> search_index f i j \<le> j \<and> (\<forall>k. i \<le> k \<and> k < search_index f i j \<longrightarrow> \<not> f k)
    \<and> (search_index f i j < j \<longrightarrow> f (search_index f i j))"
  using assms
proof (induction f i j rule: search_index.induct)
  case (1 f i j)
  show ?case
  proof (cases "i < j")
    case True
    define h where "h = (i + j) div 2"
    have h: "i \<le> h" "h < j" using True by (auto simp: h_def)
    show ?thesis
    proof (cases "f h")
      case fh: True
      then have eq: "search_index f i j = search_index f i h" using True by (subst search_index.simps) (simp add: h_def)
      have IH: "i \<le> search_index f i h \<and> search_index f i h \<le> h \<and> (\<forall>k. i \<le> k \<and> k < search_index f i h \<longrightarrow> \<not> f k)
          \<and> (search_index f i h < h \<longrightarrow> f (search_index f i h))"
        by (rule "1.IH"(1) [OF True h_def fh h(1)]) (use "1.prems"(2) h in \<open>meson less_trans\<close>)
      with fh h eq show ?thesis by (metis le_neq_implies_less le_trans less_imp_le_nat)
    next
      case fh: False
      then have eq: "search_index f i j = search_index f (h + 1) j" using True by (subst search_index.simps) (simp add: h_def)
      have IH: "h + 1 \<le> search_index f (h + 1) j \<and> search_index f (h + 1) j \<le> j
          \<and> (\<forall>k. h + 1 \<le> k \<and> k < search_index f (h + 1) j \<longrightarrow> \<not> f k) \<and> (search_index f (h + 1) j < j \<longrightarrow> f (search_index f (h + 1) j))"
      proof (rule "1.IH"(2) [OF True h_def fh])
        show "h + 1 \<le> j" using h by simp
        show "f b" if "h + 1 \<le> a" "a \<le> b" "b < j" "f a" for a b
          using h that(1) by (intro "1.prems"(2) [OF _ that(2-4)]) simp
      qed
      have below: "\<not> f k" if "i \<le> k" "k \<le> h" for k using "1.prems"(2) [OF that h(2)] fh by blast
      have "\<not> f k" if "i \<le> k" "k < search_index f (h + 1) j" for k
        using that IH below [of k] by (cases "k \<le> h") auto
      with IH h show ?thesis unfolding eq by auto
    qed
  next
    case False
    then have "search_index f i j = i" by (subst search_index.simps) simp
    with False "1.prems"(1) show ?thesis by auto
  qed
qed

lemma prefix_le: "prefix p g \<Longrightarrow> p \<le> (g :: string)"
proof (induction p arbitrary: g)
  case (Cons c p)
  then show ?case by (cases g) auto
qed simp

lemma prefix_between:
  fixes p g f :: string
  shows "prefix p f \<Longrightarrow> p \<le> g \<Longrightarrow> g \<le> f \<Longrightarrow> prefix p g"
proof (induction p arbitrary: f g)
  case (Cons c p)
  from Cons.prems(1) obtain f' where f: "f = c # f'" "prefix p f'" by (cases f) auto
  from Cons.prems(2) obtain d g' where g: "g = d # g'" by (cases g) auto
  with Cons f show ?case by (auto simp: less_le_not_le split: if_splits)
qed simp

text \<open>The first file not before \<open>x\<close>.\<close>

lemma search_sorted:
  fixes files :: "string list" and x :: string
  assumes "sorted files"
  defines "k \<equiv> search_index (\<lambda>i. x \<le> files ! i) 0 (length files)"
  shows "k \<le> length files" "i < k \<Longrightarrow> \<not> x \<le> files ! i" "k < length files \<Longrightarrow> x \<le> files ! k"
proof -
  have "x \<le> files ! b" if "a \<le> b" "b < length files" "x \<le> files ! a" for a b
    using sorted_nth_mono [OF assms(1) that(1,2)] that(3) by simp
  from search_index_least [of 0 "length files" "\<lambda>i. x \<le> files ! i", OF _ this] k_def
  show "k \<le> length files" "i < k \<Longrightarrow> \<not> x \<le> files ! i" "k < length files \<Longrightarrow> x \<le> files ! k" by auto
qed

lemma search_first:
  fixes files :: "string list"
  assumes "sorted files" "f \<in> set files" "x \<le> f"
  shows "search_index (\<lambda>i. x \<le> files ! i) 0 (length files) < length files
    \<and> files ! search_index (\<lambda>i. x \<le> files ! i) 0 (length files) \<le> f"
proof -
  let ?k = "search_index (\<lambda>i. x \<le> files ! i) 0 (length files)"
  obtain i where i: "i < length files" "files ! i = f" using assms(2) by (auto simp: in_set_conv_nth)
  then have "?k \<le> i" using search_sorted(2) [OF assms(1), of i x] assms(3) by (meson not_less)
  with i sorted_nth_mono [OF assms(1), of ?k i] show ?thesis by auto
qed

lemma tracked_contain_iff:
  assumes "sorted files"
  shows "devArtifactTrackedFilesContain files rel
    \<longleftrightarrow> (\<exists>f\<in>set files. rel = ''.'' \<or> f = rel \<or> prefix (rel @ ''/'') f)"
proof (cases "rel = ''.''")
  case False
  define under where "under = rel @ ''/''"
  let ?i = "search_index (\<lambda>i. rel \<le> files ! i) 0 (length files)"
  let ?j = "search_index (\<lambda>i. under \<le> files ! i) 0 (length files)"
  have exact: "?i < length files \<and> files ! ?i = rel \<longleftrightarrow> rel \<in> set files"
  proof
    assume "rel \<in> set files"
    with search_first [OF assms this order.refl] search_sorted(3) [OF assms, of rel] show "?i < length files \<and> files ! ?i = rel"
      by (meson order.antisym)
  qed (metis nth_mem)
  have below: "?j < length files \<and> prefix under (files ! ?j) \<longleftrightarrow> (\<exists>f\<in>set files. prefix under f)"
  proof
    assume "\<exists>f\<in>set files. prefix under f"
    then obtain f where f: "f \<in> set files" "prefix under f" by blast
    with search_first [OF assms f(1) prefix_le [OF f(2)]] search_sorted(3) [OF assms, of under]
    show "?j < length files \<and> prefix under (files ! ?j)" using prefix_between [OF f(2)] by blast
  qed (meson nth_mem)
  show ?thesis
    using False exact below by (auto simp: devArtifactTrackedFilesContain_def Let_def under_def)
qed (cases files; simp add: devArtifactTrackedFilesContain_def; blast)

subsection \<open>The memo and the cache answer as the file system does\<close>

text \<open>The repository of a list of directories, without a memo.\<close>

definition root_of :: "git_view \<Rightarrow> path list \<Rightarrow> path" where
  "root_of v dirs = (case find (\<lambda>d. gv_stat v (join_path [d, ''.git'']) \<noteq> None) dirs of None \<Rightarrow> [] | Some d \<Rightarrow> d)"

definition memo_ok :: "git_view \<Rightarrow> path table \<Rightarrow> bool" where
  "memo_ok v memo = (\<forall>d rt. tbl_get memo d = Some rt \<longrightarrow> rt = root_of v (path_ups d))"

lemma root_of_simps [simp]:
  "root_of v [] = []"
  "root_of v (d # ds) = (if gv_stat v (join_path [d, ''.git'']) \<noteq> None then d else root_of v ds)"
  by (simp_all add: root_of_def)

lemma memo_all_get: "tbl_get (memo_all visited rt memo) d = (if d \<in> set visited then Some rt else tbl_get memo d)"
  unfolding memo_all_def by (induction visited arbitrary: memo) auto

text \<open>The directories above a directory of the way up are the rest of the way up.\<close>

lemma path_ups_suffix:
  assumes "is_abs p" "path_ups p = xs @ d # ys"
  shows "path_ups d = d # ys"
proof -
  let ?n = "length (clean_elements p)" and ?k = "length (clean_elements p) - length xs"
  have len: "length xs + length ys = ?n" using arg_cong [OF assms(2), of length] by (simp add: path_ups_def)
  have nth: "path_ups p ! i = path_up p (?n - i)" if "i \<le> ?n" for i
    using that by (simp add: path_ups_def rev_nth del: upt_Suc)
  have d: "d = path_up p ?k" using nth [of "length xs"] len assms(2) by (simp add: nth_append)
  have ys: "ys ! i = path_up p (?n - Suc (length xs + i))" if "i < length ys" for i
    using nth [of "Suc (length xs + i)"] len assms(2) that by (simp add: nth_append)
  have el: "clean_elements d = take ?k (clean_elements p)" "length (clean_elements d) = ?k"
    unfolding d by (simp_all add: clean_elements_path_up [OF assms(1)])
  have abs: "is_abs d" unfolding d using assms(1) by (simp add: path_up_def is_abs_def)
  have up: "path_up d j = path_up p j" if "j \<le> ?k" for j
    using that assms(1) abs el by (simp add: path_up_def min_def)
  have "path_ups d = map (path_up p) (rev [0 ..< Suc ?k])"
    unfolding path_ups_def el(2) by (rule map_cong [OF refl]) (use up in \<open>simp del: upt_Suc\<close>)
  also have "\<dots> = d # ys"
  proof (rule nth_equalityI)
    show "length (map (path_up p) (rev [0 ..< Suc ?k])) = length (d # ys)" using len by (simp del: upt_Suc)
    fix i assume i: "i < length (map (path_up p) (rev [0 ..< Suc ?k]))"
    then have "map (path_up p) (rev [0 ..< Suc ?k]) ! i = path_up p (?k - i)" by (simp add: rev_nth del: upt_Suc)
    also have "\<dots> = (d # ys) ! i"
      using i len d ys [of "i - 1"] by (cases i) (simp_all del: upt_Suc)
    finally show "map (path_up p) (rev [0 ..< Suc ?k]) ! i = (d # ys) ! i" .
  qed
  finally show ?thesis .
qed

definition no_git :: "git_view \<Rightarrow> path list \<Rightarrow> bool" where
  "no_git v ds = list_all (\<lambda>d. gv_stat v (join_path [d, ''.git'']) = None) ds"

lemma root_of_skip: "no_git v xs \<Longrightarrow> root_of v (xs @ ys) = root_of v ys"
  by (induction xs) (auto simp: no_git_def)

lemma root_of_visited:
  assumes "is_abs p" "path_ups p = visited @ ys" "d \<in> set visited" "no_git v visited"
  shows "root_of v (path_ups d) = root_of v ys"
proof -
  obtain us ws where vs: "visited = us @ d # ws" using assms(3) by (meson split_list)
  then have "path_ups d = (d # ws) @ ys" using path_ups_suffix [OF assms(1), of us d "ws @ ys"] assms(2) by simp
  moreover have "no_git v (d # ws)" using assms(4) vs by (simp add: no_git_def)
  ultimately show ?thesis using root_of_skip by metis
qed

lemma memo_all_ok:
  assumes "is_abs p" "path_ups p = visited @ ys" "no_git v visited" "memo_ok v memo" "rt = root_of v ys"
  shows "memo_ok v (memo_all visited rt memo)"
  using assms root_of_visited [OF assms(1,2) _ assms(3)] by (auto simp: memo_ok_def memo_all_get)

lemma root_lookup_exact:
  assumes "is_abs p" "path_ups p = visited @ dirs" "memo_ok v memo" "no_git v visited"
    and "root_lookup v memo visited dirs = (rt, memo')"
  shows "rt = root_of v (path_ups p) \<and> memo_ok v memo'"
  using assms(2-5)
proof (induction dirs arbitrary: visited)
  case Nil
  then show ?case using memo_all_ok [OF assms(1) Nil(1,3,2)] root_of_skip [OF Nil(3), of "[]"] by auto
next
  case (Cons d ds)
  have ups: "path_ups d = d # ds" by (rule path_ups_suffix [OF assms(1) Cons.prems(1)])
  note skip = root_of_skip [OF Cons.prems(3), of "d # ds"]
  show ?case
  proof (cases "tbl_get memo d")
    case (Some r)
    then have "r = root_of v (path_ups d)" using Cons.prems(2) unfolding memo_ok_def by blast
    then have "r = root_of v (d # ds)" unfolding ups .
    with Some Cons.prems skip memo_all_ok [OF assms(1) Cons.prems(1,3,2) this] show ?thesis by auto
  next
    case None
    show ?thesis
    proof (cases "gv_stat v (join_path [d, ''.git'']) = None")
      case True
      with Cons.prems None have "root_lookup v memo (visited @ [d]) ds = (rt, memo')" by simp
      moreover have "no_git v (visited @ [d])" using True Cons.prems(3) by (simp add: no_git_def)
      ultimately show ?thesis using Cons.IH [of "visited @ [d]"] Cons.prems(1,2) by simp
    next
      case False
      have "memo_ok v (memo_all visited d memo)"
        by (rule memo_all_ok [OF assms(1) Cons.prems(1,3,2)]) (use False in simp)
      then have "memo_ok v (memo_all (visited @ [d]) d memo)"
        using False ups by (auto simp: memo_ok_def memo_all_get)
      with None False Cons.prems skip show ?thesis by auto
    qed
  qed
qed

text \<open>The file list of a repository, without a cache.\<close>

definition files_of :: "git_view \<Rightarrow> path \<Rightarrow> string list" where
  "files_of v rt = (case gv_lsFiles v rt of None \<Rightarrow> [] | Some raw \<Rightarrow> sort (readNULRecords raw))"

definition tracker_ok :: "git_view \<Rightarrow> git_tracker \<Rightarrow> bool" where
  "tracker_ok v t =
     (gt_gitPath t = gv_available v \<and> memo_ok v (gt_repoRootByDir t)
      \<and> (\<forall>rt files. tbl_get (gt_trackedFilesByRoot t) rt = Some files \<longrightarrow> files = files_of v rt))"

lemma forget_oldest_get:
  "forget_oldest rs files = (rs', files') \<Longrightarrow> tbl_get files' rt = Some fs \<Longrightarrow> tbl_get files rt = Some fs"
  by (induction rs files rule: forget_oldest.induct) (auto split: if_splits)

lemma trackedFiles_ok:
  assumes "tracker_ok v t" "trackedFiles v rt t = (files, t')"
  shows "files = files_of v rt \<and> tracker_ok v t'"
proof -
  have rem: "tracker_ok v (remember rt (files_of v rt) t)"
  proof -
    obtain o' f' where f: "forget_oldest (if tbl_get (gt_trackedFilesByRoot t) rt = None then gt_trackedOrder t @ [rt] else gt_trackedOrder t)
        (tbl_put rt (files_of v rt) (gt_trackedFilesByRoot t)) = (o', f')" by fastforce
    have "files = files_of v r" if "tbl_get f' r = Some files" for r files
      using forget_oldest_get [OF f that] assms(1) by (simp add: tracker_ok_def split: if_split_asm)
    moreover have "remember rt (files_of v rt) t = t\<lparr>gt_trackedOrder := o', gt_trackedFilesByRoot := f'\<rparr>"
      using f by (simp add: remember_def Let_def)
    ultimately show ?thesis using assms(1) by (simp add: tracker_ok_def)
  qed
  show ?thesis
  proof (cases "tbl_get (gt_trackedFilesByRoot t) rt")
    case None
    then have "trackedFiles v rt t = (files_of v rt, remember rt (files_of v rt) t)"
      by (simp add: trackedFiles_def files_of_def Let_def split: option.split)
    with assms(2) have "(files_of v rt, remember rt (files_of v rt) t) = (files, t')" by (simp only:)
    with rem show ?thesis by blast
  next
    case (Some fs)
    with assms show ?thesis by (auto simp: trackedFiles_def tracker_ok_def)
  qed
qed

text \<open>What \<open>git\<close> tracks at or below a path of its repository.\<close>

definition tracked_at :: "git_view \<Rightarrow> path \<Rightarrow> bool" where
  "tracked_at v path =
     (let rt = root_of v (path_ups (search_start v path)); rel = clean_path (path_rel rt path)
      in rt \<noteq> [] \<and> list_ex (\<lambda>f. rel = ''.'' \<or> f = rel \<or> prefix (rel @ ''/'') f) (files_of v rt))"

lemma search_start_abs: "clean_abs path \<Longrightarrow> is_abs (search_start v path)"
proof -
  assume path: "clean_abs path"
  then have "is_abs (path_dir path)"
  proof (rule clean_abs_last)
    fix a e
    assume "path = a @ CHR ''/'' # e" "CHR ''/'' \<notin> set e"
    then have "path_dir path = clean_path (a @ ''/'')" by (simp add: path_dir_def dir_part_snoc)
    moreover have "is_abs (a @ ''/'')"
      using path \<open>path = a @ CHR ''/'' # e\<close> by (cases a) (auto simp: clean_abs_def is_abs_def)
    ultimately show ?thesis by (simp add: is_abs_clean_iff)
  qed
  with path show ?thesis by (auto simp: search_start_def clean_abs_def split: option.splits)
qed

lemma repo_root_exact:
  assumes "tracker_ok v t" "clean_abs path" "repoRootForPath v path t = (rt, t1)"
  shows "rt = root_of v (path_ups (search_start v path)) \<and> tracker_ok v t1"
  using root_lookup_exact [OF search_start_abs [OF assms(2), of v], of "[]" "path_ups (search_start v path)" v "gt_repoRootByDir t"]
    assms(1,3)
  by (auto simp: repoRootForPath_def tracker_ok_def no_git_def split: prod.splits)

lemma contains_tracked_exact:
  assumes "tracker_ok v t" "is_abs path"
  shows "fst (ContainsTrackedFiles v path t) = (gv_available v \<and> tracked_at v (clean_path path))
    \<and> tracker_ok v (snd (ContainsTrackedFiles v path t))"
proof (cases "gv_available v")
  case True
  let ?p = "clean_path path"
  have p: "clean_abs ?p" using assms(2) by (rule clean_abs_clean)
  obtain rt t1 where r: "repoRootForPath v ?p t = (rt, t1)" by fastforce
  then have t1: "rt = root_of v (path_ups (search_start v ?p))" "tracker_ok v t1"
    using repo_root_exact [OF assms(1) p, of rt t1] by auto
  obtain files t2 where f: "trackedFiles v rt t1 = (files, t2)" by fastforce
  from trackedFiles_ok [OF t1(2) f] have t2: "files = files_of v rt" "tracker_ok v t2" by auto
  have "sorted files" unfolding t2(1) files_of_def by (simp split: option.split)
  note contain = tracked_contain_iff [OF this, of "clean_path (path_rel rt ?p)"]
  have git: "gt_gitPath t" using assms(1) True by (simp add: tracker_ok_def)
  show ?thesis
    using True git r f t1 t2 contain
    by (auto simp: ContainsTrackedFiles_def tracked_at_def Let_def list_ex_iff split: if_splits)
next
  case False
  with assms(1) show ?thesis by (auto simp: ContainsTrackedFiles_def tracker_ok_def)
qed

text \<open>C35: the Git tracker is exact whatever it was asked before.  Its memo of repository roots, its bounded
  cache of file lists and its binary searches change nothing: it says that a path holds tracked files
  exactly when \<open>git ls-files\<close> of the repository above it lists the path or something below it, and it
  stays sound.\<close>

theorem git_tracker_exact:
  assumes "tracker_ok v t" "is_abs path"
  shows "fst (ContainsTrackedFiles v path t) = (gv_available v \<and> tracked_at v (clean_path path))
    \<and> tracker_ok v (snd (ContainsTrackedFiles v path t))"
  using assms by (rule contains_tracked_exact)

text \<open>The cache keeps at most eight lists.\<close>

definition cache_ok :: "git_tracker \<Rightarrow> bool" where
  "cache_ok t =
     (distinct (gt_trackedOrder t) \<and> distinct (map fst (gt_trackedFilesByRoot t))
      \<and> fst ` set (gt_trackedFilesByRoot t) = set (gt_trackedOrder t) \<and> length (gt_trackedOrder t) \<le> devArtifactGitTrackerRepos)"

lemma forget_oldest_ok:
  "distinct rs \<Longrightarrow> distinct (map fst files) \<Longrightarrow> fst ` set files = set rs \<Longrightarrow> forget_oldest rs files = (rs', files') \<Longrightarrow>
     distinct rs' \<and> distinct (map fst files') \<and> fst ` set files' = set rs' \<and> length rs' \<le> devArtifactGitTrackerRepos"
proof (induction rs files rule: forget_oldest.induct)
  case (2 r rs files)
  have "set (map fst (tbl_del r files)) = set (r # rs) - {r}"
    using "2.prems"(1,3) unfolding tbl_del_def delete_keys by auto
  with 2 show ?case by (auto simp: tbl_del_distinct split: if_splits)
qed (simp add: devArtifactGitTrackerRepos_def)

interpretation tracker_cache: bounded_table
  cache_ok "\<lambda>t :: git_tracker. length (gt_trackedFilesByRoot t)" "\<lambda>t. devArtifactGitTrackerRepos"
  "\<lambda>(rt, files) t. remember rt files t"
proof unfold_locales
  fix a :: "path \<times> string list" and t :: git_tracker
  obtain rt files where a: "a = (rt, files)" by fastforce
  let ?o = "if tbl_get (gt_trackedFilesByRoot t) rt = None then gt_trackedOrder t @ [rt] else gt_trackedOrder t"
  obtain o' f' where f: "forget_oldest ?o (tbl_put rt files (gt_trackedFilesByRoot t)) = (o', f')" by fastforce
  assume ok: "cache_ok t"
  then have "distinct ?o" "fst ` set (tbl_put rt files (gt_trackedFilesByRoot t)) = set ?o"
    using tbl_get_keys [of "gt_trackedFilesByRoot t" rt] by (auto simp: cache_ok_def tbl_put_keys)
  from forget_oldest_ok [OF this(1) tbl_put_distinct this(2) f] ok
  show "cache_ok ((\<lambda>(rt, files) t. remember rt files t) a t)"
    by (simp add: a remember_def Let_def f cache_ok_def split: if_splits)
next
  fix t :: git_tracker
  assume ok: "cache_ok t"
  then have "length (gt_trackedFilesByRoot t) = card (set (gt_trackedOrder t))"
    by (metis cache_ok_def distinct_card length_map list.set_map)
  with ok show "length (gt_trackedFilesByRoot t) \<le> devArtifactGitTrackerRepos"
    by (simp add: cache_ok_def distinct_card)
qed simp

definition demo_git :: git_view where
  "demo_git =
     \<lparr>gv_available = True, gv_stat = (\<lambda>p. if p \<in> {''/w'', ''/w/.git'', ''/w/target''} then Some Directory else None),
      gv_lsFiles = (\<lambda>p. if p = ''/w'' then Some (''src/m.rs'' @ [CHR 0x00] @ ''target/keep'' @ [CHR 0x00]) else None),
      gv_insideWorkTree = (\<lambda>p. Some ''true''), gv_status = (\<lambda>p. Some []), gv_upstream = (\<lambda>p. Some ''origin/main''),
      gv_ahead = (\<lambda>p. Some ''0'')\<rparr>"

lemma git_tracker_exact_witness:
  "fst (ContainsTrackedFiles demo_git ''/w/target'' (newDevArtifactGitTracker demo_git))"
proof -
  have "tracker_ok demo_git (newDevArtifactGitTracker demo_git)" "is_abs ''/w/target''"
    by (simp_all add: tracker_ok_def newDevArtifactGitTracker_def memo_ok_def is_abs_def)
  note exact = git_tracker_exact [OF this]
  have "gv_available demo_git \<and> tracked_at demo_git (clean_path ''/w/target'')" by code_simp
  with exact show ?thesis by blast
qed

end
