(* ===== verification/Retention.thy ===== *)
theory Retention
  imports Shm_Scratch Git_Custody Nix_Generations Log_Throttle
begin

text \<open>
  Age retention: \<open>plugins/retention.go\<close> with \<open>config/retention.go\<close>.  The policy and its floors, the walk of a
  tree, the rule for fixture repositories, the decision about one tree, the two deleting rules with their
  discovery, the free-space floor, and the removal with its recheck.  The host is an observation per moment:
  one for the evaluation and one for each candidate's turn.
\<close>

subsection \<open>The policy\<close>

definition RetentionTmpAgentsMinMaxAge :: duration where "RetentionTmpAgentsMinMaxAge = hour"
definition RetentionCargoTargetsMinMaxAge :: duration where "RetentionCargoTargetsMinMaxAge = 24 * hour"

record tmp_agents_config =
  ta_Enabled :: bool
  ta_Roots :: "path list"
  ta_NameGlobs :: "string list"
  ta_MaxAge :: string
  ta_Delete :: bool
  ta_MaxDirsPerCycle :: int
  ta_MaxEntriesPerDir :: int
  ta_FixtureRepoParents :: "string list"

record cargo_targets_config =
  cg_Enabled :: bool
  cg_Roots :: "path list"
  cg_MaxDepth :: int
  cg_MaxAge :: string
  cg_Delete :: bool
  cg_BusyProcesses :: "string list"
  cg_MaxEntriesPerTarget :: int

record free_space_floor_config =
  ff_Enabled :: bool
  ff_FloorGiB :: float64
  ff_Paths :: "path list"

record darwin_leftovers_config =
  dl_Enabled :: bool
  dl_FusionWebdeployRoot :: path
  dl_ReportPaths :: "path list"

record retention_config =
  rc_Interval :: string
  rc_OKComms :: "string list"
  rc_TmpAgents :: tmp_agents_config
  rc_CargoTargets :: cargo_targets_config
  rc_FreeSpaceFloor :: free_space_floor_config
  rc_DarwinLeftovers :: darwin_leftovers_config

definition DefaultRetentionConfig :: "bool \<Rightarrow> path \<Rightarrow> retention_config" where
  "DefaultRetentionConfig darwin home =
     \<lparr>rc_Interval = ''1h'', rc_OKComms = [''tailscaled'', ''(sd-pam)'', ''sd-pam'', ''systemd''],
      rc_TmpAgents =
        \<lparr>ta_Enabled = True, ta_Roots = (if darwin then [] else [''/srv/fast-local/tmp-agents'']), ta_NameGlobs = [''nix-shell.*''],
         ta_MaxAge = ''24h'', ta_Delete = False, ta_MaxDirsPerCycle = 4096, ta_MaxEntriesPerDir = 200000,
         ta_FixtureRepoParents = [''pytest-of-*'']\<rparr>,
      rc_CargoTargets =
        \<lparr>cg_Enabled = True, cg_Roots = [''/srv/cache/{user}/cargo/build''], cg_MaxDepth = 3, cg_MaxAge = ''7d'', cg_Delete = False,
         cg_BusyProcesses = [''cargo'', ''rustc''], cg_MaxEntriesPerTarget = 2000000\<rparr>,
      rc_FreeSpaceFloor =
        \<lparr>ff_Enabled = True, ff_FloorGiB = 10, ff_Paths = (if darwin then [''/'', ''/System/Volumes/Data''] else [''/''])\<rparr>,
      rc_DarwinLeftovers =
        \<lparr>dl_Enabled = darwin,
         dl_FusionWebdeployRoot = join_path [home, ''Library'', ''Application Support'', ''Autodesk'', ''webdeploy'', ''production''],
         dl_ReportPaths = [join_path [home, ''Library'', ''Application Support'', ''Claude'', ''vm_bundles'']]\<rparr>\<rparr>"

text \<open>The errors of \<open>Validate\<close>; the key says which setting is wrong.\<close>

datatype retention_error =
    BadDuration string string
  | EmptyRoot string
  | UnusableRoot string path
  | NoGlobs
  | UnusableGlob string string
  | UnusableElementGlob string string
  | BelowFloor string duration duration
  | NegativeSetting string

definition validateRetentionRoots :: "string \<Rightarrow> path list \<Rightarrow> retention_error option" where
  "validateRetentionRoots key rts =
     first_some (\<lambda>r. if r = [] then Some (EmptyRoot key)
                     else if hd r = CHR ''~'' then None
                     else if \<not> is_abs r \<or> clean_path r = ''/'' then Some (UnusableRoot key r) else None) rts"

definition validateRetentionAge :: "string \<Rightarrow> string \<Rightarrow> duration \<Rightarrow> retention_error option" where
  "validateRetentionAge key value least =
     (case config_parse_duration value of
        None \<Rightarrow> Some (BadDuration key value)
      | Some d \<Rightarrow> if d < least then Some (BelowFloor key d least) else None)"

definition validate_tmp_agents :: "tmp_agents_config \<Rightarrow> retention_error option" where
  "validate_tmp_agents c =
     first_some (\<lambda>check. check)
       [validateRetentionRoots ''retention.tmp_agents.roots'' (ta_Roots c),
        (if ta_NameGlobs c = [] then Some NoGlobs else None),
        first_some (\<lambda>g. if \<not> glob_wf g \<or> g = [] \<or> g = ''*'' then Some (UnusableGlob ''retention.tmp_agents.name_globs'' g) else None)
          (ta_NameGlobs c),
        validateRetentionAge ''retention.tmp_agents.max_age'' (ta_MaxAge c) RetentionTmpAgentsMinMaxAge,
        first_some (\<lambda>g. if \<not> glob_wf g \<or> g = [] \<or> g = ''*'' \<or> CHR ''/'' \<in> set g
                        then Some (UnusableElementGlob ''retention.tmp_agents.fixture_repo_parents'' g) else None) (ta_FixtureRepoParents c),
        (if ta_MaxDirsPerCycle c < 0 \<or> ta_MaxEntriesPerDir c < 0 then Some (NegativeSetting ''retention.tmp_agents bounds'') else None)]"

definition validate_cargo_targets :: "cargo_targets_config \<Rightarrow> retention_error option" where
  "validate_cargo_targets c =
     first_some (\<lambda>check. check)
       [validateRetentionRoots ''retention.cargo_targets.roots'' (cg_Roots c),
        validateRetentionAge ''retention.cargo_targets.max_age'' (cg_MaxAge c) RetentionCargoTargetsMinMaxAge,
        (if cg_MaxDepth c < 0 \<or> cg_MaxEntriesPerTarget c < 0 then Some (NegativeSetting ''retention.cargo_targets bounds'') else None)]"

definition validate_retention :: "retention_config \<Rightarrow> retention_error option" where
  "validate_retention c =
     first_some (\<lambda>check. check)
       [(if rc_Interval c \<noteq> [] \<and> config_parse_duration (rc_Interval c) = None
         then Some (BadDuration ''retention.interval'' (rc_Interval c)) else None),
        (if ta_Enabled (rc_TmpAgents c) then validate_tmp_agents (rc_TmpAgents c) else None),
        (if cg_Enabled (rc_CargoTargets c) then validate_cargo_targets (rc_CargoTargets c) else None),
        (if ff_FloorGiB (rc_FreeSpaceFloor c) < 0 then Some (NegativeSetting ''retention.free_space_floor.floor_gib'') else None)]"

text \<open>\<open>strings.ReplaceAll\<close> of a text that is not empty.\<close>

function replace_all :: "string \<Rightarrow> string \<Rightarrow> string \<Rightarrow> string" where
  "replace_all old new [] = []"
| "replace_all old new (c # s) =
     (if old \<noteq> [] \<and> prefix old (c # s) then new @ replace_all old new (drop (length old) (c # s))
      else c # replace_all old new s)"
  by pat_completeness auto
termination by (relation "measure (\<lambda>(old, new, s). length s)") auto

definition ExpandUserPath :: "path \<Rightarrow> path \<Rightarrow> string \<Rightarrow> string \<Rightarrow> path" where
  "ExpandUserPath path home user env_user =
     (let p = (if path = ''~'' then home else if 1 < length path \<and> take 2 path = ''~/'' then join_path [home, drop 2 path] else path)
      in replace_all ''{user}'' (if user = [] then env_user else user) p)"


text \<open>The texts of the errors, \<open>%q\<close> being plain quotes around a printable name and the \<open>ParseDuration\<close> errors cut to their
  head.\<close>

fun retention_error_text :: "retention_error \<Rightarrow> string" where
  "retention_error_text (BadDuration key s) = key @ '': invalid duration '' @ s"
| "retention_error_text (EmptyRoot key) = key @ '': empty root''"
| "retention_error_text (UnusableRoot key r) = key @ '': '' @ r @ '' must be an absolute directory other than /''"
| "retention_error_text NoGlobs = ''retention.tmp_agents.name_globs must name at least one glob''"
| "retention_error_text (UnusableGlob key g) = key @ '': '' @ g @ '' is not a usable glob (a bare * is refused)''"
| "retention_error_text (UnusableElementGlob key g) = key @ '': '' @ g @ '' is not a usable path-element glob (a bare * is refused)''"
| "retention_error_text (BelowFloor key d least) = key @ '' '' @ show_duration d @ '' is below the floor '' @ show_duration least"
| "retention_error_text (NegativeSetting key) = key @ '' must not be negative''"

subsection \<open>The host at one moment\<close>

record ret_plugin =
  rp_uid :: int
  rp_home :: path
  rp_user :: string
  rp_env_user :: string
  rp_tmpdir :: path
  rp_lsof :: path
  rp_darwin :: bool

text \<open>What the rules read of the configuration.\<close>

record ret_settings =
  rs_retention :: retention_config
  rs_extra :: "path list"
  rs_protect :: "path list"
  rs_mounts :: "path list"

datatype usage_answer = UsageMissing | UsageError string | Usage u64 u64

text \<open>\<open>rv_scan\<close> is \<open>bbScanActivity\<close> (on Linux, \<open>bbScanProc\<close> of what \<open>/proc\<close> holds), \<open>rv_clock\<close> the two readings of the
  clock for a tree, in \<open>walkTree\<close> and in \<open>decide\<close>, and \<open>rv_now\<close> the reading that orders the entries of a root.
  \<open>rv_isDir\<close> follows symlinks; \<open>rv_readDir\<close> gives names, types and \<open>Info\<close>; \<open>rv_usage\<close> is \<open>statfs\<close>
  (total and used bytes); \<open>rv_done\<close> tells whether the context has ended when a path's turn comes.
  \<open>rv_age_now\<close> and \<open>rv_scanned_at\<close> are the readings around a fresh inventory.\<close>

record ret_view =
  rv_session :: session_env
  rv_clock :: "path \<Rightarrow> instant \<times> instant"
  rv_now :: instant
  rv_git :: git_view
  rv_scan :: "activity_options \<Rightarrow> activity"
  rv_isDir :: "path \<Rightarrow> bool"
  rv_readDir :: "path \<Rightarrow> io_error + (string \<times> file_kind \<times> file_stat option) list"
  rv_readFile :: "path \<Rightarrow> string option"
  rv_usage :: "path \<Rightarrow> usage_answer"
  rv_sized :: "path \<Rightarrow> walk_event list \<times> bool"
  rv_done :: "path \<Rightarrow> bool"
  rv_age_now :: instant
  rv_scanned_at :: instant

definition retentionEnvVars :: "string list" where "retentionEnvVars = [''TMPDIR'', ''TMP'', ''TEMP'', ''TEMPDIR'']"
definition retentionActivityMaxAge :: duration where "retentionActivityMaxAge = 30 * second"

datatype ret_rule = TmpAgents | CargoTargets

fun rule_name :: "ret_rule \<Rightarrow> string" where
  "rule_name TmpAgents = ''tmp_agents''"
| "rule_name CargoTargets = ''cargo_targets''"

fun retentionTargetType :: "ret_rule \<Rightarrow> string" where
  "retentionTargetType TmpAgents = ''tmp-agents-root''"
| "retentionTargetType CargoTargets = ''cargo-target''"

text \<open>One inspected tree, and the decision about it.\<close>

record ret_tree =
  rt_rule :: ret_rule
  rt_root :: path
  rt_path :: path
  rt_info :: file_stat
  rt_maxAge :: duration

record ret_candidate =
  rk_tree :: ret_tree
  rk_target :: cleanup_target

definition activityOptions :: "ret_settings \<Rightarrow> ret_plugin \<Rightarrow> ret_view \<Rightarrow> path list \<Rightarrow> activity_options" where
  "activityOptions cfg p v roots =
     \<lparr>ao_lsof = rp_lsof p, ao_useLsof = rp_darwin p, ao_okComms = rc_OKComms (rs_retention cfg),
      ao_within = concat (map (\<lambda>r. uniquePaths [r, resolvedOrSelf (se_resolve (rv_session v)) r]) roots),
      ao_envVars = retentionEnvVars\<rparr>"

text \<open>The existing and the missing roots.\<close>

fun expandRoots :: "ret_plugin \<Rightarrow> ret_view \<Rightarrow> path list \<Rightarrow> path list \<Rightarrow> path list \<times> path list" where
  "expandRoots p v seen [] = ([], [])"
| "expandRoots p v seen (raw # raws) =
     (let r = clean_path (ExpandUserPath raw (rp_home p) (rp_user p) (rp_env_user p))
      in if r \<in> set seen \<or> \<not> is_abs r \<or> r = ''/'' then expandRoots p v seen raws
         else case expandRoots p v (r # seen) raws of
                (existing, missing) \<Rightarrow> if rv_isDir v r then (r # existing, missing) else (existing, r # missing))"

subsection \<open>The walk of a tree\<close>

definition retentionNameMatches :: "string \<Rightarrow> string list \<Rightarrow> bool" where
  "retentionNameMatches name globs = list_ex (\<lambda>g. glob_match g name) globs"

text \<open>A line of a repository's \<open>config\<close> that keeps it.\<close>

definition config_line_reason :: "string \<Rightarrow> string option" where
  "config_line_reason line =
     (let l = to_lower (trim_space line)
      in if prefix ''[remote'' l then Some ''a remote is configured''
         else if prefix ''[include'' l then Some ''config includes another file'' else None)"

definition retentionFixtureRepo :: "ret_view \<Rightarrow> path \<Rightarrow> path \<Rightarrow> file_kind \<Rightarrow> string list \<Rightarrow> string" where
  "retentionFixtureRepo v tree gitPath kind parents =
     (if parents = [] then ''fixture repositories are not allowed''
      else if kind \<noteq> Directory then ''.git is not a directory''
      else let rel = path_rel tree (path_dir gitPath)
           in if rel = ''.'' \<or> prefix ''..'' rel then ''repository at the tree root''
              else if \<not> list_ex (\<lambda>e. retentionNameMatches e parents) (butlast (split_on CHR ''/'' rel))
              then ''not under a fixture parent '' @ join_strings '', '' parents
              else case rv_readFile v (join_path [gitPath, ''config'']) of
                     None \<Rightarrow> ''config unreadable''
                   | Some raw \<Rightarrow>
                       (case first_some config_line_reason (split_on CHR 0x0A raw) of
                          Some why \<Rightarrow> why
                        | None \<Rightarrow>
                            if se_tree (rv_session v) (join_path [gitPath, ''commondir'']) \<noteq> None then ''linked work tree (commondir)''
                            else (case rv_readDir v (join_path [gitPath, ''worktrees'']) of
                                    Inl _ \<Rightarrow> []
                                  | Inr es \<Rightarrow> if es \<noteq> [] then ''has linked work trees'' else [])))"

record tree_stats =
  ts_newest :: instant
  ts_allocated :: int
  ts_apparent :: int
  ts_entries :: int
  ts_fixtureRepos :: int

text \<open>The newest of the times so far and those of one entry.\<close>

definition newer_time :: "instant \<Rightarrow> file_stat \<Rightarrow> instant \<Rightarrow> instant" where
  "newer_time now s newest =
     (let n = (if newest < effectiveModTime s now then effectiveModTime s now else newest)
      in if \<not> now + futureMtimeTolerance < st_ctime s \<and> n < st_ctime s then st_ctime s else n)"

definition measure_entry :: "instant \<Rightarrow> file_stat \<Rightarrow> tree_stats \<Rightarrow> tree_stats" where
  "measure_entry now s st =
     st\<lparr>ts_newest := newer_time now s (ts_newest st),
        ts_allocated := ts_allocated st + st_blocks s * 512,
        ts_apparent := ts_apparent st + (if st_kind s = Regular then st_size s else st_blocks s * 512)\<rparr>"

text \<open>The function given to \<open>WalkDir\<close>: the statistics up to the first error, and the error.\<close>

fun ret_walk ::
    "ret_plugin \<Rightarrow> ret_view \<Rightarrow> path \<Rightarrow> int \<Rightarrow> int \<Rightarrow> string list \<Rightarrow> instant \<Rightarrow> tree_stats \<Rightarrow> walk_event list
      \<Rightarrow> tree_stats \<times> string option" where
  "ret_walk p v path dev limit parents now st [] = (st, None)"
| "ret_walk p v path dev limit parents now st (e # es) =
     (case we_error e of
        Some err \<Rightarrow> (st, Some err)
      | None \<Rightarrow>
          if we_done e then (st, Some ''context canceled'')
          else let st1 = st\<lparr>ts_entries := ts_entries st + 1\<rparr>;
                   is_git = (path_base (we_path e) = ''.git'');
                   why = (if is_git then retentionFixtureRepo v path (we_path e) (we_kind e) parents else []);
                   st2 = (if is_git then st1\<lparr>ts_fixtureRepos := ts_fixtureRepos st1 + 1\<rparr> else st1)
               in if 0 < limit \<and> limit < ts_entries st1 then (st1, Some (''walk bound '' @ show_int limit @ '' exceeded''))
                  else if why \<noteq> [] then (st1, Some (''contains a Git repository (.git): Git custody ('' @ why @ '')''))
                  else if we_path e \<noteq> path \<and> we_kind e = Directory \<and> isAgentSessionDir (rv_session v) (we_path e)
                  then (st2, Some (''contains agent-session directory '' @ path_base (we_path e) @ '' (TIN-5268)''))
                  else case we_info e of
                         Inl err \<Rightarrow> (st2, Some err)
                       | Inr s \<Rightarrow>
                           if st_dev s \<noteq> dev \<or> st_uid s \<noteq> rp_uid p
                           then (st2, Some ''foreign owner, mount or unknown identity inside'')
                           else ret_walk p v path dev limit parents now (measure_entry now s st2) es)"

definition zero_stats :: tree_stats where
  "zero_stats = \<lparr>ts_newest = zero_time, ts_allocated = 0, ts_apparent = 0, ts_entries = 0, ts_fixtureRepos = 0\<rparr>"

definition walkTree :: "ret_plugin \<Rightarrow> ret_view \<Rightarrow> path \<Rightarrow> int \<Rightarrow> int \<Rightarrow> string list \<Rightarrow> tree_stats \<times> string" where
  "walkTree p v path dev limit parents =
     (case ret_walk p v path dev limit parents (fst (rv_clock v path)) zero_stats (se_walk (rv_session v) path) of
        (st, Some err) \<Rightarrow> (st, ''kept: '' @ err)
      | (st, None) \<Rightarrow> (st, []))"


subsection \<open>The decision about one tree\<close>

definition retentionBusyProcess :: "activity \<Rightarrow> string list \<Rightarrow> string" where
  "retentionBusyProcess a names =
     (case first_some (\<lambda>pr.
             case text_fields (pr_cmdline pr) of
               [] \<Rightarrow> None
             | arg0 # _ \<Rightarrow>
                 (let base = path_base arg0
                  in if list_ex (\<lambda>n. n \<noteq> [] \<and> (base = n \<or> prefix (n @ ''-'') base)) names
                     then Some (''pid '' @ show_int (pr_pid pr) @ '' ('' @ base @ '') is running'') else None)) (ac_procs a) of
        None \<Rightarrow> [] | Some why \<Rightarrow> why)"

definition retentionGitReason :: "ret_view \<Rightarrow> path \<Rightarrow> git_tracker \<Rightarrow> string \<times> git_tracker" where
  "retentionGitReason v path t =
     (case repoRootForPath (rv_git v) path t of
        (repo, t1) \<Rightarrow>
          if repo = [] then ([], t1)
          else case ContainsTrackedFiles (rv_git v) path t1 of
                 (True, t2) \<Rightarrow> (''holds files tracked by the Git repository at '' @ repo, t2)
               | (False, t2) \<Rightarrow>
                   (let why = gitWorktreeProtectReason (rv_git v) repo
                    in (if why \<noteq> [] then why @ '' ('' @ repo @ '')'' else [], t2)))"

definition formatDevArtifactAge :: "duration \<Rightarrow> string" where
  "formatDevArtifactAge maxAge =
     (if maxAge \<le> 0 then ''any age''
      else if maxAge mod (24 * hour) = 0
      then (let days = maxAge div (24 * hour) in if days = 1 then ''1 day'' else show_int days @ '' days'')
      else show_duration maxAge)"

text \<open>The reason to keep a tree, empty when there is none: with the statistics of the walk when it was walked,
  and whether a live process keeps it.\<close>

definition keep_tree ::
    "ret_settings \<Rightarrow> ret_plugin \<Rightarrow> ret_view \<Rightarrow> ret_tree \<Rightarrow> int \<Rightarrow> activity \<Rightarrow> deny_set \<Rightarrow> string \<Rightarrow> git_tracker
      \<Rightarrow> tree_stats option \<times> string \<times> bool \<times> git_tracker" where
  "keep_tree cfg p v c limit a deny busy t =
     (let env = rv_session v; path = rt_path c; rc = rs_retention cfg;
          parents = (if rt_rule c = TmpAgents then ta_FixtureRepoParents (rc_TmpAgents rc) else [])
      in case denied env deny path of
           Some why \<Rightarrow> (None, why, False, t)
         | None \<Rightarrow>
             (case containsDenied env deny path of
                Some why \<Rightarrow> (None, why, False, t)
              | None \<Rightarrow>
                  (case find (\<lambda>pre. pre \<noteq> [] \<and> prefix pre path) (rs_protect cfg) of
                     Some pre \<Rightarrow> (None, ''covered by dev_artifacts.protect_paths '' @ pre, False, t)
                   | None \<Rightarrow>
                       if st_uid (rt_info c) \<noteq> rp_uid p then (None, ''belongs to another or unknown user'', False, t)
                       else case walkTree p v path (st_dev (rt_info c)) limit parents of
                              (st, why) \<Rightarrow>
                                if why \<noteq> [] then (Some st, why, False, t)
                                else if snd (rv_clock v path) - rt_maxAge c < ts_newest st
                                then (Some st, ''recent change '' @ show_instant (ts_newest st) @ '' is within ''
                                        @ formatDevArtifactAge (rt_maxAge c), False, t)
                                else case retentionGitReason v path t of
                                       (why, t') \<Rightarrow>
                                         if why \<noteq> [] then (Some st, why, False, t')
                                         else if busy \<noteq> []
                                         then (Some st, ''cargo_targets skipped while a build runs: '' @ busy, True, t')
                                         else if complete a \<noteq> [] then (Some st, complete a, False, t')
                                         else case blockers (se_resolve env) a path of
                                                live # _ \<Rightarrow> (Some st, ''live reference: '' @ live, True, t')
                                              | [] \<Rightarrow> (Some st, [], False, t'))))"

definition tree_target :: "ret_tree \<Rightarrow> tree_stats option \<Rightarrow> cleanup_target" where
  "tree_target c st =
     \<lparr>ct_Type = retentionTargetType (rt_rule c), ct_Tier = [], ct_Name = path_base (rt_path c), ct_Version = [], ct_Path = rt_path c,
      ct_Bytes = (case st of None \<Rightarrow> 0 | Some s \<Rightarrow> ts_allocated s),
      ct_LogicalBytes = (case st of None \<Rightarrow> 0 | Some s \<Rightarrow> if ts_apparent s \<noteq> ts_allocated s then ts_apparent s else 0),
      ct_Reclaim = [], ct_HostReclaimsSpace = None, ct_Active = False, ct_Protected = True, ct_Action = ''keep'', ct_Reason = []\<rparr>"

definition eligible_reason :: "ret_tree \<Rightarrow> tree_stats \<Rightarrow> string" where
  "eligible_reason c st =
     ''newest change '' @ show_instant (ts_newest st) @ '' is older than '' @ formatDevArtifactAge (rt_maxAge c)
       @ '' with no live reference''
       @ (if 0 < ts_fixtureRepos st then ''; holds '' @ show_int (ts_fixtureRepos st) @ '' remote-less fixture repo(s)'' else [])"

definition decide ::
    "ret_settings \<Rightarrow> ret_plugin \<Rightarrow> ret_view \<Rightarrow> ret_tree \<Rightarrow> bool \<Rightarrow> int \<Rightarrow> activity \<Rightarrow> deny_set \<Rightarrow> string \<Rightarrow> git_tracker
      \<Rightarrow> cleanup_target \<times> git_tracker" where
  "decide cfg p v c delete limit a deny busy t =
     (case keep_tree cfg p v c limit a deny busy t of
        (st, why, active, t') \<Rightarrow>
          (let live = blockers (se_resolve (rv_session v)) a (rt_path c);
               reason = eligible_reason c (case st of None \<Rightarrow> zero_stats | Some s \<Rightarrow> s);
               target = (if why \<noteq> [] then (tree_target c st)\<lparr>ct_Reason := why, ct_Active := active\<rparr>
                         else if delete then (tree_target c st)\<lparr>ct_Protected := False, ct_Action := ''delete'', ct_Reason := reason\<rparr>
                         else (tree_target c st)
                                \<lparr>ct_Protected := False, ct_Action := ''report'',
                                 ct_Reason := ''would remove (report only; set retention.'' @ rule_name (rt_rule c) @ ''.delete): '' @ reason\<rparr>);
               target = (if live \<noteq> [] \<and> ct_Protected target \<and> \<not> prefix ''live reference'' (ct_Reason target)
                         then target\<lparr>ct_Active := True, ct_Reason := ct_Reason target @ ''; also live reference: '' @ hd live\<rparr>
                         else target)
           in (annotateCleanupTargetPolicy CleanupTierWarm (hostReclaimForAction (ct_Action target)) target, t')))"

subsection \<open>The deleting rules\<close>

text \<open>A duration whose error is ignored.\<close>

definition age_of :: "string \<Rightarrow> duration" where
  "age_of s = (case config_parse_duration s of None \<Rightarrow> 0 | Some d \<Rightarrow> d)"

text \<open>One pass: what it found.\<close>

record ret_pass =
  ps_candidates :: "ret_candidate list"
  ps_reports :: "cleanup_target list"
  ps_warnings :: "string list"
  ps_alerts :: "string list"
  ps_metadata :: "string table"

definition warn :: "string \<Rightarrow> ret_pass \<Rightarrow> ret_pass" where
  "warn w ps = ps\<lparr>ps_warnings := ps_warnings ps @ [w]\<rparr>"

definition note_metadata :: "string \<Rightarrow> string \<Rightarrow> ret_pass \<Rightarrow> ret_pass" where
  "note_metadata k val ps = ps\<lparr>ps_metadata := tbl_put k val (ps_metadata ps)\<rparr>"

definition add_candidate :: "ret_tree \<Rightarrow> cleanup_target \<Rightarrow> ret_pass \<Rightarrow> ret_pass" where
  "add_candidate c target ps = ps\<lparr>ps_candidates := ps_candidates ps @ [\<lparr>rk_tree = c, rk_target = target\<rparr>]\<rparr>"

text \<open>The entries of one root of \<open>tmp_agents\<close>; the flag says that the pass was interrupted.\<close>

fun tmp_entries ::
    "ret_settings \<Rightarrow> ret_plugin \<Rightarrow> ret_view \<Rightarrow> activity \<Rightarrow> deny_set \<Rightarrow> path \<Rightarrow> int \<Rightarrow> temp_root list
      \<Rightarrow> git_tracker \<times> ret_pass \<Rightarrow> (git_tracker \<times> ret_pass) \<times> bool" where
  "tmp_entries cfg p v a deny root_path inspected [] acc = (acc, False)"
| "tmp_entries cfg p v a deny root_path inspected (e # es) (t, ps) =
     (let tc = rc_TmpAgents (rs_retention cfg)
      in if rv_done v (tr_path e) then ((t, warn ''tmp_agents pass interrupted'' ps), True)
         else if st_kind (tr_info e) \<noteq> Directory \<or> \<not> retentionNameMatches (tr_name e) (ta_NameGlobs tc)
         then tmp_entries cfg p v a deny root_path inspected es (t, ps)
         else if 0 < ta_MaxDirsPerCycle tc \<and> ta_MaxDirsPerCycle tc \<le> inspected
         then ((t, warn (''tmp_agents root '' @ root_path @ '': max_dirs_per_cycle '' @ show_int (ta_MaxDirsPerCycle tc)
                           @ '' reached; the rest wait for the next pass'') ps), False)
         else let c = \<lparr>rt_rule = TmpAgents, rt_root = root_path, rt_path = tr_path e, rt_info = tr_info e, rt_maxAge = age_of (ta_MaxAge tc)\<rparr>
              in case decide cfg p v c (ta_Delete tc) (ta_MaxEntriesPerDir tc) a deny [] t of
                   (target, t') \<Rightarrow> tmp_entries cfg p v a deny root_path (inspected + 1) es (t', add_candidate c target ps))"

definition with_info :: "(string \<times> file_kind \<times> file_stat option) list \<Rightarrow> (string \<times> file_stat option) list" where
  "with_info es = map (\<lambda>(name, kind, info). (name, info)) es"

fun evaluateTmpAgents ::
    "ret_settings \<Rightarrow> ret_plugin \<Rightarrow> ret_view \<Rightarrow> path list \<Rightarrow> activity \<Rightarrow> deny_set \<Rightarrow> git_tracker \<times> ret_pass \<Rightarrow> git_tracker \<times> ret_pass" where
  "evaluateTmpAgents cfg p v [] a deny acc = acc"
| "evaluateTmpAgents cfg p v (r # rs) a deny (t, ps) =
     (case tempScanRootsOldestFirst (rv_now v) r (map_sum io_text with_info (rv_readDir v r)) of
        Inl err \<Rightarrow> evaluateTmpAgents cfg p v rs a deny (t, warn (''tmp_agents root '' @ r @ '' unreadable: '' @ err) ps)
      | Inr entries \<Rightarrow>
          (case tmp_entries cfg p v a deny r 0 entries (t, ps) of
             (acc, True) \<Rightarrow> acc
           | (acc, False) \<Rightarrow> evaluateTmpAgents cfg p v rs a deny acc))"

definition isCargoTargetDir :: "ret_view \<Rightarrow> path \<Rightarrow> bool" where
  "isCargoTargetDir v path =
     (bbIsRegular (se_tree (rv_session v)) (join_path [path, ''CACHEDIR.TAG''])
      \<or> bbIsRegular (se_tree (rv_session v)) (join_path [path, ''.rustc_info.json'']))"

text \<open>The search below a directory, \<open>n\<close> levels deep.\<close>

fun findCargoTargetDirs :: "ret_view \<Rightarrow> nat \<Rightarrow> path \<Rightarrow> path list" where
  "findCargoTargetDirs v 0 dir = []"
| "findCargoTargetDirs v (Suc n) dir =
     (if rv_done v dir then []
      else case rv_readDir v dir of
             Inl _ \<Rightarrow> []
           | Inr es \<Rightarrow>
               concat (map (\<lambda>(name, kind, info).
                 if kind \<noteq> Directory \<or> name = ''.git'' then []
                 else let path = join_path [dir, name]
                      in if isCargoTargetDir v path then [path] else findCargoTargetDirs v n path) (sort_key fst es)))"

fun cargo_paths ::
    "ret_settings \<Rightarrow> ret_plugin \<Rightarrow> ret_view \<Rightarrow> activity \<Rightarrow> deny_set \<Rightarrow> string \<Rightarrow> path \<Rightarrow> path list
      \<Rightarrow> git_tracker \<times> ret_pass \<Rightarrow> (git_tracker \<times> ret_pass) \<times> bool" where
  "cargo_paths cfg p v a deny busy root_path [] acc = (acc, False)"
| "cargo_paths cfg p v a deny busy root_path (path # paths) (t, ps) =
     (let cc = rc_CargoTargets (rs_retention cfg)
      in if rv_done v path then ((t, warn ''cargo_targets pass interrupted'' ps), True)
         else case se_tree (rv_session v) path of
                None \<Rightarrow> cargo_paths cfg p v a deny busy root_path paths (t, ps)
              | Some info \<Rightarrow>
                  if st_kind info \<noteq> Directory then cargo_paths cfg p v a deny busy root_path paths (t, ps)
                  else let c = \<lparr>rt_rule = CargoTargets, rt_root = root_path, rt_path = path, rt_info = info, rt_maxAge = age_of (cg_MaxAge cc)\<rparr>
                       in case decide cfg p v c (cg_Delete cc) (cg_MaxEntriesPerTarget cc) a deny busy t of
                            (target, t') \<Rightarrow> cargo_paths cfg p v a deny busy root_path paths (t', add_candidate c target ps))"

definition search_depth :: "cargo_targets_config \<Rightarrow> nat" where
  "search_depth cc = nat (if cg_MaxDepth cc \<le> 0 then 3 else cg_MaxDepth cc)"

fun cargo_roots ::
    "ret_settings \<Rightarrow> ret_plugin \<Rightarrow> ret_view \<Rightarrow> activity \<Rightarrow> deny_set \<Rightarrow> string \<Rightarrow> path list
      \<Rightarrow> git_tracker \<times> ret_pass \<Rightarrow> git_tracker \<times> ret_pass" where
  "cargo_roots cfg p v a deny busy [] acc = acc"
| "cargo_roots cfg p v a deny busy (r # rs) acc =
     (case cargo_paths cfg p v a deny busy r (findCargoTargetDirs v (search_depth (rc_CargoTargets (rs_retention cfg))) r) acc of
        (acc', True) \<Rightarrow> acc'
      | (acc', False) \<Rightarrow> cargo_roots cfg p v a deny busy rs acc')"

definition evaluateCargoTargets ::
    "ret_settings \<Rightarrow> ret_plugin \<Rightarrow> ret_view \<Rightarrow> path list \<Rightarrow> activity \<Rightarrow> deny_set \<Rightarrow> git_tracker \<times> ret_pass \<Rightarrow> git_tracker \<times> ret_pass" where
  "evaluateCargoTargets cfg p v roots a deny acc =
     (let busy = retentionBusyProcess a (cg_BusyProcesses (rc_CargoTargets (rs_retention cfg)))
      in cargo_roots cfg p v a deny busy roots
           (if busy \<noteq> [] then apsnd (note_metadata ''cargo_targets.busy'' busy) acc else acc))"


subsection \<open>The floor and the leftovers\<close>

definition fixed0 :: "float64 \<Rightarrow> string" where "fixed0 x = show_int (round_half_even x)"

definition floor_bytes :: "free_space_floor_config \<Rightarrow> u64" where
  "floor_bytes fc = u64_of_int \<lfloor>fmul (ff_FloorGiB fc) (2 ^ 30)\<rfloor>"

definition alert_text :: "path \<Rightarrow> u64 \<Rightarrow> float64 \<Rightarrow> string" where
  "alert_text path free least =
     ''ALERT free-space floor: '' @ path @ '' has '' @ fixed1 (fdiv (float_of_u64 free) (2 ^ 30)) @ '' GiB free, below the ''
       @ fixed0 least @ '' GiB floor''"

definition check_floor :: "free_space_floor_config \<Rightarrow> ret_view \<Rightarrow> path \<Rightarrow> ret_pass \<Rightarrow> ret_pass" where
  "check_floor fc v path ps =
     (case rv_usage v path of
        UsageMissing \<Rightarrow> ps
      | UsageError err \<Rightarrow> warn (''free_space_floor: '' @ path @ '' unreadable: '' @ err) ps
      | Usage capacity used \<Rightarrow>
          (let free = capacity - used; below = free < floor_bytes fc;
               ps = note_metadata (''free_space_floor.'' @ path)
                      (''free_bytes='' @ show_int (uint free) @ '' total_bytes='' @ show_int (uint capacity)
                         @ '' below_floor='' @ show_bool below) ps
           in if below then ps\<lparr>ps_alerts := ps_alerts ps @ [alert_text path free (ff_FloorGiB fc)]\<rparr> else ps))"

fun check_floors :: "free_space_floor_config \<Rightarrow> ret_plugin \<Rightarrow> ret_view \<Rightarrow> path list \<Rightarrow> path list \<Rightarrow> ret_pass \<Rightarrow> ret_pass" where
  "check_floors fc p v seen [] ps = ps"
| "check_floors fc p v seen (raw # raws) ps =
     (let path = clean_path (ExpandUserPath raw (rp_home p) (rp_user p) (rp_env_user p))
      in if raw = [] \<or> path \<in> set seen then check_floors fc p v seen raws ps
         else check_floors fc p v (path # seen) raws (check_floor fc v path ps))"

text \<open>\<open>FormatFloat\<close> with the least number of decimals that reads back as the value; for a positive setting below \<open>2^53\<close>.\<close>

definition reads_back :: "float64 \<Rightarrow> nat \<Rightarrow> bool" where
  "reads_back x n = (fl64 (of_int (round_half_even (x * 10 ^ n)) / 10 ^ n) = x)"

definition shortest_float :: "float64 \<Rightarrow> string" where
  "shortest_float x =
     (let n = (case find (reads_back x) [0..<40] of None \<Rightarrow> 0 | Some n \<Rightarrow> n); r = round_half_even (x * 10 ^ n)
      in if n = 0 then show_int r else show_int (r div 10 ^ n) @ ''.'' @ show_padded n (r mod 10 ^ n))"

definition evaluateFloors :: "ret_settings \<Rightarrow> ret_plugin \<Rightarrow> ret_view \<Rightarrow> path list \<Rightarrow> ret_pass \<Rightarrow> ret_pass" where
  "evaluateFloors cfg p v roots ps =
     (let fc = rc_FreeSpaceFloor (rs_retention cfg)
      in if \<not> ff_Enabled fc \<or> ff_FloorGiB fc \<le> 0 then ps
         else note_metadata ''free_space_floor.floor_gib'' (shortest_float (ff_FloorGiB fc))
                (check_floors fc p v [] (ff_Paths fc @ rs_mounts cfg @ roots) ps))"

definition fusionAppLink :: string where "fusionAppLink = ''Autodesk Fusion.app''"

definition report_leftover :: "string \<Rightarrow> path \<Rightarrow> string \<Rightarrow> int \<Rightarrow> ret_pass \<Rightarrow> ret_pass" where
  "report_leftover name path why bytes ps =
     ps\<lparr>ps_reports := ps_reports ps @
        [annotateCleanupTargetPolicy CleanupTierDestructive CleanupReclaimNone
           \<lparr>ct_Type = ''darwin-leftover'', ct_Tier = [], ct_Name = name, ct_Version = [], ct_Path = path, ct_Bytes = bytes,
            ct_LogicalBytes = 0, ct_Reclaim = [], ct_HostReclaimsSpace = None, ct_Active = False, ct_Protected = True,
            ct_Action = ''report'', ct_Reason = why\<rparr>]\<rparr>"

definition tree_bytes :: "ret_view \<Rightarrow> path \<Rightarrow> int" where
  "tree_bytes v path = fst (getDirAllocatedBytesContext (se_tree (rv_session v)) (rv_sized v path))"

text \<open>The builds of the webdeploy root, with the bytes of the superseded ones; \<open>None\<close> when interrupted.\<close>

fun fusion_builds ::
    "ret_view \<Rightarrow> path \<Rightarrow> string \<Rightarrow> int \<Rightarrow> (string \<times> file_kind \<times> file_stat option) list \<Rightarrow> ret_pass \<Rightarrow> ret_pass \<times> int option" where
  "fusion_builds v r current superseded [] ps = (ps, Some superseded)"
| "fusion_builds v r current superseded ((name, kind, info) # es) ps =
     (let path = join_path [r, name]; bytes = tree_bytes v path
      in if rv_done v path then (ps, None)
         else if kind \<noteq> Directory then fusion_builds v r current superseded es ps
         else if current = []
         then fusion_builds v r current superseded es
                (report_leftover ''fusion-webdeploy-build'' path
                   (''Fusion webdeploy build; the current build is unknown ('' @ fusionAppLink @ '' symlink missing or unresolved); report only'')
                   bytes ps)
         else if name = current
         then fusion_builds v r current superseded es
                (report_leftover ''fusion-webdeploy-current'' path (''current Fusion build (target of '' @ fusionAppLink @ ''); kept'') bytes ps)
         else fusion_builds v r current (superseded + bytes) es
                (report_leftover ''fusion-webdeploy-superseded'' path
                   (''superseded Fusion webdeploy build (not the target of '' @ fusionAppLink @ ''); report only, no deletion rule'') bytes ps))"

definition current_build :: "ret_view \<Rightarrow> path \<Rightarrow> string" where
  "current_build v r =
     (case se_resolve (rv_session v) (join_path [r, fusionAppLink]) of
        Resolved target \<Rightarrow>
          (let rel = path_rel (resolvedOrSelf (se_resolve (rv_session v)) r) target
           in if prefix ''..'' rel then [] else hd (split_on CHR ''/'' rel))
      | _ \<Rightarrow> [])"

definition report_path :: "ret_view \<Rightarrow> path \<Rightarrow> ret_pass \<Rightarrow> ret_pass" where
  "report_path v path ps =
     (case se_tree (rv_session v) path of
        None \<Rightarrow> note_metadata (''darwin_leftovers.absent.'' @ path) ''true'' ps
      | Some s \<Rightarrow>
          report_leftover (path_base path) path ''report only, no deletion rule''
            (if st_kind s = Directory then tree_bytes v path else st_blocks s * 512) ps)"

definition evaluateDarwinLeftovers :: "ret_settings \<Rightarrow> ret_plugin \<Rightarrow> ret_view \<Rightarrow> ret_pass \<Rightarrow> ret_pass" where
  "evaluateDarwinLeftovers cfg p v ps =
     (let dc = rc_DarwinLeftovers (rs_retention cfg);
          expand = (\<lambda>path. ExpandUserPath path (rp_home p) (rp_user p) (rp_env_user p));
          r = expand (dl_FusionWebdeployRoot dc);
          rest = (\<lambda>ps. fold (report_path v) (map expand (dl_ReportPaths dc)) ps)
      in if r = [] then rest ps
         else case rv_readDir v r of
                Inl (Missing _) \<Rightarrow> rest ps
              | Inl (Failing err) \<Rightarrow> rest (warn (''darwin_leftovers: '' @ r @ '' unreadable: '' @ err) ps)
              | Inr es \<Rightarrow>
                  (let current = current_build v r
                   in case fusion_builds v r current 0 es (note_metadata ''darwin_leftovers.fusion_current_build'' current ps) of
                        (ps, None) \<Rightarrow> ps
                      | (ps, Some superseded) \<Rightarrow>
                          rest (note_metadata ''darwin_leftovers.fusion_superseded_bytes'' (show_int superseded) ps)))"

subsection \<open>The pass\<close>

record rule_totals =
  rl_seen :: int
  rl_eligible :: int
  rl_active :: int
  rl_kept :: int
  rl_eligibleBytes :: int
  rl_eligibleLogical :: int
  rl_keptBytes :: int

definition no_totals :: rule_totals where
  "no_totals = \<lparr>rl_seen = 0, rl_eligible = 0, rl_active = 0, rl_kept = 0, rl_eligibleBytes = 0, rl_eligibleLogical = 0, rl_keptBytes = 0\<rparr>"

definition total_candidate :: "cleanup_target \<Rightarrow> rule_totals \<Rightarrow> rule_totals" where
  "total_candidate t n =
     (let n = n\<lparr>rl_seen := rl_seen n + 1\<rparr>
      in if \<not> ct_Protected t
         then n\<lparr>rl_eligible := rl_eligible n + 1, rl_eligibleBytes := rl_eligibleBytes n + ct_Bytes t,
                rl_eligibleLogical := rl_eligibleLogical n + (if ct_LogicalBytes t = 0 then ct_Bytes t else ct_LogicalBytes t)\<rparr>
         else if ct_Active t then n\<lparr>rl_active := rl_active n + 1, rl_keptBytes := rl_keptBytes n + ct_Bytes t\<rparr>
         else n\<lparr>rl_kept := rl_kept n + 1, rl_keptBytes := rl_keptBytes n + ct_Bytes t\<rparr>)"

definition totals_of :: "ret_rule \<Rightarrow> ret_candidate list \<Rightarrow> rule_totals" where
  "totals_of rule cs = fold total_candidate (map rk_target (filter (\<lambda>c. rt_rule (rk_tree c) = rule) cs)) no_totals"

definition summarize_rule :: "ret_rule \<Rightarrow> ret_pass \<Rightarrow> ret_pass" where
  "summarize_rule rule ps =
     (let n = totals_of rule (ps_candidates ps)
      in fold (\<lambda>(k, x). note_metadata (rule_name rule @ k) (show_int x))
           [(''.inspected'', rl_seen n), (''.eligible_count'', rl_eligible n), (''.eligible_bytes'', rl_eligibleBytes n),
            (''.eligible_logical_bytes'', rl_eligibleLogical n), (''.live_count'', rl_active n), (''.kept_count'', rl_kept n),
            (''.kept_bytes'', rl_keptBytes n)] ps)"

definition summarize :: "ret_pass \<Rightarrow> ret_pass" where
  "summarize ps = summarize_rule CargoTargets (summarize_rule TmpAgents ps)"

definition empty_pass :: ret_pass where
  "empty_pass = \<lparr>ps_candidates = [], ps_reports = [], ps_warnings = [], ps_alerts = [], ps_metadata = []\<rparr>"

definition note_missing :: "string \<Rightarrow> path list \<Rightarrow> ret_pass \<Rightarrow> ret_pass" where
  "note_missing key missing = fold (\<lambda>m. note_metadata (key @ m) ''true'') missing"

definition ret_deny :: "ret_settings \<Rightarrow> ret_plugin \<Rightarrow> ret_view \<Rightarrow> deny_set" where
  "ret_deny cfg p v = newAgentSessionDeny (rv_session v) (rp_home p) (rp_uid p) (rp_tmpdir p) (rs_extra cfg) []"

definition evaluate_rules :: "ret_settings \<Rightarrow> ret_plugin \<Rightarrow> ret_view \<Rightarrow> path list \<Rightarrow> path list \<Rightarrow> ret_pass \<Rightarrow> ret_pass" where
  "evaluate_rules cfg p v tmpRoots cargoRoots ps =
     (if tmpRoots @ cargoRoots = [] then ps
      else let a = rv_scan v (activityOptions cfg p v (tmpRoots @ cargoRoots));
               deny = ret_deny cfg p v;
               acc = (newDevArtifactGitTracker (rv_git v), ps);
               acc = (if tmpRoots \<noteq> [] then evaluateTmpAgents cfg p v tmpRoots a deny acc else acc)
           in snd (if cargoRoots \<noteq> [] then evaluateCargoTargets cfg p v cargoRoots a deny acc else acc))"

definition tmp_roots :: "ret_settings \<Rightarrow> ret_plugin \<Rightarrow> ret_view \<Rightarrow> path list \<times> path list" where
  "tmp_roots cfg p v =
     (let tc = rc_TmpAgents (rs_retention cfg) in if ta_Enabled tc then expandRoots p v [] (ta_Roots tc) else ([], []))"

definition cargo_target_roots :: "ret_settings \<Rightarrow> ret_plugin \<Rightarrow> ret_view \<Rightarrow> path list \<times> path list" where
  "cargo_target_roots cfg p v =
     (let cc = rc_CargoTargets (rs_retention cfg) in if cg_Enabled cc then expandRoots p v [] (cg_Roots cc) else ([], []))"

definition evaluate :: "ret_settings \<Rightarrow> ret_plugin \<Rightarrow> ret_view \<Rightarrow> ret_pass" where
  "evaluate cfg p v =
     (case validate_retention (rs_retention cfg) of
        Some err \<Rightarrow>
          evaluateFloors cfg p v []
            (warn (''invalid retention policy, deleting rules skipped: '' @ retention_error_text err) empty_pass)
      | None \<Rightarrow>
          (let (tmpRoots, tmpMissing) = tmp_roots cfg p v;
               (cargoRoots, cargoMissing) = cargo_target_roots cfg p v;
               ps = note_missing ''cargo_targets.missing_root.'' cargoMissing
                      (note_missing ''tmp_agents.missing_root.'' tmpMissing empty_pass);
               ps = evaluate_rules cfg p v tmpRoots cargoRoots ps;
               ps = evaluateFloors cfg p v (tmpRoots @ cargoRoots) ps
           in summarize (if dl_Enabled (rc_DarwinLeftovers (rs_retention cfg)) \<and> rp_darwin p
                         then evaluateDarwinLeftovers cfg p v ps else ps)))"


definition plan_steps :: "string list" where
  "plan_steps =
     [''Take one process inventory: cwd, root, open files, mappings, command lines and TMPDIR/TMP/TEMP/TEMPDIR'',
      ''tmp_agents: inspect top-level directories matching name_globs, oldest first'',
      ''cargo_targets: find Cargo target dirs (CACHEDIR.TAG or .rustc_info.json) under the roots; skip all while cargo or rustc runs'',
      ''Keep anything of another user, across a mount, with .git, agent-session data, protect_paths, Git custody, a recent change or a live reference'',
      ''Measure allocated blocks (sparse files count what they occupy)'',
      ''Remove only when the rule's delete flag is true, re-checking every tree immediately before removal'',
      ''Alert on volumes under free_space_floor.floor_gib; report Darwin leftovers (never deleted)'']"

definition planned_bytes :: "ret_candidate list \<Rightarrow> int" where
  "planned_bytes cs = sum_list (map (\<lambda>c. if ct_Action (rk_target c) = ''delete'' then ct_Bytes (rk_target c) else 0) cs)"

definition PlanCleanup_retention :: "ret_settings \<Rightarrow> ret_plugin \<Rightarrow> ret_view \<Rightarrow> cleanup_level \<Rightarrow> cleanup_plan" where
  "PlanCleanup_retention cfg p v level =
     (let ps = evaluate cfg p v;
          tmp_delete = ta_Delete (rc_TmpAgents (rs_retention cfg)); cargo_delete = cg_Delete (rc_CargoTargets (rs_retention cfg));
          would = (tmp_delete \<or> cargo_delete);
          plan = annotateCleanupPlanTargetAccounting
            \<lparr>cp_Plugin = ''retention'', cp_Level = level_string level,
             cp_Summary = show_int (int (length (ps_candidates ps))) @ '' tree(s) inspected; tmp_agents delete='' @ show_bool tmp_delete
                            @ '', cargo_targets delete='' @ show_bool cargo_delete,
             cp_WouldRun = would,
             cp_SkipReason = (if would then [] else ''retention deleting rules are report-only (no delete flag set)''),
             cp_EstimatedBytesFreed = planned_bytes (ps_candidates ps), cp_RequiredFreeBytes = 0, cp_Steps = plan_steps,
             cp_Targets = map rk_target (ps_candidates ps) @ ps_reports ps,
             cp_Warnings = ps_alerts ps @ ps_warnings ps, cp_Metadata = []\<rparr>
      in plan\<lparr>cp_Metadata :=
           tbl_put ''cargo_targets.delete'' (show_bool cargo_delete)
             (tbl_put ''tmp_agents.delete'' (show_bool tmp_delete)
               (fold (\<lambda>(k, x). tbl_put k x) (ps_metadata ps) (cp_Metadata plan)))\<rparr>)"

subsection \<open>The cleanup\<close>

definition retention_interval :: "retention_config \<Rightarrow> duration" where
  "retention_interval rc =
     (if rc_Interval rc = [] then hour else case config_parse_duration (rc_Interval rc) of None \<Rightarrow> hour | Some d \<Rightarrow> d)"

text \<open>Whether a pass is due, and the time of the last pass after that; the zero time stands for none.\<close>

definition due :: "retention_config \<Rightarrow> instant \<Rightarrow> instant \<Rightarrow> bool \<times> instant" where
  "due rc now lastRun =
     (if lastRun \<noteq> zero_time \<and> 0 < retention_interval rc \<and> time_sub now lastRun < retention_interval rc
      then (False, lastRun) else (True, now))"

text \<open>What the rule of a tree says at removal time: its delete flag, its walk limit and the process that keeps it.\<close>

definition rule_settings :: "retention_config \<Rightarrow> ret_rule \<Rightarrow> activity \<Rightarrow> bool \<times> int \<times> string" where
  "rule_settings rc rule a =
     (case rule of
        TmpAgents \<Rightarrow> (ta_Delete (rc_TmpAgents rc), ta_MaxEntriesPerDir (rc_TmpAgents rc), [])
      | CargoTargets \<Rightarrow>
          (cg_Delete (rc_CargoTargets rc), cg_MaxEntriesPerTarget (rc_CargoTargets rc),
           retentionBusyProcess a (cg_BusyProcesses (rc_CargoTargets rc))))"

definition recheck :: "ret_settings \<Rightarrow> ret_plugin \<Rightarrow> ret_view \<Rightarrow> ret_tree \<Rightarrow> activity \<Rightarrow> string" where
  "recheck cfg p v c a =
     (case se_tree (rv_session v) (rt_path c) of
        None \<Rightarrow> ''tree identity changed''
      | Some current \<Rightarrow>
          if \<not> same_file (rt_info c) current then ''tree identity changed''
          else case rule_settings (rs_retention cfg) (rt_rule c) a of
                 (delete, limit, busy) \<Rightarrow>
                   (case decide cfg p v (c\<lparr>rt_info := current\<rparr>) delete limit a (ret_deny cfg p v) busy
                           (newDevArtifactGitTracker (rv_git v)) of
                      (t, _) \<Rightarrow> if ct_Action t \<noteq> ''delete'' then ct_Reason t else []))"

text \<open>\<open>remove\<close>: a second try once the tree has been made writable.\<close>

definition remove_tree :: "(path \<Rightarrow> string option) \<Rightarrow> (path \<Rightarrow> string option) \<Rightarrow> path \<Rightarrow> string option" where
  "remove_tree attempt again path = (case attempt path of None \<Rightarrow> None | Some _ \<Rightarrow> again path)"

definition count_tree :: "cleanup_target \<Rightarrow> string option \<Rightarrow> cleanup_result \<Rightarrow> cleanup_result" where
  "count_tree t err r =
     (if err \<noteq> None then r
      else r\<lparr>cr_BytesFreed := cr_BytesFreed r + ct_Bytes t, cr_EstimatedBytesFreed := cr_EstimatedBytesFreed r + ct_Bytes t,
             cr_ItemsCleaned := cr_ItemsCleaned r + 1\<rparr>)"

text \<open>The inventory a removal is decided on: the last one unless there is none or it is too old.\<close>

definition fresh_activity ::
    "ret_settings \<Rightarrow> ret_plugin \<Rightarrow> ret_view \<Rightarrow> path \<Rightarrow> (activity \<times> instant) option \<Rightarrow> activity \<times> instant" where
  "fresh_activity cfg p v root_path fresh =
     (let again = (rv_scan v (activityOptions cfg p v [root_path]), rv_scanned_at v)
      in case fresh of
           None \<Rightarrow> again
         | Some (a, taken) \<Rightarrow> if retentionActivityMaxAge < time_sub (rv_age_now v) taken then again else (a, taken))"

text \<open>The loop over the candidates, with the host of each turn; the removals tried are listed with the tree, the
  host and the inventory they were decided on.\<close>

record ret_removal =
  rm_tree :: ret_tree
  rm_view :: ret_view
  rm_activity :: activity

fun remove_stale ::
    "ret_settings \<Rightarrow> ret_plugin \<Rightarrow> (nat \<Rightarrow> ret_view) \<Rightarrow> (path \<Rightarrow> string option) \<Rightarrow> nat \<Rightarrow> (activity \<times> instant) option
      \<Rightarrow> ret_candidate list \<Rightarrow> cleanup_result \<Rightarrow> cleanup_result \<times> ret_removal list" where
  "remove_stale cfg p views rm n fresh [] r = (r, [])"
| "remove_stale cfg p views rm n fresh (c # cs) r =
     (let t = rk_target c; v = views n
      in if ct_Action t \<noteq> ''delete'' then remove_stale cfg p views rm (Suc n) fresh cs r
         else if rv_done v (ct_Path t) then (r\<lparr>cr_Error := Some ''context canceled''\<rparr>, [])
         else case fresh_activity cfg p v (rt_root (rk_tree c)) fresh of
                (a, taken) \<Rightarrow>
                  if recheck cfg p v (rk_tree c) a \<noteq> [] then remove_stale cfg p views rm (Suc n) (Some (a, taken)) cs r
                  else apsnd (\<lambda>tried. \<lparr>rm_tree = rk_tree c, rm_view = v, rm_activity = a\<rparr> # tried)
                         (remove_stale cfg p views rm (Suc n) (Some (a, taken)) cs (count_tree t (rm (ct_Path t)) r)))"

text \<open>One call: the result, the time of the last pass and the removals tried.\<close>

definition Cleanup_retention ::
    "ret_settings \<Rightarrow> ret_plugin \<Rightarrow> instant \<Rightarrow> ret_view \<Rightarrow> (nat \<Rightarrow> ret_view) \<Rightarrow> (path \<Rightarrow> string option)
      \<Rightarrow> (path \<Rightarrow> string option) \<Rightarrow> cleanup_level \<Rightarrow> instant \<Rightarrow> (cleanup_result \<times> ret_removal list) \<times> instant" where
  "Cleanup_retention cfg p now v views attempt again level lastRun =
     (let r = \<lparr>cr_Plugin = ''retention'', cr_Level = level, cr_BytesFreed = 0, cr_EstimatedBytesFreed = 0,
               cr_CommandBytesFreed = 0, cr_HostBytesFreed = 0, cr_ItemsCleaned = 0, cr_Error = None\<rparr>
      in case due (rs_retention cfg) now lastRun of
           (False, mark) \<Rightarrow> ((r, []), mark)
         | (True, mark) \<Rightarrow> (remove_stale cfg p views (remove_tree attempt again) 0 None (ps_candidates (evaluate cfg p v)) r, mark))"

end
