(* ===== verification/Retention_Runs.thy ===== *)
theory Retention_Runs
  imports Retention
begin

text \<open>
  What age retention does over its runs: when a tree may go, that only such a tree is removed and only one the
  plan announces, that passes keep their distance, and what the search for build directories finds.
\<close>

subsection \<open>What the walk establishes\<close>

text \<open>The times an entry is judged by lie at or before \<open>cutoff\<close>.\<close>

definition unchanged_since :: "instant \<Rightarrow> instant \<Rightarrow> file_stat \<Rightarrow> bool" where
  "unchanged_since now cutoff s =
     (effectiveModTime s now \<le> cutoff \<and> (st_ctime s \<le> now + futureMtimeTolerance \<longrightarrow> st_ctime s \<le> cutoff))"

lemma newer_time_le: "newer_time now s newest \<le> cutoff \<longleftrightarrow> newest \<le> cutoff \<and> unchanged_since now cutoff s"
  by (auto simp: newer_time_def unchanged_since_def Let_def)

text \<open>An entry that lets its tree go.\<close>

definition entry_releasable ::
    "ret_plugin \<Rightarrow> ret_view \<Rightarrow> path \<Rightarrow> int \<Rightarrow> string list \<Rightarrow> instant \<Rightarrow> instant \<Rightarrow> walk_event \<Rightarrow> bool" where
  "entry_releasable p v path dev parents now cutoff e =
     (we_error e = None \<and> \<not> we_done e
      \<and> (path_base (we_path e) = ''.git'' \<longrightarrow> retentionFixtureRepo v path (we_path e) (we_kind e) parents = [])
      \<and> \<not> (we_path e \<noteq> path \<and> we_kind e = Directory \<and> isAgentSessionDir (rv_session v) (we_path e))
      \<and> (case we_info e of Inl _ \<Rightarrow> False | Inr s \<Rightarrow> st_dev s = dev \<and> st_uid s = rp_uid p \<and> unchanged_since now cutoff s))"

lemma ret_walk_iff:
  "snd (ret_walk p v path dev limit parents now st es) = None
     \<and> ts_newest (fst (ret_walk p v path dev limit parents now st es)) \<le> cutoff \<longleftrightarrow>
   ts_newest st \<le> cutoff \<and> list_all (entry_releasable p v path dev parents now cutoff) es
     \<and> (0 < limit \<and> es \<noteq> [] \<longrightarrow> ts_entries st + int (length es) \<le> limit)"
  (is "?walk st es \<longleftrightarrow> ?free st es")
proof (induction es arbitrary: st)
  case (Cons e es)
  define st2 where "st2 = (if path_base (we_path e) = ''.git''
    then st\<lparr>ts_entries := ts_entries st + 1, ts_fixtureRepos := ts_fixtureRepos st + 1\<rparr> else st\<lparr>ts_entries := ts_entries st + 1\<rparr>)"
  have st2: "ts_newest st2 = ts_newest st" "ts_entries st2 = ts_entries st + 1" by (simp_all add: st2_def)
  define ok where "ok = (\<exists>s. we_info e = Inr s \<and> st_dev s = dev \<and> st_uid s = rp_uid p \<and> we_error e = None \<and> \<not> we_done e
      \<and> (path_base (we_path e) = ''.git'' \<longrightarrow> retentionFixtureRepo v path (we_path e) (we_kind e) parents = [])
      \<and> \<not> (we_path e \<noteq> path \<and> we_kind e = Directory \<and> isAgentSessionDir (rv_session v) (we_path e))
      \<and> \<not> (0 < limit \<and> limit < ts_entries st + 1))"
  show ?case
  proof (cases ok)
    case True
    then obtain s where s: "we_info e = Inr s" "st_dev s = dev" "st_uid s = rp_uid p" "we_error e = None" "\<not> we_done e"
        "path_base (we_path e) = ''.git'' \<longrightarrow> retentionFixtureRepo v path (we_path e) (we_kind e) parents = []"
        "\<not> (we_path e \<noteq> path \<and> we_kind e = Directory \<and> isAgentSessionDir (rv_session v) (we_path e))"
        "\<not> (0 < limit \<and> limit < ts_entries st + 1)"
      unfolding ok_def by blast
    then have step: "ret_walk p v path dev limit parents now st (e # es)
        = ret_walk p v path dev limit parents now (measure_entry now s st2) es"
      by (auto simp: Let_def st2_def)
    have m: "ts_newest (measure_entry now s st2) \<le> cutoff \<longleftrightarrow> ts_newest st \<le> cutoff \<and> unchanged_since now cutoff s"
      "ts_entries (measure_entry now s st2) = ts_entries st + 1"
      by (simp_all add: measure_entry_def newer_time_le st2)
    have "entry_releasable p v path dev parents now cutoff e \<longleftrightarrow> unchanged_since now cutoff s"
      using s(1-7) unfolding entry_releasable_def by simp
    with s(8) show ?thesis unfolding step Cons.IH m by (cases es) auto
  next
    case False
    then have "snd (ret_walk p v path dev limit parents now st (e # es)) \<noteq> None"
      unfolding ok_def by (auto simp: Let_def split: option.splits sum.splits)
    moreover have "\<not> ?free st (e # es)"
      using False unfolding ok_def by (auto simp: entry_releasable_def split: sum.splits)
    ultimately show ?thesis by blast
  qed
qed simp

lemma walkTree_iff:
  "snd (walkTree p v path dev limit parents) = [] \<and> ts_newest (fst (walkTree p v path dev limit parents)) \<le> cutoff \<longleftrightarrow>
    zero_time \<le> cutoff
    \<and> list_all (entry_releasable p v path dev parents (fst (rv_clock v path)) cutoff) (se_walk (rv_session v) path)
    \<and> (0 < limit \<and> se_walk (rv_session v) path \<noteq> [] \<longrightarrow> int (length (se_walk (rv_session v) path)) \<le> limit)"
  using ret_walk_iff [of p v path dev limit parents "fst (rv_clock v path)" zero_stats "se_walk (rv_session v) path" cutoff]
  by (auto simp: walkTree_def zero_stats_def split: prod.splits option.splits)

subsection \<open>When a tree may go\<close>

lemma new_tracker_ok: "tracker_ok v (newDevArtifactGitTracker v)"
  by (simp add: tracker_ok_def newDevArtifactGitTracker_def memo_ok_def)

text \<open>No repository claims a path: none lies above it, or it tracks nothing there and its work tree is at rest.\<close>

definition git_free :: "git_view \<Rightarrow> path \<Rightarrow> bool" where
  "git_free v path =
     (let repo = root_of v (path_ups (search_start v path))
      in repo = [] \<or> \<not> (gv_available v \<and> tracked_at v path) \<and> gitWorktreeProtectReason v repo = [])"

lemma retentionGitReason_iff:
  assumes "tracker_ok (rv_git v) t" "clean_abs path"
  shows "fst (retentionGitReason v path t) = [] \<longleftrightarrow> git_free (rv_git v) path"
    "tracker_ok (rv_git v) (snd (retentionGitReason v path t))"
proof -
  obtain repo t1 where r: "repoRootForPath (rv_git v) path t = (repo, t1)" by fastforce
  from repo_root_exact [OF assms r] have repo: "repo = root_of (rv_git v) (path_ups (search_start (rv_git v) path))"
    and t1: "tracker_ok (rv_git v) t1" by simp_all
  obtain b t2 where c: "ContainsTrackedFiles (rv_git v) path t1 = (b, t2)" by fastforce
  have "is_abs path" "clean_path path = path" using assms(2) by (auto simp: clean_abs_def)
  with contains_tracked_exact [OF t1, of path] c
  have b: "b \<longleftrightarrow> gv_available (rv_git v) \<and> tracked_at (rv_git v) path" "tracker_ok (rv_git v) t2" by simp_all
  show "fst (retentionGitReason v path t) = [] \<longleftrightarrow> git_free (rv_git v) path"
    unfolding retentionGitReason_def git_free_def Let_def repo [symmetric] b(1) [symmetric] using r c by (cases b) simp_all
  show "tracker_ok (rv_git v) (snd (retentionGitReason v path t))"
    using r c t1 b(2) by (cases b) (simp_all add: retentionGitReason_def Let_def)
qed

text \<open>All that a tree needs to be let go, on an inventory.  The walk starts from the zero time, so the clock has to be
  past it by the age.\<close>

definition releasable ::
    "ret_settings \<Rightarrow> ret_plugin \<Rightarrow> ret_view \<Rightarrow> ret_tree \<Rightarrow> int \<Rightarrow> activity \<Rightarrow> bool" where
  "releasable cfg p v c limit a =
     (let env = rv_session v; path = rt_path c; es = se_walk env path;
          parents = (if rt_rule c = TmpAgents then ta_FixtureRepoParents (rc_TmpAgents (rs_retention cfg)) else [])
      in denied env (ret_deny cfg p v) path = None \<and> containsDenied env (ret_deny cfg p v) path = None
         \<and> list_all (\<lambda>pre. pre = [] \<or> \<not> prefix pre path) (rs_protect cfg)
         \<and> st_uid (rt_info c) = rp_uid p
         \<and> zero_time \<le> snd (rv_clock v path) - rt_maxAge c
         \<and> list_all (entry_releasable p v path (st_dev (rt_info c)) parents (fst (rv_clock v path))
              (snd (rv_clock v path) - rt_maxAge c)) es
         \<and> (0 < limit \<and> es \<noteq> [] \<longrightarrow> int (length es) \<le> limit)
         \<and> git_free (rv_git v) path
         \<and> complete a = [] \<and> blockers (se_resolve env) a path = [])"

lemma keep_tree_iff:
  assumes "tracker_ok (rv_git v) t" "clean_abs (rt_path c)"
  shows "fst (snd (keep_tree cfg p v c limit a (ret_deny cfg p v) busy t)) = [] \<longleftrightarrow> busy = [] \<and> releasable cfg p v c limit a"
proof -
  let ?env = "rv_session v" and ?path = "rt_path c"
  let ?parents = "if rt_rule c = TmpAgents then ta_FixtureRepoParents (rc_TmpAgents (rs_retention cfg)) else []"
  obtain st why where w: "walkTree p v ?path (st_dev (rt_info c)) limit ?parents = (st, why)" by fastforce
  obtain gw t' where g: "retentionGitReason v ?path t = (gw, t')" by fastforce
  note walk = walkTree_iff [of p v ?path "st_dev (rt_info c)" limit ?parents, unfolded w fst_conv snd_conv]
  have git: "gw = [] \<longleftrightarrow> git_free (rv_git v) ?path" using retentionGitReason_iff(1) [OF assms(1,2)] g by simp
  have protect: "find (\<lambda>pre. pre \<noteq> [] \<and> prefix pre ?path) (rs_protect cfg) = None
      \<longleftrightarrow> list_all (\<lambda>pre. pre = [] \<or> \<not> prefix pre ?path) (rs_protect cfg)"
    by (auto simp: find_None_iff list_all_iff)
  show ?thesis
  proof (cases "denied ?env (ret_deny cfg p v) ?path")
    case (Some why)
    with denied_nonempty [OF Some] show ?thesis by (simp add: keep_tree_def Let_def releasable_def)
  next
    case d: None
    show ?thesis
    proof (cases "containsDenied ?env (ret_deny cfg p v) ?path")
      case (Some why)
      with d containsDenied_nonempty [OF Some] show ?thesis by (simp add: keep_tree_def Let_def releasable_def)
    next
      case cd: None
      show ?thesis
      proof (cases "find (\<lambda>pre. pre \<noteq> [] \<and> prefix pre ?path) (rs_protect cfg)")
        case (Some pre)
        with d cd protect show ?thesis by (simp add: keep_tree_def Let_def releasable_def)
      next
        case pr: None
        have "fst (snd (keep_tree cfg p v c limit a (ret_deny cfg p v) busy t)) = [] \<longleftrightarrow>
            st_uid (rt_info c) = rp_uid p \<and> (why = [] \<and> ts_newest st \<le> snd (rv_clock v ?path) - rt_maxAge c)
            \<and> gw = [] \<and> busy = [] \<and> complete a = [] \<and> blockers (se_resolve ?env) a ?path = []"
          using d cd pr w g by (auto simp: keep_tree_def Let_def not_less split: list.split)
        also have "\<dots> \<longleftrightarrow> busy = [] \<and> releasable cfg p v c limit a"
          unfolding walk git releasable_def Let_def using d cd pr protect by auto
        finally show ?thesis .
      qed
    qed
  qed
qed

lemma decide_action:
  "ct_Action (fst (decide cfg p v c delete limit a deny busy t)) =
     (if fst (snd (keep_tree cfg p v c limit a deny busy t)) \<noteq> [] then ''keep'' else if delete then ''delete'' else ''report'')"
  by (auto simp: decide_def Let_def annotateCleanupTargetPolicy_def tree_target_def split: prod.splits)

lemma decide_kept_reason:
  "ct_Action (fst (decide cfg p v c delete limit a deny busy t)) \<noteq> ''delete'' \<Longrightarrow>
     ct_Reason (fst (decide cfg p v c delete limit a deny busy t)) \<noteq> []"
  by (auto simp: decide_def Let_def annotateCleanupTargetPolicy_def tree_target_def split: prod.splits if_splits)

lemma decide_path [simp]: "ct_Path (fst (decide cfg p v c delete limit a deny busy t)) = rt_path c"
  by (auto simp: decide_def Let_def annotateCleanupTargetPolicy_def tree_target_def split: prod.splits)

text \<open>A recheck without objection.\<close>

definition may_go :: "ret_settings \<Rightarrow> ret_plugin \<Rightarrow> ret_view \<Rightarrow> ret_tree \<Rightarrow> activity \<Rightarrow> bool" where
  "may_go cfg p w c a =
     (\<exists>current. se_tree (rv_session w) (rt_path c) = Some current \<and> same_file (rt_info c) current
        \<and> (case rule_settings (rs_retention cfg) (rt_rule c) a of
             (delete, limit, busy) \<Rightarrow> delete \<and> busy = [] \<and> releasable cfg p w (c\<lparr>rt_info := current\<rparr>) limit a))"

lemma recheck_iff_may_go:
  assumes "clean_abs (rt_path c)"
  shows "recheck cfg p w c a = [] \<longleftrightarrow> may_go cfg p w c a"
proof (cases "se_tree (rv_session w) (rt_path c)")
  case (Some current)
  obtain delete limit busy where s: "rule_settings (rs_retention cfg) (rt_rule c) a = (delete, limit, busy)" by (metis prod_cases3)
  let ?c = "c\<lparr>rt_info := current\<rparr>" and ?t = "newDevArtifactGitTracker (rv_git w)"
  let ?d = "decide cfg p w ?c delete limit a (ret_deny cfg p w) busy ?t"
  have "recheck cfg p w c a = [] \<longleftrightarrow> same_file (rt_info c) current \<and> ct_Action (fst ?d) = ''delete''"
    using Some s decide_kept_reason [of cfg p w ?c delete limit a "ret_deny cfg p w" busy ?t]
    by (auto simp: recheck_def split: prod.splits)
  moreover have "ct_Action (fst ?d) = ''delete'' \<longleftrightarrow> delete \<and> busy = [] \<and> releasable cfg p w ?c limit a"
    using keep_tree_iff [OF new_tracker_ok, of ?c cfg p w limit a busy] assms unfolding decide_action by auto
  ultimately show ?thesis using Some s by (simp add: may_go_def)
qed (simp add: recheck_def may_go_def)


subsection \<open>What a pass inspects\<close>

definition in_scope :: "ret_settings \<Rightarrow> ret_plugin \<Rightarrow> ret_view \<Rightarrow> ret_tree \<Rightarrow> bool" where
  "in_scope cfg p v c =
     (st_kind (rt_info c) = Directory
      \<and> (case rt_rule c of
           TmpAgents \<Rightarrow>
             (let tc = rc_TmpAgents (rs_retention cfg)
              in ta_Enabled tc \<and> rt_root c \<in> set (fst (expandRoots p v [] (ta_Roots tc))) \<and> rt_maxAge c = age_of (ta_MaxAge tc)
                 \<and> (\<exists>name. rt_path c = join_path [rt_root c, name] \<and> retentionNameMatches name (ta_NameGlobs tc)))
         | CargoTargets \<Rightarrow>
             (let cc = rc_CargoTargets (rs_retention cfg)
              in cg_Enabled cc \<and> rt_root c \<in> set (fst (expandRoots p v [] (cg_Roots cc))) \<and> rt_maxAge c = age_of (cg_MaxAge cc)
                 \<and> rt_path c \<in> set (findCargoTargetDirs v (search_depth cc) (rt_root c)))))"

definition candidate_in_scope :: "ret_settings \<Rightarrow> ret_plugin \<Rightarrow> ret_view \<Rightarrow> ret_candidate \<Rightarrow> bool" where
  "candidate_in_scope cfg p v k = (in_scope cfg p v (rk_tree k) \<and> ct_Path (rk_target k) = rt_path (rk_tree k))"

lemma candidate_made:
  "candidate_in_scope cfg p v \<lparr>rk_tree = c, rk_target = t\<rparr> \<longleftrightarrow> in_scope cfg p v c \<and> ct_Path t = rt_path c"
  by (simp add: candidate_in_scope_def)

lemma temp_root_path:
  assumes "tempScanRootsOldestFirst now dir es = Inr roots" "r \<in> set roots"
  shows "tr_path r = join_path [dir, tr_name r]"
  using assms by (cases es) (auto simp: tempScanRootsOldestFirst_def split: option.splits)

lemma tmp_entries_scope:
  assumes "ta_Enabled (rc_TmpAgents (rs_retention cfg))"
    and "r \<in> set (fst (expandRoots p v [] (ta_Roots (rc_TmpAgents (rs_retention cfg)))))"
  shows "list_all (\<lambda>e. tr_path e = join_path [r, tr_name e]) es \<Longrightarrow> list_all (candidate_in_scope cfg p v) (ps_candidates (snd acc)) \<Longrightarrow>
    list_all (candidate_in_scope cfg p v) (ps_candidates (snd (fst (tmp_entries cfg p v a deny r n es acc))))"
  using assms
proof (induction es arbitrary: n acc)
  case (Cons e es)
  obtain t ps where acc: "acc = (t, ps)" by fastforce
  let ?tc = "rc_TmpAgents (rs_retention cfg)"
  let ?c = "\<lparr>rt_rule = TmpAgents, rt_root = r, rt_path = tr_path e, rt_info = tr_info e, rt_maxAge = age_of (ta_MaxAge ?tc)\<rparr>"
  obtain tg t' where d: "decide cfg p v ?c (ta_Delete ?tc) (ta_MaxEntriesPerDir ?tc) a deny [] t = (tg, t')" by fastforce
  have tg: "ct_Path tg = tr_path e"
    using decide_path [of cfg p v ?c "ta_Delete ?tc" "ta_MaxEntriesPerDir ?tc" a deny "[]" t] unfolding d by simp
  let ?matches = "st_kind (tr_info e) = Directory \<and> retentionNameMatches (tr_name e) (ta_NameGlobs ?tc)"
  let ?full = "0 < ta_MaxDirsPerCycle ?tc \<and> ta_MaxDirsPerCycle ?tc \<le> n"
  consider (stop) "rv_done v (tr_path e) \<or> ?matches \<and> ?full" | (skip) "\<not> rv_done v (tr_path e)" "\<not> ?matches"
    | (inspect) "\<not> rv_done v (tr_path e)" "?matches" "\<not> ?full" by blast
  then show ?case
  proof cases
    case stop
    with Cons.prems acc show ?thesis by (auto simp: warn_def Let_def)
  next
    case skip
    then have "tmp_entries cfg p v a deny r n (e # es) acc = tmp_entries cfg p v a deny r n es (t, ps)"
      by (simp add: acc Let_def)
    with Cons acc show ?thesis by simp
  next
    case inspect
    then have eq: "tmp_entries cfg p v a deny r n (e # es) acc = tmp_entries cfg p v a deny r (n + 1) es (t', add_candidate ?c tg ps)"
      by (auto simp: acc Let_def d)
    have "in_scope cfg p v ?c" using inspect(2) Cons.prems(1,3,4) by (auto simp: in_scope_def Let_def)
    with tg have "list_all (candidate_in_scope cfg p v) (ps_candidates (snd (t', add_candidate ?c tg ps)))"
      using Cons.prems(2) acc by (simp add: candidate_made add_candidate_def)
    from Cons.IH [OF _ this Cons.prems(3,4)] Cons.prems(1) show ?thesis unfolding eq by simp
  qed
qed simp

lemma tmp_agents_scope:
  assumes "ta_Enabled (rc_TmpAgents (rs_retention cfg))"
  shows "set rs \<subseteq> set (fst (expandRoots p v [] (ta_Roots (rc_TmpAgents (rs_retention cfg))))) \<Longrightarrow>
    list_all (candidate_in_scope cfg p v) (ps_candidates (snd acc)) \<Longrightarrow>
    list_all (candidate_in_scope cfg p v) (ps_candidates (snd (evaluateTmpAgents cfg p v rs a deny acc)))"
  using assms
proof (induction cfg p v rs a deny acc rule: evaluateTmpAgents.induct)
  case (2 cfg p v r rs a deny t ps)
  show ?case
  proof (cases "tempScanRootsOldestFirst (rv_now v) r (map_sum io_text with_info (rv_readDir v r))")
    case (Inl err)
    with 2 show ?thesis by (simp add: warn_def)
  next
    case (Inr es)
    obtain acc' b where t: "tmp_entries cfg p v a deny r 0 es (t, ps) = (acc', b)" by fastforce
    have "list_all (\<lambda>e. tr_path e = join_path [r, tr_name e]) es" using temp_root_path [OF Inr] by (simp add: list_all_iff)
    with tmp_entries_scope [of cfg r p v es "(t, ps)" a deny 0] 2 t
    have good: "list_all (candidate_in_scope cfg p v) (ps_candidates (snd acc'))" by simp
    with Inr t "2.IH"(2) [OF Inr t [symmetric]] "2.prems" show ?thesis by (cases b) auto
  qed
qed simp


lemma cargo_paths_scope:
  assumes "cg_Enabled (rc_CargoTargets (rs_retention cfg))"
    and "r \<in> set (fst (expandRoots p v [] (cg_Roots (rc_CargoTargets (rs_retention cfg)))))"
  shows "set paths \<subseteq> set (findCargoTargetDirs v (search_depth (rc_CargoTargets (rs_retention cfg))) r) \<Longrightarrow>
    list_all (candidate_in_scope cfg p v) (ps_candidates (snd acc)) \<Longrightarrow>
    list_all (candidate_in_scope cfg p v) (ps_candidates (snd (fst (cargo_paths cfg p v a deny busy r paths acc))))"
proof (induction paths arbitrary: acc)
  case (Cons path paths)
  obtain t ps where acc: "acc = (t, ps)" by fastforce
  let ?cc = "rc_CargoTargets (rs_retention cfg)"
  consider (stop) "rv_done v path"
    | (skip) "\<not> rv_done v path" "se_tree (rv_session v) path = None \<or> (\<exists>s. se_tree (rv_session v) path = Some s \<and> st_kind s \<noteq> Directory)"
    | (inspect) s where "\<not> rv_done v path" "se_tree (rv_session v) path = Some s" "st_kind s = Directory" by (cases "se_tree (rv_session v) path") blast+
  then show ?case
  proof cases
    case stop
    with Cons.prems acc show ?thesis by (simp add: warn_def Let_def)
  next
    case skip
    then have "cargo_paths cfg p v a deny busy r (path # paths) acc = cargo_paths cfg p v a deny busy r paths (t, ps)"
      by (auto simp: acc Let_def)
    with Cons acc show ?thesis by simp
  next
    case inspect
    let ?c = "\<lparr>rt_rule = CargoTargets, rt_root = r, rt_path = path, rt_info = s, rt_maxAge = age_of (cg_MaxAge ?cc)\<rparr>"
    obtain tg t' where d: "decide cfg p v ?c (cg_Delete ?cc) (cg_MaxEntriesPerTarget ?cc) a deny busy t = (tg, t')" by fastforce
    have tg: "ct_Path tg = path"
      using decide_path [of cfg p v ?c "cg_Delete ?cc" "cg_MaxEntriesPerTarget ?cc" a deny busy t] unfolding d by simp
    have eq: "cargo_paths cfg p v a deny busy r (path # paths) acc = cargo_paths cfg p v a deny busy r paths (t', add_candidate ?c tg ps)"
      using inspect by (simp add: acc Let_def d)
    have "in_scope cfg p v ?c" using inspect(3) Cons.prems(1) assms by (auto simp: in_scope_def Let_def)
    with tg have "list_all (candidate_in_scope cfg p v) (ps_candidates (snd (t', add_candidate ?c tg ps)))"
      using Cons.prems(2) acc by (simp add: candidate_made add_candidate_def)
    from Cons.IH [OF _ this] Cons.prems(1) show ?thesis unfolding eq by simp
  qed
qed simp

lemma cargo_roots_scope:
  assumes "cg_Enabled (rc_CargoTargets (rs_retention cfg))"
  shows "set rs \<subseteq> set (fst (expandRoots p v [] (cg_Roots (rc_CargoTargets (rs_retention cfg))))) \<Longrightarrow>
    list_all (candidate_in_scope cfg p v) (ps_candidates (snd acc)) \<Longrightarrow>
    list_all (candidate_in_scope cfg p v) (ps_candidates (snd (cargo_roots cfg p v a deny busy rs acc)))"
proof (induction rs arbitrary: acc)
  case (Cons r rs)
  let ?paths = "findCargoTargetDirs v (search_depth (rc_CargoTargets (rs_retention cfg))) r"
  obtain acc' b where c: "cargo_paths cfg p v a deny busy r ?paths acc = (acc', b)" by fastforce
  with cargo_paths_scope [OF assms, of r p v ?paths acc a deny busy] Cons.prems
  have good: "list_all (candidate_in_scope cfg p v) (ps_candidates (snd acc'))" by simp
  with c Cons.IH [OF _ good] Cons.prems show ?case by (cases b) simp_all
qed simp

text \<open>The floors, the leftovers and the summary leave the candidates alone.\<close>

lemma candidates_notes [simp]:
  "ps_candidates (warn w ps) = ps_candidates ps" "ps_candidates (note_metadata k x ps) = ps_candidates ps"
  "ps_candidates (report_leftover n q why b ps) = ps_candidates ps" "ps_candidates (note_missing key ms ps) = ps_candidates ps"
proof -
  have n: "ps_candidates (note_metadata k x ps) = ps_candidates ps" for k x ps by (simp add: note_metadata_def)
  show "ps_candidates (note_metadata k x ps) = ps_candidates ps" by (rule n)
  show "ps_candidates (note_missing key ms ps) = ps_candidates ps"
    unfolding note_missing_def by (induction ms arbitrary: ps) (simp_all add: n)
qed (simp_all add: warn_def report_leftover_def)

lemma candidates_floors [simp]: "ps_candidates (evaluateFloors cfg p v roots ps) = ps_candidates ps"
proof -
  have one: "ps_candidates (check_floor fc v q ps) = ps_candidates ps" for fc v q ps
    by (simp add: check_floor_def Let_def split: usage_answer.split)
  have "ps_candidates (check_floors fc p v seen raws ps) = ps_candidates ps" for fc p v seen raws ps
    by (induction fc p v seen raws ps rule: check_floors.induct) (simp_all add: one Let_def)
  then show ?thesis by (simp add: evaluateFloors_def Let_def)
qed

lemma candidates_leftovers [simp]: "ps_candidates (evaluateDarwinLeftovers cfg p v ps) = ps_candidates ps"
proof -
  have one: "ps_candidates (report_path v q ps) = ps_candidates ps" for q ps
    by (simp add: report_path_def split: option.split)
  have rest: "ps_candidates (fold (report_path v) qs ps) = ps_candidates ps" for qs ps
    by (induction qs arbitrary: ps) (simp_all add: one)
  have builds: "ps_candidates (fst (fusion_builds v r current n es ps)) = ps_candidates ps" for r current n es ps
    by (induction v r current n es ps rule: fusion_builds.induct) (simp_all add: Let_def)
  show ?thesis
    using builds [of "ExpandUserPath (dl_FusionWebdeployRoot (rc_DarwinLeftovers (rs_retention cfg))) (rp_home p) (rp_user p) (rp_env_user p)"]
    by (auto simp: evaluateDarwinLeftovers_def Let_def rest split: sum.splits io_error.splits prod.splits option.splits)
      (metis candidates_notes(2) fst_conv)+
qed

lemma candidates_summary [simp]: "ps_candidates (summarize ps) = ps_candidates ps"
  by (simp add: summarize_def summarize_rule_def Let_def)

lemma evaluate_scope: "list_all (candidate_in_scope cfg p v) (ps_candidates (evaluate cfg p v))"
proof -
  obtain ts tm where t: "tmp_roots cfg p v = (ts, tm)" by fastforce
  obtain cs cm where c: "cargo_target_roots cfg p v = (cs, cm)" by fastforce
  have ts: "ts \<noteq> [] \<Longrightarrow> ta_Enabled (rc_TmpAgents (rs_retention cfg))"
    "ts \<noteq> [] \<Longrightarrow> set ts \<subseteq> set (fst (expandRoots p v [] (ta_Roots (rc_TmpAgents (rs_retention cfg)))))"
    using t by (auto simp: tmp_roots_def Let_def split: if_splits)
  have cs: "cs \<noteq> [] \<Longrightarrow> cg_Enabled (rc_CargoTargets (rs_retention cfg))"
    "cs \<noteq> [] \<Longrightarrow> set cs \<subseteq> set (fst (expandRoots p v [] (cg_Roots (rc_CargoTargets (rs_retention cfg)))))"
    using c by (auto simp: cargo_target_roots_def Let_def split: if_splits)
  have rules: "list_all (candidate_in_scope cfg p v) (ps_candidates (evaluate_rules cfg p v ts cs ps))"
    if ps: "ps_candidates ps = []" for ps
  proof -
    let ?a = "rv_scan v (activityOptions cfg p v (ts @ cs))"
    define acc where "acc = (if ts \<noteq> [] then evaluateTmpAgents cfg p v ts ?a (ret_deny cfg p v) (newDevArtifactGitTracker (rv_git v), ps)
      else (newDevArtifactGitTracker (rv_git v), ps))"
    have acc: "list_all (candidate_in_scope cfg p v) (ps_candidates (snd acc))"
      unfolding acc_def using ps tmp_agents_scope [OF ts(1) ts(2)] by simp
    have busy: "ps_candidates (snd (apsnd (note_metadata k x) acc)) = ps_candidates (snd acc)" for k x
      by (simp add: apsnd_def map_prod_def split: prod.split)
    have "list_all (candidate_in_scope cfg p v) (ps_candidates (snd (evaluateCargoTargets cfg p v cs ?a (ret_deny cfg p v) acc)))" if "cs \<noteq> []"
      unfolding evaluateCargoTargets_def Let_def
      by (rule cargo_roots_scope [OF cs(1) [OF that] cs(2) [OF that]]) (use acc busy in simp)
    moreover have "evaluate_rules cfg p v ts cs ps = (if ts @ cs = [] then ps else
        snd (if cs \<noteq> [] then evaluateCargoTargets cfg p v cs ?a (ret_deny cfg p v) acc else acc))"
      unfolding evaluate_rules_def Let_def acc_def by (rule refl)
    ultimately show ?thesis using acc ps by simp
  qed
  show ?thesis
    using rules by (simp add: evaluate_def t c Let_def empty_pass_def split: option.split)
qed


lemma evaluate_invalid: "validate_retention (rs_retention cfg) \<noteq> None \<Longrightarrow> ps_candidates (evaluate cfg p v) = []"
  by (auto simp: evaluate_def empty_pass_def)

text \<open>The paths inspected are clean and absolute.\<close>

lemma clean_abs_join: "is_abs d \<Longrightarrow> clean_abs (join_path [d, name])"
proof -
  assume d: "is_abs d"
  then have "d \<noteq> []" by (auto simp: is_abs_def)
  moreover have "is_abs (join_strings ''/'' (d # ns))" for ns
    using d by (cases ns) (auto simp: is_abs_def prefix_def)
  ultimately show ?thesis unfolding join_path_def Let_def by (simp add: clean_abs_clean)
qed

lemma expandRoots_clean: "r \<in> set (fst (expandRoots p v seen raws)) \<Longrightarrow> clean_abs r"
proof (induction p v seen raws rule: expandRoots.induct)
  case (2 p v seen raw raws)
  let ?r = "clean_path (ExpandUserPath raw (rp_home p) (rp_user p) (rp_env_user p))"
  obtain es ms where e: "expandRoots p v (?r # seen) raws = (es, ms)" by fastforce
  show ?case
  proof (cases "?r \<in> set seen \<or> \<not> is_abs ?r \<or> ?r = ''/''")
    case True
    with 2 show ?thesis by (auto simp: Let_def)
  next
    case False
    with 2 e consider "r = ?r" | "r \<in> set es" by (auto simp: Let_def split: if_splits)
    then show ?thesis
    proof cases
      case 1
      moreover have "is_abs (ExpandUserPath raw (rp_home p) (rp_user p) (rp_env_user p))" using False by (simp add: is_abs_clean_iff)
      ultimately show ?thesis using clean_abs_clean by simp
    next
      case 2
      with "2.IH"(2) [OF refl False] e show ?thesis by simp
    qed
  qed
qed simp

lemma bex_triple: "(\<exists>e\<in>A. P e) \<longleftrightarrow> (\<exists>x y z. (x, y, z) \<in> A \<and> P (x, y, z))"
  by auto

lemma find_member:
  "q \<in> set (findCargoTargetDirs v (Suc n) dir) \<longleftrightarrow>
     \<not> rv_done v dir \<and> (\<exists>es name info. rv_readDir v dir = Inr es \<and> (name, Directory, info) \<in> set es \<and> name \<noteq> ''.git''
        \<and> (if isCargoTargetDir v (join_path [dir, name]) then q = join_path [dir, name]
            else q \<in> set (findCargoTargetDirs v n (join_path [dir, name]))))"
proof (cases "rv_readDir v dir")
  case (Inr es)
  let ?below = "\<lambda>e. case e of (name, kind, info :: file_stat option) \<Rightarrow>
    if kind \<noteq> Directory \<or> name = ''.git'' then []
    else let path = join_path [dir, name] in if isCargoTargetDir v path then [path] else findCargoTargetDirs v n path"
  define Q where "Q name = (if isCargoTargetDir v (join_path [dir, name]) then q = join_path [dir, name]
      else q \<in> set (findCargoTargetDirs v n (join_path [dir, name])))" for name
  have one: "q \<in> set (?below (name, kind, info)) \<longleftrightarrow> kind = Directory \<and> name \<noteq> ''.git''
      \<and> (if isCargoTargetDir v (join_path [dir, name]) then q = join_path [dir, name]
          else q \<in> set (findCargoTargetDirs v n (join_path [dir, name])))" for name kind info
    by (simp add: Let_def)
  have "q \<in> set (findCargoTargetDirs v (Suc n) dir) \<longleftrightarrow> \<not> rv_done v dir \<and> (\<exists>e\<in>set es. q \<in> set (?below e))"
    using Inr by (simp only: findCargoTargetDirs.simps sum.case set_concat set_map set_sort if_split) (auto split: if_splits)
  also have "\<dots> \<longleftrightarrow> \<not> rv_done v dir \<and> (\<exists>name kind info. (name, kind, info) \<in> set es \<and> q \<in> set (?below (name, kind, info)))"
    unfolding bex_triple by (rule refl)
  finally have eq: "q \<in> set (findCargoTargetDirs v (Suc n) dir) \<longleftrightarrow> \<not> rv_done v dir
      \<and> (\<exists>name kind info. (name, kind, info) \<in> set es \<and> kind = Directory \<and> name \<noteq> ''.git'' \<and> Q name)"
    unfolding one Q_def .
  show ?thesis unfolding eq Q_def [symmetric] Inr sum.inject by blast
qed simp

text \<open>The build directories below a directory, and how deep they lie: found among its entries, or below an entry
  that is none itself.\<close>

inductive target_below :: "ret_view \<Rightarrow> path \<Rightarrow> nat \<Rightarrow> path \<Rightarrow> bool" for v :: ret_view where
  found: "\<not> rv_done v dir \<Longrightarrow> rv_readDir v dir = Inr es \<Longrightarrow> (name, Directory, info) \<in> set es \<Longrightarrow> name \<noteq> ''.git'' \<Longrightarrow>
    isCargoTargetDir v (join_path [dir, name]) \<Longrightarrow> target_below v dir 1 (join_path [dir, name])"
| deeper: "\<not> rv_done v dir \<Longrightarrow> rv_readDir v dir = Inr es \<Longrightarrow> (name, Directory, info) \<in> set es \<Longrightarrow> name \<noteq> ''.git'' \<Longrightarrow>
    \<not> isCargoTargetDir v (join_path [dir, name]) \<Longrightarrow> target_below v (join_path [dir, name]) n q \<Longrightarrow> target_below v dir (Suc n) q"

lemma find_sound: "q \<in> set (findCargoTargetDirs v depth dir) \<Longrightarrow> \<exists>n\<le>depth. target_below v dir n q"
proof (induction depth arbitrary: dir)
  case (Suc depth)
  then obtain es name info where e: "\<not> rv_done v dir" "rv_readDir v dir = Inr es" "(name, Directory, info) \<in> set es" "name \<noteq> ''.git''"
    and q: "if isCargoTargetDir v (join_path [dir, name]) then q = join_path [dir, name]
            else q \<in> set (findCargoTargetDirs v depth (join_path [dir, name]))"
    unfolding find_member by blast
  show ?case
  proof (cases "isCargoTargetDir v (join_path [dir, name])")
    case True
    with q found [OF e] show ?thesis by (intro exI [of _ 1]) simp
  next
    case False
    with q Suc.IH obtain n where "n \<le> depth" "target_below v (join_path [dir, name]) n q" by auto
    with deeper [OF e False] show ?thesis by (intro exI [of _ "Suc n"]) simp
  qed
qed simp

lemma find_complete: "target_below v dir n q \<Longrightarrow> n \<le> depth \<Longrightarrow> q \<in> set (findCargoTargetDirs v depth dir)"
proof (induction arbitrary: depth rule: target_below.induct)
  case (found dir es name info)
  then obtain d where "depth = Suc d" by (cases depth) auto
  with found show ?case unfolding \<open>depth = Suc d\<close> find_member by auto
next
  case (deeper dir es name info n q)
  then obtain d where d: "depth = Suc d" "n \<le> d" by (cases depth) auto
  with deeper deeper.IH [OF d(2)] show ?case unfolding d(1) find_member by auto
qed

lemma target_below_clean: "target_below v dir n q \<Longrightarrow> is_abs dir \<Longrightarrow> clean_abs q"
proof (induction rule: target_below.induct)
  case (deeper dir es name info n q)
  from clean_abs_join [OF deeper.prems, of name] have "is_abs (join_path [dir, name])" by (simp add: clean_abs_def)
  then show ?case by (rule deeper.IH)
qed (rule clean_abs_join)

lemma in_scope_clean: "in_scope cfg p v c \<Longrightarrow> clean_abs (rt_path c)"
proof -
  assume c: "in_scope cfg p v c"
  have r: "clean_abs (rt_root c)"
    using c expandRoots_clean unfolding in_scope_def Let_def by (cases "rt_rule c") auto
  then have abs: "is_abs (rt_root c)" by (simp add: clean_abs_def)
  show ?thesis
  proof (cases "rt_rule c")
    case TmpAgents
    with c clean_abs_join [OF abs] show ?thesis by (auto simp: in_scope_def Let_def)
  next
    case CargoTargets
    with c find_sound target_below_clean [OF _ abs] show ?thesis by (fastforce simp: in_scope_def Let_def)
  qed
qed


subsection \<open>What a cleanup removes\<close>

text \<open>An inventory taken at this turn or at an earlier one, at most thirty seconds before, for the root of one of the
  candidates.\<close>

definition recent_inventory ::
    "ret_settings \<Rightarrow> ret_plugin \<Rightarrow> (nat \<Rightarrow> ret_view) \<Rightarrow> path set \<Rightarrow> ret_view \<Rightarrow> activity \<Rightarrow> bool" where
  "recent_inventory cfg p views roots w a =
     (\<exists>m. \<exists>r\<in>roots. a = rv_scan (views m) (activityOptions cfg p (views m) [r])
        \<and> (w = views m \<or> time_sub (rv_age_now w) (rv_scanned_at (views m)) \<le> retentionActivityMaxAge))"

definition remembered ::
    "ret_settings \<Rightarrow> ret_plugin \<Rightarrow> (nat \<Rightarrow> ret_view) \<Rightarrow> path set \<Rightarrow> (activity \<times> instant) option \<Rightarrow> bool" where
  "remembered cfg p views roots fresh =
     (case fresh of None \<Rightarrow> True
      | Some (a, taken) \<Rightarrow> \<exists>m. \<exists>r\<in>roots. a = rv_scan (views m) (activityOptions cfg p (views m) [r]) \<and> taken = rv_scanned_at (views m))"

lemma fresh_activity_recent:
  assumes "fresh_activity cfg p (views n) r fresh = (a, taken)" "remembered cfg p views roots fresh" "r \<in> roots"
  shows "recent_inventory cfg p views roots (views n) a" "remembered cfg p views roots (Some (a, taken))"
proof -
  have "remembered cfg p views roots (Some (a, taken)) \<and> recent_inventory cfg p views roots (views n) a"
  proof (cases "fresh = None \<or> retentionActivityMaxAge < time_sub (rv_age_now (views n)) (snd (the fresh))")
    case True
    with assms(1) have "a = rv_scan (views n) (activityOptions cfg p (views n) [r])" "taken = rv_scanned_at (views n)"
      by (auto simp: fresh_activity_def Let_def split: option.splits if_splits)
    with assms(3) show ?thesis by (auto simp: remembered_def recent_inventory_def)
  next
    case False
    with assms(1) have "fresh = Some (a, taken)" by (auto simp: fresh_activity_def Let_def split: option.splits if_splits)
    with False assms(2) show ?thesis by (auto simp: remembered_def recent_inventory_def)
  qed
  then show "recent_inventory cfg p views roots (views n) a" "remembered cfg p views roots (Some (a, taken))" by simp_all
qed

lemma removal_decided:
  "x \<in> set (snd (remove_stale cfg p views rm n fresh cs r)) \<Longrightarrow> remembered cfg p views roots fresh \<Longrightarrow>
     (\<lambda>k. rt_root (rk_tree k)) ` set cs \<subseteq> roots \<Longrightarrow>
     (\<exists>k\<in>set cs. rm_tree x = rk_tree k \<and> ct_Action (rk_target k) = ''delete'')
     \<and> recheck cfg p (rm_view x) (rm_tree x) (rm_activity x) = [] \<and> recent_inventory cfg p views roots (rm_view x) (rm_activity x)"
proof (induction cs arbitrary: n fresh r)
  case (Cons k cs)
  let ?t = "rk_target k" and ?v = "views n"
  obtain a taken where f: "fresh_activity cfg p ?v (rt_root (rk_tree k)) fresh = (a, taken)" by fastforce
  have "rt_root (rk_tree k) \<in> roots" using Cons.prems(3) by auto
  note recent = fresh_activity_recent [OF f Cons.prems(2) this]
  note rest = Cons.IH [OF _ recent(2)]
  consider (keep) "ct_Action ?t \<noteq> ''delete''" | (stop) "ct_Action ?t = ''delete''" "rv_done ?v (ct_Path ?t)"
    | (changed) "ct_Action ?t = ''delete''" "\<not> rv_done ?v (ct_Path ?t)" "recheck cfg p ?v (rk_tree k) a \<noteq> []"
    | (gone) "ct_Action ?t = ''delete''" "\<not> rv_done ?v (ct_Path ?t)" "recheck cfg p ?v (rk_tree k) a = []" by blast
  then show ?case
  proof cases
    case keep
    with Cons.prems Cons.IH [of "Suc n" fresh r] show ?thesis by auto
  next
    case stop
    with Cons.prems(1) show ?thesis by simp
  next
    case changed
    with Cons.prems f rest [of "Suc n" r] show ?thesis by auto
  next
    case gone
    with Cons.prems(1) f consider "x = \<lparr>rm_tree = rk_tree k, rm_view = ?v, rm_activity = a\<rparr>"
      | "x \<in> set (snd (remove_stale cfg p views rm (Suc n) (Some (a, taken)) cs (count_tree ?t (rm (ct_Path ?t)) r)))"
      by (auto simp: Let_def)
    then show ?thesis
    proof cases
      case 1
      with gone recent(1) show ?thesis by auto
    next
      case 2
      with rest [OF 2] Cons.prems(3) show ?thesis by auto
    qed
  qed
qed simp

fun least_age :: "ret_rule \<Rightarrow> duration" where
  "least_age TmpAgents = hour"
| "least_age CargoTargets = 24 * hour"

lemma validated_age: "validateRetentionAge key s least = None \<Longrightarrow> least \<le> age_of s"
  by (auto simp: validateRetentionAge_def age_of_def split: option.splits if_splits)

lemma validated_ages:
  assumes "validate_retention rc = None"
  shows "ta_Enabled (rc_TmpAgents rc) \<Longrightarrow> least_age TmpAgents \<le> age_of (ta_MaxAge (rc_TmpAgents rc))"
    "cg_Enabled (rc_CargoTargets rc) \<Longrightarrow> least_age CargoTargets \<le> age_of (cg_MaxAge (rc_CargoTargets rc))"
proof -
  have all: "first_some (\<lambda>check. check) cs = None \<Longrightarrow> c \<in> set cs \<Longrightarrow> c = None" for cs :: "retention_error option list" and c
    by simp
  note top = all [OF assms [unfolded validate_retention_def]]
  show "least_age TmpAgents \<le> age_of (ta_MaxAge (rc_TmpAgents rc))" if "ta_Enabled (rc_TmpAgents rc)"
  proof -
    have "validate_tmp_agents (rc_TmpAgents rc) = None"
      using top [of "if ta_Enabled (rc_TmpAgents rc) then validate_tmp_agents (rc_TmpAgents rc) else None"] that by simp
    from all [OF this [unfolded validate_tmp_agents_def]]
    have "validateRetentionAge ''retention.tmp_agents.max_age'' (ta_MaxAge (rc_TmpAgents rc)) RetentionTmpAgentsMinMaxAge = None" by simp
    from validated_age [OF this] show ?thesis by (simp add: RetentionTmpAgentsMinMaxAge_def)
  qed
  show "least_age CargoTargets \<le> age_of (cg_MaxAge (rc_CargoTargets rc))" if "cg_Enabled (rc_CargoTargets rc)"
  proof -
    have "validate_cargo_targets (rc_CargoTargets rc) = None"
      using top [of "if cg_Enabled (rc_CargoTargets rc) then validate_cargo_targets (rc_CargoTargets rc) else None"] that by simp
    from all [OF this [unfolded validate_cargo_targets_def]]
    have "validateRetentionAge ''retention.cargo_targets.max_age'' (cg_MaxAge (rc_CargoTargets rc)) RetentionCargoTargetsMinMaxAge = None" by simp
    from validated_age [OF this] show ?thesis by (simp add: RetentionCargoTargetsMinMaxAge_def)
  qed
qed

text \<open>C31: age retention removes only what it may.  It removes under a valid policy, whose ages respect their
  floors, and only a directory its rules found below a root; at the moment of the removal the rule's delete flag is
  set, the tree is still the same file, and by an inventory at most thirty seconds old it may go: complete and
  holding nothing in it, no build running for a build directory, no agent-session data, no protected prefix, every
  entry of this user and device, unchanged for the age and in no repository but a fixture, within the walk bound, and
  free of Git custody.\<close>

theorem retention_removal_guarded:
  assumes "x \<in> set (snd (fst (Cleanup_retention cfg p now v views attempt again level lastRun)))"
  shows "validate_retention (rs_retention cfg) = None \<and> in_scope cfg p v (rm_tree x)
    \<and> least_age (rt_rule (rm_tree x)) \<le> rt_maxAge (rm_tree x)
    \<and> may_go cfg p (rm_view x) (rm_tree x) (rm_activity x)
    \<and> recent_inventory cfg p views ((\<lambda>k. rt_root (rk_tree k)) ` set (ps_candidates (evaluate cfg p v))) (rm_view x) (rm_activity x)"
proof -
  let ?cs = "ps_candidates (evaluate cfg p v)"
  obtain r where x: "x \<in> set (snd (remove_stale cfg p views (remove_tree attempt again) 0 None ?cs r))"
    using assms by (auto simp: Cleanup_retention_def Let_def split: prod.splits bool.splits)
  have "remembered cfg p views ((\<lambda>k. rt_root (rk_tree k)) ` set ?cs) None" by (simp add: remembered_def)
  from removal_decided [OF x this order.refl] obtain k where k: "k \<in> set ?cs" "rm_tree x = rk_tree k"
    and r: "recheck cfg p (rm_view x) (rm_tree x) (rm_activity x) = []"
      "recent_inventory cfg p views ((\<lambda>k. rt_root (rk_tree k)) ` set ?cs) (rm_view x) (rm_activity x)" by blast
  have scope: "in_scope cfg p v (rm_tree x)"
    using evaluate_scope [of cfg p v] k by (auto simp: list_all_iff candidate_in_scope_def)
  have valid: "validate_retention (rs_retention cfg) = None" using k(1) evaluate_invalid [of cfg p v] by fastforce
  have "least_age (rt_rule (rm_tree x)) \<le> rt_maxAge (rm_tree x)"
    using scope validated_ages [OF valid] by (cases "rt_rule (rm_tree x)") (auto simp: in_scope_def Let_def)
  with valid scope r recheck_iff_may_go [OF in_scope_clean [OF scope]] show ?thesis by blast
qed


subsection \<open>A cleanup follows its plan\<close>

lemma removal_order:
  "subseq (map rm_tree (snd (remove_stale cfg p views rm n fresh cs r)))
     (map rk_tree (filter (\<lambda>k. ct_Action (rk_target k) = ''delete'') cs))"
proof (induction cs arbitrary: n fresh r)
  case (Cons k cs)
  obtain a taken where f: "fresh_activity cfg p (views n) (rt_root (rk_tree k)) fresh = (a, taken)" by fastforce
  from Cons [of "Suc n"] f show ?case by (auto simp: Let_def)
qed simp

lemma cleanup_cases:
  fixes cfg p now v views attempt again level lastRun
  defines "c \<equiv> Cleanup_retention cfg p now v views attempt again level lastRun"
    and "r \<equiv> \<lparr>cr_Plugin = ''retention'', cr_Level = level, cr_BytesFreed = 0, cr_EstimatedBytesFreed = 0,
               cr_CommandBytesFreed = 0, cr_HostBytesFreed = 0, cr_ItemsCleaned = 0, cr_Error = None\<rparr>"
  obtains "fst c = (r, [])" | "fst c = remove_stale cfg p views (remove_tree attempt again) 0 None (ps_candidates (evaluate cfg p v)) r"
proof (cases "due (rs_retention cfg) now lastRun")
  case (Pair b mark)
  with that show ?thesis by (cases b) (simp_all add: c_def r_def Cleanup_retention_def Let_def)
qed

lemma planned_bytes_nonneg: "list_all (\<lambda>k. 0 \<le> ct_Bytes (rk_target k)) cs \<Longrightarrow> 0 \<le> planned_bytes cs"
  unfolding planned_bytes_def by (induction cs) auto

lemma removal_bytes:
  "list_all (\<lambda>k. 0 \<le> ct_Bytes (rk_target k)) cs \<Longrightarrow>
     cr_BytesFreed (fst (remove_stale cfg p views rm n fresh cs r)) \<le> cr_BytesFreed r + planned_bytes cs"
proof (induction cs arbitrary: n fresh r)
  case (Cons k cs)
  obtain a taken where f: "fresh_activity cfg p (views n) (rt_root (rk_tree k)) fresh = (a, taken)" by fastforce
  have pos: "0 \<le> planned_bytes cs" using Cons.prems by (simp add: planned_bytes_nonneg)
  have b: "0 \<le> ct_Bytes (rk_target k)" using Cons.prems by simp
  have c: "cr_BytesFreed (count_tree (rk_target k) e r) \<le> cr_BytesFreed r + ct_Bytes (rk_target k)" for e r
    using b by (simp add: count_tree_def)
  have IH: "cr_BytesFreed (fst (remove_stale cfg p views rm m fresh cs r)) \<le> cr_BytesFreed r + planned_bytes cs" for m fresh r
    using Cons by simp
  have split: "planned_bytes (k # cs) = (if ct_Action (rk_target k) = ''delete'' then ct_Bytes (rk_target k) else 0) + planned_bytes cs"
    by (simp add: planned_bytes_def)
  from IH [of "Suc n" fresh r] IH [of "Suc n" "Some (a, taken)" r]
    IH [of "Suc n" "Some (a, taken)" "count_tree (rk_target k) (rm (ct_Path (rk_target k))) r"]
    c [of "rm (ct_Path (rk_target k))" r] pos b
  show ?case unfolding split using f by (auto simp: Let_def)
qed (simp add: planned_bytes_def)

lemma plan_metadata_targets:
  "cp_Targets (PlanCleanup_retention cfg p v level) = map rk_target (ps_candidates (evaluate cfg p v)) @ ps_reports (evaluate cfg p v)"
  "cp_EstimatedBytesFreed (PlanCleanup_retention cfg p v level) = planned_bytes (ps_candidates (evaluate cfg p v))"
  by (simp_all add: PlanCleanup_retention_def Let_def annotateCleanupPlanTargetAccounting_def)

definition reports_only :: "ret_pass \<Rightarrow> bool" where
  "reports_only ps = list_all (\<lambda>t. ct_Action t = ''report'' \<and> ct_Protected t) (ps_reports ps)"

lemma reports_only_notes [simp]:
  "reports_only (warn w ps) = reports_only ps" "reports_only (note_metadata k x ps) = reports_only ps"
  "reports_only (add_candidate c t ps) = reports_only ps" "reports_only (report_leftover n q why b ps) = reports_only ps"
  by (simp_all add: reports_only_def warn_def note_metadata_def add_candidate_def report_leftover_def annotateCleanupTargetPolicy_def)


lemma reports_only_tmp_entries: "reports_only (snd (fst (tmp_entries cfg p v a deny r n es acc))) = reports_only (snd acc)"
proof (induction es arbitrary: n acc)
  case (Cons e es)
  obtain t ps where acc: "acc = (t, ps)" by fastforce
  have IH: "reports_only (snd (fst (case d of (tg, t') \<Rightarrow> tmp_entries cfg p v a deny r m es (t', add_candidate c tg ps)))) = reports_only ps"
    for d c m using Cons.IH by (simp split: prod.split)
  show ?case unfolding acc tmp_entries.simps Let_def using IH Cons.IH [of n "(t, ps)"] by (simp split: if_split)
qed simp

lemma reports_only_tmp: "reports_only (snd (evaluateTmpAgents cfg p v rs a deny acc)) = reports_only (snd acc)"
proof (induction rs arbitrary: acc)
  case (Cons r rs)
  obtain t ps where acc: "acc = (t, ps)" by fastforce
  show ?case
    unfolding acc using Cons reports_only_tmp_entries [of cfg p v a deny r 0 _ "(t, ps)"]
    by (auto split: sum.split prod.split bool.split) (metis fst_conv snd_conv)+
qed simp

lemma reports_only_cargo_paths: "reports_only (snd (fst (cargo_paths cfg p v a deny busy r paths acc))) = reports_only (snd acc)"
proof (induction paths arbitrary: acc)
  case (Cons path paths)
  obtain t ps where acc: "acc = (t, ps)" by fastforce
  have IH: "reports_only (snd (fst (case d of (tg, t') \<Rightarrow> cargo_paths cfg p v a deny busy r paths (t', add_candidate c tg ps)))) = reports_only ps"
    for d c using Cons.IH by (simp split: prod.split)
  show ?case unfolding acc cargo_paths.simps Let_def using IH Cons.IH [of "(t, ps)"] by (simp split: if_split option.split)
qed simp

lemma reports_only_cargo: "reports_only (snd (cargo_roots cfg p v a deny busy rs acc)) = reports_only (snd acc)"
proof (induction rs arbitrary: acc)
  case (Cons r rs)
  let ?paths = "findCargoTargetDirs v (search_depth (rc_CargoTargets (rs_retention cfg))) r"
  obtain acc' b where c: "cargo_paths cfg p v a deny busy r ?paths acc = (acc', b)" by fastforce
  with reports_only_cargo_paths [of cfg p v a deny busy r ?paths acc] Cons show ?case by (cases b) simp_all
qed simp

lemma reports_only_rules: "reports_only (evaluate_rules cfg p v ts cs ps) = reports_only ps"
proof -
  have busy: "reports_only (snd (apsnd (note_metadata k x) acc)) = reports_only (snd acc)" for k x and acc :: "git_tracker \<times> ret_pass"
    by (simp add: apsnd_def map_prod_def split: prod.split)
  show ?thesis
    by (simp add: evaluate_rules_def evaluateCargoTargets_def Let_def reports_only_cargo reports_only_tmp busy)
qed

lemma reports_only_floors: "reports_only (evaluateFloors cfg p v roots ps) = reports_only ps"
proof -
  have alert: "reports_only (ps\<lparr>ps_alerts := as\<rparr>) = reports_only ps" for as ps by (simp add: reports_only_def)
  have one: "reports_only (check_floor fc v q ps) = reports_only ps" for fc v q ps
    by (simp add: check_floor_def Let_def alert split: usage_answer.split)
  have "reports_only (check_floors fc p v seen raws ps) = reports_only ps" for fc p v seen raws ps
    by (induction fc p v seen raws ps rule: check_floors.induct) (simp_all add: one Let_def)
  then show ?thesis by (simp add: evaluateFloors_def Let_def)
qed

lemma reports_only_leftovers: "reports_only (evaluateDarwinLeftovers cfg p v ps) = reports_only ps"
proof -
  have one: "reports_only (report_path v q ps) = reports_only ps" for q ps by (simp add: report_path_def split: option.split)
  have rest: "reports_only (fold (report_path v) qs ps) = reports_only ps" for qs ps
    by (induction qs arbitrary: ps) (simp_all add: one)
  have builds: "reports_only (fst (fusion_builds v r current n es ps)) = reports_only ps" for r current n es ps
    by (induction v r current n es ps rule: fusion_builds.induct) (simp_all add: Let_def)
  show ?thesis
    using builds [of "ExpandUserPath (dl_FusionWebdeployRoot (rc_DarwinLeftovers (rs_retention cfg))) (rp_home p) (rp_user p) (rp_env_user p)"]
    by (auto simp: evaluateDarwinLeftovers_def Let_def rest split: sum.splits io_error.splits prod.splits option.splits)
      (metis reports_only_notes(2) fst_conv)+
qed

lemma evaluate_reports_only: "reports_only (evaluate cfg p v)"
proof -
  have none: "reports_only empty_pass" by (simp add: reports_only_def empty_pass_def)
  have missing: "reports_only (note_missing key ms ps) = reports_only ps" for key ms ps
    unfolding note_missing_def by (induction ms arbitrary: ps) simp_all
  have summary: "reports_only (summarize ps) = reports_only ps" for ps
    by (simp add: summarize_def summarize_rule_def Let_def)
  show ?thesis
    by (auto simp: evaluate_def Let_def none missing summary reports_only_leftovers reports_only_floors reports_only_rules
        split: option.split prod.split)
qed

text \<open>C33: a cleanup follows its plan.  The trees it removes are among those its plan marks for deletion, in the
  plan's order, and it never claims to have freed more than the plan estimates.\<close>

theorem retention_follows_plan:
  assumes "list_all (\<lambda>k. 0 \<le> ct_Bytes (rk_target k)) (ps_candidates (evaluate cfg p v))"
  shows "subseq (map (\<lambda>x. rt_path (rm_tree x)) (snd (fst (Cleanup_retention cfg p now v views attempt again level lastRun))))
      (map ct_Path (filter (\<lambda>t. ct_Action t = ''delete'') (cp_Targets (PlanCleanup_retention cfg p v lv))))
    \<and> cr_BytesFreed (fst (fst (Cleanup_retention cfg p now v views attempt again level lastRun)))
      \<le> cp_EstimatedBytesFreed (PlanCleanup_retention cfg p v lv)"
proof -
  let ?cs = "ps_candidates (evaluate cfg p v)" and ?rm = "remove_tree attempt again"
  note bytes = assms
  then have pos: "0 \<le> planned_bytes ?cs" by (rule planned_bytes_nonneg)
  have "filter (\<lambda>t. ct_Action t = ''delete'') (ps_reports (evaluate cfg p v)) = []"
    using evaluate_reports_only [of cfg p v] by (auto simp: reports_only_def list_all_iff filter_empty_conv)
  then have plan: "map ct_Path (filter (\<lambda>t. ct_Action t = ''delete'') (cp_Targets (PlanCleanup_retention cfg p v lv)))
      = map (\<lambda>k. ct_Path (rk_target k)) (filter (\<lambda>k. ct_Action (rk_target k) = ''delete'') ?cs)"
    by (simp add: plan_metadata_targets filter_map comp_def)
  have "map (\<lambda>k. ct_Path (rk_target k)) (filter P ?cs) = map rt_path (map rk_tree (filter P ?cs))" for P
    using evaluate_scope [of cfg p v] by (auto simp: list_all_iff candidate_in_scope_def)
  note paths = plan [unfolded this]
  note order = subseq_map [OF removal_order [of cfg p views ?rm 0 None ?cs], of rt_path]
  let ?r = "\<lparr>cr_Plugin = ''retention'', cr_Level = level, cr_BytesFreed = 0, cr_EstimatedBytesFreed = 0,
               cr_CommandBytesFreed = 0, cr_HostBytesFreed = 0, cr_ItemsCleaned = 0, cr_Error = None\<rparr>"
  consider "fst (Cleanup_retention cfg p now v views attempt again level lastRun) = (?r, [])"
    | "fst (Cleanup_retention cfg p now v views attempt again level lastRun) = remove_stale cfg p views ?rm 0 None ?cs ?r"
    by (rule cleanup_cases)
  then show ?thesis
  proof cases
    case 1
    with pos show ?thesis by (simp add: plan_metadata_targets)
  next
    case 2
    from removal_bytes [OF bytes, of cfg p views ?rm 0 None ?r] order [of ?r] show ?thesis
      unfolding 2 paths plan_metadata_targets(2) by (simp add: comp_def)
  qed
qed

subsection \<open>A pass over two roots\<close>

definition two_roots :: ret_settings where
  "two_roots =
     \<lparr>rs_retention = (DefaultRetentionConfig False [])
        \<lparr>rc_TmpAgents := (rc_TmpAgents (DefaultRetentionConfig False []))\<lparr>ta_Roots := [''/a'', ''/b''], ta_Delete := True\<rparr>,
         rc_CargoTargets := (rc_CargoTargets (DefaultRetentionConfig False []))\<lparr>cg_Enabled := False\<rparr>,
         rc_FreeSpaceFloor := \<lparr>ff_Enabled = False, ff_FloorGiB = 10, ff_Paths = []\<rparr>\<rparr>,
      rs_extra = [], rs_protect = [], rs_mounts = []\<rparr>"

definition demo_ret_plugin :: ret_plugin where
  "demo_ret_plugin =
     \<lparr>rp_uid = 7, rp_home = [], rp_user = ''u'', rp_env_user = [], rp_tmpdir = [], rp_lsof = [], rp_darwin = False\<rparr>"

definition shells :: session_env where
  "shells =
     \<lparr>se_tree = (\<lambda>p. if p = ''/a/nix-shell.1'' then Some (demo_stat Directory 5)
                     else if p = ''/b/nix-shell.2'' then Some (demo_stat Directory 6) else None),
      se_names = (\<lambda>d. []), se_walk = (\<lambda>p. [demo_entry p Directory 5]), se_resolve = (\<lambda>p. Resolved p)\<rparr>"

text \<open>A process that works in \<open>/b/nix-shell.2\<close>.\<close>

definition shell_process :: proc_view where
  "shell_process =
     \<lparr>pv_name = ''42'', pv_cmdline = [], pv_cwd = Some ''/b/nix-shell.2'', pv_root = None, pv_fds = Inr [],
      pv_owner = Some 7, pv_stat = None, pv_environ = Inr [], pv_maps = []\<rparr>"

definition shells_view :: "(proc_view \<times> bool) list \<Rightarrow> ret_view" where
  "shells_view procs =
     \<lparr>rv_session = shells, rv_clock = (\<lambda>p. (200 * hour, 200 * hour)), rv_now = 200 * hour,
      rv_git = \<lparr>gv_available = False, gv_stat = (\<lambda>p. None), gv_lsFiles = (\<lambda>p. None), gv_insideWorkTree = (\<lambda>p. None),
                gv_status = (\<lambda>p. None), gv_upstream = (\<lambda>p. None), gv_ahead = (\<lambda>p. None)\<rparr>,
      rv_scan = (\<lambda>opts. bbScanProc opts 9 7 ''/proc'' (Inr procs) ([], None, False)),
      rv_isDir = (\<lambda>p. True),
      rv_readDir = (\<lambda>d. Inr (if d = ''/a'' then [(''nix-shell.1'', Directory, Some (demo_stat Directory 5))]
                             else if d = ''/b'' then [(''nix-shell.2'', Directory, Some (demo_stat Directory 6))] else [])),
      rv_readFile = (\<lambda>p. None), rv_usage = (\<lambda>p. UsageMissing), rv_sized = (\<lambda>p. ([], False)), rv_done = (\<lambda>p. False),
      rv_age_now = 200 * hour, rv_scanned_at = 200 * hour\<rparr>"


definition shell_tree :: "path \<Rightarrow> path \<Rightarrow> int \<Rightarrow> ret_tree" where
  "shell_tree root_path path ino =
     \<lparr>rt_rule = TmpAgents, rt_root = root_path, rt_path = path, rt_info = demo_stat Directory ino, rt_maxAge = 24 * hour\<rparr>"

definition later :: ret_view where "later = shells_view [(shell_process, False)]"

definition inventory_of_a :: activity where
  "inventory_of_a = rv_scan later (activityOptions two_roots demo_ret_plugin later [''/a''])"

lemma shells_inspected:
  "map (\<lambda>k. (rk_tree k, ct_Action (rk_target k), ct_Bytes (rk_target k)))
     (ps_candidates (snd (evaluateTmpAgents two_roots demo_ret_plugin (shells_view []) [''/a'', ''/b'']
        (rv_scan (shells_view []) (activityOptions two_roots demo_ret_plugin (shells_view []) [''/a'', ''/b'']))
        (ret_deny two_roots demo_ret_plugin (shells_view [])) (newDevArtifactGitTracker (rv_git (shells_view [])), empty_pass)))) =
   [(shell_tree ''/a'' ''/a/nix-shell.1'' 5, ''delete'', 4096),
    (shell_tree ''/b'' ''/b/nix-shell.2'' 6, ''delete'', 4096)]"
  by code_simp

lemma shells_policy: "validate_retention (rs_retention two_roots) = None" by code_simp
lemma shells_roots:
  "tmp_roots two_roots demo_ret_plugin (shells_view []) = ([''/a'', ''/b''], [])"
  "cargo_target_roots two_roots demo_ret_plugin (shells_view []) = ([], [])"
proof -
  show "tmp_roots two_roots demo_ret_plugin (shells_view []) = ([''/a'', ''/b''], [])" by code_simp
  show "cargo_target_roots two_roots demo_ret_plugin (shells_view []) = ([], [])" by code_simp
qed

lemma shells_candidates:
  "map (\<lambda>k. (rk_tree k, ct_Action (rk_target k), ct_Bytes (rk_target k))) (ps_candidates (evaluate two_roots demo_ret_plugin (shells_view []))) =
   [(shell_tree ''/a'' ''/a/nix-shell.1'' 5, ''delete'', 4096),
    (shell_tree ''/b'' ''/b/nix-shell.2'' 6, ''delete'', 4096)]"
proof -
  have "note_missing key [] empty_pass = empty_pass" for key by (simp add: note_missing_def)
  then show ?thesis
    using shells_inspected by (simp add: evaluate_def shells_policy shells_roots evaluate_rules_def Let_def)
qed

lemma shells_rechecked:
  "recheck two_roots demo_ret_plugin later (shell_tree ''/a'' ''/a/nix-shell.1'' 5) inventory_of_a = []"
  "recheck two_roots demo_ret_plugin later (shell_tree ''/b'' ''/b/nix-shell.2'' 6) inventory_of_a = []"
proof -
  show "recheck two_roots demo_ret_plugin later (shell_tree ''/a'' ''/a/nix-shell.1'' 5) inventory_of_a = []" by code_simp
  show "recheck two_roots demo_ret_plugin later (shell_tree ''/b'' ''/b/nix-shell.2'' 6) inventory_of_a = []" by code_simp
qed

lemma shells_removed:
  "map (\<lambda>x. (rm_tree x, rm_view x)) (snd (fst (Cleanup_retention two_roots demo_ret_plugin (200 * hour) (shells_view [])
     (\<lambda>n. later) (\<lambda>p. None) (\<lambda>p. None) LevelNone zero_time))) =
     [(shell_tree ''/a'' ''/a/nix-shell.1'' 5, later), (shell_tree ''/b'' ''/b/nix-shell.2'' 6, later)]"
proof -
  obtain k1 k2 where k: "ps_candidates (evaluate two_roots demo_ret_plugin (shells_view [])) = [k1, k2]"
    and k1: "rk_tree k1 = shell_tree ''/a'' ''/a/nix-shell.1'' 5" "ct_Action (rk_target k1) = ''delete''"
    and k2: "rk_tree k2 = shell_tree ''/b'' ''/b/nix-shell.2'' 6" "ct_Action (rk_target k2) = ''delete''"
    using shells_candidates by (auto simp: map_eq_Cons_conv)
  have due: "due (rs_retention two_roots) (200 * hour) zero_time = (True, 200 * hour)" by (simp add: due_def)
  have ended: "rv_done later q = False" for q by (simp add: later_def shells_view_def)
  have at: "rv_scanned_at later = 200 * hour" "rv_age_now later = 200 * hour" by (simp_all add: later_def shells_view_def)
  have young: "\<not> retentionActivityMaxAge < time_sub (200 * hour) (200 * hour)" by code_simp
  have roots: "rt_root (shell_tree r q i) = r" for r q i by (simp add: shell_tree_def)
  show ?thesis
    by (simp add: Cleanup_retention_def due k k1 k2 ended fresh_activity_def inventory_of_a_def [symmetric] at young shells_rechecked roots Let_def)
qed

lemma shells_removal:
  obtains x where "x \<in> set (snd (fst (Cleanup_retention two_roots demo_ret_plugin (200 * hour) (shells_view [])
     (\<lambda>n. later) (\<lambda>p. None) (\<lambda>p. None) LevelNone zero_time)))"
    "rm_tree x = shell_tree ''/b'' ''/b/nix-shell.2'' 6" "rm_view x = later"
proof -
  have "(shell_tree ''/b'' ''/b/nix-shell.2'' 6, later) \<in> set (map (\<lambda>x. (rm_tree x, rm_view x))
     (snd (fst (Cleanup_retention two_roots demo_ret_plugin (200 * hour) (shells_view [])
       (\<lambda>n. later) (\<lambda>p. None) (\<lambda>p. None) LevelNone zero_time))))"
    unfolding shells_removed by simp
  then show thesis using that by auto
qed

lemma retention_removal_guarded_witness:
  "\<exists>x :: ret_removal. rt_path (rm_tree x) = ''/b/nix-shell.2'' \<and> may_go two_roots demo_ret_plugin (rm_view x) (rm_tree x) (rm_activity x)"
proof -
  obtain x where x: "x \<in> set (snd (fst (Cleanup_retention two_roots demo_ret_plugin (200 * hour) (shells_view [])
     (\<lambda>n. later) (\<lambda>p. None) (\<lambda>p. None) LevelNone zero_time)))"
    "rm_tree x = shell_tree ''/b'' ''/b/nix-shell.2'' 6" by (rule shells_removal)
  from retention_removal_guarded [OF x(1)]
  have "may_go two_roots demo_ret_plugin (rm_view x) (rm_tree x) (rm_activity x)" by blast
  moreover have "rt_path (rm_tree x) = ''/b/nix-shell.2''" unfolding x(2) by (simp add: shell_tree_def)
  ultimately show ?thesis by blast
qed

subsection \<open>What an inventory of one root can see\<close>

text \<open>A tree neither below nor above any of the watched directories.\<close>

definition unrelated :: "path \<Rightarrow> path list \<Rightarrow> bool" where
  "unrelated t inside = (\<forall>i\<in>set inside. clean_abs i \<and> \<not> bbUnder t i \<and> \<not> bbUnder i t)"

lemma unrelated_not_covered:
  assumes "clean_abs t" "inside \<noteq> []" "unrelated t inside"
  shows "\<not> covers inside path t"
proof
  assume c: "covers inside path t"
  then obtain i where i: "i \<in> set inside" "bbUnder (ref_path path) i" "bbUnder (ref_path path) t"
    using assms(2) by (auto simp: covers_def list_ex_iff)
  have cr: "clean_abs (ref_path path)" using c by (rule clean_abs_ref)
  have ci: "clean_abs i" "\<not> bbUnder t i" "\<not> bbUnder i t" using assms(3) i(1) by (auto simp: unrelated_def)
  have "prefix (clean_elements i) (clean_elements (ref_path path))" "prefix (clean_elements t) (clean_elements (ref_path path))"
    using i(2,3) bbUnder_iff [OF cr ci(1)] bbUnder_iff [OF cr assms(1)] by simp_all
  then have "prefix (clean_elements i) (clean_elements t) \<or> prefix (clean_elements t) (clean_elements i)"
    using prefix_same_cases by blast
  then show False using ci bbUnder_iff [OF assms(1) ci(1)] bbUnder_iff [OF ci(1) assms(1)] by blast
qed

text \<open>A well-formed index that holds nothing at the tree.\<close>

definition blind :: "path \<Rightarrow> activity \<Rightarrow> bool" where
  "blind t a = (up_closed (ac_held a) \<and> tbl_get (ac_held a) t = None)"

lemma blind_hold:
  assumes "\<And>path. \<not> covers inside path t" "up_closed held" "tbl_get held t = None"
  shows "up_closed (hold_ref inside path why held) \<and> tbl_get (hold_ref inside path why held) t = None"
  using assms hold_ref_closed hold_ref_get by simp

lemma blind_index_all:
  assumes "\<And>path. \<not> covers inside path t"
  shows "up_closed held \<Longrightarrow> tbl_get held t = None \<Longrightarrow>
    up_closed (index_all inside refs held) \<and> tbl_get (index_all inside refs held) t = None"
proof (induction refs arbitrary: held)
  case (Cons r refs)
  obtain path why where r: "r = (path, why)" by force
  note step = blind_hold [OF assms Cons.prems, of path why]
  have "index_all inside (r # refs) held = index_all inside refs (hold_ref inside path why held)" by (simp add: index_all_def r)
  with Cons.IH step show ?case by simp
qed simp

lemma blind_process:
  assumes "\<And>path. \<not> covers (ao_within opts) path t" "blind t a"
  shows "blind t (scan_process opts uid v pid a)"
  using blind_index_all [OF assms(1)] assms(2) unfolding blind_def held_scan_process by simp

lemma blind_scan_entries:
  assumes "\<And>path. \<not> covers (ao_within opts) path t"
  shows "blind t a \<Longrightarrow> blind t (fst (scan_entries opts self uid vs a))"
proof (induction vs arbitrary: a)
  case (Cons e vs)
  obtain v cancelled where e: "e = (v, cancelled)" by fastforce
  obtain pid ok where pid: "parse_int64 (pv_name v) = (pid, ok)" by fastforce
  show ?case
  proof (cases cancelled)
    case True
    then show ?thesis using Cons.prems by (simp add: e blind_def)
  next
    case False
    then show ?thesis using Cons.IH Cons.prems blind_process [OF assms] by (simp add: e pid)
  qed
qed simp

lemma blind_lsof:
  assumes "\<And>path. \<not> covers (ao_within opts) path t" "blind t a"
  shows "blind t (bbLsofIndex opts self answer a)"
proof -
  have ref: "blind t b \<Longrightarrow> blind t (index_ref path why (ao_within opts) b)" for path why b
    using blind_hold [OF assms(1)] by (simp add: blind_def index_ref_def)
  have lines: "blind t b \<Longrightarrow> blind t (lsof_lines opts s skip ls b)" for s skip ls b
    by (induction ls arbitrary: skip b) (simp_all add: ref)
  show ?thesis using assms(2) lines by (simp add: bbLsofIndex_def blind_def split: prod.split)
qed

lemma scan_blind:
  assumes "clean_abs t" "ao_within opts \<noteq> []" "unrelated t (ao_within opts)"
  shows "blind t (bbScanProc opts self uid procRoot entries answer)"
proof -
  have c: "\<not> covers (ao_within opts) path t" for path by (rule unrelated_not_covered [OF assms])
  have start: "blind t newBBActivity" "blind t (newBBActivity\<lparr>ac_incomplete := e\<rparr>)" for e by (simp_all add: blind_def newBBActivity_def)
  show ?thesis
  proof (cases entries)
    case (Inr vs)
    obtain b stopped where b: "scan_entries opts self uid vs newBBActivity = (b, stopped)" by fastforce
    have "blind t b" using blind_scan_entries [OF c start(1), of self uid vs] by (simp add: b)
    then show ?thesis using blind_lsof [OF c] by (simp add: bbScanProc_def Inr b)
  qed (simp add: bbScanProc_def start)
qed

text \<open>C32: the fresh inventory of a cleanup sees only the root it was taken for, but it decides on the candidates of every
  root.  Taken within a root, by a scan of \<open>/proc\<close> (and \<open>lsof\<close>) whatever the processes hold, it records no reference to a
  tree that is neither below nor above that root (roots clean and absolute, as written and resolved; the tree its own
  resolution), so that for such a tree only the command lines of processes are left as live references; and this
  inventory is the one the candidates of any other root are rechecked against until it is more than thirty seconds old.\<close>

theorem inventory_misses_other_roots:
  assumes "\<And>opts. rv_scan v opts = bbScanProc opts self uid procRoot entries answer"
    and "a = rv_scan v (activityOptions cfg p v [r])"
    and "clean_abs t" "unrelated t [r, resolvedOrSelf (se_resolve (rv_session v)) r]"
    and "resolvedOrSelf resolve t = t"
    and "time_sub (rv_age_now w) (rv_scanned_at v) \<le> retentionActivityMaxAge"
  shows "fresh_activity cfg p w other (Some (a, rv_scanned_at v)) = (a, rv_scanned_at v)
    \<and> tbl_get (ac_held a) t = None
    \<and> blockers resolve a t = (case first_some (proc_blocker resolve t) (ac_procs a) of None \<Rightarrow> [] | Some why \<Rightarrow> [why])"
proof -
  let ?opts = "activityOptions cfg p v [r]"
  have inside: "set (ao_within ?opts) = {r, resolvedOrSelf (se_resolve (rv_session v)) r}"
    by (auto simp: activityOptions_def)
  then have "ao_within ?opts \<noteq> []" by force
  moreover have "unrelated t (ao_within ?opts)" using assms(4) unfolding unrelated_def inside by simp
  ultimately have "blind t a" unfolding assms(2) assms(1) by (rule scan_blind [OF assms(3)])
  then have none: "tbl_get (ac_held a) t = None" by (simp add: blind_def)
  have "set (uniquePaths [clean_path t, resolvedOrSelf resolve t]) = {t}" using assms(3,5) by (simp add: clean_abs_def)
  then have "List.map_filter (tbl_get (ac_held a)) (uniquePaths [clean_path t, resolvedOrSelf resolve t]) = []"
    using none by (auto simp: List.map_filter_def filter_empty_conv)
  then show ?thesis using none assms(6) by (simp add: blockers_def fresh_activity_def Let_def)
qed

text \<open>With two roots, a tree that a process has its working directory in is so removed, although nothing changed since the
  inventory was taken and an inventory of its own root shows the process.\<close>

lemma tree_removed_in_use:
  "\<exists>x. x \<in> set (snd (fst (Cleanup_retention two_roots demo_ret_plugin (200 * hour) (shells_view [])
       (\<lambda>n. later) (\<lambda>p. None) (\<lambda>p. None) LevelNone zero_time)))
     \<and> rm_view x = later
     \<and> blockers (se_resolve (rv_session later))
         (rv_scan later (activityOptions two_roots demo_ret_plugin later [rt_root (rm_tree x)])) (rt_path (rm_tree x)) \<noteq> []"
proof -
  have live: "blockers (se_resolve (rv_session later))
      (rv_scan later (activityOptions two_roots demo_ret_plugin later [''/b''])) ''/b/nix-shell.2'' \<noteq> []" by code_simp
  obtain x where x: "x \<in> set (snd (fst (Cleanup_retention two_roots demo_ret_plugin (200 * hour) (shells_view [])
     (\<lambda>n. later) (\<lambda>p. None) (\<lambda>p. None) LevelNone zero_time)))"
    "rm_tree x = shell_tree ''/b'' ''/b/nix-shell.2'' 6" "rm_view x = later" by (rule shells_removal)
  have "rt_root (rm_tree x) = ''/b''" "rt_path (rm_tree x) = ''/b/nix-shell.2''" unfolding x(2) by (simp_all add: shell_tree_def)
  with x(1,3) live show ?thesis by (intro exI [of _ x]) (simp only: refl simp_thms not_False_eq_True)
qed

theorem inventory_misses_other_roots_witness:
  "fresh_activity two_roots demo_ret_plugin later ''/b'' (Some (inventory_of_a, rv_scanned_at later)) = (inventory_of_a, rv_scanned_at later)
   \<and> blockers (se_resolve (rv_session later)) inventory_of_a ''/b/nix-shell.2'' = []
   \<and> (\<exists>x. x \<in> set (snd (fst (Cleanup_retention two_roots demo_ret_plugin (200 * hour) (shells_view [])
       (\<lambda>n. later) (\<lambda>p. None) (\<lambda>p. None) LevelNone zero_time)))
     \<and> rm_view x = later
     \<and> blockers (se_resolve (rv_session later))
         (rv_scan later (activityOptions two_roots demo_ret_plugin later [rt_root (rm_tree x)])) (rt_path (rm_tree x)) \<noteq> [])"
proof -
  have scan: "rv_scan later opts = bbScanProc opts 9 7 ''/proc'' (Inr [(shell_process, False)]) ([], None, False)" for opts
    by (simp add: later_def shells_view_def)
  have t: "clean_abs ''/b/nix-shell.2''"
    "unrelated ''/b/nix-shell.2'' [''/a'', resolvedOrSelf (se_resolve (rv_session later)) ''/a'']"
    "resolvedOrSelf (se_resolve (rv_session later)) ''/b/nix-shell.2'' = ''/b/nix-shell.2''"
    "time_sub (rv_age_now later) (rv_scanned_at later) \<le> retentionActivityMaxAge"
    by code_simp+
  have command_lines: "first_some (proc_blocker (se_resolve (rv_session later)) ''/b/nix-shell.2'') (ac_procs inventory_of_a) = None"
    by code_simp
  from inventory_misses_other_roots [OF scan inventory_of_a_def t, of "''/b''"] tree_removed_in_use command_lines
  show ?thesis by (simp only: option.case simp_thms)
qed

lemma retention_follows_plan_witness:
  "subseq [''/a/nix-shell.1'', ''/b/nix-shell.2'']
     (map ct_Path (filter (\<lambda>t. ct_Action t = ''delete'') (cp_Targets (PlanCleanup_retention two_roots demo_ret_plugin (shells_view []) LevelNone))))"
proof -
  have "list_all (\<lambda>k. 0 \<le> ct_Bytes (rk_target k)) (ps_candidates (evaluate two_roots demo_ret_plugin (shells_view [])))"
    using shells_candidates by (auto simp: map_eq_Cons_conv)
  from retention_follows_plan [OF this, of "200 * hour" "\<lambda>n. later" "\<lambda>p. None" "\<lambda>p. None" LevelNone zero_time LevelNone]
  have "subseq (map rt_path (map fst [(shell_tree ''/a'' ''/a/nix-shell.1'' 5, later), (shell_tree ''/b'' ''/b/nix-shell.2'' 6, later)]))
    (map ct_Path (filter (\<lambda>t. ct_Action t = ''delete'') (cp_Targets (PlanCleanup_retention two_roots demo_ret_plugin (shells_view []) LevelNone))))"
    unfolding shells_removed [symmetric] by (simp add: comp_def)
  then show ?thesis by (simp add: shell_tree_def)
qed

subsection \<open>Passes keep their distance\<close>

record ret_call =
  rq_now :: instant
  rq_view :: ret_view
  rq_views :: "nat \<Rightarrow> ret_view"
  rq_attempt :: "path \<Rightarrow> string option"
  rq_again :: "path \<Rightarrow> string option"
  rq_level :: cleanup_level

definition call :: "ret_settings \<Rightarrow> ret_plugin \<Rightarrow> ret_call \<Rightarrow> instant \<Rightarrow> (cleanup_result \<times> ret_removal list) \<times> instant" where
  "call cfg p i lastRun =
     Cleanup_retention cfg p (rq_now i) (rq_view i) (rq_views i) (rq_attempt i) (rq_again i) (rq_level i) lastRun"

text \<open>A call that runs a pass does so at its reading of the clock.\<close>

definition ret_pass_at :: "ret_settings \<Rightarrow> ret_plugin \<Rightarrow> ret_call \<Rightarrow> instant \<Rightarrow> (instant \<times> instant) option" where
  "ret_pass_at cfg p i lastRun =
     (if fst (due (rs_retention cfg) (rq_now i) lastRun) then Some (rq_now i, rq_now i) else None)"

definition ret_mark :: "instant \<Rightarrow> instant option" where
  "ret_mark lastRun = (if lastRun = zero_time then None else Some lastRun)"

lemma call_simps:
  "snd (call cfg p i lastRun) = snd (due (rs_retention cfg) (rq_now i) lastRun)"
  "ret_pass_at cfg p i lastRun = None \<Longrightarrow> snd (fst (call cfg p i lastRun)) = []"
  by (simp_all add: call_def Cleanup_retention_def ret_pass_at_def Let_def split: prod.split bool.split if_splits) auto

interpretation ret_rate: rate_limited
  "\<lambda>i. rq_now i \<noteq> zero_time \<and> 0 < retention_interval (rs_retention cfg)" "retention_interval (rs_retention cfg)"
  ret_mark "ret_pass_at cfg p" "\<lambda>i s. snd (call cfg p i s)"
  for cfg :: ret_settings and p :: ret_plugin
proof
  fix i :: ret_call and s b e m :: instant
  assume ok: "rq_now i \<noteq> zero_time \<and> 0 < retention_interval (rs_retention cfg)" and a: "ret_pass_at cfg p i s = Some (b, e)"
  then have at: "fst (due (rs_retention cfg) (rq_now i) s)" "b = rq_now i" "e = rq_now i"
    by (auto simp: ret_pass_at_def split: if_splits)
  show "b \<le> e \<and> ret_mark (snd (call cfg p i s)) = Some e"
    using at ok by (auto simp: call_simps ret_mark_def due_def split: if_splits)
  assume "ret_mark s = Some m"
  then have "m = s" "s \<noteq> zero_time" by (auto simp: ret_mark_def split: if_splits)
  with at ok have "retention_interval (rs_retention cfg) \<le> time_sub b m" by (auto simp: due_def split: if_splits)
  with ok show "m + retention_interval (rs_retention cfg) \<le> b"
    by (auto simp: time_sub_def max_i64_def min_i64_def split: if_splits)
next
  fix i :: ret_call and s :: instant
  assume "ret_pass_at cfg p i s = None"
  then show "ret_mark (snd (call cfg p i s)) = ret_mark s"
    by (auto simp: ret_pass_at_def call_simps due_def split: if_splits)
qed

text \<open>Two retention passes are never closer than \<open>retention.interval\<close>: over any run of calls, a pass that is run
  starts at least that interval after every earlier one, and a call that runs none removes nothing.\<close>

theorem retention_passes_spaced:
  assumes "list_all (\<lambda>i. rq_now i \<noteq> zero_time) is" "retention_interval (rs_retention cfg) = gap" "0 < gap"
  shows "sorted_wrt (\<lambda>(b, e) (b', e'). e + gap \<le> b') (run_attempts (ret_pass_at cfg p) (\<lambda>i s. snd (call cfg p i s)) is lastRun)
    \<and> (ret_pass_at cfg p i s = None \<longrightarrow> snd (fst (call cfg p i s)) = [])"
  using ret_rate.attempts_spaced [of cfg "is" p lastRun] assms call_simps(2) by (simp add: list_all_iff)

definition demo_call :: "instant \<Rightarrow> ret_call" where
  "demo_call t = \<lparr>rq_now = t, rq_view = later, rq_views = (\<lambda>n. later), rq_attempt = (\<lambda>p. None), rq_again = (\<lambda>p. None), rq_level = LevelNone\<rparr>"

lemma retention_passes_spaced_witness:
  "sorted_wrt (\<lambda>(b, e) (b', e'). e + hour \<le> b') (run_attempts (ret_pass_at two_roots demo_ret_plugin)
     (\<lambda>i s. snd (call two_roots demo_ret_plugin i s)) [demo_call 0, demo_call (10 * minute), demo_call (61 * minute)] zero_time)
   \<and> snd (fst (call two_roots demo_ret_plugin (demo_call (10 * minute)) 0)) = []"
proof -
  have gap: "retention_interval (rs_retention two_roots) = hour" by code_simp
  have run: "list_all (\<lambda>i. rq_now i \<noteq> zero_time) [demo_call 0, demo_call (10 * minute), demo_call (61 * minute)]"
    by (simp add: demo_call_def zero_time_def duration_units)
  have none: "ret_pass_at two_roots demo_ret_plugin (demo_call (10 * minute)) 0 = None"
    unfolding ret_pass_at_def due_def gap by (simp add: demo_call_def zero_time_def time_sub_def duration_units max_i64_def min_i64_def)
  from retention_passes_spaced [OF run gap, of demo_ret_plugin zero_time "demo_call (10 * minute)" 0] none
  show ?thesis by (simp add: duration_units)
qed

subsection \<open>The search for build directories\<close>

text \<open>C34: the search finds exactly the build directories at most \<open>depth\<close> levels below a root, never entering a
  build directory, a symlink, a \<open>.git\<close> directory or one that cannot be read, and every path it gives is clean and
  absolute.\<close>

theorem cargo_targets_found:
  assumes "is_abs dir"
  shows "set (findCargoTargetDirs v depth dir) = {q. \<exists>n\<le>depth. target_below v dir n q}
    \<and> list_all clean_abs (findCargoTargetDirs v depth dir)"
  using find_sound find_complete target_below_clean assms by (fastforce simp: list_all_iff)

definition build_view :: ret_view where
  "build_view = (shells_view [])
     \<lparr>rv_session := shells\<lparr>se_tree := (\<lambda>p. if p = ''/c/p/t/CACHEDIR.TAG'' then Some (demo_stat Regular 9) else None)\<rparr>,
      rv_readDir := (\<lambda>d. Inr (if d = ''/c'' then [(''p'', Directory, None), (''t'', Symlink, None)]
                              else if d = ''/c/p'' then [(''.git'', Directory, None), (''t'', Directory, None)] else []))\<rparr>"

lemma cargo_targets_found_witness: "{q. \<exists>n\<le>2. target_below build_view ''/c'' n q} = {''/c/p/t''}"
proof -
  have "is_abs ''/c''" by (simp add: is_abs_def)
  from cargo_targets_found [OF this, of build_view 2]
  have "{q. \<exists>n\<le>2. target_below build_view ''/c'' n q} = set (findCargoTargetDirs build_view 2 ''/c'')" by simp
  moreover have "findCargoTargetDirs build_view (Suc (Suc 0)) ''/c'' = [''/c/p/t'']" by code_simp
  ultimately show ?thesis by (simp add: numeral_2_eq_2)
qed

end
