(* ===== verification/Nix_Processes.thy ===== *)
theory Nix_Processes
  imports Nix_GC Git_Custody
begin

text \<open>
  The inspection of running Nix work, \<open>plugins/nix.go\<close> with its readers of \<open>/proc\<close>
  (\<open>plugins/nix_process_argv_linux.go\<close>): the process table, the candidates in it, and which of them is work a
  collection waits for.  Its result is what the busy gate decides on.  The table, the arguments and the user of a
  process are observations of one inspection.
\<close>

subsection \<open>Names and users\<close>

type_synonym uid32 = "32 word"

definition parseNixPSUID :: "string \<Rightarrow> uid32 option" where
  "parseNixPSUID raw =
     (case parse_int64 raw of
        (n, ok) \<Rightarrow>
          if \<not> ok then None
          else if 0 \<le> n \<and> n \<le> 2 ^ 32 - 1 then Some (word_of_int n)
          else if n < 0 \<and> - (2 ^ 31) \<le> n then Some (word_of_int (n + 2 ^ 32)) else None)"

text \<open>\<open>strconv.ParseUint(s, 10, 32)\<close>.\<close>

definition parse_uint32 :: "string \<Rightarrow> uid32 option" where
  "parse_uint32 s =
     (if s = [] \<or> \<not> list_all is_digit s \<or> 2 ^ 32 - 1 < digits_value s then None else Some (word_of_int (digits_value s)))"

datatype status_error = BadUidLine string | BadUid string | NoUidLine

fun status_uid :: "string list \<Rightarrow> status_error + uid32" where
  "status_uid [] = Inl NoUidLine"
| "status_uid (line # rest) =
     (if \<not> prefix ''Uid:'' line then status_uid rest
      else case text_fields (drop 4 line) of
             _ # euid # _ \<Rightarrow> (case parse_uint32 euid of None \<Rightarrow> Inl (BadUid line) | Some u \<Rightarrow> Inr u)
           | _ \<Rightarrow> Inl (BadUidLine line))"

definition parseNixProcStatusUID :: "string \<Rightarrow> status_error + uid32" where
  "parseNixProcStatusUID raw = status_uid (split_on CHR 0x0A raw)"

definition busy_clients :: "string list" where
  "busy_clients =
     [''nix'', ''nix-store'', ''nix-build'', ''nix-shell'', ''nix-instantiate'', ''nix-collect-garbage'', ''nix-env'',
      ''nix-prefetch-url'', ''nix-copy-closure'', ''nix-channel'', ''home-manager'', ''darwin-rebuild'', ''nixos-rebuild'',
      ''nix-daemon'']"

text \<open>The client a name stands for, empty when it is none.\<close>

definition nixBusyProcessCommandName :: "string \<Rightarrow> string" where
  "nixBusyProcessCommandName raw =
     (let name = to_lower (path_base (trim_quotes raw))
      in if name \<in> set busy_clients then name
         else if name = ''nix-collect-gar'' then ''nix-collect-garbage''
         else if name = ''nix-prefetch-ur'' then ''nix-prefetch-url''
         else if name = ''nix-copy-closur'' then ''nix-copy-closure''
         else [])"

definition shell_names :: "string list" where "shell_names = [''sh'', ''bash'', ''dash'', ''zsh'', ''ksh'']"
definition python_names :: "string list" where "python_names = [''python'', ''python2'', ''python3'']"

definition nixProcessInterpreterName :: "string \<Rightarrow> string" where
  "nixProcessInterpreterName raw =
     (let name = trim_prefix (to_lower (path_base raw)) ''-''
      in if name \<in> set (shell_names @ [''perl''] @ python_names) then name else [])"

definition nixProcessNixPrefixedName :: "string \<Rightarrow> bool" where
  "nixProcessNixPrefixedName raw = prefix ''nix'' (to_lower (path_base (trim_space raw)))"

definition nixProcessCandidateName :: "string \<Rightarrow> bool" where
  "nixProcessCandidateName raw =
     (nixBusyProcessCommandName raw \<noteq> [] \<or> nixProcessInterpreterName raw \<noteq> [] \<or> nixProcessNixPrefixedName raw)"

subsection \<open>Scripts of an interpreter\<close>

fun python_payload :: "string \<Rightarrow> bool" where
  "python_payload [] = False"
| "python_payload (c # cs) =
     (if c = CHR ''c'' \<or> c = CHR ''m'' then True else if c = CHR ''W'' \<or> c = CHR ''X'' then False else python_payload cs)"

fun python_value :: "string \<Rightarrow> bool" where
  "python_value [] = False"
| "python_value (c # cs) =
     (if c = CHR ''c'' \<or> c = CHR ''m'' then False else if c = CHR ''W'' \<or> c = CHR ''X'' then cs = [] else python_value cs)"

definition short_option :: "string \<Rightarrow> bool" where
  "short_option raw = (prefix ''-'' raw \<and> \<not> prefix ''--'' raw)"

definition nixPythonCommandPayloadOption :: "string \<Rightarrow> bool" where
  "nixPythonCommandPayloadOption raw = (2 \<le> length raw \<and> short_option raw \<and> python_payload (tl raw))"

definition nixPythonOptionTakesValue :: "string \<Rightarrow> bool" where
  "nixPythonOptionTakesValue raw = (2 \<le> length raw \<and> short_option raw \<and> python_value (tl raw))"

definition nixInterpreterCommandPayloadOption :: "string \<Rightarrow> string \<Rightarrow> bool" where
  "nixInterpreterCommandPayloadOption interpreter raw =
     (let opt = to_lower raw
      in if interpreter \<in> set shell_names
         then opt = ''--command'' \<or> (short_option opt \<and> (CHR ''c'' \<in> set (tl opt) \<or> CHR ''s'' \<in> set (tl opt)))
         else if interpreter \<in> set python_names then nixPythonCommandPayloadOption raw
         else if interpreter = ''perl'' then short_option raw \<and> (CHR ''e'' \<in> set (tl raw) \<or> CHR ''E'' \<in> set (tl raw))
         else False)"

definition nixInterpreterOptionTakesValue :: "string \<Rightarrow> string \<Rightarrow> bool" where
  "nixInterpreterOptionTakesValue interpreter raw =
     (let opt = to_lower raw
      in if interpreter \<in> set shell_names
         then raw \<in> {''-o'', ''+o'', ''-O'', ''+O''} \<or> opt \<in> {''--rcfile'', ''--init-file'', ''--startup-file''}
         else if interpreter \<in> set python_names then nixPythonOptionTakesValue raw \<or> opt = ''--check-hash-based-pycs''
         else if interpreter = ''perl'' then raw \<in> {''-I'', ''-M'', ''-m''}
         else False)"

definition nixNormalizedProcessArgs :: "string list \<Rightarrow> string list" where "nixNormalizedProcessArgs = map to_lower"

definition nixInterpreterScriptAt :: "string \<Rightarrow> string list \<Rightarrow> (string \<times> string list) option" where
  "nixInterpreterScriptAt script rest =
     (let command = nixBusyProcessCommandName script
      in if command = [] then None else Some (command, nixNormalizedProcessArgs rest))"

fun nixInterpreterScriptProcess :: "string \<Rightarrow> string list \<Rightarrow> (string \<times> string list) option" where
  "nixInterpreterScriptProcess i [] = None"
| "nixInterpreterScriptProcess i (arg # rest) =
     (if arg = ''--'' then (case rest of [] \<Rightarrow> None | script # others \<Rightarrow> nixInterpreterScriptAt script others)
      else if arg = ''-'' \<or> nixInterpreterCommandPayloadOption i arg then None
      else if prefix ''-'' arg \<or> prefix ''+'' arg
      then (if nixInterpreterOptionTakesValue i arg
            then (case rest of [] \<Rightarrow> None | _ # others \<Rightarrow> nixInterpreterScriptProcess i others)
            else nixInterpreterScriptProcess i rest)
      else nixInterpreterScriptAt arg rest)"

subsection \<open>Work of a client\<close>

definition nixHasArg :: "string list \<Rightarrow> string \<Rightarrow> bool" where "nixHasArg args want = (want \<in> set args)"

definition nixFirstWord :: "string list \<Rightarrow> string list \<Rightarrow> string" where
  "nixFirstWord args words = (case find (\<lambda>a. a \<in> set words) args of None \<Rightarrow> [] | Some a \<Rightarrow> a)"

definition nixLegacyOperation :: "string list \<Rightarrow> (string \<times> string) list \<Rightarrow> string" where
  "nixLegacyOperation args operations =
     (case first_some (\<lambda>arg.
             case map_of operations arg of
               Some op \<Rightarrow> Some op
             | None \<Rightarrow> if 2 < length arg \<and> short_option arg then map_of operations (take 2 arg) else None) args of
        None \<Rightarrow> [] | Some op \<Rightarrow> op)"

definition nixHomeManagerBusy :: "string list" where "nixHomeManagerBusy = [''switch'', ''build'']"
definition nixRebuildBusy :: "string list" where
  "nixRebuildBusy =
     [''switch'', ''boot'', ''test'', ''build'', ''dry-build'', ''dry-activate'', ''activate'', ''check'', ''build-vm'',
      ''build-vm-with-bootloader'', ''build-image'', ''--rollback'']"

definition nixSubcommands :: "string list" where
  "nixSubcommands =
     [''build'', ''bundle'', ''copy'', ''daemon'', ''derivation'', ''develop'', ''doctor'', ''edit'', ''eval'', ''flake'', ''fmt'',
      ''formatter'', ''hash'', ''help'', ''help-stores'', ''key'', ''log'', ''nar'', ''path-info'', ''print-dev-env'', ''profile'',
      ''realisation'', ''registry'', ''repl'', ''run'', ''search'', ''shell'', ''store'', ''upgrade-nix'', ''why-depends'', ''config'',
      ''env'']"

definition nixOptionArity :: "string \<Rightarrow> nat" where
  "nixOptionArity arg =
     (if arg \<in> set [''--option'', ''--arg'', ''--argstr'', ''--override-input'', ''--override-flake''] then 2
      else if arg \<in> set
        [''--extra-experimental-features'', ''--experimental-features'', ''--store'', ''--eval-store'', ''--log-format'',
         ''--max-jobs'', ''-j'', ''--cores'', ''--builders'', ''--substituters'', ''--extra-substituters'', ''-i'', ''-I'',
         ''--include'', ''--file'', ''-f'', ''--system'', ''--trusted-public-keys'', ''--extra-trusted-public-keys'', ''--profile'',
         ''--out-link'', ''-o'', ''--reference-lock-file'', ''--output-lock-file'', ''--inputs-from'', ''--update-input''] then 1
      else 0)"

definition nixStoreReadOnly :: "string list" where
  "nixStoreReadOnly = [''ping'', ''info'', ''ls'', ''cat'', ''dump-path'', ''path-from-hash-part'', ''diff-closures'']"
definition nixProfileReadOnly :: "string list" where "nixProfileReadOnly = [''list'', ''history'', ''diff-closures'']"
definition nixFlakeBusy :: "string list" where "nixFlakeBusy = [''update'', ''lock'', ''check'', ''archive'', ''prefetch'']"

definition nixStoreOperations :: "(string \<times> string) list" where
  "nixStoreOperations =
     [(''-r'', ''--realise''), (''--realise'', ''--realise''), (''--realize'', ''--realise''), (''--add'', ''--add''),
      (''--add-fixed'', ''--add-fixed''), (''--import'', ''--import''), (''--gc'', ''--gc''), (''--delete'', ''--delete''),
      (''--optimise'', ''--optimise''), (''--optimize'', ''--optimise''), (''--restore'', ''--restore''), (''--load-db'', ''--load-db''),
      (''--serve'', ''--serve''), (''--repair-path'', ''--repair-path''), (''-q'', ''--query''), (''--query'', ''--query''),
      (''--dump'', ''--dump''), (''--export'', ''--export''), (''--verify'', ''--verify''), (''--verify-path'', ''--verify-path''),
      (''-l'', ''--read-log''), (''--read-log'', ''--read-log''), (''--dump-db'', ''--dump-db''), (''--print-env'', ''--print-env''),
      (''--generate-binary-cache-key'', ''--generate-binary-cache-key'')]"

definition nixStoreBusyOperations :: "string list" where
  "nixStoreBusyOperations =
     [''--realise'', ''--add'', ''--add-fixed'', ''--import'', ''--gc'', ''--delete'', ''--optimise'', ''--restore'', ''--load-db'',
      ''--serve'', ''--repair-path'']"

definition nixEnvOperations :: "(string \<times> string) list" where
  "nixEnvOperations =
     [(''-i'', ''--install''), (''--install'', ''--install''), (''-u'', ''--upgrade''), (''--upgrade'', ''--upgrade''),
      (''-e'', ''--uninstall''), (''--uninstall'', ''--uninstall''), (''--set'', ''--set''), (''--set-flag'', ''--set-flag''),
      (''--rollback'', ''--rollback''), (''-g'', ''--switch-generation''), (''--switch-generation'', ''--switch-generation''),
      (''--delete-generations'', ''--delete-generations''), (''-q'', ''--query''), (''--query'', ''--query''),
      (''--list-generations'', ''--list-generations'')]"

definition nixEnvBusyOperations :: "string list" where
  "nixEnvBusyOperations =
     [''--install'', ''--upgrade'', ''--uninstall'', ''--set'', ''--set-flag'', ''--rollback'', ''--switch-generation'',
      ''--delete-generations'']"

text \<open>The first subcommand named, with what follows it.\<close>

function nixSubcommand :: "string list \<Rightarrow> string \<times> string list" where
  "nixSubcommand [] = ([], [])"
| "nixSubcommand (arg # rest) =
     (if prefix ''-'' arg then nixSubcommand (drop (nixOptionArity arg) rest)
      else if arg \<in> set nixSubcommands then (arg, rest) else nixSubcommand rest)"
  by pat_completeness auto
termination by (relation "measure length") auto

function nixFirstBare :: "string list \<Rightarrow> string" where
  "nixFirstBare [] = []"
| "nixFirstBare (arg # rest) = (if prefix ''-'' arg then nixFirstBare (drop (nixOptionArity arg) rest) else arg)"
  by pat_completeness auto
termination by (relation "measure length") auto

definition nixDaemonWorker :: "string list \<Rightarrow> bool" where
  "nixDaemonWorker args = list_ex (\<lambda>a. a \<in> {''--stdio'', ''--serve'', ''realise'', ''realize'', ''substitute''}) args"

text \<open>The work, or \<open>None\<close>.\<close>

definition nixCommandWorkReason :: "string list \<Rightarrow> string option" where
  "nixCommandWorkReason args =
     (case nixSubcommand args of
        (sub, rest) \<Rightarrow>
          if sub = ''daemon'' then (if nixDaemonWorker rest then Some ''nix-daemon worker'' else None)
          else if sub \<in> set [''build'', ''develop'', ''shell'', ''run'', ''copy'', ''bundle'', ''print-dev-env'', ''upgrade-nix'', ''fmt'']
          then Some (''nix '' @ sub)
          else if sub = ''eval'' then (if nixHasArg rest ''--read-only'' then None else Some ''nix eval'')
          else if sub = ''store''
          then (let next = nixFirstBare rest in if next = [] \<or> next \<in> set nixStoreReadOnly then None else Some (''nix store '' @ next))
          else if sub = ''profile''
          then (let next = nixFirstBare rest in if next = [] \<or> next \<in> set nixProfileReadOnly then None else Some (''nix profile '' @ next))
          else if sub = ''flake''
          then (let next = nixFirstBare rest in if next \<in> set nixFlakeBusy then Some (''nix flake '' @ next) else None)
          else if sub = ''derivation'' then (if nixFirstBare rest = ''add'' then Some ''nix derivation add'' else None)
          else None)"

definition nixActiveWorkReason :: "string \<Rightarrow> string list \<Rightarrow> string option" where
  "nixActiveWorkReason command args =
     (if command = ''nix'' then nixCommandWorkReason args
      else if command \<in> set [''nix-build'', ''nix-shell'', ''nix-collect-garbage'', ''nix-copy-closure'', ''nix-prefetch-url'']
      then Some command
      else if command = ''nix-store''
      then (let op = nixLegacyOperation args nixStoreOperations
            in if op \<noteq> [] \<and> op \<in> set nixStoreBusyOperations then Some (''nix-store '' @ op)
               else if nixHasArg args ''--repair'' then Some ''nix-store --repair'' else None)
      else if command = ''nix-env''
      then (let op = nixLegacyOperation args nixEnvOperations
            in if op \<noteq> [] \<and> op \<in> set nixEnvBusyOperations then Some (''nix-env '' @ op) else None)
      else if command = ''nix-instantiate''
      then (if list_ex (\<lambda>a. a \<in> {''--parse'', ''--eval'', ''--eval-only'', ''--find-file'', ''--help'', ''--version''}) args then None
            else Some command)
      else if command = ''nix-channel''
      then (if nixHasArg args ''--update'' \<or> nixHasArg args ''--rollback'' then Some command else None)
      else if command = ''home-manager''
      then (let sub = nixFirstWord args nixHomeManagerBusy in if sub \<noteq> [] then Some (''home-manager '' @ sub) else None)
      else if command = ''darwin-rebuild'' \<or> command = ''nixos-rebuild''
      then (let sub = nixFirstWord args nixRebuildBusy in if sub \<noteq> [] then Some (command @ '' '' @ sub) else None)
      else None)"


subsection \<open>Processes\<close>

record nix_process =
  ps_PID :: int
  ps_PPID :: int
  ps_UID :: uid32
  ps_UIDUnknown :: bool
  ps_Comm :: string
  ps_ParentComm :: string
  ps_Argv :: "string list"
  ps_ArgvErr :: "string option"
  ps_PSArgs :: "string list option"

definition nixDaemonProcessName :: "string \<Rightarrow> string" where
  "nixDaemonProcessName raw = to_lower (path_base (trim_space raw))"

definition nixDaemonProcessReason :: "nix_process \<Rightarrow> string list \<Rightarrow> string option" where
  "nixDaemonProcessReason q args =
     (if nixDaemonWorker args \<or> nixDaemonProcessName (ps_ParentComm q) = ''nix-daemon'' then Some ''nix-daemon worker''
      else if ps_UIDUnknown q \<or> ps_UID q \<noteq> 0 then Some ''nix-daemon state unknown''
      else if ps_PPID q = 1 then None
      else let parent = nixDaemonProcessName (ps_ParentComm q)
           in if parent = ''determinate-nix'' \<or> parent = ''determinate-nixd'' then None else Some ''nix-daemon state unknown'')"

definition nixBusyProcessReason :: "nix_process \<Rightarrow> string \<Rightarrow> string list \<Rightarrow> string option" where
  "nixBusyProcessReason q command args =
     (if command = ''nix-daemon'' then nixDaemonProcessReason q args else nixActiveWorkReason command args)"

text \<open>The first client named anywhere on a command line, empty when there is none.\<close>

definition nixPSArgsClient :: "string list \<Rightarrow> string" where
  "nixPSArgsClient args =
     (case find (\<lambda>a. nixBusyProcessCommandName a \<noteq> []) args of None \<Rightarrow> [] | Some a \<Rightarrow> nixBusyProcessCommandName a)"

definition nixProcessUIDLabel :: "nix_process \<Rightarrow> string" where
  "nixProcessUIDLabel q = (if ps_UIDUnknown q then ''unknown'' else show_int (uint (ps_UID q)))"

text \<open>What the loop of \<open>nixBusyProcessReasons\<close> says of one process: the error that ends it, or its work.\<close>

definition unreadable_reason :: "nix_process \<Rightarrow> string \<Rightarrow> string + string option" where
  "unreadable_reason q err =
     (let command = nixBusyProcessCommandName (ps_Comm q)
      in if command = ''nix-daemon'' then Inr (nixDaemonProcessReason q [])
         else if command \<noteq> [] then Inr (Some command)
         else if nixProcessInterpreterName (ps_Comm q) \<noteq> []
         then (case ps_PSArgs q of
                 Some args \<Rightarrow> (let client = nixPSArgsClient args in Inr (if client \<noteq> [] then Some client else None))
               | None \<Rightarrow> Inl (''inspect candidate pid '' @ show_int (ps_PID q) @ '' ('' @ ps_Comm q @ '', uid ''
                                @ nixProcessUIDLabel q @ ''): '' @ err))
         else Inr None)"

definition readable_reason :: "nix_process \<Rightarrow> string option" where
  "readable_reason q =
     (let (command, interpreter) =
            (case ps_Argv q of
               [] \<Rightarrow> (nixBusyProcessCommandName (ps_Comm q), nixProcessInterpreterName (ps_Comm q))
             | arg0 # _ \<Rightarrow>
                 (if nixBusyProcessCommandName arg0 \<noteq> [] then (nixBusyProcessCommandName arg0, [])
                  else if nixProcessInterpreterName arg0 \<noteq> [] then ([], nixProcessInterpreterName arg0)
                  else ([], nixProcessInterpreterName (ps_Comm q))));
          args = tl (ps_Argv q)
      in if command = [] \<and> interpreter \<noteq> []
         then (case nixInterpreterScriptProcess interpreter args of
                 None \<Rightarrow> None
               | Some (script, rest) \<Rightarrow> nixBusyProcessReason q script (nixNormalizedProcessArgs rest))
         else if command = [] then None
         else nixBusyProcessReason q command (nixNormalizedProcessArgs args))"

definition process_reason :: "nix_process \<Rightarrow> string + string option" where
  "process_reason q = (case ps_ArgvErr q of Some err \<Rightarrow> unreadable_reason q err | None \<Rightarrow> Inr (readable_reason q))"

fun busy_reasons :: "nix_process list \<Rightarrow> string list \<Rightarrow> string + string list" where
  "busy_reasons [] reasons = Inr reasons"
| "busy_reasons (q # qs) reasons =
     (case process_reason q of
        Inl err \<Rightarrow> Inl err
      | Inr None \<Rightarrow> busy_reasons qs reasons
      | Inr (Some r) \<Rightarrow> busy_reasons qs (if r \<in> set reasons then reasons else reasons @ [r]))"

definition nixBusyProcessReasons :: "nix_process list \<Rightarrow> string + string list" where
  "nixBusyProcessReasons qs = map_sum id sort (busy_reasons qs [])"

subsection \<open>Command lines\<close>

text \<open>\<open>/proc/<pid>/cmdline\<close>: one NUL after each argument.\<close>

definition decodeNixLinuxProcessArgv :: "string \<Rightarrow> string list" where
  "decodeNixLinuxProcessArgv raw =
     (if raw = [] then []
      else split_on CHR 0x00 (if last raw = CHR 0x00 then butlast raw else raw))"

text \<open>\<open>ArgvGone\<close>: the process has ended meanwhile.\<close>

datatype argv_answer = ArgvGone | ArgvError string | Argv "string list"

text \<open>What reading \<open>cmdline\<close> gives, and the error of \<open>Stat\<close> of the process directory.\<close>

definition nixProcessArgv :: "int \<Rightarrow> io_error + string \<Rightarrow> io_error option \<Rightarrow> argv_answer" where
  "nixProcessArgv pid cmdline stat =
     (let failed = (\<lambda>e. case e of Missing _ \<Rightarrow> ArgvGone
                        | Failing msg \<Rightarrow> ArgvError (''read argv for process '' @ show_int pid @ '': '' @ msg))
      in case cmdline of
           Inl e \<Rightarrow> failed e
         | Inr raw \<Rightarrow>
             (if raw = [] then (case stat of Some e \<Rightarrow> failed e | None \<Rightarrow> Argv [])
              else Argv (decodeNixLinuxProcessArgv raw)))"

datatype ps_error = ExitStatus string | RunFailed string
datatype ps_answer = PSGone | PSUnavailable | PSFailed string | PSArgs "string list"

text \<open>\<open>ps -ww -o stat=,args= -p <pid>\<close>.\<close>

definition nixProcessPSArgs :: "string \<Rightarrow> ps_error option \<Rightarrow> ps_answer" where
  "nixProcessPSArgs output err =
     (let fs = text_fields output
      in case err of
           Some (ExitStatus e) \<Rightarrow> if fs = [] then PSGone else PSFailed e
         | Some (RunFailed e) \<Rightarrow> PSFailed e
         | None \<Rightarrow>
             (case fs of
                [] \<Rightarrow> PSGone
              | state # args \<Rightarrow>
                  if prefix ''Z'' state then PSGone
                  else if args = [] \<or> hd args = ''<defunct>'' then PSGone
                  else if length args = 1 \<and> prefix ''('' (hd args) \<and> has_suffix (hd args) '')'' then PSUnavailable
                  else PSArgs args))"

text \<open>An interpreter whose arguments could not be read.\<close>

definition opaque_interpreter :: "nix_process \<Rightarrow> bool" where
  "opaque_interpreter q =
     (ps_ArgvErr q \<noteq> None \<and> nixBusyProcessCommandName (ps_Comm q) = [] \<and> nixProcessInterpreterName (ps_Comm q) \<noteq> [])"

fun nixFillPSArgsFallback :: "(int \<Rightarrow> ps_answer) \<Rightarrow> nix_process list \<Rightarrow> nix_process list" where
  "nixFillPSArgsFallback read [] = []"
| "nixFillPSArgsFallback read (q # qs) =
     (if opaque_interpreter q
      then (case read (ps_PID q) of
              PSGone \<Rightarrow> nixFillPSArgsFallback read qs
            | PSArgs args \<Rightarrow> q\<lparr>ps_PSArgs := Some args\<rparr> # nixFillPSArgsFallback read qs
            | _ \<Rightarrow> q # nixFillPSArgsFallback read qs)
      else q # nixFillPSArgsFallback read qs)"

definition nixUnreadableArgvSkipped :: "nix_process list \<Rightarrow> string list" where
  "nixUnreadableArgvSkipped qs =
     map (\<lambda>q. ''pid '' @ show_int (ps_PID q) @ '' ('' @ ps_Comm q @ '', uid '' @ nixProcessUIDLabel q @ '')'')
       (filter (\<lambda>q. opaque_interpreter q \<and> (case ps_PSArgs q of None \<Rightarrow> False | Some args \<Rightarrow> nixPSArgsClient args = [])) qs)"

subsection \<open>The process table\<close>

record nix_inspection =
  ni_MalformedRows :: int
  ni_MalformedSamples :: "string list"
  ni_MalformedCandidates :: "string list"
  ni_UnreadableArgvSkipped :: "string list"

definition no_inspection :: nix_inspection where
  "no_inspection = \<lparr>ni_MalformedRows = 0, ni_MalformedSamples = [], ni_MalformedCandidates = [], ni_UnreadableArgvSkipped = []\<rparr>"

definition nixProcessMalformedSampleLimit :: nat where "nixProcessMalformedSampleLimit = 3"

definition malformed :: "string \<Rightarrow> bool \<Rightarrow> nix_inspection \<Rightarrow> nix_inspection" where
  "malformed line candidate i =
     (let line = trim_space line
      in i\<lparr>ni_MalformedRows := ni_MalformedRows i + 1,
           ni_MalformedSamples := (if length (ni_MalformedSamples i) < nixProcessMalformedSampleLimit
                                   then ni_MalformedSamples i @ [line] else ni_MalformedSamples i),
           ni_MalformedCandidates := (if candidate then ni_MalformedCandidates i @ [line] else ni_MalformedCandidates i)\<rparr>)"

definition inspection_warning :: "nix_inspection \<Rightarrow> string" where
  "inspection_warning i =
     ''ignored '' @ show_int (ni_MalformedRows i) @ '' malformed process row(s) during Nix process inspection: ''
       @ join_strings '' | '' (ni_MalformedSamples i)"

record process_row =
  pw_pid :: int
  pw_ppid :: int
  pw_uid :: "uid32 option"
  pw_comm :: string

text \<open>One line of the table; a blank line is none.\<close>

definition read_row :: "string \<Rightarrow> process_row list \<times> nix_inspection \<Rightarrow> process_row list \<times> nix_inspection" where
  "read_row line acc =
     (case text_fields line of
        pid # ppid # uid # c # cs \<Rightarrow>
          (let comm = join_strings '' '' (c # cs)
           in case (atoi pid, atoi ppid) of
                (Some n, Some pn) \<Rightarrow>
                  (let u = parseNixPSUID uid
                   in (fst acc @ [\<lparr>pw_pid = n, pw_ppid = pn, pw_uid = u, pw_comm = comm\<rparr>],
                       if u = None then malformed line False (snd acc) else snd acc))
              | _ \<Rightarrow> (fst acc, malformed line (nixProcessCandidateName comm) (snd acc)))
      | _ \<Rightarrow> (fst acc, malformed line False (snd acc)))"

definition table_lines :: "string \<Rightarrow> string list" where
  "table_lines output = filter (\<lambda>l. trim_space l \<noteq> []) (split_on CHR 0x0A output)"

definition read_rows :: "string list \<Rightarrow> process_row list \<times> nix_inspection" where
  "read_rows lines = fold read_row lines ([], no_inspection)"

text \<open>The name of a process, the last row of a number deciding; empty when there is none.\<close>

definition row_name :: "process_row list \<Rightarrow> int \<Rightarrow> string" where
  "row_name rows pid = (case find (\<lambda>r. pw_pid r = pid) (rev rows) of None \<Rightarrow> [] | Some r \<Rightarrow> pw_comm r)"

text \<open>The answers of one inspection: whether the context has ended when a process's turn comes, its arguments, the user
  in its \<open>status\<close>, and what \<open>ps\<close> says of it.\<close>

record process_env =
  px_done :: "int \<Rightarrow> string option"
  px_argv :: "int \<Rightarrow> argv_answer"
  px_uid :: "int \<Rightarrow> uid32 option"
  px_psargs :: "int \<Rightarrow> ps_answer"

definition snapshot_of :: "process_env \<Rightarrow> process_row list \<Rightarrow> process_row \<Rightarrow> string list \<Rightarrow> string option \<Rightarrow> nix_process" where
  "snapshot_of env rows r argv err =
     (let uid = (case px_uid env (pw_pid r) of Some u \<Rightarrow> Some u | None \<Rightarrow> pw_uid r)
      in \<lparr>ps_PID = pw_pid r, ps_PPID = pw_ppid r, ps_UID = (case uid of None \<Rightarrow> 0 | Some u \<Rightarrow> u), ps_UIDUnknown = (uid = None),
          ps_Comm = pw_comm r, ps_ParentComm = row_name rows (pw_ppid r), ps_Argv = argv, ps_ArgvErr = err, ps_PSArgs = None\<rparr>)"

fun snapshots :: "process_env \<Rightarrow> process_row list \<Rightarrow> process_row list \<Rightarrow> string + nix_process list" where
  "snapshots env rows [] = Inr []"
| "snapshots env rows (r # rs) =
     (if \<not> nixProcessCandidateName (pw_comm r) then snapshots env rows rs
      else case px_done env (pw_pid r) of
             Some err \<Rightarrow> Inl err
           | None \<Rightarrow>
               (case px_argv env (pw_pid r) of
                  ArgvGone \<Rightarrow> snapshots env rows rs
                | ArgvError err \<Rightarrow> map_sum id (\<lambda>qs. snapshot_of env rows r [] (Some err) # qs) (snapshots env rows rs)
                | Argv argv \<Rightarrow> map_sum id (\<lambda>qs. snapshot_of env rows r argv None # qs) (snapshots env rows rs)))"

definition nixProcessSnapshots :: "process_env \<Rightarrow> string \<Rightarrow> (string + nix_process list) \<times> nix_inspection" where
  "nixProcessSnapshots env output =
     (let lines = table_lines output; (rows, i) = read_rows lines
      in if lines \<noteq> [] \<and> rows = []
         then (Inl (''no parseable process rows in ps output ('' @ show_int (ni_MalformedRows i) @ '' malformed): ''
                      @ join_strings '' | '' (ni_MalformedSamples i)), i)
         else (snapshots env rows rows, i))"

text \<open>The whole inspection, from the answer of \<open>ps -axo pid=,ppid=,uid=,comm=\<close>.\<close>

definition unparseable_reason :: string where "unparseable_reason = ''nix-named process with unparseable ps row''"

definition activeNixProcesses :: "process_env \<Rightarrow> string + string \<Rightarrow> (string + string list) \<times> nix_inspection" where
  "activeNixProcesses env table =
     (case table of
        Inl err \<Rightarrow> (Inl err, no_inspection)
      | Inr output \<Rightarrow>
          (case nixProcessSnapshots env output of
             (Inl err, i) \<Rightarrow> (Inl err, i)
           | (Inr qs, i) \<Rightarrow>
               (let qs = nixFillPSArgsFallback (px_psargs env) qs;
                    i = i\<lparr>ni_UnreadableArgvSkipped := nixUnreadableArgvSkipped qs\<rparr>
                in (map_sum id (\<lambda>reasons. if ni_MalformedCandidates i \<noteq> [] then sort (reasons @ [unparseable_reason]) else reasons)
                      (nixBusyProcessReasons qs), i))))"


subsection \<open>Round trips\<close>

text \<open>C21: the user column of \<open>ps\<close> reads back.  A user id that procps prints unsigned, or as a negative signed 32-bit
  number when it is \<open>2^31\<close> or more, is the same user again.\<close>

theorem ps_uid_roundtrip:
  "parseNixPSUID (show_int (uint u)) = Some u \<and> parseNixPSUID (show_int (sint u)) = Some u"
proof -
  have u: "0 \<le> uint u" "uint u < 2 ^ 32" using uint_ge_0 [of u] uint_lt2p [of u] by simp_all
  have s: "- (2 ^ 31) \<le> sint u" "sint u < 2 ^ 31" using sint_ge [of u] sint_lt [of u] by simp_all
  have sat: "0 \<le> n \<Longrightarrow> n < 2 ^ 32 \<Longrightarrow> saturate64 n = n" and sat': "- (2 ^ 31) \<le> n \<Longrightarrow> n < 2 ^ 31 \<Longrightarrow> saturate64 n = n" for n
    by (simp_all add: saturate64_def max_i64_def min_i64_def)
  have "word_of_int (sint u + 2 ^ 32) = (word_of_int (sint u) :: uid32) + word_of_int (2 ^ 32)" by (rule wi_hom_add [symmetric])
  also have "\<dots> = u" by simp
  finally have wrap: "word_of_int (sint u + 2 ^ 32) = u" .
  have "parse_int64 (show_int (uint u)) = (uint u, True)" "parse_int64 (show_int (sint u)) = (sint u, True)"
    using sat [OF u(1)] sat' [OF s] u(2) by (simp_all add: parse_int64_show)
  with u s wrap show ?thesis by (simp add: parseNixPSUID_def)
qed

text \<open>A command line in \<open>/proc\<close> reads back: the arguments the kernel wrote, one NUL after each, are those decoded.\<close>

theorem argv_roundtrip:
  assumes "args \<noteq> []" "list_all (\<lambda>a. CHR 0x00 \<notin> set a) args"
  shows "decodeNixLinuxProcessArgv (concat (map (\<lambda>a. a @ [CHR 0x00]) args)) = args"
proof -
  define z where "z = CHR 0x00"
  have split: "split_on z (butlast (concat (map (\<lambda>a. a @ [z]) as))) = as"
    if "as \<noteq> []" "list_all (\<lambda>a. z \<notin> set a) as" for as
    using that
  proof (induction as)
    case (Cons a as)
    show ?case
    proof (cases as)
      case Nil
      with Cons.prems split_on_single [of z a] show ?thesis by simp
    next
      case (Cons b bs)
      then have "concat (map (\<lambda>a. a @ [z]) as) \<noteq> []" by simp
      then have "butlast (concat (map (\<lambda>a. a @ [z]) (a # as))) = a @ z # butlast (concat (map (\<lambda>a. a @ [z]) as))"
        by (simp add: butlast_append)
      with Cons.IH Cons.prems Cons show ?thesis using split_on_append [of z a] split_on_single [of z a] by simp
    qed
  qed simp
  have "last (concat (map (\<lambda>a. a @ [z]) args)) = z" "concat (map (\<lambda>a. a @ [z]) args) \<noteq> []"
    using assms(1) by (induction args rule: rev_induct) simp_all
  with split [OF assms(1)] assms(2) show ?thesis by (simp add: decodeNixLinuxProcessArgv_def z_def)
qed

lemma argv_roundtrip_witness:
  "decodeNixLinuxProcessArgv (''nix'' @ [CHR 0x00] @ [CHR 0x00] @ ''build'' @ [CHR 0x00]) = [''nix'', [], ''build'']"
  using argv_roundtrip [of "[''nix'', [], ''build'']"] by simp

subsection \<open>What the busy gate lets pass\<close>

lemma busy_reasons_Inr:
  "busy_reasons qs acc = Inr rs \<Longrightarrow>
     (\<forall>q\<in>set qs. \<exists>r. process_reason q = Inr r) \<and> set rs = set acc \<union> {r. \<exists>q\<in>set qs. process_reason q = Inr (Some r)}"
proof (induction qs arbitrary: acc)
  case (Cons q qs)
  show ?case
  proof (cases "process_reason q")
    case (Inr r)
    with Cons show ?thesis by (cases r) (fastforce split: if_splits)+
  qed (use Cons.prems in simp)
qed simp

lemma busy_reasons_total:
  "(\<forall>q\<in>set qs. \<exists>r. process_reason q = Inr r) \<Longrightarrow> \<exists>rs. busy_reasons qs acc = Inr rs"
proof (induction qs arbitrary: acc)
  case (Cons q qs)
  then obtain r where "process_reason q = Inr r" by auto
  with Cons show ?case by (cases r) auto
qed simp

lemma no_busy_reasons: "nixBusyProcessReasons qs = Inr [] \<longleftrightarrow> (\<forall>q\<in>set qs. process_reason q = Inr None)"
proof
  assume "nixBusyProcessReasons qs = Inr []"
  then obtain rs where rs: "busy_reasons qs [] = Inr rs" "sort rs = []"
    by (cases "busy_reasons qs []") (auto simp: nixBusyProcessReasons_def)
  have "rs = []" using arg_cong [OF rs(2), of set] by simp
  with busy_reasons_Inr [OF rs(1)] show "\<forall>q\<in>set qs. process_reason q = Inr None"
    by (auto split: option.splits) (metis not_None_eq)
next
  assume all: "\<forall>q\<in>set qs. process_reason q = Inr None"
  then obtain rs where rs: "busy_reasons qs [] = Inr rs" using busy_reasons_total [of qs "[]"] by fastforce
  from busy_reasons_Inr [OF rs] all have "rs = []" by auto
  with rs show "nixBusyProcessReasons qs = Inr []" by (simp add: nixBusyProcessReasons_def)
qed


text \<open>What each row has to say for a collection to start.\<close>

definition opaque_quiet :: "process_env \<Rightarrow> nix_process \<Rightarrow> bool" where
  "opaque_quiet env q =
     (if nixBusyProcessCommandName (ps_Comm q) = ''nix-daemon'' then nixDaemonProcessReason q [] = None
      else nixBusyProcessCommandName (ps_Comm q) = []
           \<and> (nixProcessInterpreterName (ps_Comm q) \<noteq> [] \<longrightarrow>
                (case px_psargs env (ps_PID q) of
                   PSGone \<Rightarrow> True | PSArgs args \<Rightarrow> list_all (\<lambda>a. nixBusyProcessCommandName a = []) args | _ \<Rightarrow> False)))"

definition row_quiet :: "process_env \<Rightarrow> process_row list \<Rightarrow> process_row \<Rightarrow> bool" where
  "row_quiet env rows r =
     (\<not> nixProcessCandidateName (pw_comm r)
      \<or> px_done env (pw_pid r) = None
        \<and> (case px_argv env (pw_pid r) of
             ArgvGone \<Rightarrow> True
           | Argv argv \<Rightarrow> readable_reason (snapshot_of env rows r argv None) = None
           | ArgvError err \<Rightarrow> opaque_quiet env (snapshot_of env rows r [] (Some err))))"

definition quiet_table :: "process_env \<Rightarrow> string \<Rightarrow> bool" where
  "quiet_table env output =
     (case read_rows (table_lines output) of
        (rows, i) \<Rightarrow> (table_lines output \<noteq> [] \<longrightarrow> rows \<noteq> []) \<and> ni_MalformedCandidates i = [] \<and> list_all (row_quiet env rows) rows)"

lemma client_none: "nixPSArgsClient args = [] \<longleftrightarrow> list_all (\<lambda>a. nixBusyProcessCommandName a = []) args"
  by (induction args) (auto simp: nixPSArgsClient_def)

text \<open>The snapshots as they are judged, after \<open>ps\<close> was asked.\<close>

lemma fill_append: "nixFillPSArgsFallback read (q # qs) = nixFillPSArgsFallback read [q] @ nixFillPSArgsFallback read qs"
  by (simp split: ps_answer.split)

lemma opaque_judged:
  assumes "ps_ArgvErr q = Some err" "ps_PSArgs q = None"
  shows "(\<forall>x\<in>set (nixFillPSArgsFallback (px_psargs env) [q]). process_reason x = Inr None) \<longleftrightarrow> opaque_quiet env q"
proof (cases "nixBusyProcessCommandName (ps_Comm q) = [] \<and> nixProcessInterpreterName (ps_Comm q) \<noteq> []")
  case True
  then have "opaque_interpreter q" using assms by (simp add: opaque_interpreter_def)
  with True assms show ?thesis
    by (simp add: process_reason_def unreadable_reason_def opaque_quiet_def client_none Let_def split: ps_answer.split)
next
  case False
  then have "\<not> opaque_interpreter q" using assms by (auto simp: opaque_interpreter_def)
  with False assms show ?thesis
    by (auto simp: process_reason_def unreadable_reason_def opaque_quiet_def Let_def)
qed

lemma readable_judged:
  assumes "ps_ArgvErr q = None"
  shows "(\<forall>x\<in>set (nixFillPSArgsFallback read [q]). process_reason x = Inr None) \<longleftrightarrow> readable_reason q = None"
  using assms by (simp add: opaque_interpreter_def process_reason_def)

lemma ex_split: "(\<And>qs. P (q # qs) \<longleftrightarrow> B \<and> P qs) \<Longrightarrow> (\<exists>qs. A = Inr qs \<and> P (q # qs)) \<longleftrightarrow> B \<and> (\<exists>qs. A = Inr qs \<and> P qs)"
  by blast

lemma snapshots_quiet:
  "(\<exists>qs. snapshots env rows rs = Inr qs \<and> (\<forall>q\<in>set (nixFillPSArgsFallback (px_psargs env) qs). process_reason q = Inr None))
     \<longleftrightarrow> list_all (row_quiet env rows) rs"
proof (induction rs)
  case (Cons r rs)
  let ?ok = "\<lambda>qs. \<forall>q\<in>set (nixFillPSArgsFallback (px_psargs env) qs). process_reason q = Inr None"
  have snoc: "(\<exists>qs. map_sum id (\<lambda>qs. q # qs) (snapshots env rows rs) = Inr qs \<and> ?ok qs)
      \<longleftrightarrow> ?ok [q] \<and> list_all (row_quiet env rows) rs" for q
  proof -
    have split: "?ok (q # qs) \<longleftrightarrow> ?ok [q] \<and> ?ok qs" for qs
      by (subst fill_append [of _ q qs]) (simp only: set_append ball_Un)
    have "(\<exists>qs. map_sum id (\<lambda>qs. q # qs) (snapshots env rows rs) = Inr qs \<and> ?ok qs)
        \<longleftrightarrow> (\<exists>qs. snapshots env rows rs = Inr qs \<and> ?ok (q # qs))"
      by (cases "snapshots env rows rs") auto
    also have "\<dots> \<longleftrightarrow> ?ok [q] \<and> (\<exists>qs. snapshots env rows rs = Inr qs \<and> ?ok qs)"
      by (rule ex_split [where P = ?ok, OF split])
    finally show ?thesis unfolding Cons.IH .
  qed
  show ?case
  proof (cases "nixProcessCandidateName (pw_comm r) \<and> px_done env (pw_pid r) = None")
    case True
    show ?thesis
    proof (cases "px_argv env (pw_pid r)")
      case (ArgvError err)
      have "?ok [snapshot_of env rows r [] (Some err)] \<longleftrightarrow> opaque_quiet env (snapshot_of env rows r [] (Some err))"
        by (rule opaque_judged) (simp_all add: snapshot_of_def Let_def)
      with True ArgvError snoc show ?thesis by (simp add: row_quiet_def [of env rows r] del: nixFillPSArgsFallback.simps)
    next
      case (Argv argv)
      have "?ok [snapshot_of env rows r argv None] \<longleftrightarrow> readable_reason (snapshot_of env rows r argv None) = None"
        by (rule readable_judged) (simp add: snapshot_of_def Let_def)
      with True Argv snoc show ?thesis by (simp add: row_quiet_def [of env rows r] del: nixFillPSArgsFallback.simps)
    qed (use True Cons.IH in \<open>simp add: row_quiet_def [of env rows r]\<close>)
  qed (use Cons.IH in \<open>auto simp: row_quiet_def [of env rows r]\<close>)
qed simp

lemma inspection_quiet: "fst (activeNixProcesses env (Inr output)) = Inr [] \<longleftrightarrow> quiet_table env output"
proof -
  obtain rows i where r: "read_rows (table_lines output) = (rows, i)" by fastforce
  have busy: "map_sum id (\<lambda>reasons. if c then sort (reasons @ [unparseable_reason]) else reasons) x = Inr []
      \<longleftrightarrow> \<not> c \<and> x = Inr []" for c and x :: "string + string list"
    by (cases x) (auto dest: arg_cong [of _ _ set])
  show ?thesis
  proof (cases "table_lines output \<noteq> [] \<and> rows = []")
    case True
    with r show ?thesis by (simp add: activeNixProcesses_def nixProcessSnapshots_def quiet_table_def Let_def)
  next
    case False
    then have s: "nixProcessSnapshots env output = (snapshots env rows rows, i)" using r by (auto simp: nixProcessSnapshots_def Let_def)
    have "fst (activeNixProcesses env (Inr output)) = Inr [] \<longleftrightarrow> ni_MalformedCandidates i = []
        \<and> (\<exists>qs. snapshots env rows rows = Inr qs \<and> nixBusyProcessReasons (nixFillPSArgsFallback (px_psargs env) qs) = Inr [])"
      by (cases "snapshots env rows rows") (simp_all add: activeNixProcesses_def s Let_def busy)
    then show ?thesis unfolding no_busy_reasons snapshots_quiet using False r by (auto simp: quiet_table_def)
  qed
qed

text \<open>C17: the busy gate opens exactly on a quiet process table.  Unless the bound on deferrals has been reached, a
  collection starts when and only when the table could be read and parsed, no unparseable row names a Nix process,
  and every candidate in it has gone or is known to do no store-mutating work; arguments that cannot be read count as
  work, save for an idle daemon, a Nix name that is no client, and an interpreter whose command line in \<open>ps\<close> names no client.\<close>

theorem gate_opens_on_quiet_table:
  assumes "\<not> fst (nixBusyDeferralBound cfg st now)"
  shows "fst (busyGate cfg (fst (activeNixProcesses env table)) now st) \<longleftrightarrow> (\<exists>output. table = Inr output \<and> quiet_table env output)"
proof -
  have gate: "fst (busyGate cfg x now st) \<longleftrightarrow> x = Inr []" for x
    using assms by (auto simp: busyGate_def split: sum.split)
  show ?thesis unfolding gate using inspection_quiet [of env] by (cases table) (auto simp: activeNixProcesses_def)
qed

definition demo_processes :: "string list \<Rightarrow> process_env" where
  "demo_processes argv =
     \<lparr>px_done = (\<lambda>pid. None), px_argv = (\<lambda>pid. if pid = 7 then Argv argv else ArgvGone), px_uid = (\<lambda>pid. None), px_psargs = (\<lambda>pid. PSGone)\<rparr>"

definition demo_table :: string where "demo_table = '' 7     1 -2 nix'' @ [CHR 0x0A] @ '' 9     1  0 launchd'' @ [CHR 0x0A]"

lemma gate_opens_on_quiet_table_witness:
  "\<forall>cfg. fst (busyGate cfg (fst (activeNixProcesses (demo_processes [''nix'', ''repl'']) (Inr demo_table))) 0 zero_gc_state)
     \<and> \<not> fst (busyGate cfg (fst (activeNixProcesses (demo_processes [''nix'', ''--option'', ''cores'', ''1'', ''build'']) (Inr demo_table))) 0 zero_gc_state)"
proof
  fix cfg :: nix_config
  have bound: "\<not> fst (nixBusyDeferralBound cfg zero_gc_state 0)" by (simp add: nixBusyDeferralBound_def zero_gc_state_def)
  note gate = gate_opens_on_quiet_table [OF bound]
  have "quiet_table (demo_processes [''nix'', ''repl'']) demo_table" by code_simp
  moreover have "\<not> quiet_table (demo_processes [''nix'', ''--option'', ''cores'', ''1'', ''build'']) demo_table" by code_simp
  ultimately show "fst (busyGate cfg (fst (activeNixProcesses (demo_processes [''nix'', ''repl'']) (Inr demo_table))) 0 zero_gc_state)
     \<and> \<not> fst (busyGate cfg (fst (activeNixProcesses (demo_processes [''nix'', ''--option'', ''cores'', ''1'', ''build'']) (Inr demo_table))) 0 zero_gc_state)"
    unfolding gate by auto
qed

end
