(* ===== verification/Nix_Plan.thy ===== *)
theory Nix_Plan
  imports Nix_Processes GC_Roots
begin

text \<open>
  The Nix plugin's dry-run plan, \<open>plugins/nix.go\<close>: attribution of the visible GC roots, the generations a pass
  would delete, deferral by active work, and \<open>PlanCleanup\<close>.  Go's \<open>sort.Slice\<close> may order equal elements either
  way; the model keeps their order, and the property of the attribution holds for every order of the entries.
\<close>

definition CleanupTierSafe :: string where "CleanupTierSafe = ''safe''"
definition CleanupTierDisruptive :: string where "CleanupTierDisruptive = ''disruptive''"

subsection \<open>Visible GC roots\<close>

record nix_gc_root =
  vr_Root :: path
  vr_StorePath :: path
  vr_StorePathCount :: int
  vr_Class :: string
  vr_Active :: bool

definition looksLikeNixGCRoot :: "string \<Rightarrow> bool" where
  "looksLikeNixGCRoot r = (prefix ''/'' r \<or> prefix ''{'' r)"

definition nixGCRootClassRank :: "string \<Rightarrow> int" where
  "nixGCRootClassRank class =
     (if class = ''process_root'' \<or> class = ''nix_process_root'' then 0
      else if class = ''lsof_root'' then 1
      else if class = ''temporary_root'' then 2
      else if class = ''direnv_root'' then 3
      else if class = ''workspace_result'' then 4
      else if class = ''nix_cache_root'' then 5
      else if class = ''auto_gcroot'' \<or> class = ''gcroot'' then 6
      else if class = ''home_manager_gcroot'' \<or> class = ''profile_root'' then 7
      else 8)"

definition classifyNixGCRoot :: "string \<Rightarrow> string \<times> bool" where
  "classifyNixGCRoot raw =
     (let r = trim_space raw; has = contains_text (to_lower r)
      in if prefix ''/proc/'' r then (''process_root'', True)
         else if prefix ''{nix-process:'' r then (''nix_process_root'', True)
         else if prefix ''{lsof}'' r then (''lsof_root'', True)
         else if has ''/profiles/per-user/'' \<or> has ''/nix/var/nix/profiles''
                 \<or> has ''/.local/state/nix/profiles'' \<or> has ''/.nix-profile''
           then (''profile_root'', False)
         else if has ''/.local/state/home-manager/gcroots/'' then (''home_manager_gcroot'', False)
         else if has ''/.direnv/flake-inputs/'' \<or> has ''/.direnv/flake-profile-'' then (''direnv_root'', False)
         else if has ''/.cache/nix/'' then (''nix_cache_root'', False)
         else if has ''/gcroots/auto/'' then (''auto_gcroot'', False)
         else if has ''/gcroots/'' then (''gcroot'', False)
         else if has ''/nix-gc-roots/'' then (''gcroot'', False)
         else if has_suffix r ''/result'' \<or> contains_text r ''/result-'' then (''workspace_result'', False)
         else if has ''/var/folders/'' \<or> has ''/tmp/'' then (''temporary_root'', False)
         else (''unknown_root'', False))"

text \<open>\<open>strings.Cut\<close>: around the first occurrence of the separator.\<close>

fun cut_text :: "string \<Rightarrow> string \<Rightarrow> (string \<times> string) option" where
  "cut_text sep [] = (if sep = [] then Some ([], []) else None)"
| "cut_text sep (c # s) =
     (if prefix sep (c # s) then Some ([], drop (length sep) (c # s))
      else map_option (\<lambda>(before, after). (c # before, after)) (cut_text sep s))"

text \<open>A line of \<open>nix-store --gc --print-roots\<close>, trimmed: the root and its store path.\<close>

definition root_and_store :: "string \<Rightarrow> string \<times> string" where
  "root_and_store line =
     (case cut_text '' -> '' line of
        Some (before, after) \<Rightarrow> (trim_space before, trim_space after)
      | None \<Rightarrow> (let fields = fields_of [] line
                 in if 2 \<le> length fields then (hd fields, last fields) else (line, [])))"

definition entry_of :: "string \<times> string \<Rightarrow> nix_gc_root" where
  "entry_of entry =
     (let (class, active) = classifyNixGCRoot (fst entry)
      in \<lparr>vr_Root = fst entry, vr_StorePath = snd entry, vr_StorePathCount = 1, vr_Class = class, vr_Active = active\<rparr>)"

fun root_entries :: "string list \<Rightarrow> string list \<Rightarrow> nix_gc_root list" where
  "root_entries [] seen = []"
| "root_entries (rawLine # lines) seen =
     (let line = trim_space rawLine; (r, store) = root_and_store line; key = r @ [CHR 0x00] @ store
      in if line = [] \<or> r = [] \<or> \<not> looksLikeNixGCRoot r \<or> key \<in> set seen then root_entries lines seen
         else entry_of (r, store) # root_entries lines (key # seen))"

definition root_order :: "nix_gc_root \<Rightarrow> int \<times> string \<times> path" where
  "root_order g = (nixGCRootClassRank (vr_Class g), vr_Class g, vr_Root g)"

definition sortNixGCRoots :: "nix_gc_root list \<Rightarrow> nix_gc_root list" where
  "sortNixGCRoots roots = sort_key root_order roots"

definition parseNixGCRoots :: "string \<Rightarrow> nix_gc_root list" where
  "parseNixGCRoots output = sortNixGCRoots (root_entries (split_on CHR ''\<newline>'' output) [])"

text \<open>\<open>nixUniqueGCRoots\<close>: the groups in the order of their first entry; \<open>index\<close> finds a group by its key.\<close>

definition group_key :: "nix_gc_root \<Rightarrow> string" where
  "group_key g = join_strings [CHR 0x00] [vr_Root g, vr_Class g, show_bool (vr_Active g)]"

fun add_root :: "nix_gc_root \<Rightarrow> nix_gc_root list \<Rightarrow> nix_gc_root list" where
  "add_root r [] = [if vr_StorePathCount r \<le> 0 then r\<lparr>vr_StorePathCount := 1\<rparr> else r]"
| "add_root r (g # gs) =
     (if group_key g = group_key r
      then g\<lparr>vr_StorePathCount := vr_StorePathCount g + max (vr_StorePathCount r) 1,
             vr_StorePath := (if vr_StorePath g = [] \<and> vr_StorePath r \<noteq> [] then vr_StorePath r else vr_StorePath g)\<rparr> # gs
      else g # add_root r gs)"

definition nixUniqueGCRoots :: "nix_gc_root list \<Rightarrow> nix_gc_root list" where
  "nixUniqueGCRoots roots = sortNixGCRoots (fold add_root roots [])"

definition nixGCRootReviewAction :: "string \<Rightarrow> string" where
  "nixGCRootReviewAction class =
     (if class = ''process_root'' \<or> class = ''nix_process_root'' then ''review_active_gc_root''
      else if class = ''lsof_root'' then ''review_lsof_gc_root''
      else if class = ''temporary_root'' then ''review_temporary_gc_root''
      else if class = ''direnv_root'' then ''review_direnv_gc_root''
      else if class = ''workspace_result'' then ''review_workspace_result_root''
      else if class = ''nix_cache_root'' then ''review_nix_cache_gc_root''
      else if class = ''home_manager_gcroot'' then ''review_home_manager_gc_root''
      else ''review_gc_root'')"

definition nixGCRootTier :: "string \<Rightarrow> string" where
  "nixGCRootTier class =
     (if class \<in> {''process_root'', ''nix_process_root'', ''lsof_root''} then CleanupTierDisruptive
      else if class \<in> {''direnv_root'', ''workspace_result'', ''nix_cache_root'', ''gcroot'', ''auto_gcroot'', ''unknown_root''}
        then CleanupTierWarm
      else CleanupTierSafe)"

definition nixGCRootReclaim :: "string \<Rightarrow> string" where
  "nixGCRootReclaim class =
     (if class \<in> {''temporary_root'', ''direnv_root'', ''workspace_result'', ''nix_cache_root'', ''gcroot'', ''auto_gcroot''}
      then CleanupReclaimDeferred else CleanupReclaimNone)"

text \<open>The name, version and reason of a root's target.\<close>

definition root_texts :: "nix_gc_root \<Rightarrow> string \<times> string \<times> string" where
  "root_texts g =
     (let n = vr_StorePathCount g; sample = path_base (vr_StorePath g); many = show_int n @ '' store paths'';
          visible = ''visible Nix GC root retaining '';
          name = vr_Class g @ '' '' @ path_base (vr_Root g);
          version = (if vr_StorePath g \<noteq> [] then sample else []);
          reason = visible @ ''store path'' @ (if vr_StorePath g \<noteq> [] then '' '' @ sample else []);
          (name, version, reason) =
            (if n \<le> 1 then (name, version, reason)
             else if version \<noteq> []
               then (name @ '' ('' @ many @ '')'', version @ '' (+'' @ show_int (n - 1) @ '' more)'', visible @ many @ ''; sample '' @ sample)
             else (name @ '' ('' @ many @ '')'', version, visible @ many));
          reason = (if \<not> vr_Active g then reason
                    else if 1 < n then ''active GC root retaining '' @ many @ ''; review the owning process before any Nix GC action''
                    else ''active process root; review the owning process before any Nix GC action'')
      in (name, version, reason))"

definition visible_root_target :: "nix_gc_root \<Rightarrow> cleanup_target" where
  "visible_root_target g =
     (case root_texts g of (name, version, reason) \<Rightarrow>
        annotateCleanupTargetPolicy (nixGCRootTier (vr_Class g)) (nixGCRootReclaim (vr_Class g))
          \<lparr>ct_Type = ''nix_gc_root'', ct_Tier = [], ct_Name = name, ct_Version = version, ct_Path = vr_Root g,
           ct_Bytes = 0, ct_LogicalBytes = 0, ct_Reclaim = [], ct_HostReclaimsSpace = None, ct_Active = vr_Active g,
           ct_Protected = True, ct_Action = nixGCRootReviewAction (vr_Class g), ct_Reason = reason\<rparr>)"

definition nixGCRootTargets :: "nix_gc_root list \<Rightarrow> int \<Rightarrow> cleanup_target list" where
  "nixGCRootTargets roots limit =
     (let roots = nixUniqueGCRoots roots
      in if limit \<le> 0 \<or> roots = [] then []
         else map visible_root_target (take (nat (min limit (int (length roots)))) roots))"

definition nixGCRootClassSummary :: "nix_gc_root list \<Rightarrow> string" where
  "nixGCRootClassSummary roots =
     join_strings '', ''
       (map (\<lambda>class. class @ ''='' @ show_int (int (length (filter (\<lambda>g. vr_Class g = class) roots))))
         (sort (remdups (map vr_Class roots))))"

subsection \<open>Planned generations\<close>

definition no_home_error :: string where "no_home_error = ''$HOME is not defined''"

definition missing_command :: "string \<Rightarrow> string" where
  "missing_command name = ''exec: \"'' @ name @ ''\": executable file not found in $PATH''"

text \<open>The user's generations from \<open>nix-env\<close>: targets, warnings, and whether they were listed.\<close>

definition plan_user_generations ::
    "nix_config \<Rightarrow> gc_env \<Rightarrow> duration \<Rightarrow> cleanup_target list \<times> string list \<times> bool" where
  "plan_user_generations cfg env olderThan =
     (if \<not> ge_lookPath env ''nix-env''
      then ([], [''nix-env is not available; falling back to lock-free profile link inspection where possible''], False)
      else case listGenerations (ge_parse_local env) (\<lambda>args. ge_run env (''nix-env'' # args)) ''user'' [] of
        Inl err \<Rightarrow> ([], [''could not inspect user Nix generations with nix-env: '' @ err], False)
      | Inr gens \<Rightarrow>
          (nixGenerationTargetsWithMax gens (ge_now env) (nc_MinUserGenerations cfg) olderThan (nc_MaxUserGenerations cfg), [], True))"

definition plan_user_links :: "nix_config \<Rightarrow> gc_env \<Rightarrow> duration \<Rightarrow> path \<Rightarrow> cleanup_target list \<times> string list" where
  "plan_user_links cfg env olderThan dir =
     (case discoverNixProfileLinkGenerations (ge_read_dir env) (ge_readlink env) (ge_modified env) dir ''profile'' ''user'' of
        Inl err \<Rightarrow> ([], [''could not inspect user Nix profile links: '' @ err])
      | Inr gens \<Rightarrow>
          (if gens = [] then ([], [])
           else (nixGenerationTargetsWithMax gens (ge_now env) (nc_MinUserGenerations cfg) olderThan (nc_MaxUserGenerations cfg),
                 [''using lock-free user Nix profile link inspection after nix-env generation inspection was unavailable''])))"

definition plan_home_manager ::
    "cleanup_level \<Rightarrow> nix_config \<Rightarrow> nix_config \<Rightarrow> gc_env \<Rightarrow> duration \<Rightarrow> path \<Rightarrow> cleanup_target list \<times> string list" where
  "plan_home_manager level cfg homeManagerConfig env olderThan dir =
     (case discoverNixProfileLinkGenerations (ge_read_dir env) (ge_readlink env) (ge_modified env) dir ''home-manager'' ''home-manager'' of
        Inl err \<Rightarrow> ([], [''could not inspect Home Manager profile links: '' @ err])
      | Inr gens \<Rightarrow>
          (if gens = [] then ([], [])
           else let homeManagerOlderThan = parse_nix_policy_duration (nixHomeManagerGenerationPolicyAge level cfg) olderThan
                in (nixHomeManagerGenerationTargets
                      (nixGenerationTargetsWithMax gens (ge_now env) (nixMinHomeManagerGenerations cfg)
                         homeManagerOlderThan (nc_MaxHomeManagerGenerations cfg))
                      homeManagerConfig, [])))"

definition plan_system_generations :: "nix_config \<Rightarrow> gc_env \<Rightarrow> duration \<Rightarrow> cleanup_target list \<times> string list" where
  "plan_system_generations cfg env olderThan =
     (if \<not> ge_lookPath env ''nix-env'' then ([], [])
      else case listGenerations (ge_parse_local env) (\<lambda>args. ge_run env (''nix-env'' # args)) ''system''
                  ''/nix/var/nix/profiles/system'' of
        Inl err \<Rightarrow> ([], [''could not inspect system Nix generations: '' @ err])
      | Inr gens \<Rightarrow>
          (nixReviewOnlyGenerationTargets
             (nixGenerationTargets gens (ge_now env) (nc_MinSystemGenerations cfg) olderThan)
             ''review_privileged_generation''
             ''outside retention policy, but system generation deletion requires explicit privileged workflow''
             CleanupTierPrivileged, []))"

definition planGenerationTargets :: "cleanup_level \<Rightarrow> nix_config \<Rightarrow> gc_env \<Rightarrow> cleanup_target list \<times> string list" where
  "planGenerationTargets level cfg env =
     (let olderThan = parse_nix_policy_duration (nixGenerationPolicyAge level cfg) 0
      in if olderThan \<le> 0 \<and> nc_MaxUserGenerations cfg \<le> 0 \<and> nc_MaxHomeManagerGenerations cfg \<le> 0 then ([], [])
         else
           let noHomeManager = (nc_DeleteHomeManagerGenerations cfg \<and> \<not> ge_lookPath env ''home-manager'');
               hmConfig = (if noHomeManager then cfg\<lparr>nc_DeleteHomeManagerGenerations := False\<rparr> else cfg);
               hmWarning = (if noHomeManager
                 then [''home-manager is not available; Home Manager generations will remain review-only''] else []);
               (user, userWarnings, planned) = plan_user_generations cfg env olderThan;
               (homes, homeWarnings) =
                 (case ge_home env of
                    None \<Rightarrow> ([], [''could not locate user home for lock-free Nix profile inspection: '' @ no_home_error])
                  | Some home \<Rightarrow>
                      (let dir = join_path [home, ''.local'', ''state'', ''nix'', ''profiles''];
                           (links, linkWarnings) = (if planned then ([], []) else plan_user_links cfg env olderThan dir);
                           (hm, hmWarnings) = plan_home_manager level cfg hmConfig env olderThan dir
                       in (links @ hm, linkWarnings @ hmWarnings)));
               (system, systemWarnings) = plan_system_generations cfg env olderThan
           in (user @ homes @ system, hmWarning @ userWarnings @ homeWarnings @ systemWarnings))"

subsection \<open>Deferral\<close>

definition nixDeferralTarget :: "string \<Rightarrow> string \<Rightarrow> string \<Rightarrow> bool \<Rightarrow> string \<Rightarrow> string \<Rightarrow> cleanup_target" where
  "nixDeferralTarget targetType name action active reason backoff =
     (let reason = (if backoff \<noteq> [] then reason @ ''; retry after '' @ backoff @ '' once idle'' else reason)
      in annotateCleanupTargetPolicy CleanupTierDisruptive CleanupReclaimNone
           \<lparr>ct_Type = targetType, ct_Tier = [], ct_Name = name, ct_Version = [], ct_Path = [], ct_Bytes = 0,
            ct_LogicalBytes = 0, ct_Reclaim = [], ct_HostReclaimsSpace = None, ct_Active = active, ct_Protected = True,
            ct_Action = action, ct_Reason = reason\<rparr>)"

definition nixActiveWorkTargets :: "string list \<Rightarrow> string \<Rightarrow> cleanup_target list" where
  "nixActiveWorkTargets reasons backoff =
     map (\<lambda>reason. nixDeferralTarget ''nix_active_work'' reason ''protect_active_work'' True
                     ''active Nix work is using the store'' backoff) reasons"

definition with_metadata :: "string table \<Rightarrow> cleanup_plan \<Rightarrow> cleanup_plan" where
  "with_metadata ms plan = plan\<lparr>cp_Metadata := fold (\<lambda>(k, v). tbl_put k v) ms (cp_Metadata plan)\<rparr>"

definition with_warnings :: "string list \<Rightarrow> cleanup_plan \<Rightarrow> cleanup_plan" where
  "with_warnings ws plan = plan\<lparr>cp_Warnings := cp_Warnings plan @ ws\<rparr>"

definition with_targets :: "cleanup_target list \<Rightarrow> cleanup_plan \<Rightarrow> cleanup_plan" where
  "with_targets ts plan = plan\<lparr>cp_Targets := cp_Targets plan @ ts\<rparr>"

definition nixDeferPlan ::
    "string \<Rightarrow> string \<Rightarrow> nix_config \<Rightarrow> cleanup_target list \<Rightarrow> string list \<Rightarrow> cleanup_plan \<Rightarrow> cleanup_plan" where
  "nixDeferPlan skipReason summary cfg targets warnings plan =
     (let plan = with_targets targets (plan\<lparr>cp_WouldRun := False, cp_SkipReason := skipReason, cp_Summary := summary\<rparr>);
          plan = with_metadata
            [(''deferral_reason'', skipReason), (''retry_after'', nc_DaemonBusyBackoff cfg),
             (''target_count'', show_int (int (length (cp_Targets plan))))] plan;
          plan = with_warnings warnings plan
      in if nc_DaemonBusyBackoff cfg \<noteq> []
         then with_warnings [''retry Nix cleanup after '' @ nc_DaemonBusyBackoff cfg @
                '' once active work is idle and process inspection is available''] plan
         else plan)"

subsection \<open>The plan\<close>

text \<open>The configuration a plan reads beside \<open>nix_config\<close>: the two fields only plans use and those of the reaper.\<close>

record plan_config =
  pc_nix :: nix_config
  pc_MaxGCDuration :: string
  pc_RootAttributionLimit :: int
  pc_roots :: root_config

definition nixRootAttributionLimit :: "plan_config \<Rightarrow> int" where
  "nixRootAttributionLimit pc = (if pc_RootAttributionLimit pc < 0 then 0 else pc_RootAttributionLimit pc)"

text \<open>\<open>pl_inspect\<close> is the answer of the process inspection, \<open>pl_now\<close> the plugin's clock, \<open>pl_mem\<close> its state in memory.\<close>

record plan_env =
  pl_gc :: gc_env
  pl_roots :: root_env
  pl_inspect :: "(string + string list) \<times> nix_inspection"
  pl_home :: path
  pl_read_fails :: bool
  pl_files :: gc_files
  pl_mem :: nix_gc_state
  pl_now :: instant

definition printGCRoots :: "gc_env \<Rightarrow> string + string" where
  "printGCRoots env =
     (if \<not> ge_lookPath env ''nix-store'' then Inl (missing_command ''nix-store'')
      else case ge_run env [''nix-store'', ''--gc'', ''--print-roots''] of
        (output, Some err) \<Rightarrow> Inl (''nix-store --gc --print-roots failed: '' @ err @ '': '' @ trim_space output)
      | (output, None) \<Rightarrow> Inr output)"

definition planGCRootAttribution :: "plan_config \<Rightarrow> gc_env \<Rightarrow> cleanup_target list \<times> string table \<times> string list" where
  "planGCRootAttribution pc env =
     (let limit = nixRootAttributionLimit pc
      in if limit = 0 then ([], [(''gc_root_attribution'', ''disabled'')], [])
         else let metadata = [(''gc_root_attribution_limit'', show_int limit)]
         in case printGCRoots env of
           Inl err \<Rightarrow> ([], metadata, [''could not inspect Nix GC roots: '' @ err])
         | Inr output \<Rightarrow>
             (let roots = parseNixGCRoots output;
                  uniqueRoots = nixUniqueGCRoots roots;
                  number = (\<lambda>xs. show_int (int (length xs)));
                  metadata = metadata @
                    [(''gc_root_attribution_roots'', number roots),
                     (''gc_root_attribution_classes'', nixGCRootClassSummary roots),
                     (''gc_root_attribution_unique_roots'', number uniqueRoots),
                     (''gc_root_attribution_unique_classes'', nixGCRootClassSummary uniqueRoots)];
                  targets = nixGCRootTargets roots limit
              in if length targets < length uniqueRoots
                 then (targets, metadata @ [(''gc_root_attribution_truncated'', ''true'')],
                       [''Nix GC root attribution truncated to '' @ show_int (int (length targets)) @ '' of '' @
                        number uniqueRoots @ '' visible roots ('' @ number roots @ '' store-path entries)''])
                 else (targets, metadata, [])))"

definition nixPlanSteps :: "cleanup_level \<Rightarrow> nix_config \<Rightarrow> string list" where
  "nixPlanSteps level cfg =
     (let age = (\<lambda>raw. ''Delete user generations older than '' @ raw @ '' only when at least '' @
                  show_int (nc_MinUserGenerations cfg) @ '' user generations remain'');
          cap = (if 0 < nc_MaxUserGenerations cfg
                 then [''Cap user generations at '' @ show_int (nc_MaxUserGenerations cfg) @
                       '' while preserving the current generation and minimum rollback count''] else []);
          home = (if nc_DeleteHomeManagerGenerations cfg
                  then (''Delete Home Manager generations older than '' @ nixHomeManagerGenerationPolicyAge level cfg @
                        '' only when at least '' @ show_int (nixMinHomeManagerGenerations cfg) @ '' Home Manager generations remain'')
                     # (if 0 < nc_MaxHomeManagerGenerations cfg
                        then [''Cap Home Manager generations at '' @ show_int (nc_MaxHomeManagerGenerations cfg) @
                              '' while preserving the current generation and minimum rollback count''] else [])
                  else [''Report stale or over-cap Home Manager generations as review-only because delete_home_manager_generations=false'']);
          collect = [''Run plain Nix GC after selected generation deletion'']
      in [''Inspect active Nix, Home Manager, and rebuild processes before locking the store'',
          ''List stale nix-direnv and temporary out-link GC roots in gc_root_candidates_file for the host'' @ [CHR 0x27] @
            ''s root unregister job (out-links untouched) when reap_stale_gc_roots=true'',
          ''Run nix-collect-garbage --dry-run to estimate reclaimable store paths'',
          ''List user and system profile generations and apply minimum-retention policy'',
          ''Preserve current profile generations and visible system generations by default'']
         @ (case level of
              LevelWarning \<Rightarrow>
                [''Run non-destructive preflight only in dry-run output; cleanup mode runs plain Nix GC without generation deletion'']
            | LevelCritical \<Rightarrow>
                age (nc_CriticalDeleteGenerationsOlderThan cfg) # cap @ home @ collect
                @ [if nc_AllowStoreOptimize cfg then ''Run nix-store --optimize because allow_store_optimize=true''
                   else ''Skip nix-store --optimize because allow_store_optimize=false'']
            | LevelNone \<Rightarrow> []
            | _ \<Rightarrow> age (nc_DeleteGenerationsOlderThan cfg) # cap @ home @ collect)
         @ [''Measure the Nix store filesystem before and after real GC for plugin-isolated host byte deltas''])"

definition base_plan :: "cleanup_level \<Rightarrow> plan_config \<Rightarrow> plan_env \<Rightarrow> cleanup_plan" where
  "base_plan level pc env =
     (let cfg = pc_nix pc
      in \<lparr>cp_Plugin = ''nix'', cp_Level = level_string level, cp_Summary = ''Nix cleanup preflight plan'', cp_WouldRun = True,
          cp_SkipReason = [], cp_EstimatedBytesFreed = 0, cp_RequiredFreeBytes = 0, cp_Steps = nixPlanSteps level cfg,
          cp_Targets = [], cp_Warnings = [],
          cp_Metadata =
            [(''cleanup_level'', level_string level),
             (''min_user_generations'', show_int (nc_MinUserGenerations cfg)),
             (''min_home_manager_generations'', show_int (nixMinHomeManagerGenerations cfg)),
             (''min_system_generations'', show_int (nc_MinSystemGenerations cfg)),
             (''max_user_generations'', show_int (nc_MaxUserGenerations cfg)),
             (''max_home_manager_generations'', show_int (nc_MaxHomeManagerGenerations cfg)),
             (''delete_generations_older_than'', nc_DeleteGenerationsOlderThan cfg),
             (''critical_delete_generations_older_than'', nc_CriticalDeleteGenerationsOlderThan cfg),
             (''delete_home_manager_generations'', show_bool (nc_DeleteHomeManagerGenerations cfg)),
             (''home_manager_delete_generations_older_than'', nc_HomeManagerDeleteGenerationsOlderThan cfg),
             (''home_manager_critical_delete_generations_older_than'', nc_HomeManagerCriticalDeleteGenerationsOlderThan cfg),
             (''allow_store_optimize'', show_bool (nc_AllowStoreOptimize cfg)),
             (''skip_when_daemon_busy'', show_bool (nc_SkipWhenDaemonBusy cfg)),
             (''daemon_busy_backoff'', nc_DaemonBusyBackoff cfg),
             (''max_gc_duration'', pc_MaxGCDuration pc),
             (''max_freed_per_pass'', nc_MaxFreedPerPass cfg),
             (''host_measure_path'', nixHostMeasurePath (pl_gc env) cfg),
             (''root_attribution_limit'', show_int (nixRootAttributionLimit pc)),
             (''generation_policy_delete_older_than_level'', nixGenerationPolicyAge level cfg),
             (''home_manager_generation_policy_delete_older_than_level'', nixHomeManagerGenerationPolicyAge level cfg)]\<rparr>)"

definition plan_state :: "nix_config \<Rightarrow> plan_env \<Rightarrow> nix_gc_state" where
  "plan_state cfg env =
     (let p = nixGCStatePath cfg (pl_home env) in if p = [] then pl_mem env else loadNixGCState (pl_read_fails env) (pl_files env) p)"

text \<open>The plan up to the process inspection, with what is known of earlier deferrals.\<close>

definition inspected_plan :: "cleanup_level \<Rightarrow> plan_config \<Rightarrow> plan_env \<Rightarrow> cleanup_plan" where
  "inspected_plan level pc env =
     (let cfg = pc_nix pc; st = plan_state cfg env; inspection = snd (pl_inspect env);
          plan = with_metadata
            ([(''deferred_passes'', show_int (gs_DeferredPasses st))]
             @ (if gs_FirstDeferredAt st \<noteq> zero_time then [(''deferred_since'', show_instant (gs_FirstDeferredAt st))] else [])
             @ [(''max_busy_deferrals'', show_int (nc_MaxBusyDeferrals cfg)),
                (''max_busy_deferral_duration'', nc_MaxBusyDeferralDuration cfg)])
            (base_plan level pc env)
      in if 0 < ni_MalformedRows inspection
         then with_warnings [inspection_warning inspection]
                (with_metadata [(''process_inspection_malformed_rows'', show_int (ni_MalformedRows inspection))] plan)
         else plan)"

text \<open>The inspection's verdict: the plan is deferred (\<open>Inl\<close>) or goes on (\<open>Inr\<close>).\<close>

definition plan_busy_gate :: "nix_config \<Rightarrow> plan_env \<Rightarrow> cleanup_plan \<Rightarrow> cleanup_plan + cleanup_plan" where
  "plan_busy_gate cfg env plan =
     (let st = plan_state cfg env; (released, bound) = nixBusyDeferralBound cfg st (pl_now env);
          behind = bound @ '' releases the next pass, which runs behind the hook-path pins and the serialization lock''
      in case fst (pl_inspect env) of
           Inl err \<Rightarrow>
             (let why = ''could not inspect active Nix processes: '' @ err
              in if released \<and> nc_SkipWhenDaemonBusy cfg
                 then Inr (with_warnings
                        [''process inspection is failing and due passes have been deferred '' @ show_int (gs_DeferredPasses st) @
                           '' times; '' @ behind, why]
                        (with_metadata [(''busy_deferral_released_by'', bound)] plan))
                 else if nc_SkipWhenDaemonBusy cfg
                 then Inl (nixDeferPlan ''nix_process_inspection_failed''
                        ''Nix cleanup is deferred because active process inspection failed'' cfg
                        [nixDeferralTarget ''nix_process_inspection'' ''active Nix process inspection''
                           ''protect_process_inspection'' False why (nc_DaemonBusyBackoff cfg)] [why] plan)
                 else Inr (with_warnings [why] plan))
         | Inr [] \<Rightarrow> Inr plan
         | Inr busy \<Rightarrow>
             (let work = join_strings '', '' busy; plan = with_metadata [(''active_nix_processes'', work)] plan
              in if released \<and> nc_SkipWhenDaemonBusy cfg
                 then Inr (with_warnings
                        [''active Nix work ('' @ work @ '') has deferred '' @ show_int (gs_DeferredPasses st) @ '' due passes; '' @ behind]
                        (with_metadata [(''busy_deferral_released_by'', bound)] plan))
                 else if nc_SkipWhenDaemonBusy cfg
                 then Inl (nixDeferPlan ''nix_daemon_busy'' ''Nix cleanup is deferred because active Nix work was detected'' cfg
                        (nixActiveWorkTargets busy (nc_DaemonBusyBackoff cfg)) [] plan)
                 else Inr plan))"

text \<open>The dry run of the collection: deferred by contention, or the plan with its estimate.\<close>

definition plan_dry_run :: "plan_config \<Rightarrow> plan_env \<Rightarrow> cleanup_plan \<Rightarrow> cleanup_plan + cleanup_plan" where
  "plan_dry_run pc env plan =
     (let cfg = pc_nix pc
      in case collectGarbageDryRun (pl_gc env) of
        ((output, Some err), _) \<Rightarrow>
          (let failed = with_warnings [''nix-collect-garbage dry-run failed: '' @ err]
           in case nixContentionReason output of
                None \<Rightarrow> Inr (failed plan)
              | Some reason \<Rightarrow>
                  (let plan = with_warnings [''nix-collect-garbage dry-run reported store contention: '' @ reason]
                                (with_metadata [(''nix_contention'', reason)] plan)
                   in if nc_SkipWhenDaemonBusy cfg
                      then Inl (nixDeferPlan ''nix_daemon_contention''
                             ''Nix cleanup is deferred because dry-run reported store contention'' cfg
                             [nixDeferralTarget ''nix_store_contention'' reason ''protect_store_contention'' True
                                ''Nix store lock or SQLite contention was reported by dry-run GC'' (nc_DaemonBusyBackoff cfg)] [] plan)
                      else Inr (failed plan)))
      | ((output, None), _) \<Rightarrow>
          (let estimated = parseDryRunFreedSpace output;
               plan = with_metadata [(''dry_run_store_paths'', show_int (parseDryRunStorePaths output))]
                        (plan\<lparr>cp_EstimatedBytesFreed := estimated\<rparr>)
           in if estimated \<noteq> 0 then Inr plan
              else case planGCRootAttribution pc (pl_gc env) of
                (targets, metadata, warnings) \<Rightarrow>
                  Inr (with_warnings warnings (with_metadata metadata (with_targets targets
                    (with_warnings [''Nix dry-run reported no reclaimable store space; live roots may be retaining the store''] plan))))))"

definition PlanCleanup_nix :: "cleanup_level \<Rightarrow> plan_config \<Rightarrow> plan_env \<Rightarrow> cleanup_plan" where
  "PlanCleanup_nix level pc env =
     (let cfg = pc_nix pc
      in if \<not> ge_lookPath (pl_gc env) ''nix-collect-garbage''
         then (base_plan level pc env)\<lparr>cp_WouldRun := False, cp_SkipReason := ''nix_collect_garbage_not_available'',
                 cp_Summary := ''Nix garbage collection is not available''\<rparr>
         else case plan_busy_gate cfg env (inspected_plan level pc env) of
           Inl plan \<Rightarrow> plan
         | Inr plan \<Rightarrow>
             (case planStaleGCRoots (pl_roots env) (pc_roots pc) of (staleTargets, staleMetadata, staleWarnings) \<Rightarrow>
               (case plan_dry_run pc env
                       (with_warnings staleWarnings (with_metadata staleMetadata (with_targets staleTargets plan))) of
                  Inl plan \<Rightarrow> plan
                | Inr plan \<Rightarrow>
                    (case planGenerationTargets level cfg (pl_gc env) of (targets, warnings) \<Rightarrow>
                       with_warnings
                         (if level = LevelCritical \<and> \<not> nc_AllowStoreOptimize cfg
                          then [''critical Nix store optimization is disabled by allow_store_optimize=false''] else [])
                         (with_metadata [(''generation_targets'', show_int (int (length targets)))]
                           (with_warnings warnings (with_targets targets plan)))))))"

end
