(* ===== verification/Nix_Plan_Runs.thy ===== *)
theory Nix_Plan_Runs
  imports Nix_Plan Nix_GC_Runs
begin

text \<open>
  What the Nix plugin's plan says of the pass it announces: the visible roots, the deferral by active work, and the
  generations a pass deletes.
\<close>

subsection \<open>The attribution of roots\<close>

text \<open>The place of a root in the attribution depends on its text only.\<close>

definition root_place :: "path \<Rightarrow> int \<times> string \<times> path" where
  "root_place r = (nixGCRootClassRank (fst (classifyNixGCRoot r)), fst (classifyNixGCRoot r), r)"

definition classified :: "nix_gc_root \<Rightarrow> bool" where
  "classified g = (classifyNixGCRoot (vr_Root g) = (vr_Class g, vr_Active g))"

lemma inj_root_place: "inj root_place"
  by (auto simp: inj_on_def root_place_def)

lemma root_order_place: "classified g \<Longrightarrow> root_order g = root_place (vr_Root g)"
  by (simp add: classified_def root_order_def root_place_def)

lemma entry_classified [simp]: "classified (entry_of e)" "vr_StorePathCount (entry_of e) = 1"
  by (simp_all add: classified_def entry_of_def split_beta)

lemma entries_classified: "g \<in> set (root_entries lines seen) \<Longrightarrow> classified g \<and> vr_StorePathCount g = 1"
proof (induction lines arbitrary: seen)
  case (Cons rawLine lines)
  obtain r store where "root_and_store (trim_space rawLine) = (r, store)" by fastforce
  with Cons show ?case by (auto simp: Let_def split: if_splits)
qed simp

lemma parsed_classified: "g \<in> set (parseNixGCRoots output) \<Longrightarrow> classified g \<and> vr_StorePathCount g = 1"
  using entries_classified by (simp add: parseNixGCRoots_def sortNixGCRoots_def)

text \<open>Two sorted lists of the same elements are equal when the key tells elements apart.\<close>

lemma sorted_by_key_unique:
  fixes f :: "'a \<Rightarrow> 'b::linorder"
  assumes "sorted (map f xs)" "sorted (map f ys)" "mset xs = mset ys" "inj f"
  shows "xs = ys"
proof -
  have "sort (map f ys) = map f xs" by (rule properties_for_sort) (use assms in simp_all)
  moreover have "sort (map f ys) = map f ys" by (rule properties_for_sort) (use assms in simp_all)
  ultimately show ?thesis using assms(4) by (simp add: inj_map_eq_map)
qed

text \<open>A class and a flag hold no NUL, so the key of a group tells roots apart.\<close>

lemma class_no_nul: "CHR 0x00 \<notin> set (fst (classifyNixGCRoot r))"
proof -
  define ok where "ok = (\<lambda>c :: string \<times> bool. CHR 0x00 \<notin> set (fst c))"
  have pick: "ok a \<Longrightarrow> ok b \<Longrightarrow> ok (if c then a else b)" for a b c by simp
  have "ok (classifyNixGCRoot r)"
    unfolding classifyNixGCRoot_def Let_def by (intro pick) (simp_all add: ok_def)
  then show ?thesis by (simp add: ok_def)
qed

lemma append_split_last:
  assumes "xs @ z # ys = xs' @ z # ys'" "z \<notin> set ys" "z \<notin> set ys'"
  shows "xs = xs' \<and> ys = ys'"
proof -
  have takes: "takeWhile ((\<noteq>) z) (rev us @ z # rest) = rev us" if "z \<notin> set us" for us rest
    using that by (subst takeWhile_append2) auto
  have "rev ys @ z # rev xs = rev ys' @ z # rev xs'" using arg_cong [OF assms(1), of rev] by simp
  then have "rev ys = rev ys'" using takes [OF assms(2)] takes [OF assms(3)] by metis
  with assms(1) show ?thesis by simp
qed

lemma group_key_root: "classified g \<Longrightarrow> classified h \<Longrightarrow> group_key g = group_key h \<longleftrightarrow> vr_Root g = vr_Root h"
proof
  assume c: "classified g" "classified h" and k: "group_key g = group_key h"
  have nul: "CHR 0x00 \<notin> set (vr_Class g)" "CHR 0x00 \<notin> set (vr_Class h)"
    using c class_no_nul [of "vr_Root g"] class_no_nul [of "vr_Root h"] by (simp_all add: classified_def)
  have b: "CHR 0x00 \<notin> set (show_bool x)" for x by (simp add: show_bool_def)
  have joined: "(vr_Root g @ CHR 0x00 # vr_Class g) @ CHR 0x00 # show_bool (vr_Active g)
      = (vr_Root h @ CHR 0x00 # vr_Class h) @ CHR 0x00 # show_bool (vr_Active h)" using k by (simp add: group_key_def)
  show "vr_Root g = vr_Root h"
    by (rule append_split_last [OF append_split_last [OF joined b b, THEN conjunct1] nul, THEN conjunct1])
next
  assume "classified g" "classified h" "vr_Root g = vr_Root h"
  then show "group_key g = group_key h" by (simp add: classified_def group_key_def)
qed

text \<open>The groups: one for each root, with its number of entries.\<close>

definition grouped :: "nix_gc_root list \<Rightarrow> nix_gc_root list \<Rightarrow> bool" where
  "grouped roots gs =
     (distinct (map vr_Root gs) \<and> set (map vr_Root gs) = set (map vr_Root roots) \<and>
      (\<forall>g\<in>set gs. classified g \<and> vr_StorePathCount g = int (length (filter (\<lambda>r. vr_Root r = vr_Root g) roots))))"

lemma add_root_known:
  assumes "classified r" "\<forall>g\<in>set gs. classified g" "vr_StorePathCount r = 1" "distinct (map vr_Root gs)"
  shows "map vr_Root (add_root r gs) = (if vr_Root r \<in> vr_Root ` set gs then map vr_Root gs else map vr_Root gs @ [vr_Root r])"
    and "g \<in> set (add_root r gs) \<Longrightarrow> classified g \<and>
      (vr_Root g \<noteq> vr_Root r \<and> (\<exists>h\<in>set gs. vr_Root h = vr_Root g \<and> vr_StorePathCount g = vr_StorePathCount h)
       \<or> vr_Root g = vr_Root r \<and> (if vr_Root r \<in> vr_Root ` set gs
            then \<exists>h\<in>set gs. vr_Root h = vr_Root r \<and> vr_StorePathCount g = vr_StorePathCount h + 1
            else vr_StorePathCount g = 1))"
proof -
  show "map vr_Root (add_root r gs) = (if vr_Root r \<in> vr_Root ` set gs then map vr_Root gs else map vr_Root gs @ [vr_Root r])"
    using assms by (induction gs) (auto simp: group_key_root)
  show "classified g \<and>
      (vr_Root g \<noteq> vr_Root r \<and> (\<exists>h\<in>set gs. vr_Root h = vr_Root g \<and> vr_StorePathCount g = vr_StorePathCount h)
       \<or> vr_Root g = vr_Root r \<and> (if vr_Root r \<in> vr_Root ` set gs
            then \<exists>h\<in>set gs. vr_Root h = vr_Root r \<and> vr_StorePathCount g = vr_StorePathCount h + 1
            else vr_StorePathCount g = 1))"
    if "g \<in> set (add_root r gs)"
    using that assms
  proof (induction gs)
    case (Cons h gs)
    have key: "group_key h = group_key r \<longleftrightarrow> vr_Root h = vr_Root r" using Cons.prems by (simp add: group_key_root)
    show ?case
    proof (cases "vr_Root h = vr_Root r")
      case True
      with Cons.prems key show ?thesis by (auto simp: classified_def image_iff)
    next
      case False
      with key have step: "add_root r (h # gs) = h # add_root r gs" by simp
      show ?thesis
      proof (cases "g = h")
        case True
        with False Cons.prems show ?thesis by auto
      next
        case neq: False
        with Cons.prems(1) step have "g \<in> set (add_root r gs)" by simp
        with Cons show ?thesis using False by (auto split: if_splits)
      qed
    qed
  qed simp
qed

text \<open>One more entry, one more group or a larger one.\<close>

lemma grouped_step:
  assumes "grouped rs gs" "classified r" "vr_StorePathCount r = 1"
  shows "grouped (rs @ [r]) (add_root r gs)"
proof -
  have gs: "\<forall>g\<in>set gs. classified g" "distinct (map vr_Root gs)" "vr_Root ` set gs = vr_Root ` set rs"
    and n: "\<And>g. g \<in> set gs \<Longrightarrow> vr_StorePathCount g = int (length (filter (\<lambda>x. vr_Root x = vr_Root g) rs))"
    using assms(1) by (simp_all add: grouped_def)
  note known = add_root_known [OF assms(2) gs(1) assms(3) gs(2)]
  have roots: "distinct (map vr_Root (add_root r gs))" "set (map vr_Root (add_root r gs)) = set (map vr_Root (rs @ [r]))"
    unfolding known(1) using gs by auto
  have new: "vr_Root r \<notin> vr_Root ` set rs \<Longrightarrow> filter (\<lambda>x. vr_Root x = vr_Root r) rs = []"
    by (auto simp: filter_empty_conv image_iff)
  have "classified g \<and> vr_StorePathCount g = int (length (filter (\<lambda>x. vr_Root x = vr_Root g) (rs @ [r])))"
    if "g \<in> set (add_root r gs)" for g
  proof (cases "vr_Root g = vr_Root r")
    case True
    show ?thesis
    proof (cases "vr_Root r \<in> vr_Root ` set rs")
      case old: True
      with known(2) [OF that] True obtain h where "h \<in> set gs" "vr_Root h = vr_Root r" "classified g"
          "vr_StorePathCount g = vr_StorePathCount h + 1"
        unfolding gs(3) by auto
      with n True show ?thesis by simp
    next
      case False
      with known(2) [OF that] True new show ?thesis unfolding gs(3) by simp
    qed
  next
    case False
    with known(2) [OF that] obtain h where "h \<in> set gs" "vr_Root h = vr_Root g" "classified g"
        "vr_StorePathCount g = vr_StorePathCount h"
      by auto
    with n False show ?thesis by simp
  qed
  with roots show ?thesis by (simp add: grouped_def)
qed

lemma groups_grouped:
  assumes "\<forall>r\<in>set roots. classified r \<and> vr_StorePathCount r = 1"
  shows "grouped roots (fold add_root roots [])"
  using assms
proof (induction roots rule: rev_induct)
  case (snoc r rs)
  then show ?case using grouped_step [of rs "fold add_root rs []" r] by simp
qed (simp add: grouped_def)

lemma unique_roots:
  assumes "\<forall>r\<in>set roots. classified r \<and> vr_StorePathCount r = 1"
  shows "grouped roots (nixUniqueGCRoots roots)"
    and "map vr_Root (nixUniqueGCRoots roots) = sort_key root_place (remdups (map vr_Root roots))"
proof -
  let ?gs = "fold add_root roots []"
  have g: "grouped roots ?gs" using groups_grouped [OF assms] .
  then show "grouped roots (nixUniqueGCRoots roots)"
    by (simp add: grouped_def nixUniqueGCRoots_def sortNixGCRoots_def distinct_map)
  have order: "map root_order (nixUniqueGCRoots roots) = map root_place (map vr_Root (nixUniqueGCRoots roots))"
    using g root_order_place by (simp add: grouped_def nixUniqueGCRoots_def sortNixGCRoots_def)
  have "set (map vr_Root ?gs) = set (remdups (map vr_Root roots))" "distinct (map vr_Root ?gs)"
    using g by (simp_all add: grouped_def)
  then have m: "mset (map vr_Root ?gs) = mset (remdups (map vr_Root roots))"
    by (simp only: set_eq_iff_mset_eq_distinct distinct_remdups)
  show "map vr_Root (nixUniqueGCRoots roots) = sort_key root_place (remdups (map vr_Root roots))"
  proof (rule sorted_by_key_unique [OF _ _ _ inj_root_place])
    show "sorted (map root_place (map vr_Root (nixUniqueGCRoots roots)))"
      unfolding order [symmetric] by (simp add: nixUniqueGCRoots_def sortNixGCRoots_def)
    show "mset (map vr_Root (nixUniqueGCRoots roots)) = mset (sort_key root_place (remdups (map vr_Root roots)))"
      using m by (simp add: nixUniqueGCRoots_def sortNixGCRoots_def)
  qed simp
qed

lemma action_review: "prefix ''review_'' (nixGCRootReviewAction class)"
  by (simp add: nixGCRootReviewAction_def)

lemma visible_target_simps [simp]:
  "ct_Path (visible_root_target g) = vr_Root g" "ct_Protected (visible_root_target g)"
  "ct_Active (visible_root_target g) = vr_Active g" "ct_Action (visible_root_target g) = nixGCRootReviewAction (vr_Class g)"
  by (simp_all add: visible_root_target_def annotateCleanupTargetPolicy_def split_beta)

text \<open>C20: the attribution shows every visible root once, up to its limit, and only for review.  In whatever order
  \<open>sort.Slice\<close> left the entries, the targets are the first roots by class rank (process and \<open>lsof\<close> roots before all
  others), class and text; all are protected, flagged active exactly when their class is, and none proposes an
  action but a review.  Each group counts the store paths of its root.\<close>

theorem gc_roots_attributed_for_review:
  assumes "mset roots = mset (parseNixGCRoots output)"
  shows "map ct_Path (nixGCRootTargets roots limit)
           = take (nat limit) (sort_key root_place (remdups (map vr_Root (parseNixGCRoots output))))
    \<and> list_all (\<lambda>t. ct_Protected t \<and> prefix ''review_'' (ct_Action t) \<and> ct_Active t = snd (classifyNixGCRoot (ct_Path t)))
        (nixGCRootTargets roots limit)
    \<and> list_all (\<lambda>g. vr_StorePathCount g
          = int (length (filter (\<lambda>e. vr_Root e = vr_Root g) (parseNixGCRoots output)))) (nixUniqueGCRoots roots)"
proof -
  let ?entries = "parseNixGCRoots output" and ?unique = "nixUniqueGCRoots roots"
  have rs: "\<forall>r\<in>set roots. classified r \<and> vr_StorePathCount r = 1"
    using parsed_classified mset_eq_setD [OF assms] by blast
  have same: "length (filter P roots) = length (filter P ?entries)" for P
    using arg_cong [OF assms, of "\<lambda>m. size (filter_mset P m)"] by (metis size_mset mset_filter)
  have g: "grouped roots ?unique" using unique_roots(1) [OF rs] .
  have "mset (remdups (map vr_Root roots)) = mset (remdups (map vr_Root ?entries))"
    using mset_eq_setD [OF assms] by (simp only: set_eq_iff_mset_eq_distinct [symmetric] distinct_remdups set_remdups set_map)
  then have "sort_key root_place (remdups (map vr_Root roots)) = sort_key root_place (remdups (map vr_Root ?entries))"
    by (intro sorted_by_key_unique [OF _ _ _ inj_root_place]) simp_all
  then have paths: "map vr_Root ?unique = sort_key root_place (remdups (map vr_Root ?entries))"
    using unique_roots(2) [OF rs] by simp
  have targets: "nixGCRootTargets roots limit = map visible_root_target (take (nat limit) ?unique)"
    by (auto simp: nixGCRootTargets_def Let_def min_def)
  have "map ct_Path (nixGCRootTargets roots limit) = take (nat limit) (map vr_Root ?unique)"
    unfolding targets by (simp add: take_map comp_def)
  moreover have "ct_Protected t \<and> prefix ''review_'' (ct_Action t) \<and> ct_Active t = snd (classifyNixGCRoot (ct_Path t))"
    if t: "t \<in> set (nixGCRootTargets roots limit)" for t
  proof -
    obtain h where "t = visible_root_target h" "h \<in> set ?unique" using t unfolding targets by (auto dest: in_set_takeD)
    then show ?thesis using g action_review by (simp add: grouped_def classified_def)
  qed
  ultimately show ?thesis using g paths by (simp add: list_all_iff grouped_def same)
qed

lemma gc_roots_attributed_for_review_witness:
  "map ct_Path (nixGCRootTargets (rev (parseNixGCRoots
       (''/home/u/result -> /nix/store/b'' @ [CHR 0x0A] @ ''{lsof} -> /nix/store/a'' @ [CHR 0x0A] @ ''/home/u/result -> /nix/store/c''))) 1) = [''{lsof}'']"
proof -
  let ?out = "''/home/u/result -> /nix/store/b'' @ [CHR 0x0A] @ ''{lsof} -> /nix/store/a'' @ [CHR 0x0A] @ ''/home/u/result -> /nix/store/c''"
  have "take (nat 1) (sort_key root_place (remdups (map vr_Root (parseNixGCRoots ?out)))) = [''{lsof}'']" by code_simp
  then show ?thesis using gc_roots_attributed_for_review [of "rev (parseNixGCRoots ?out)" ?out 1] by simp
qed

subsection \<open>A deferred plan is a deferred pass\<close>

text \<open>A poll that observes what the plan observed.\<close>

definition same_poll :: "plan_config \<Rightarrow> plan_env \<Rightarrow> poll_env \<Rightarrow> nix_plugin \<Rightarrow> nix_world \<Rightarrow> bool" where
  "same_poll pc env pe p w =
     (pe_available pe = ge_lookPath (pl_gc env) ''nix-collect-garbage'' \<and> pe_still_available pe = pe_available pe \<and>
      pe_home pe = pl_home env \<and> pe_read_fails pe = pl_read_fails env \<and> nw_files w = pl_files env \<and>
      np_memState p = pl_mem env \<and> pe_inspect pe = fst (pl_inspect env) \<and> pe_gate_now pe = pl_now env)"

lemma metadata_simps [simp]:
  "cp_SkipReason (with_metadata ms plan) = cp_SkipReason plan" "cp_SkipReason (with_warnings ws plan) = cp_SkipReason plan"
  "cp_SkipReason (with_targets ts plan) = cp_SkipReason plan" "cp_SkipReason (inspected_plan level pc env) = []"
  "cp_SkipReason (nixDeferPlan reason summary cfg targets warnings plan) = reason"
  by (simp_all add: with_metadata_def with_warnings_def with_targets_def nixDeferPlan_def inspected_plan_def base_plan_def Let_def)

lemma bound_state:
  "same_poll pc env pe p w \<Longrightarrow>
     nixBusyDeferralBound cfg (poll_state cfg pe p w) now = nixBusyDeferralBound cfg (plan_state cfg env) now"
  by (simp add: same_poll_def poll_state_def plan_state_def nixBusyDeferralBound_def Let_def cong: if_cong)

lemma gate_verdict:
  assumes "same_poll pc env pe p w"
  shows "(\<exists>plan'. plan_busy_gate cfg env plan = Inl plan') \<longleftrightarrow>
      nc_SkipWhenDaemonBusy cfg \<and> \<not> fst (busyGate cfg (pe_inspect pe) (pe_gate_now pe) (poll_state cfg pe p w))"
proof -
  have i: "pe_inspect pe = fst (pl_inspect env)" "pe_gate_now pe = pl_now env" using assms by (simp_all add: same_poll_def)
  show ?thesis unfolding i
    by (cases "fst (pl_inspect env)")
      (auto simp: plan_busy_gate_def busyGate_def bound_state [OF assms] Let_def split_beta split: list.splits)
qed

lemma gate_reason:
  "plan_busy_gate cfg env plan = Inl plan' \<Longrightarrow> cp_SkipReason plan' \<in> {''nix_process_inspection_failed'', ''nix_daemon_busy''}"
  "plan_busy_gate cfg env plan = Inr plan' \<Longrightarrow> cp_SkipReason plan' = cp_SkipReason plan"
  by (auto simp: plan_busy_gate_def Let_def split_beta split: sum.splits list.splits if_splits)

lemma dry_run_reason:
  "plan_dry_run pc env plan = Inl plan' \<Longrightarrow> cp_SkipReason plan' = ''nix_daemon_contention''"
  "plan_dry_run pc env plan = Inr plan' \<Longrightarrow> cp_SkipReason plan' = cp_SkipReason plan"
  by (auto simp: plan_dry_run_def Let_def split: prod.splits option.splits if_splits)

definition poll_reasons :: "string list" where
  "poll_reasons = [''nix_collect_garbage_not_available'', ''nix_process_inspection_failed'', ''nix_daemon_busy'']"

lemma plan_reason:
  "cp_SkipReason (PlanCleanup_nix level pc env) \<in> set poll_reasons \<longleftrightarrow>
     \<not> ge_lookPath (pl_gc env) ''nix-collect-garbage''
     \<or> (\<exists>plan'. plan_busy_gate (pc_nix pc) env (inspected_plan level pc env) = Inl plan')"
proof (cases "ge_lookPath (pl_gc env) ''nix-collect-garbage''")
  case True
  show ?thesis
  proof (cases "plan_busy_gate (pc_nix pc) env (inspected_plan level pc env)")
    case (Inl plan')
    with True gate_reason(1) [OF Inl] show ?thesis by (auto simp: PlanCleanup_nix_def Let_def poll_reasons_def)
  next
    case (Inr plan')
    obtain ts ms ws where s: "planStaleGCRoots (pl_roots env) (pc_roots pc) = (ts, ms, ws)" by (cases "planStaleGCRoots (pl_roots env) (pc_roots pc)") auto
    obtain gs ws' where g: "planGenerationTargets level (pc_nix pc) (pl_gc env) = (gs, ws')" by fastforce
    let ?plan = "with_warnings ws (with_metadata ms (with_targets ts plan'))"
    have r: "cp_SkipReason ?plan = []" using gate_reason(2) [OF Inr] by simp
    have "cp_SkipReason (PlanCleanup_nix level pc env) \<in> {[], ''nix_daemon_contention''}"
    proof (cases "plan_dry_run pc env ?plan")
      case (Inl d)
      with dry_run_reason(1) [OF Inl] show ?thesis using True Inr s by (simp add: PlanCleanup_nix_def Let_def)
    next
      case dry: (Inr d)
      have "cp_SkipReason d = []" using dry_run_reason(2) [OF dry] r by simp
      then show ?thesis using True Inr s g dry by (simp add: PlanCleanup_nix_def Let_def)
    qed
    with Inr True show ?thesis by (auto simp: poll_reasons_def)
  qed
qed (simp add: PlanCleanup_nix_def Let_def poll_reasons_def)

lemma gate_closed:
  assumes "nc_SkipWhenDaemonBusy cfg" "pe_still_available env"
  shows "fst (busyGate cfg (pe_inspect env) (pe_gate_now env) (poll_state cfg env p w)) \<or> po_commands (Cleanup level cfg env p w) = []"
proof -
  obtain pinErr hk where hooks: "refreshHookPins (pe_hooks env) cfg (nw_hooks w) = (pinErr, hk)" by fastforce
  have stw: "poll_state cfg env p (w\<lparr>nw_hooks := hk\<rparr>) = poll_state cfg env p w" by (simp add: poll_state_def Let_def cong: if_cong)
  obtain l why where due: "nixGCDue level cfg (poll_state cfg env p w) (pe_due_now env) = (l, why)" by fastforce
  obtain proceed st where gate: "busyGate cfg (pe_inspect env) (pe_gate_now env) (poll_state cfg env p w) = (proceed, st)" by fastforce
  note C = Cleanup_def [of level cfg env p w, unfolded hooks prod.case Let_def stw due gate]
  show ?thesis
    by (cases "l = LevelNone"; cases "poll_blocked cfg env pinErr"; cases proceed) (simp_all add: C gate assms split_beta)
qed

lemma poll_runs:
  assumes "fst (nixGCDue level cfg (poll_state cfg env p w) (pe_due_now env)) \<noteq> LevelNone"
    and "poll_blocked cfg env (fst (refreshHookPins (pe_hooks env) cfg (nw_hooks w))) = None"
    and "nc_SkipWhenDaemonBusy cfg \<longrightarrow> fst (busyGate cfg (pe_inspect env) (pe_gate_now env) (poll_state cfg env p w))"
  shows "\<exists>a. po_outcome (Cleanup level cfg env p w) = Ran a"
proof (cases rule: Cleanup_cases [of level cfg env p w])
  case (ran l why st)
  then show ?thesis by (simp add: run_pass_outcome)
qed (use assms in simp_all)

text \<open>C18: a plan announces the deferral of a poll exactly.  A poll that observes what the plan observed runs no command
  when the plan was skipped because Nix is missing, the inspection failed or Nix work is active; and when the plan was
  not skipped for one of these, a due poll that no other gate blocks runs its pass.\<close>

theorem plan_defers_with_the_poll:
  assumes "same_poll pc env pe p w"
  shows "if cp_SkipReason (PlanCleanup_nix level pc env) \<in> set poll_reasons
    then po_commands (Cleanup level (pc_nix pc) pe p w) = []
    else fst (nixGCDue level (pc_nix pc) (poll_state (pc_nix pc) pe p w) (pe_due_now pe)) \<noteq> LevelNone
         \<and> poll_blocked (pc_nix pc) pe (fst (refreshHookPins (pe_hooks pe) (pc_nix pc) (nw_hooks w))) = None
         \<longrightarrow> (\<exists>a. po_outcome (Cleanup level (pc_nix pc) pe p w) = Ran a)"
proof (cases "cp_SkipReason (PlanCleanup_nix level pc env) \<in> set poll_reasons")
  case True
  have "po_commands (Cleanup level (pc_nix pc) pe p w) = []"
  proof (cases "pe_available pe")
    case False
    then have "c \<notin> set (po_commands (Cleanup level (pc_nix pc) pe p w))" for c
      using poll_commands [of c level "pc_nix pc" pe p w] unblocked by metis
    then show ?thesis by (cases "po_commands (Cleanup level (pc_nix pc) pe p w)") auto
  next
    case available: True
    with assms True have "nc_SkipWhenDaemonBusy (pc_nix pc)" "pe_still_available pe"
      "\<not> fst (busyGate (pc_nix pc) (pe_inspect pe) (pe_gate_now pe) (poll_state (pc_nix pc) pe p w))"
      unfolding plan_reason gate_verdict [OF assms] by (simp_all add: same_poll_def)
    then show ?thesis using gate_closed by blast
  qed
  with True show ?thesis by simp
next
  case False
  then have "nc_SkipWhenDaemonBusy (pc_nix pc) \<longrightarrow>
      fst (busyGate (pc_nix pc) (pe_inspect pe) (pe_gate_now pe) (poll_state (pc_nix pc) pe p w))"
    unfolding plan_reason gate_verdict [OF assms] by simp
  with False show ?thesis using poll_runs by auto
qed

subsection \<open>The generations a plan names\<close>

text \<open>The versions of the targets with an action.\<close>

definition versions_for :: "string \<Rightarrow> cleanup_target list \<Rightarrow> string list" where
  "versions_for action targets = map ct_Version (filter (\<lambda>t. ct_Action t = action) targets)"

definition home_deletion :: string where "home_deletion = ''delete_home_manager_generation''"

lemma versions_append [simp]: "versions_for a (ts @ us) = versions_for a ts @ versions_for a us"
  by (simp add: versions_for_def)

lemma versions_Nil [simp]: "versions_for a [] = []"
  by (simp add: versions_for_def)

lemma delete_numbers_versions: "delete_numbers ts = versions_for ''delete_generation'' ts"
  by (simp add: delete_numbers_def versions_for_def)

lemma versions_empty: "versions_for a ts = [] \<longleftrightarrow> (\<forall>t\<in>set ts. ct_Action t \<noteq> a)"
  by (simp add: versions_for_def filter_empty_conv)

lemma generation_actions:
  "t \<in> set (nixGenerationTargetsWithMax gens now minKeep olderThan maxKeep) \<Longrightarrow>
     ct_Action t = ''keep_generation'' \<or> ct_Action t = ''delete_generation'' \<and> (0 < maxKeep \<or> 0 < olderThan)"
proof -
  assume "t \<in> set (nixGenerationTargetsWithMax gens now minKeep olderThan maxKeep)"
  then obtain g k lo hi where t: "t = generation_target (generation_action now olderThan k lo hi g) g"
    and k: "k = keep_at_most minKeep maxKeep"
    unfolding nixGenerationTargetsWithMax_def Let_def keep_at_most_def keep_at_least_def by force
  have "fst (generation_action now olderThan k lo hi g) = ''keep_generation''
      \<or> fst (generation_action now olderThan k lo hi g) = ''delete_generation'' \<and> (0 < k \<or> 0 < olderThan)"
    by (simp add: generation_action_def)
  moreover have "0 < k \<Longrightarrow> 0 < maxKeep" using k by (auto simp: keep_at_most_def split: if_splits)
  ultimately show ?thesis using t by auto
qed

lemma no_policy: "maxKeep \<le> 0 \<Longrightarrow> olderThan \<le> 0 \<Longrightarrow>
    versions_for ''delete_generation'' (nixGenerationTargetsWithMax gens now minKeep olderThan maxKeep) = []"
  unfolding versions_empty using generation_actions by fastforce

lemma user_targets_no_home [simp]: "versions_for home_deletion (nixGenerationTargetsWithMax gens now minKeep olderThan maxKeep) = []"
  unfolding versions_empty home_deletion_def using generation_actions by fastforce

lemma review_no_deletion:
  "a \<noteq> ''delete_generation'' \<Longrightarrow> versions_for ''delete_generation'' (nixReviewOnlyGenerationTargets ts a r tier) = []"
  "a \<noteq> home_deletion \<Longrightarrow> versions_for home_deletion ts = [] \<Longrightarrow> versions_for home_deletion (nixReviewOnlyGenerationTargets ts a r tier) = []"
  unfolding versions_empty by (auto simp: nixReviewOnlyGenerationTargets_def annotateCleanupTargetPolicy_def)

lemma home_targets:
  assumes "versions_for home_deletion ts = []"
  shows "versions_for ''delete_generation'' (nixHomeManagerGenerationTargets ts cfg) = []"
    and "versions_for home_deletion (nixHomeManagerGenerationTargets ts cfg)
      = (if nc_DeleteHomeManagerGenerations cfg then versions_for ''delete_generation'' ts else [])"
proof -
  have review: "versions_for a (nixHomeManagerGenerationTargets ts cfg) = []"
    if "\<not> nc_DeleteHomeManagerGenerations cfg" "a \<in> {''delete_generation'', home_deletion}" for a
    using that assms review_no_deletion [of "''review_home_manager_generation''" ts]
    by (auto simp: nixHomeManagerGenerationTargets_def home_deletion_def)
  let ?mark = "\<lambda>t. if ct_Action t \<noteq> ''delete_generation'' then t
      else annotateCleanupTargetPolicy CleanupTierWarm CleanupReclaimDeferred
             (t\<lparr>ct_Action := ''delete_home_manager_generation'',
                ct_Reason := ''outside Home Manager retention policy and eligible for home-manager remove-generations''\<rparr>)"
  have act: "ct_Action (?mark t) = (if ct_Action t = ''delete_generation'' then home_deletion else ct_Action t)"
      "ct_Version (?mark t) = ct_Version t" for t
    by (simp_all add: annotateCleanupTargetPolicy_def home_deletion_def)
  have marked: "versions_for ''delete_generation'' (map ?mark us) = []"
    "versions_for home_deletion (map ?mark us) = versions_for ''delete_generation'' us"
    if "\<forall>t\<in>set us. ct_Action t \<noteq> home_deletion" for us
    using that by (induction us) (simp_all add: versions_for_def act home_deletion_def annotateCleanupTargetPolicy_def)
  note marked = marked [OF assms [unfolded versions_empty]]
  show "versions_for ''delete_generation'' (nixHomeManagerGenerationTargets ts cfg) = []"
    using review [of "''delete_generation''"] marked by (cases "nc_DeleteHomeManagerGenerations cfg") (simp_all add: nixHomeManagerGenerationTargets_def)
  show "versions_for home_deletion (nixHomeManagerGenerationTargets ts cfg)
      = (if nc_DeleteHomeManagerGenerations cfg then versions_for ''delete_generation'' ts else [])"
    using review [of home_deletion] marked by (cases "nc_DeleteHomeManagerGenerations cfg") (simp_all add: nixHomeManagerGenerationTargets_def)
qed

text \<open>The commands of a deletion.\<close>

definition deletion :: "string list \<Rightarrow> string list \<Rightarrow> string list list" where
  "deletion command numbers = (if numbers = [] then [] else [command @ numbers])"

lemma run_deletion_commands: "snd (run_deletion command cfg env level numbers) = deletion command numbers"
  by (simp add: run_deletion_def deletion_def Let_def split: prod.split option.split)

definition general_age :: "cleanup_level \<Rightarrow> nix_config \<Rightarrow> duration" where
  "general_age level cfg = parse_nix_policy_duration (nixGenerationPolicyAge level cfg) 0"

text \<open>The parts of the plan's targets.\<close>

lemma user_part:
  assumes "ge_lookPath env ''nix-env''" "listGenerations (ge_parse_local env) (\<lambda>args. ge_run env (''nix-env'' # args)) ''user'' [] = Inr gens"
  shows "plan_user_generations cfg env olderThan =
      (nixGenerationTargetsWithMax gens (ge_now env) (nc_MinUserGenerations cfg) olderThan (nc_MaxUserGenerations cfg), [], True)"
    and "snd (deleteUserGenerationsByPolicy level cfg env) = [''nix-env'', ''--list-generations''] #
      deletion [''nix-env'', ''--delete-generations''] (versions_for ''delete_generation''
        (nixGenerationTargetsWithMax gens (ge_now env) (nc_MinUserGenerations cfg) (general_age level cfg) (nc_MaxUserGenerations cfg)))"
proof -
  show "plan_user_generations cfg env olderThan =
      (nixGenerationTargetsWithMax gens (ge_now env) (nc_MinUserGenerations cfg) olderThan (nc_MaxUserGenerations cfg), [], True)"
    using assms by (simp add: plan_user_generations_def)
  show "snd (deleteUserGenerationsByPolicy level cfg env) = [''nix-env'', ''--list-generations''] #
      deletion [''nix-env'', ''--delete-generations''] (versions_for ''delete_generation''
        (nixGenerationTargetsWithMax gens (ge_now env) (nc_MinUserGenerations cfg) (general_age level cfg) (nc_MaxUserGenerations cfg)))"
  proof (cases "general_age level cfg \<le> 0 \<and> nc_MaxUserGenerations cfg \<le> 0")
    case True
    then show ?thesis using assms no_policy by (simp add: deleteUserGenerationsByPolicy_def general_age_def deletion_def Let_def)
  next
    case False
    then have "deleteUserGenerationsByPolicy level cfg env =
        (case run_deletion [''nix-env'', ''--delete-generations''] cfg env level (delete_numbers (nixGenerationTargetsWithMax gens
             (ge_now env) (nc_MinUserGenerations cfg) (general_age level cfg) (nc_MaxUserGenerations cfg))) of
           (r, cs) \<Rightarrow> (r, [''nix-env'', ''--list-generations''] # cs))"
      using assms by (auto simp: deleteUserGenerationsByPolicy_def general_age_def Let_def)
    then show ?thesis
      using run_deletion_commands [of "[''nix-env'', ''--delete-generations'']" cfg env level] by (simp add: split_beta delete_numbers_versions)
  qed
qed

lemma links_part: "versions_for home_deletion (fst (plan_user_links cfg env olderThan dir)) = []"
  by (simp add: plan_user_links_def split: sum.split)

lemma system_part:
  "versions_for ''delete_generation'' (fst (plan_system_generations cfg env olderThan)) = []"
  "versions_for home_deletion (fst (plan_system_generations cfg env olderThan)) = []"
proof -
  have a: "''review_privileged_generation'' \<noteq> ''delete_generation''" "''review_privileged_generation'' \<noteq> home_deletion"
    by (simp_all add: home_deletion_def)
  show "versions_for ''delete_generation'' (fst (plan_system_generations cfg env olderThan)) = []"
    "versions_for home_deletion (fst (plan_system_generations cfg env olderThan)) = []"
    by (simp_all add: plan_system_generations_def nixGenerationTargets_def review_no_deletion(1) [OF a(1)] review_no_deletion(2) [OF a(2)]
        split: sum.split)
qed

definition home_profiles :: "path \<Rightarrow> path" where
  "home_profiles home = join_path [home, ''.local'', ''state'', ''nix'', ''profiles'']"

lemma home_part:
  assumes "parse_nix_policy_duration (nixHomeManagerGenerationPolicyAge level cfg) olderThan
      = parse_nix_policy_duration (nixHomeManagerGenerationPolicyAge level cfg) 0" (is "_ = ?age")
    and "ge_home env = Some home"
    and c: "c = (if nc_DeleteHomeManagerGenerations cfg \<and> \<not> ge_lookPath env ''home-manager''
                 then cfg\<lparr>nc_DeleteHomeManagerGenerations := False\<rparr> else cfg)"
  shows "versions_for ''delete_generation'' (fst (plan_home_manager level cfg c env olderThan (home_profiles home))) = []"
    and "snd (deleteHomeManagerGenerationsByPolicy level cfg env) = deletion [''home-manager'', ''remove-generations'']
      (versions_for home_deletion (fst (plan_home_manager level cfg c env olderThan (home_profiles home))))"
proof -
  let ?disc = "discoverNixProfileLinkGenerations (ge_read_dir env) (ge_readlink env) (ge_modified env) (home_profiles home) ''home-manager'' ''home-manager''"
  let ?ts = "\<lambda>gens. nixGenerationTargetsWithMax gens (ge_now env) (nixMinHomeManagerGenerations cfg) ?age (nc_MaxHomeManagerGenerations cfg)"
  have flag: "nc_DeleteHomeManagerGenerations c \<longleftrightarrow> nc_DeleteHomeManagerGenerations cfg \<and> ge_lookPath env ''home-manager''"
    by (auto simp: c)
  have plan: "fst (plan_home_manager level cfg c env olderThan (home_profiles home)) =
      (case ?disc of Inl err \<Rightarrow> [] | Inr gens \<Rightarrow> if gens = [] then [] else nixHomeManagerGenerationTargets (?ts gens) c)"
    by (simp add: plan_home_manager_def assms(1) Let_def split: sum.split)
  show "versions_for ''delete_generation'' (fst (plan_home_manager level cfg c env olderThan (home_profiles home))) = []"
    unfolding plan by (simp add: home_targets(1) split: sum.split)
  have empty: "versions_for a [] = []" for a by simp
  show "snd (deleteHomeManagerGenerationsByPolicy level cfg env) = deletion [''home-manager'', ''remove-generations'']
      (versions_for home_deletion (fst (plan_home_manager level cfg c env olderThan (home_profiles home))))"
  proof (cases "nc_DeleteHomeManagerGenerations c")
    case False
    then show ?thesis unfolding plan
      using flag by (auto simp: deleteHomeManagerGenerationsByPolicy_def home_targets(2) deletion_def split: sum.split)
  next
    case True
    show ?thesis
    proof (cases ?disc)
      case (Inl err)
      then show ?thesis unfolding plan
        using True flag assms(2) by (simp add: deleteHomeManagerGenerationsByPolicy_def home_or_empty_def home_profiles_def deletion_def)
    next
      case (Inr gens)
      have "snd (deleteHomeManagerGenerationsByPolicy level cfg env) =
          (if gens = [] \<or> ?age \<le> 0 \<and> nc_MaxHomeManagerGenerations cfg \<le> 0 then []
           else deletion [''home-manager'', ''remove-generations''] (versions_for ''delete_generation'' (?ts gens)))"
        using True flag assms(2) Inr
        by (simp add: deleteHomeManagerGenerationsByPolicy_def home_or_empty_def home_profiles_def Let_def
            run_deletion_commands delete_numbers_versions)
      moreover have "versions_for home_deletion (fst (plan_home_manager level cfg c env olderThan (home_profiles home))) =
          (if gens = [] then [] else versions_for ''delete_generation'' (?ts gens))"
        unfolding plan Inr using True by (simp add: home_targets(2))
      ultimately show ?thesis using no_policy by (simp add: deletion_def)
    qed
  qed
qed

lemma plan_names_policy_deletions:
  assumes "ge_lookPath env ''nix-env''"
    and "snd (ge_run env [''nix-env'', ''--list-generations'']) = None"
    and "0 < general_age level cfg \<or> 0 < nc_MaxUserGenerations cfg \<or> 0 < nc_MaxHomeManagerGenerations cfg"
    and "parse_nix_policy_duration (nixHomeManagerGenerationPolicyAge level cfg) (general_age level cfg)
       = parse_nix_policy_duration (nixHomeManagerGenerationPolicyAge level cfg) 0"
    and "planGenerationTargets level cfg env = (targets, warnings)"
  shows "snd (deleteUserGenerationsByPolicy level cfg env) =
      [''nix-env'', ''--list-generations''] # deletion [''nix-env'', ''--delete-generations''] (versions_for ''delete_generation'' targets)
    \<and> snd (deleteHomeManagerGenerationsByPolicy level cfg env) =
      deletion [''home-manager'', ''remove-generations''] (versions_for ''delete_home_manager_generation'' targets)"
proof -
  let ?c = "if nc_DeleteHomeManagerGenerations cfg \<and> \<not> ge_lookPath env ''home-manager''
            then cfg\<lparr>nc_DeleteHomeManagerGenerations := False\<rparr> else cfg"
  let ?age = "general_age level cfg"
  obtain gens where gens: "listGenerations (ge_parse_local env) (\<lambda>args. ge_run env (''nix-env'' # args)) ''user'' [] = Inr gens"
    using assms(2) by (cases "ge_run env [''nix-env'', ''--list-generations'']") (simp add: listGenerations_def Let_def)
  note user = user_part [OF assms(1) gens]
  let ?user = "nixGenerationTargetsWithMax gens (ge_now env) (nc_MinUserGenerations cfg) ?age (nc_MaxUserGenerations cfg)"
  let ?home = "case ge_home env of None \<Rightarrow> [] | Some home \<Rightarrow> fst (plan_home_manager level cfg ?c env ?age (home_profiles home))"
  have targets: "targets = ?user @ ?home @ fst (plan_system_generations cfg env ?age)"
    using assms(3,5) unfolding planGenerationTargets_def Let_def general_age_def [symmetric] user(1)
    by (auto simp: home_profiles_def split_beta not_less split: option.splits)
  have home: "versions_for ''delete_generation'' ?home = []"
    "snd (deleteHomeManagerGenerationsByPolicy level cfg env) =
      deletion [''home-manager'', ''remove-generations''] (versions_for home_deletion ?home)"
  proof -
    show "versions_for ''delete_generation'' ?home = []"
    proof (cases "ge_home env")
      case (Some home)
      show ?thesis unfolding Some option.case by (rule home_part(1) [OF assms(4) Some refl])
    qed simp
    show "snd (deleteHomeManagerGenerationsByPolicy level cfg env) =
        deletion [''home-manager'', ''remove-generations''] (versions_for home_deletion ?home)"
    proof (cases "ge_home env")
      case None
      then show ?thesis by (simp add: deleteHomeManagerGenerationsByPolicy_def deletion_def)
    next
      case (Some home)
      show ?thesis unfolding Some option.case by (rule home_part(2) [OF assms(4) Some refl])
    qed
  qed
  have "versions_for ''delete_generation'' targets = versions_for ''delete_generation'' ?user"
    "versions_for home_deletion targets = versions_for home_deletion ?home"
    unfolding targets by (simp_all only: versions_append home(1) system_part user_targets_no_home append_Nil append_Nil2)
  then show ?thesis using user(2) home(2) by (simp add: home_deletion_def [symmetric])
qed

text \<open>The commands of a pass that delete generations.\<close>

definition deletion_command :: "string list \<Rightarrow> bool" where
  "deletion_command c = (take 2 c = [''nix-env'', ''--delete-generations''] \<or> take 2 c = [''home-manager'', ''remove-generations''])"

lemma deletion_command_simps:
  "filter deletion_command (deletion [''nix-env'', ''--delete-generations''] numbers) = deletion [''nix-env'', ''--delete-generations''] numbers"
  "filter deletion_command (deletion [''home-manager'', ''remove-generations''] numbers) = deletion [''home-manager'', ''remove-generations''] numbers"
  "\<not> deletion_command [''nix-env'', ''--list-generations'']"
  "\<not> deletion_command (''nix-collect-garbage'' # args)" "\<not> deletion_command [''nix-store'', ''--optimize'']"
  by (simp_all add: deletion_command_def deletion_def)

lemma collection_deletes_nothing: "filter deletion_command (snd (after_preflight level cfg env home deleted result)) = []"
proof -
  have "\<not> deletion_command c" if "c \<in> set (snd (after_preflight level cfg env home deleted result))" for c
  proof -
    from that consider "c = [''nix-collect-garbage'', ''--dry-run'']" | "c \<in> set (snd (collectGarbageCritical cfg env))"
      | "c \<in> set (snd (collectGarbage level [] cfg env))"
      by (auto simp: after_preflight_def collectGarbageDryRun_def Let_def split: prod.splits option.splits if_splits)
    then show ?thesis
      using critical_commands [of c cfg env] collect_commands [of level cfg env] deletion_command_simps(4,5) by cases auto
  qed
  then show ?thesis by (simp add: filter_empty_conv)
qed

text \<open>C19: a plan names the generations its pass deletes.  Suppose \<open>nix-collect-garbage\<close> is there,
  \<open>nix-env\<close> lists the user's generations, some age
  or maximum is set beside Home Manager's own age, and that age reads the same with the general one as its fallback.  Then the
  deletion commands of a pass at the plan's level, in the same circumstances, are exactly: from moderate level on, one
  \<open>nix-env --delete-generations\<close> with the numbers of the plan's user targets in their order, then, unless that command
  failed the pass, one \<open>home-manager remove-generations\<close> with those of its Home Manager targets, neither of them where the plan
  names no such target; below moderate none at all, whatever the plan names.\<close>

theorem plan_names_deleted_generations:
  assumes "ge_lookPath env ''nix-env''" "ge_lookPath env ''nix-collect-garbage''"
    and "snd (ge_run env [''nix-env'', ''--list-generations'']) = None"
    and "0 < general_age level cfg \<or> 0 < nc_MaxUserGenerations cfg \<or> 0 < nc_MaxHomeManagerGenerations cfg"
    and "parse_nix_policy_duration (nixHomeManagerGenerationPolicyAge level cfg) (general_age level cfg)
       = parse_nix_policy_duration (nixHomeManagerGenerationPolicyAge level cfg) 0"
    and "planGenerationTargets level cfg env = (targets, warnings)"
  shows "filter deletion_command (snd (runGC level cfg env home)) =
      (if level < LevelModerate then []
       else deletion [''nix-env'', ''--delete-generations''] (versions_for ''delete_generation'' targets)
         @ (if cr_Error (fst (deleteUserGenerationsByPolicy level cfg env)) \<noteq> None then []
            else deletion [''home-manager'', ''remove-generations''] (versions_for ''delete_home_manager_generation'' targets)))"
proof (cases "level < LevelModerate")
  case True
  then show ?thesis using assms(2) collection_deletes_nothing by (simp add: runGC_def)
next
  case False
  obtain u ucs where u: "deleteUserGenerationsByPolicy level cfg env = (u, ucs)" by fastforce
  obtain h hcs where h: "deleteHomeManagerGenerationsByPolicy level cfg env = (h, hcs)" by fastforce
  have cs: "ucs = [''nix-env'', ''--list-generations''] # deletion [''nix-env'', ''--delete-generations''] (versions_for ''delete_generation'' targets)"
    "hcs = deletion [''home-manager'', ''remove-generations''] (versions_for ''delete_home_manager_generation'' targets)"
    using plan_names_policy_deletions [OF assms(1,3-6)] by (simp_all add: u h)
  have deleting: "filter deletion_command ucs = deletion [''nix-env'', ''--delete-generations''] (versions_for ''delete_generation'' targets)"
    "filter deletion_command hcs = hcs"
    unfolding cs filter.simps by (simp_all only: deletion_command_simps if_False)
  show ?thesis
    using False assms(2) collection_deletes_nothing deleting
    by (simp add: runGC_def u h cs(2) [symmetric] Let_def split_beta)
qed

text \<open>A host with three generations of either kind, the third current.\<close>

definition demo_listing :: string where
  "demo_listing = concat (map (\<lambda>n. show_int n @ ''   2024-01-01 00:00:00'' @ (if n = 3 then ''   (current)'' else []) @ [CHR 0x0A]) [1, 2, 3])"

definition demo_host :: gc_env where
  "demo_host = demo_gc_env\<lparr>ge_run := (\<lambda>c. if c = [''nix-env'', ''--list-generations''] then (demo_listing, None) else ([], None)),
     ge_parse_local := (\<lambda>_. Some 0), ge_read_dir := (\<lambda>_. DirEntries (map (\<lambda>n. ''home-manager-'' @ show_int n @ ''-link'') [1, 2, 3])),
     ge_readlink := (\<lambda>_. Some ''home-manager-3-link''), ge_modified := (\<lambda>_. Inr 0)\<rparr>"

definition demo_retention :: nix_config where
  "demo_retention = demo_nix_config\<lparr>nc_DeleteHomeManagerGenerations := True\<rparr>"

theorem plan_names_deleted_generations_witness:
  "filter deletion_command (snd (runGC LevelModerate demo_retention demo_host ''/h''))
      = [[''nix-env'', ''--delete-generations'', ''1''], [''home-manager'', ''remove-generations'', ''1'']]"
proof -
  obtain targets warnings where p: "planGenerationTargets LevelModerate demo_retention demo_host = (targets, warnings)" by fastforce
  have "ge_lookPath demo_host ''nix-env''" "ge_lookPath demo_host ''nix-collect-garbage''"
    "snd (ge_run demo_host [''nix-env'', ''--list-generations'']) = None"
    by (simp_all add: demo_host_def demo_gc_env_def)
  moreover have "0 < general_age LevelModerate demo_retention" by code_simp
  moreover have "parse_nix_policy_duration (nixHomeManagerGenerationPolicyAge LevelModerate demo_retention) (general_age LevelModerate demo_retention)
      = parse_nix_policy_duration (nixHomeManagerGenerationPolicyAge LevelModerate demo_retention) 0" by code_simp
  moreover have "versions_for ''delete_generation'' (fst (planGenerationTargets LevelModerate demo_retention demo_host)) = [''1'']" by code_simp
  moreover have "versions_for ''delete_home_manager_generation'' (fst (planGenerationTargets LevelModerate demo_retention demo_host)) = [''1'']" by code_simp
  moreover have "cr_Error (fst (deleteUserGenerationsByPolicy LevelModerate demo_retention demo_host)) = None" by code_simp
  moreover have "\<not> LevelModerate < LevelModerate" by simp
  ultimately show ?thesis
    using plan_names_deleted_generations [OF _ _ _ _ _ p, of "''/h''"] p by (simp add: deletion_def)
qed

text \<open>Home Manager's own age alone: the pass deletes what the plan does not name.\<close>

lemma plan_misses_home_manager_age:
  "\<exists>cfg env. planGenerationTargets LevelModerate cfg env = ([], []) \<and>
     snd (deleteHomeManagerGenerationsByPolicy LevelModerate cfg env) = [[''home-manager'', ''remove-generations'', ''1'']]"
proof (intro exI conjI)
  let ?cfg = "demo_retention\<lparr>nc_DeleteGenerationsOlderThan := [], nc_MaxUserGenerations := 0,
    nc_HomeManagerDeleteGenerationsOlderThan := ''14d''\<rparr>"
  show "planGenerationTargets LevelModerate ?cfg demo_host = ([], [])" by code_simp
  show "snd (deleteHomeManagerGenerationsByPolicy LevelModerate ?cfg demo_host) = [[''home-manager'', ''remove-generations'', ''1'']]"
    by code_simp
qed

text \<open>A maximum at warning level: the plan names a generation the pass does not delete.\<close>

lemma plan_overstates_at_warning:
  "\<exists>cfg env. versions_for ''delete_generation'' (fst (planGenerationTargets LevelWarning cfg env)) = [''1''] \<and>
     snd (runGC LevelWarning cfg env ''/h'') = [[''nix-collect-garbage'', ''--dry-run''], ''nix-collect-garbage'' # nixMaxFreedArgs cfg]"
proof (intro exI conjI)
  let ?cfg = "demo_retention\<lparr>nc_MaxUserGenerations := 2\<rparr>"
  show "versions_for ''delete_generation'' (fst (planGenerationTargets LevelWarning ?cfg demo_host)) = [''1'']" by code_simp
  show "snd (runGC LevelWarning ?cfg demo_host ''/h'') = [[''nix-collect-garbage'', ''--dry-run''], ''nix-collect-garbage'' # nixMaxFreedArgs ?cfg]"
    by code_simp
qed

subsection \<open>A concrete poll\<close>

definition demo_plan_env :: "string list \<Rightarrow> plan_env" where
  "demo_plan_env busy =
     \<lparr>pl_gc = demo_gc_env,
      pl_roots = \<lparr>ro_fs = (\<lambda>_. Missing), ro_resolve = (\<lambda>_. None), ro_entries = (\<lambda>_. Inr []), ro_uid = 0, ro_now = 0, ro_home = ''/h'',
                  ro_liveCwds = Inr [], ro_autoGCRootsDir = [], ro_storeDir = []\<rparr>,
      pl_inspect = (Inr busy, no_inspection), pl_home = ''/h'', pl_read_fails = False, pl_files = (\<lambda>_. None),
      pl_mem = zero_gc_state, pl_now = 0\<rparr>"

definition demo_plan_config :: plan_config where
  "demo_plan_config =
     \<lparr>pc_nix = demo_memory_config, pc_MaxGCDuration = [], pc_RootAttributionLimit = 0,
      pc_roots = \<lparr>rc_ReapStaleGCRoots = False, rc_DirenvGCRootStaleAfter = [], rc_TempGCRootStaleAfter = [], rc_TempGCRootPaths = [],
                  rc_TempScanPaths = [], rc_GCRootCandidatesFile = [], rc_AgentTreePrefixes = [], rc_AgentTreeIdleAfter = []\<rparr>\<rparr>"

lemma demo_same_poll:
  "same_poll demo_plan_config (demo_plan_env busy) (snd (demo_poll 0 busy None)) (fst demo_start) (snd demo_start)"
  by (simp add: same_poll_def demo_plan_env_def demo_poll_def demo_start_def demo_gc_env_def)

lemma plan_defers_with_the_poll_witness:
  "cp_SkipReason (PlanCleanup_nix LevelWarning demo_plan_config (demo_plan_env [''nix build''])) = ''nix_daemon_busy''
   \<and> po_commands (Cleanup LevelWarning demo_memory_config (snd (demo_poll 0 [''nix build''] None)) (fst demo_start) (snd demo_start)) = []
   \<and> (\<exists>a. po_outcome (Cleanup LevelWarning demo_memory_config (snd (demo_poll 0 [] None)) (fst demo_start) (snd demo_start)) = Ran a)"
proof -
  have m: "pc_nix demo_plan_config = demo_memory_config" by (simp add: demo_plan_config_def)
  note busy = plan_defers_with_the_poll [OF demo_same_poll, of LevelWarning "[''nix build'']", unfolded m]
  note idle = plan_defers_with_the_poll [OF demo_same_poll, of LevelWarning "[]", unfolded m]
  have b: "cp_SkipReason (PlanCleanup_nix LevelWarning demo_plan_config (demo_plan_env [''nix build''])) = ''nix_daemon_busy''" by code_simp
  have i: "cp_SkipReason (PlanCleanup_nix LevelWarning demo_plan_config (demo_plan_env [])) \<notin> set poll_reasons" by code_simp
  have due: "fst (nixGCDue LevelWarning demo_memory_config (poll_state demo_memory_config (snd (demo_poll 0 [] None)) (fst demo_start) (snd demo_start))
      (pe_due_now (snd (demo_poll 0 [] None)))) \<noteq> LevelNone" by code_simp
  have free: "poll_blocked demo_memory_config (snd (demo_poll 0 [] None))
      (fst (refreshHookPins (pe_hooks (snd (demo_poll 0 [] None))) demo_memory_config (nw_hooks (snd demo_start)))) = None" by code_simp
  have "''nix_daemon_busy'' \<in> set poll_reasons" by (simp add: poll_reasons_def)
  then show ?thesis using busy idle b i due free by simp
qed

end
