(* ===== verification/Spec2Isabelle.thy ===== *)
theory Spec2Isabelle
  imports Cycle_Witnesses Report_Text Scan_Budget Nix_GC_Runs Root_Job_Runs Profile_Prune Retention_Runs Nix_Plan_Runs
begin

text \<open>
  \<^bold>\<open>tinyland-cleanup\<close>: a daemon that watches disk pressure and runs cleanup plugins.

  \<^bold>\<open>The program.\<close>  \<open>main.go\<close> runs a cycle, waits a poll interval, and repeats.  A cycle assesses the
  monitored mounts (\<open>monitor/disk.go\<close>), loads the state file (\<open>state.go\<close>), decides inode and byte
  backoff, and takes every enabled plugin (\<open>plugins/plugin.go\<close>) through its gates: target met, zero
  yield, cooldown, dry run.  A plugin that passes runs under the watchdog (\<open>watchdog.go\<close>); its outcome
  is accounted in the state, which is saved atomically.  The report is written in full
  (\<open>report_text.go\<close>) or as one line, and log records are deduplicated (\<open>logthrottle.go\<close>).

  \<^bold>\<open>Theories.\<close>
  \<^item> \<^bold>\<open>Prelude\<close>: 64-bit integers, float64, instants and durations, byte strings, tables (Go maps).
  \<^item> \<^bold>\<open>Interfaces\<close>: the contracts: \<open>backoff_schedule\<close>, \<open>streak_counter\<close>, \<open>atomic_document\<close>,
    \<open>bounded_table\<close>, \<open>rate_limited\<close>.  They are interpreted in \<open>State_File\<close>, \<open>Cycle_Policy\<close>,
    \<open>State_Store\<close>, \<open>Log_Throttle\<close>, \<open>Scan_Budget\<close>, \<open>Nix_Cadence\<close>, \<open>GC_Roots\<close>, \<open>Nix_GC_Runs\<close>, \<open>Git_Custody\<close>
    and \<open>Retention_Runs\<close>.
  \<^item> \<^bold>\<open>Durations\<close>: \<open>time.ParseDuration\<close>, \<open>config.ParseDuration\<close>, Nix durations, RFC3339 text.
  \<^item> \<^bold>\<open>Levels\<close>, \<^bold>\<open>Monitor\<close>: cleanup levels, disk statistics, the byte and inode ladders.
  \<^item> \<^bold>\<open>Config\<close>: the configuration the core reads and \<open>MountConfig.Validate\<close>.
  \<^item> \<^bold>\<open>Plugin_API\<close>: plugins, plans and their accounting, the registry.
  \<^item> \<^bold>\<open>State_File\<close>, \<^bold>\<open>State_Store\<close>: the state value; the file, its atomic save, load and quarantine
    (an unreadable document is kept under the first free name or left where it was).
  \<^item> \<^bold>\<open>Paths\<close>, \<^bold>\<open>Selection\<close>: \<open>path/filepath\<close>; plugin filter, plugin list.
  \<^item> \<^bold>\<open>Reports\<close>, \<^bold>\<open>Cycle_Policy\<close>: the report records and the daemon; the decisions of \<open>main.go\<close>.
  \<^item> \<^bold>\<open>Watchdog\<close>, \<^bold>\<open>Watchdog_Runs\<close>: \<open>watchPlugin\<close>; the relation \<open>watched\<close> between the runs started
    so far, the flights and the host, and the invariant that no two runs of a plugin overlap.
  \<^item> \<^bold>\<open>Cycle\<close>: \<open>runCycle\<close> and the daemon loop, in the code's order.
  \<^item> \<^bold>\<open>Cycle_Facts\<close>, \<^bold>\<open>Cycle_Runs\<close>: what every step keeps, why a plugin was held; the runs of a cycle.
  \<^item> \<^bold>\<open>Cycle_Properties\<close>, \<^bold>\<open>Cycle_State\<close>: the properties of cycles: overlap, time, backoff, zero yield;
    what reaches the state file, dry runs, targets, the daemon loop.
  \<^item> \<^bold>\<open>Scenario\<close>, \<^bold>\<open>Cycle_Witnesses\<close>: a concrete daemon at which the cycle properties are applied.
  \<^item> \<^bold>\<open>Log_Throttle\<close>, \<^bold>\<open>Report_Text\<close>: throttled logging (its table is bounded and gives up
    the oldest key) and compact reports; the text report.
  \<^item> \<^bold>\<open>Scan_Budget\<close>: the budgets of the artefact walks (\<open>plugins/scan_budget.go\<close>): shares of a lane's
    roots, truncation evidence, the rotation of workspace roots and its cursor file.
  \<^item> \<^bold>\<open>Nix_Cadence\<close>: when the Nix plugin may collect (\<open>plugins/nix_cadence.go\<close>), its state file.
  \<^item> \<^bold>\<open>Nix_Generations\<close>: which profile generations are deleted (\<open>plugins/nix.go\<close>); the retention lemmas.
  \<^item> \<^bold>\<open>Nix_Hook_Pins\<close>: the roots that protect hook paths of live sessions (\<open>plugins/nix_hookpins.go\<close>).
  \<^item> \<^bold>\<open>Nix_Output\<close>, \<^bold>\<open>Nix_GC\<close>, \<^bold>\<open>Nix_GC_Runs\<close>: what is read from the output of Nix commands; one poll
    (\<open>Cleanup\<close>, \<open>busyGate\<close>, \<open>runGC\<close>, \<open>plugins/nix_gclock.go\<close>); spacing of passes, the bound on busy
    deferrals and its loss without a writable state file, and the commands a poll may run, over any run of polls.
  \<^item> \<^bold>\<open>Nix_Processes\<close>: the process table and which processes count as Nix work (\<open>activeNixProcesses\<close>,
    \<open>nix_process_argv_linux.go\<close>): the busy gate opens exactly on a quiet table.
  \<^item> \<^bold>\<open>Nix_Plan\<close>, \<^bold>\<open>Nix_Plan_Runs\<close>: the plugin's dry-run plan (\<open>PlanCleanup\<close> and the attribution of GC roots in
    \<open>plugins/nix.go\<close>): it defers with the poll, names the generations the pass deletes and shows every visible
    root once; two configurations for which plan and pass differ.
  \<^item> \<^bold>\<open>GC_Roots\<close>: the reaper that classifies indirect GC roots and publishes the stale ones
    (\<open>plugins/nix_gcroots.go\<close>); a stale root is justified.
  \<^item> \<^bold>\<open>Root_Jobs\<close>, \<^bold>\<open>Root_Job_Runs\<close>: the privileged job that unregisters them
    (\<open>rootjobs/gcroot_unregister.go\<close>); it removes only what it checked, it reads the published list
    exactly, and it carries out what the daemon proposes.
  \<^item> \<^bold>\<open>Profile_Prune\<close>: the privileged job that prunes profile generations
    (\<open>rootjobs/profile_prune.go\<close>) and the commands it may run.
  \<^item> \<^bold>\<open>Globs\<close>, \<^bold>\<open>File_Tree\<close>: \<open>filepath.Match\<close>, \<open>Rel\<close> and \<open>Glob\<close>, the directories above a path and
    lexical containment; what a plugin sees of a file system, effective times and allocated sizes.
  \<^item> \<^bold>\<open>Agent_Session\<close>: the agent-session deny set (\<open>plugins/agentsession.go\<close>): configuration only adds
    to it, and its indexes lose nothing.
  \<^item> \<^bold>\<open>Activity\<close>: the inventory of live processes (\<open>plugins/bazel_bases.go\<close>, \<open>bazel_bases_linux.go\<close>):
    the index of held paths refines the list of references; a live reference blocks.
  \<^item> \<^bold>\<open>Shm_Scratch\<close>: the reaper of RAM-backed scratch (\<open>plugins/shm_scratch.go\<close>) and what holds of a
    tree at the moment of its removal.
  \<^item> \<^bold>\<open>Git_Custody\<close>: the Git checks of \<open>plugins/devartifacts.go\<close>: which repository a path is in, whether it
    tracks files there, why a work tree is kept; memo, bounded cache and binary search are exact.
  \<^item> \<^bold>\<open>Retention\<close>, \<^bold>\<open>Retention_Runs\<close>: age retention (\<open>plugins/retention.go\<close>, \<open>config/retention.go\<close>): policy,
    walk, decision, discovery, floor, plan and removal; what is removed may go, the plan is followed, passes
    keep their distance, and what the inventory of a removal does not see.

  \<^bold>\<open>Conventions.\<close>  A definition keeps the name of the Go function it models; record fields carry a
  prefix for their type.  State is passed and returned.  An error is a left injection or \<open>None\<close>.  A
  plugin's \<open>Cleanup\<close> is an arbitrary operation: when it returns (or never), its result, and the host
  after any wait.  Byte and item totals within a cycle are plain integers.  A float64 is the rational
  it denotes.  A map's iteration order is the order of an association list.  A return that ties with a
  timer counts as a return.

  \<^bold>\<open>Bounds and fuel.\<close>  The daemon loop \<open>run\<close> never ends by itself; \<open>run_passes\<close> takes the number of
  passes and its properties hold for every number.  The search for a free quarantine name has the
  code's own bound of 100.  The doubling loops terminate by the distance to their cap.

  \<^bold>\<open>Not modelled.\<close>  The plugins' own work (they are parameters of the cycle; of the plugins, the Nix
  plugin with its GC root reaper, the scan budgets, the scratch reaper and age retention are modelled), the start times of
  sessions, the system calls of other platforms, the container, Bazel, cache, artefact and archive plugins, YAML and JSON codecs, the command line, signals, logging other than its throttle, \<open>configDigest\<close> (a field of the daemon), and
  what an abandoned run does to the host after the watchdog stopped waiting.
\<close>

end
